(* ===== verification/Prelude.thy ===== *)
theory Prelude
  imports Complex_Main "HOL-Library.Word"
begin

text \<open>
  The vocabulary shared by all components: the integer types of the C++ code, the values
  that stand for a failed assertion or a simulation error, the sequencing of operations
  that may fail, and a few generic facts on words and lists.

  The code is C++ on an LP64 platform: \<open>uint32\<close> and \<open>uint\<close> are 32 bits and wrap around,
  \<open>long\<close> and \<open>ulong\<close> are 64 bits and never overflow here, since every value they hold
  is a difference or a sum of a few 32-bit values; they are modelled by \<open>int\<close> and \<open>nat\<close>.
  A \<open>short\<close> that is counted up is a 16-bit word, read with \<open>sint\<close>.
  \<open>simtime_t\<close> is a double; it is modelled by \<open>real\<close>, so rounding is not modelled.
\<close>

unbundle bit_operations_syntax

type_synonym uint8 = "8 word"
type_synonym uint16 = "16 word"
type_synonym uint32 = "32 word"
type_synonym int16 = "16 word"
type_synonym simtime = real

text \<open>
  Conversion to a \<open>short\<close>, of ports for instance, keeps the low 16 bits.
\<close>

definition to_short :: "int \<Rightarrow> int" where
  "to_short i = sint (word_of_int i :: int16)"

text \<open>
  A failed \<open>ASSERT\<close>, a call of \<open>opp_error\<close> or \<open>error\<close>, a thrown exception, a use of a
  NULL pointer, and a misuse of a timer all stop the simulation. Each is a value here.
\<close>

datatype sim_error =
    AssertFailed string
  | OppError string
  | Exception string
  | NullPointer string
  | TimerMisuse string

type_synonym 'a result = "sim_error + 'a"

text \<open>Sequencing: the first error stops the rest.\<close>

definition ebind :: "'a result \<Rightarrow> ('a \<Rightarrow> 'b result) \<Rightarrow> 'b result" where
  "ebind m f = (case m of Inl e \<Rightarrow> Inl e | Inr x \<Rightarrow> f x)"

definition ASSERT :: "bool \<Rightarrow> string \<Rightarrow> 'a result \<Rightarrow> 'a result" where
  "ASSERT b msg k = (if b then k else Inl (AssertFailed msg))"

definition emap :: "('a \<Rightarrow> 'b) \<Rightarrow> 'a result \<Rightarrow> 'b result" where
  "emap f m = (case m of Inl e \<Rightarrow> Inl e | Inr x \<Rightarrow> Inr (f x))"

lemma ebind_Inl [simp]: "ebind (Inl e) f = Inl e"
  by (simp add: ebind_def)

lemma ebind_Inr [simp]: "ebind (Inr x) f = f x"
  by (simp add: ebind_def)

lemma ebind_eq_Inr: "ebind m f = Inr y \<longleftrightarrow> (\<exists>x. m = Inr x \<and> f x = Inr y)"
  by (cases m) auto

lemma ebind_InrE [elim!]:
  assumes "ebind m f = Inr y"
  obtains x where "m = Inr x" and "f x = Inr y"
  using assms by (auto simp: ebind_eq_Inr)

lemma ebind_assoc: "ebind (ebind m f) g = ebind m (\<lambda>x. ebind (f x) g)"
  by (cases m) auto

lemma emap_Inl [simp]: "emap f (Inl e) = Inl e"
  by (simp add: emap_def)

lemma emap_Inr [simp]: "emap f (Inr x) = Inr (f x)"
  by (simp add: emap_def)

lemma emap_eq_Inr: "emap f m = Inr y \<longleftrightarrow> (\<exists>x. m = Inr x \<and> y = f x)"
  by (cases m) auto

lemma emap_InrE [elim!]:
  assumes "emap f m = Inr y"
  obtains x where "m = Inr x" and "y = f x"
  using assms by (auto simp: emap_eq_Inr)

lemma ASSERT_True [simp]: "ASSERT True msg k = k"
  by (simp add: ASSERT_def)

lemma ASSERT_False [simp]: "ASSERT False msg k = Inl (AssertFailed msg)"
  by (simp add: ASSERT_def)

lemma ASSERT_eq_Inr: "ASSERT b msg k = Inr y \<longleftrightarrow> b \<and> k = Inr y"
  by (cases b) auto

lemma ASSERT_InrE [elim!]:
  assumes "ASSERT b msg k = Inr y"
  obtains "b" and "k = Inr y"
  using assms by (auto simp: ASSERT_eq_Inr)

lemmas result_simps = ebind_eq_Inr emap_eq_Inr ASSERT_eq_Inr

end
