(* ===== verification/TCP_Seq.thy ===== *)
theory TCP_Seq
  imports Prelude
begin

text \<open>
  Comparison of TCP sequence numbers (\<open>Transport/TCP/TCPConnection.h\<close>): the four inline
  functions on \<open>uint32\<close>, and the facts the queues and the connection rest on. Sequence
  numbers wrap around, so no comparison is a total order on all of \<open>uint32\<close>; relative to
  a base \<open>s\<close> every number has an offset, and on offsets below half the sequence space
  the comparisons are those of the natural numbers.
\<close>

definition seqLess :: "uint32 \<Rightarrow> uint32 \<Rightarrow> bool" where
  "seqLess a b \<longleftrightarrow> a \<noteq> b \<and> b - a < 2 ^ 31"

definition seqLE :: "uint32 \<Rightarrow> uint32 \<Rightarrow> bool" where
  "seqLE a b \<longleftrightarrow> b - a < 2 ^ 31"

definition seqGreater :: "uint32 \<Rightarrow> uint32 \<Rightarrow> bool" where
  "seqGreater a b \<longleftrightarrow> a \<noteq> b \<and> a - b < 2 ^ 31"

definition seqGE :: "uint32 \<Rightarrow> uint32 \<Rightarrow> bool" where
  "seqGE a b \<longleftrightarrow> a - b < 2 ^ 31"

text \<open>The offset of a sequence number from a base, and half of the sequence space.\<close>

definition off :: "uint32 \<Rightarrow> uint32 \<Rightarrow> nat" where
  "off s a = unat (a - s)"

definition half :: nat where
  "half = 2 ^ 31"

lemma off_self [simp]: "off s s = 0"
  by (simp add: off_def)

lemma off_lt: "off s a < 2 ^ 32"
  using unsigned_less[of "a - s", where ?'a = nat] by (simp add: off_def)

lemma off_inj: "off s a = off s b \<longleftrightarrow> a = b"
  by (metis off_def word_unat_eq_iff diff_add_cancel)

lemma off_eq_0 [simp]: "off s a = 0 \<longleftrightarrow> a = s"
  by (simp add: off_def unat_eq_zero)

lemma word_less_half_iff: "(x :: uint32) < 2147483648 \<longleftrightarrow> unat x < half"
  by (simp add: word_less_nat_alt half_def)

lemma unat_plus_of_nat: "unat (x + of_nat n :: uint32) = (unat x + n) mod 2 ^ 32"
  by (simp add: unat_word_ariths unat_of_nat mod_simps)

lemma off_add: "off s (a + of_nat n) = (off s a + n) mod 2 ^ 32"
  using unat_plus_of_nat[of "a - s" n] by (simp add: off_def algebra_simps)

lemma off_add_small: "off s a + n < 2 ^ 32 \<Longrightarrow> off s (a + of_nat n) = off s a + n"
  by (simp add: off_add)

lemma unat_diff_off:
  "unat (b - a) = (if off s a \<le> off s b then off s b - off s a else 2 ^ 32 - (off s a - off s b))"
proof -
  have "unat (b - a) = unat ((b - s) - (a - s))" by simp
  also have "\<dots> = (if off s a \<le> off s b then off s b - off s a else off s b + 2 ^ 32 - off s a)"
    unfolding off_def unat_sub_if' by simp
  finally show ?thesis using off_lt[of s a] by auto
qed

lemma seq_off:
  assumes "off s a < half" and "off s b < half"
  shows seqLess_off: "seqLess a b \<longleftrightarrow> off s a < off s b"
    and seqLE_off: "seqLE a b \<longleftrightarrow> off s a \<le> off s b"
    and seqGreater_off: "seqGreater a b \<longleftrightarrow> off s a > off s b"
    and seqGE_off: "seqGE a b \<longleftrightarrow> off s a \<ge> off s b"
proof -
  have le: "b - a < 2 ^ 31 \<longleftrightarrow> off s a \<le> off s b" if "off s a < half" "off s b < half" for a b
    using that unat_diff_off[of b a s] by (auto simp: word_less_half_iff half_def split: if_splits)
  show "seqLE a b \<longleftrightarrow> off s a \<le> off s b" using le assms by (simp add: seqLE_def)
  show "seqGE a b \<longleftrightarrow> off s a \<ge> off s b" using le assms by (simp add: seqGE_def)
  show "seqLess a b \<longleftrightarrow> off s a < off s b"
    using le assms off_inj[of s a b] by (auto simp: seqLess_def)
  show "seqGreater a b \<longleftrightarrow> off s a > off s b"
    using le[of b a] assms off_inj[of s a b] by (auto simp: seqGreater_def)
qed

lemma off_rebase: "off s a \<le> off s b \<Longrightarrow> off a b = off s b - off s a"
  using unat_diff_off[of b a s] by (simp add: off_def)

lemma off_word_add [simp]: "off s (s + of_nat n) = n mod 2 ^ 32"
  using off_add[of s s n] by simp

section \<open>Properties\<close>

text \<open>Inside any window of less than half of the sequence space, whatever its base (so
  also across the wrap-around), the four comparisons are the order of the offsets from the
  base: \<open>seqLess\<close> and \<open>seqLE\<close> are a strict and a weak total order there, and \<open>seqGreater\<close> and
  \<open>seqGE\<close> are their converses.\<close>

theorem seq_comparisons_are_window_order:
  assumes "off s a < half" and "off s b < half"
  shows "(seqLess a b \<longleftrightarrow> off s a < off s b) \<and> (seqLE a b \<longleftrightarrow> off s a \<le> off s b) \<and>
    (seqGreater a b \<longleftrightarrow> seqLess b a) \<and> (seqGE a b \<longleftrightarrow> seqLE b a) \<and>
    (seqLess a b \<or> a = b \<or> seqLess b a) \<and> (seqLE a b \<and> seqLE b a \<longrightarrow> a = b)"
  using seq_off[OF assms] seqLess_off[OF assms(2,1)] seqLE_off[OF assms(2,1)] off_inj[of s a b]
  by auto

theorem seq_comparisons_are_window_order_witness:
  "seqLess 0xfffffff0 0x10 \<and> \<not> seqLE 0x10 0xfffffff0"
  using seq_comparisons_are_window_order[where s = "0xffffff00" and a = "0xfffffff0" and b = "0x10"]
  by (simp add: off_def half_def)

end
