(* ===== verification/TCP_Segment.thy ===== *)
theory TCP_Segment
  imports TCP_Seq
begin

text \<open>
  The data that travels through TCP: application messages, segments
  (\<open>Transport/TCP/TCPSegment.cc\<close> and \<open>TCPSegment.msg\<close>) and the transport-level address
  \<open>IPvXAddress\<close> (\<open>Network/Contract/IPvXAddress.h\<close>).

  A \<open>cMessage\<close> belongs to the simulation kernel. Of it the model keeps what TCP reads: its
  name and its length in bits. Duplicating a message keeps both.
\<close>

record app_msg =
  msgName :: string
  msgLength :: nat

section \<open>Addresses\<close>

text \<open>
  The four words and the flag of the class. An IPv4 address uses only the first word, so
  the words the class leaves uninitialised are not represented.
\<close>

datatype IPvXAddress =
    V4 uint32
  | V6 uint32 uint32 uint32 uint32

definition isIPv6 :: "IPvXAddress \<Rightarrow> bool" where
  "isIPv6 a = (case a of V4 _ \<Rightarrow> False | V6 _ _ _ _ \<Rightarrow> True)"

definition nullAddr :: IPvXAddress where
  "nullAddr = V4 0"

definition isNull :: "IPvXAddress \<Rightarrow> bool" where
  "isNull a = (case a of V4 d \<Rightarrow> d = 0 | V6 _ _ _ _ \<Rightarrow> False)"

definition set_v6 :: "uint32 \<Rightarrow> uint32 \<Rightarrow> uint32 \<Rightarrow> uint32 \<Rightarrow> IPvXAddress" where
  "set_v6 d0 d1 d2 d3 =
     (if d0 OR d1 OR d2 OR d3 = 0 then V4 0 else V6 d0 d1 d2 d3)"

definition get4 :: "IPvXAddress \<Rightarrow> uint32 result" where
  "get4 a = (case a of
     V4 d \<Rightarrow> Inr d
   | V6 _ _ _ _ \<Rightarrow> Inl (Exception ''IPvXAddress: cannot return IPv6 address as IPv4''))"

definition get6 :: "IPvXAddress \<Rightarrow> (uint32 \<times> uint32 \<times> uint32 \<times> uint32) result" where
  "get6 a = (case a of
     V4 d \<Rightarrow> (if d = 0 then Inr (0, 0, 0, 0)
              else Inl (Exception ''IPvXAddress: cannot return IPv4 address as IPv6''))
   | V6 d0 d1 d2 d3 \<Rightarrow> Inr (d0, d1, d2, d3))"

lemma isNull_nullAddr [simp]: "isNull nullAddr"
  by (simp add: isNull_def nullAddr_def)

lemma isNull_iff: "isNull a \<longleftrightarrow> a = nullAddr"
  by (auto simp: isNull_def nullAddr_def split: IPvXAddress.splits)

lemma get4_ok: "\<not> isIPv6 a \<Longrightarrow> \<exists>d. get4 a = Inr d \<and> a = V4 d"
  by (cases a) (auto simp: isIPv6_def get4_def)

lemma get6_ok: "isIPv6 a \<or> isNull a \<Longrightarrow> \<exists>d. get6 a = Inr d"
  by (cases a) (auto simp: isIPv6_def isNull_def get6_def)

lemma or_eq_zero: "a OR b = (0 :: uint32) \<longleftrightarrow> a = 0 \<and> b = 0"
  by (auto simp: bit_eq_iff bit_or_iff)

lemma get6_set_v6: "get6 (set_v6 d0 d1 d2 d3) = Inr (d0, d1, d2, d3)"
  by (simp add: get6_def set_v6_def or_eq_zero)

section \<open>Segments\<close>

record TCPSegment =
  srcPort :: int
  destPort :: int
  sequenceNo :: uint32
  ackNo :: uint32
  urgBit :: bool
  ackBit :: bool
  pshBit :: bool
  rstBit :: bool
  synBit :: bool
  finBit :: bool
  window :: nat
  payloadLength :: nat
  payloadList :: "(uint32 \<times> app_msg) list"

definition new_TCPSegment :: TCPSegment where
  "new_TCPSegment = \<lparr>srcPort = 0, destPort = 0, sequenceNo = 0, ackNo = 0,
     urgBit = False, ackBit = False, pshBit = False, rstBit = False, synBit = False,
     finBit = False, window = 0, payloadLength = 0, payloadList = []\<rparr>"

definition addPayloadMessage :: "app_msg \<Rightarrow> uint32 \<Rightarrow> TCPSegment \<Rightarrow> TCPSegment" where
  "addPayloadMessage msg endSequenceNo seg =
     seg\<lparr>payloadList := payloadList seg @ [(endSequenceNo, msg)]\<rparr>"

definition removeFirstPayloadMessage ::
    "TCPSegment \<Rightarrow> (uint32 \<times> app_msg) option \<times> TCPSegment" where
  "removeFirstPayloadMessage seg =
     (case payloadList seg of
        [] \<Rightarrow> (None, seg)
      | p # ps \<Rightarrow> (Some p, seg\<lparr>payloadList := ps\<rparr>))"

text \<open>The loop that moves a queue's messages into a segment, one by one.\<close>

fun addPayloadMessages :: "(uint32 \<times> app_msg) list \<Rightarrow> TCPSegment \<Rightarrow> TCPSegment" where
  "addPayloadMessages [] seg = seg"
| "addPayloadMessages (p # ps) seg = addPayloadMessages ps (addPayloadMessage (snd p) (fst p) seg)"

lemma addPayloadMessages_eq:
  "addPayloadMessages ps seg = seg\<lparr>payloadList := payloadList seg @ ps\<rparr>"
  by (induction ps arbitrary: seg) (auto simp: addPayloadMessage_def)

text \<open>The sequence space a segment's text covers: the first number and the one past the end.\<close>

definition endSeq :: "TCPSegment \<Rightarrow> uint32" where
  "endSeq seg = sequenceNo seg + of_nat (payloadLength seg)"

end
