(* ===== verification/TCP_SendQueue.thy ===== *)
theory TCP_SendQueue
  imports TCP_Segment
begin

text \<open>
  Send queues (\<open>Transport/TCP/TCPSendQueue.h\<close>, \<open>TCPVirtualDataSendQueue.cc\<close>,
  \<open>TCPMsgBasedSendQueue.cc\<close>). The abstract class is a locale: what the connection may
  rely on, whichever subclass is configured. Both subclasses are modelled and interpret
  it, and so does the dynamic dispatch between them.
\<close>

section \<open>The interface\<close>

text \<open>\<open>bytesAvailable\<close> is not virtual: it is computed from \<open>bufferEndSeq\<close>.\<close>

definition bytesAvailable :: "uint32 \<Rightarrow> uint32 \<Rightarrow> nat" where
  "bytesAvailable bufEndSeq fromSeq =
     (if seqLess fromSeq bufEndSeq then unat (bufEndSeq - fromSeq) else 0)"

locale tcp_send_queue =
  fixes qinit :: "uint32 \<Rightarrow> 'q \<Rightarrow> 'q"
    and enq :: "app_msg \<Rightarrow> 'q \<Rightarrow> 'q"
    and bufBegin :: "'q \<Rightarrow> uint32"
    and bufEnd :: "'q \<Rightarrow> uint32"
    and create :: "uint32 \<Rightarrow> nat \<Rightarrow> 'q \<Rightarrow> TCPSegment result"
    and discard :: "uint32 \<Rightarrow> 'q \<Rightarrow> 'q result"
  assumes init_begin: "bufBegin (qinit s q) = s"
    and init_end: "bufEnd (qinit s q) = s"
    and enq_begin: "bufBegin (enq m q) = bufBegin q"
    and enq_end: "bufEnd (enq m q) = bufEnd q + of_nat (msgLength m div 8)"
    and create_ok: "seqLE (bufBegin q) f \<Longrightarrow> seqLE (f + of_nat n) (bufEnd q) \<Longrightarrow>
      \<exists>ps. create f n q = Inr (new_TCPSegment
        \<lparr>sequenceNo := f, payloadLength := n, payloadList := ps\<rparr>)"
    and create_fails: "\<not> (seqLE (bufBegin q) f \<and> seqLE (f + of_nat n) (bufEnd q)) \<Longrightarrow>
      \<exists>msg. create f n q = Inl (AssertFailed msg)"
    and discard_ok: "seqLE (bufBegin q) s \<Longrightarrow> seqLE s (bufEnd q) \<Longrightarrow>
      \<exists>q'. discard s q = Inr q' \<and> bufBegin q' = s \<and> bufEnd q' = bufEnd q"
    and discard_fails: "\<not> (seqLE (bufBegin q) s \<and> seqLE s (bufEnd q)) \<Longrightarrow>
      \<exists>msg. discard s q = Inl (AssertFailed msg)"
begin

lemma discard_Inr:
  assumes "discard s q = Inr q'"
  shows "seqLE (bufBegin q) s" and "seqLE s (bufEnd q)"
    and "bufBegin q' = s" and "bufEnd q' = bufEnd q"
  using assms discard_ok[of q s] discard_fails[of q s] by fastforce+

lemma create_Inr:
  assumes "create f n q = Inr seg"
  shows "\<exists>ps. seg = new_TCPSegment\<lparr>sequenceNo := f, payloadLength := n, payloadList := ps\<rparr>"
    and "seqLE (bufBegin q) f" and "seqLE (f + of_nat n) (bufEnd q)"
  using assms create_ok[of q f n] create_fails[of q f n] by fastforce+

text \<open>
  Any part of what \<open>bytesAvailable\<close> reports can be put into a segment, as long as the
  buffer spans less than half of the sequence space.
\<close>

lemma create_available:
  assumes span: "off (bufBegin q) (bufEnd q) < half"
    and pos: "off (bufBegin q) f \<le> off (bufBegin q) (bufEnd q)"
    and n: "n \<le> bytesAvailable (bufEnd q) f"
  shows "\<exists>ps. create f n q = Inr (new_TCPSegment
           \<lparr>sequenceNo := f, payloadLength := n, payloadList := ps\<rparr>)"
proof (rule create_ok)
  let ?b = "bufBegin q"
  have f: "off ?b f < half" using span pos by simp
  then show "seqLE ?b f" using seqLE_off[of ?b ?b f] by (simp add: half_def)
  have le: "off ?b f + n \<le> off ?b (bufEnd q)"
    using n pos span f unat_diff_off[of "bufEnd q" f ?b] seqLess_off[OF f span]
    by (auto simp: bytesAvailable_def split: if_splits)
  then have "off ?b (f + of_nat n) = off ?b f + n"
    using span by (intro off_add_small) (simp add: half_def)
  then show "seqLE (f + of_nat n) (bufEnd q)"
    using le span by (subst seqLE_off[of ?b]) auto
qed

lemma available_after_enq:
  assumes "off f (bufEnd q) + msgLength m div 8 < half"
  shows "bytesAvailable (bufEnd (enq m q)) f = bytesAvailable (bufEnd q) f + msgLength m div 8"
proof -
  have e: "off f (bufEnd q + of_nat (msgLength m div 8)) = off f (bufEnd q) + msgLength m div 8"
    using assms by (intro off_add_small) (simp add: half_def)
  have b: "bytesAvailable b f = off f b" if "off f b < half" for b
    using that seqLess_off[of f f b] off_eq_0[of f b]
    by (auto simp: bytesAvailable_def off_def half_def)
  show ?thesis using assms e b by (simp add: enq_end)
qed

end

section \<open>\<open>TCPVirtualDataSendQueue\<close>\<close>

record TCPVirtualDataSendQueue =
  vsq_begin :: uint32
  vsq_end :: uint32

definition new_TCPVirtualDataSendQueue :: TCPVirtualDataSendQueue where
  "new_TCPVirtualDataSendQueue = \<lparr>vsq_begin = 0, vsq_end = 0\<rparr>"

definition vsq_init :: "uint32 \<Rightarrow> TCPVirtualDataSendQueue \<Rightarrow> TCPVirtualDataSendQueue" where
  "vsq_init startSeq q = q\<lparr>vsq_begin := startSeq, vsq_end := startSeq\<rparr>"

definition vsq_enqueueAppData :: "app_msg \<Rightarrow> TCPVirtualDataSendQueue \<Rightarrow> TCPVirtualDataSendQueue" where
  "vsq_enqueueAppData msg q = q\<lparr>vsq_end := vsq_end q + of_nat (msgLength msg div 8)\<rparr>"

definition vsq_bufferEndSeq :: "TCPVirtualDataSendQueue \<Rightarrow> uint32" where
  "vsq_bufferEndSeq q = vsq_end q"

definition vsq_createSegmentWithBytes ::
    "uint32 \<Rightarrow> nat \<Rightarrow> TCPVirtualDataSendQueue \<Rightarrow> TCPSegment result" where
  "vsq_createSegmentWithBytes fromSeq numBytes q =
     ASSERT (seqLE (vsq_begin q) fromSeq \<and> seqLE (fromSeq + of_nat numBytes) (vsq_end q))
       ''seqLE(begin,fromSeq) && seqLE(fromSeq+numBytes,end)''
       (Inr (new_TCPSegment\<lparr>sequenceNo := fromSeq, payloadLength := numBytes\<rparr>))"

definition vsq_discardUpTo ::
    "uint32 \<Rightarrow> TCPVirtualDataSendQueue \<Rightarrow> TCPVirtualDataSendQueue result" where
  "vsq_discardUpTo seqNum q =
     ASSERT (seqLE (vsq_begin q) seqNum \<and> seqLE seqNum (vsq_end q))
       ''seqLE(begin,seqNum) && seqLE(seqNum,end)''
       (Inr (q\<lparr>vsq_begin := seqNum\<rparr>))"

interpretation vsq: tcp_send_queue vsq_init vsq_enqueueAppData vsq_begin vsq_bufferEndSeq
    vsq_createSegmentWithBytes vsq_discardUpTo
  by unfold_locales
    (auto simp: vsq_init_def vsq_enqueueAppData_def vsq_bufferEndSeq_def
      vsq_createSegmentWithBytes_def vsq_discardUpTo_def ASSERT_def new_TCPSegment_def)

section \<open>\<open>TCPMsgBasedSendQueue\<close>\<close>

record TCPMsgBasedSendQueue =
  payloadQueue :: "(uint32 \<times> app_msg) list"
  msq_begin :: uint32
  msq_end :: uint32

definition new_TCPMsgBasedSendQueue :: TCPMsgBasedSendQueue where
  "new_TCPMsgBasedSendQueue = \<lparr>payloadQueue = [], msq_begin = 0, msq_end = 0\<rparr>"

definition msq_init :: "uint32 \<Rightarrow> TCPMsgBasedSendQueue \<Rightarrow> TCPMsgBasedSendQueue" where
  "msq_init startSeq q = q\<lparr>msq_begin := startSeq, msq_end := startSeq\<rparr>"

definition msq_enqueueAppData :: "app_msg \<Rightarrow> TCPMsgBasedSendQueue \<Rightarrow> TCPMsgBasedSendQueue" where
  "msq_enqueueAppData msg q =
     (let e = msq_end q + of_nat (msgLength msg div 8)
      in q\<lparr>msq_end := e, payloadQueue := payloadQueue q @ [(e, msg)]\<rparr>)"

definition msq_bufferEndSeq :: "TCPMsgBasedSendQueue \<Rightarrow> uint32" where
  "msq_bufferEndSeq q = msq_end q"

text \<open>The messages the two loops of \<open>createSegmentWithBytes\<close> select.\<close>

definition msq_selected ::
    "uint32 \<Rightarrow> nat \<Rightarrow> (uint32 \<times> app_msg) list \<Rightarrow> (uint32 \<times> app_msg) list" where
  "msq_selected fromSeq numBytes ps =
     takeWhile (\<lambda>p. seqLE (fst p) (fromSeq + of_nat numBytes))
       (dropWhile (\<lambda>p. seqLess (fst p) fromSeq) ps)"

definition msq_createSegmentWithBytes ::
    "uint32 \<Rightarrow> nat \<Rightarrow> TCPMsgBasedSendQueue \<Rightarrow> TCPSegment result" where
  "msq_createSegmentWithBytes fromSeq numBytes q =
     ASSERT (seqLE (msq_begin q) fromSeq \<and> seqLE (fromSeq + of_nat numBytes) (msq_end q))
       ''seqLE(begin,fromSeq) && seqLE(fromSeq+numBytes,end)''
       (Inr (addPayloadMessages (msq_selected fromSeq numBytes (payloadQueue q))
          (new_TCPSegment\<lparr>sequenceNo := fromSeq, payloadLength := numBytes\<rparr>)))"

definition msq_discardUpTo ::
    "uint32 \<Rightarrow> TCPMsgBasedSendQueue \<Rightarrow> TCPMsgBasedSendQueue result" where
  "msq_discardUpTo seqNum q =
     ASSERT (seqLE (msq_begin q) seqNum \<and> seqLE seqNum (msq_end q))
       ''seqLE(begin,seqNum) && seqLE(seqNum,end)''
       (Inr (q\<lparr>msq_begin := seqNum,
               payloadQueue := dropWhile (\<lambda>p. seqLE (fst p) seqNum) (payloadQueue q)\<rparr>))"

interpretation msq: tcp_send_queue msq_init msq_enqueueAppData msq_begin msq_bufferEndSeq
    msq_createSegmentWithBytes msq_discardUpTo
  by unfold_locales
    (auto simp: msq_init_def msq_enqueueAppData_def msq_bufferEndSeq_def Let_def
      msq_createSegmentWithBytes_def msq_discardUpTo_def ASSERT_def addPayloadMessages_eq
      new_TCPSegment_def)

section \<open>Dynamic dispatch\<close>

datatype TCPSendQueue =
    VirtualDataSQ TCPVirtualDataSendQueue
  | MsgBasedSQ TCPMsgBasedSendQueue

definition sq_init :: "uint32 \<Rightarrow> TCPSendQueue \<Rightarrow> TCPSendQueue" where
  "sq_init s q = (case q of
     VirtualDataSQ v \<Rightarrow> VirtualDataSQ (vsq_init s v)
   | MsgBasedSQ m \<Rightarrow> MsgBasedSQ (msq_init s m))"

definition enqueueAppData :: "app_msg \<Rightarrow> TCPSendQueue \<Rightarrow> TCPSendQueue" where
  "enqueueAppData msg q = (case q of
     VirtualDataSQ v \<Rightarrow> VirtualDataSQ (vsq_enqueueAppData msg v)
   | MsgBasedSQ m \<Rightarrow> MsgBasedSQ (msq_enqueueAppData msg m))"

definition bufferBeginSeq :: "TCPSendQueue \<Rightarrow> uint32" where
  "bufferBeginSeq q = (case q of VirtualDataSQ v \<Rightarrow> vsq_begin v | MsgBasedSQ m \<Rightarrow> msq_begin m)"

definition bufferEndSeq :: "TCPSendQueue \<Rightarrow> uint32" where
  "bufferEndSeq q = (case q of
     VirtualDataSQ v \<Rightarrow> vsq_bufferEndSeq v | MsgBasedSQ m \<Rightarrow> msq_bufferEndSeq m)"

definition createSegmentWithBytes :: "uint32 \<Rightarrow> nat \<Rightarrow> TCPSendQueue \<Rightarrow> TCPSegment result" where
  "createSegmentWithBytes f n q = (case q of
     VirtualDataSQ v \<Rightarrow> vsq_createSegmentWithBytes f n v
   | MsgBasedSQ m \<Rightarrow> msq_createSegmentWithBytes f n m)"

definition discardUpTo :: "uint32 \<Rightarrow> TCPSendQueue \<Rightarrow> TCPSendQueue result" where
  "discardUpTo s q = (case q of
     VirtualDataSQ v \<Rightarrow> emap VirtualDataSQ (vsq_discardUpTo s v)
   | MsgBasedSQ m \<Rightarrow> emap MsgBasedSQ (msq_discardUpTo s m))"

lemmas sq_dispatch_defs = sq_init_def enqueueAppData_def bufferBeginSeq_def bufferEndSeq_def
  createSegmentWithBytes_def discardUpTo_def

interpretation sq: tcp_send_queue sq_init enqueueAppData bufferBeginSeq bufferEndSeq
    createSegmentWithBytes discardUpTo
proof (unfold_locales, goal_cases)
  case (5 q f n) then show ?case
    using vsq.create_ok msq.create_ok by (cases q) (auto simp: sq_dispatch_defs)
next
  case (6 q f n) then show ?case
    using vsq.create_fails msq.create_fails by (cases q) (auto simp: sq_dispatch_defs)
next
  case (7 q s) then show ?case
    using vsq.discard_ok[of _ s] msq.discard_ok[of _ s]
    by (cases q) (fastforce simp: sq_dispatch_defs)+
next
  case (8 q s) then show ?case
    using vsq.discard_fails[of _ s] msq.discard_fails[of _ s]
    by (cases q) (fastforce simp: sq_dispatch_defs)+
qed (simp_all add: sq_dispatch_defs vsq.init_begin msq.init_begin vsq.init_end msq.init_end
    vsq.enq_begin msq.enq_begin vsq.enq_end msq.enq_end split: TCPSendQueue.splits)

end
