(* ===== verification/TCP_RcvQueue.thy ===== *)
theory TCP_RcvQueue
  imports TCP_Segment
begin

text \<open>
  Receive queues (\<open>Transport/TCP/TCPVirtualDataRcvQueue.cc\<close>, \<open>TCPMsgBasedRcvQueue.cc\<close>).
  The virtual queue keeps the received octets above the next expected one as a list of
  regions; a segment's range is merged into it, and the part below a given sequence number
  is extracted for the application. The message-based queue inherits the regions and adds
  the messages themselves, keyed by the sequence number that follows their last octet.

  The abstract state of the region list is the set of octets it covers, as offsets from a
  base within half of the sequence space; \<open>merge\<close> refines the union of sets.
\<close>

section \<open>\<open>TCPVirtualDataRcvQueue\<close>\<close>

type_synonym Region = "uint32 \<times> uint32"

record TCPVirtualDataRcvQueue =
  rq_rcv_nxt :: uint32
  regionList :: "Region list"

definition rq_init :: "uint32 \<Rightarrow> 'a TCPVirtualDataRcvQueue_scheme \<Rightarrow> 'a TCPVirtualDataRcvQueue_scheme" where
  "rq_init startSeq q = q\<lparr>rq_rcv_nxt := startSeq\<rparr>"

text \<open>The loop that merges the regions after \<open>i\<close> into \<open>i\<close>, whose end is the first argument.\<close>

fun mergeNext :: "uint32 \<Rightarrow> Region list \<Rightarrow> uint32 \<times> Region list" where
  "mergeNext iend [] = (iend, [])"
| "mergeNext iend ((jbegin, jend) # js) =
     (if seqGE iend jbegin
      then mergeNext (if seqLess iend jend then jend else iend) js
      else (iend, (jbegin, jend) # js))"

text \<open>
  \<open>merge\<close> after the loop that skips the regions entirely before the segment: the region
  \<open>i\<close> is the head of the list.
\<close>

fun mergeHere :: "Region list \<Rightarrow> uint32 \<Rightarrow> uint32 \<Rightarrow> Region list" where
  "mergeHere [] segBegin segEnd = [(segBegin, segEnd)]"
| "mergeHere ((ibegin, iend) # rest) segBegin segEnd =
     (if seqLess segEnd ibegin then (segBegin, segEnd) # (ibegin, iend) # rest
      else
        let ibegin' = (if seqLess segBegin ibegin then segBegin else ibegin)
        in if seqLess iend segEnd
           then (case mergeNext segEnd rest of (iend', rest') \<Rightarrow> (ibegin', iend') # rest')
           else (ibegin', iend) # rest)"

fun merge :: "Region list \<Rightarrow> uint32 \<Rightarrow> uint32 \<Rightarrow> Region list" where
  "merge [] segBegin segEnd = mergeHere [] segBegin segEnd"
| "merge ((ibegin, iend) # rest) segBegin segEnd =
     (if seqLess iend segBegin then (ibegin, iend) # merge rest segBegin segEnd
      else mergeHere ((ibegin, iend) # rest) segBegin segEnd)"

definition rq_insertBytesFromSegment ::
    "TCPSegment \<Rightarrow> 'a TCPVirtualDataRcvQueue_scheme \<Rightarrow> uint32 \<times> 'a TCPVirtualDataRcvQueue_scheme" where
  "rq_insertBytesFromSegment tcpseg q =
     (let rs = merge (regionList q) (sequenceNo tcpseg)
                 (sequenceNo tcpseg + of_nat (payloadLength tcpseg));
          nxt = (case rs of [] \<Rightarrow> rq_rcv_nxt q
                 | (b, e) # _ \<Rightarrow> if seqGE (rq_rcv_nxt q) b then e else rq_rcv_nxt q)
      in (nxt, q\<lparr>regionList := rs, rq_rcv_nxt := nxt\<rparr>))"

text \<open>The second assertion of \<open>extractTo\<close> compares with the plain \<open><\<close> of \<open>uint32\<close>.\<close>

definition extractTo ::
    "uint32 \<Rightarrow> 'a TCPVirtualDataRcvQueue_scheme \<Rightarrow> (nat \<times> 'a TCPVirtualDataRcvQueue_scheme) result" where
  "extractTo seq q =
     ASSERT (seqLE seq (rq_rcv_nxt q)) ''seqLE(seq,rcv_nxt)''
       (case regionList q of
          [] \<Rightarrow> Inr (0, q)
        | (b, e) # rest \<Rightarrow>
            ASSERT (b < e) ''i->begin<i->end''
              (if seqLE seq b then Inr (0, q)
               else if seqLess seq e
                 then Inr (unat (seq - b), q\<lparr>regionList := (seq, e) # rest\<rparr>)
               else Inr (unat (e - b), q\<lparr>regionList := rest\<rparr>)))"

definition rq_extractBytesUpTo ::
    "uint32 \<Rightarrow> 'a TCPVirtualDataRcvQueue_scheme
      \<Rightarrow> (app_msg option \<times> 'a TCPVirtualDataRcvQueue_scheme) result" where
  "rq_extractBytesUpTo seq q =
     emap (\<lambda>(numBytes, q').
        (if numBytes = 0 then None else Some \<lparr>msgName = ''data'', msgLength = 8 * numBytes\<rparr>, q'))
       (extractTo seq q)"

section \<open>The abstract octet set and well-formed region lists\<close>

definition octets :: "uint32 \<Rightarrow> Region list \<Rightarrow> nat set" where
  "octets s rs = (\<Union>r \<in> set rs. {off s (fst r)..<off s (snd r)})"

text \<open>
  Every region is non-empty, lies below half of the sequence space above the base, and
  regions are sorted with a gap between neighbours: none starts before the offset \<open>lo\<close>.
\<close>

fun regions_from :: "uint32 \<Rightarrow> nat \<Rightarrow> Region list \<Rightarrow> bool" where
  "regions_from s lo [] \<longleftrightarrow> True"
| "regions_from s lo ((b, e) # rs) \<longleftrightarrow>
     lo \<le> off s b \<and> off s b < off s e \<and> off s e < half \<and> regions_from s (Suc (off s e)) rs"

lemma octets_simps [simp]:
  "octets s [] = {}"
  "octets s ((b, e) # rs) = {off s b..<off s e} \<union> octets s rs"
  by (auto simp: octets_def)

lemma regions_from_mono: "regions_from s lo rs \<Longrightarrow> lo' \<le> lo \<Longrightarrow> regions_from s lo' rs"
  by (cases rs) auto

lemma octets_lower: "regions_from s lo rs \<Longrightarrow> n \<in> octets s rs \<Longrightarrow> lo \<le> n"
  by (induction s lo rs rule: regions_from.induct) fastforce+

lemma octets_upper: "regions_from s lo rs \<Longrightarrow> n \<in> octets s rs \<Longrightarrow> n < half"
  by (induction s lo rs rule: regions_from.induct) auto

lemma mergeNext_spec:
  assumes "regions_from s lo js" and "off s iend < half" and "mergeNext iend js = (e', js')"
    and "l \<le> lo" and "l \<le> off s iend"
  shows "off s iend \<le> off s e' \<and> off s e' < half \<and> regions_from s (Suc (off s e')) js' \<and>
    {l..<off s e'} \<union> octets s js' = {l..<off s iend} \<union> octets s js"
  using assms
proof (induction iend js arbitrary: lo rule: mergeNext.induct)
  case (1 iend)
  then show ?case by simp
next
  case (2 iend jb je js)
  from "2.prems"(1) have j: "lo \<le> off s jb" "off s jb < off s je" "off s je < half"
    "regions_from s (Suc (off s je)) js" by simp_all
  have jb: "off s jb < half" using j by simp
  have ge_iff: "seqGE iend jb \<longleftrightarrow> off s jb \<le> off s iend"
    using seqGE_off[OF \<open>off s iend < half\<close> jb] .
  have less_iff: "seqLess iend je \<longleftrightarrow> off s iend < off s je"
    using seqLess_off[OF \<open>off s iend < half\<close> j(3)] .
  show ?case
  proof (cases "seqGE iend jb")
    case True
    define e where "e = (if seqLess iend je then je else iend)"
    have e: "off s e = max (off s iend) (off s je)"
      unfolding e_def max_def using less_iff by simp
    have step: "mergeNext e js = (e', js')" using "2.prems"(3) True by (simp add: e_def)
    have "off s e \<le> off s e' \<and> off s e' < half \<and> regions_from s (Suc (off s e')) js' \<and>
      {l..<off s e'} \<union> octets s js' = {l..<off s e} \<union> octets s js"
      using "2.IH"[OF True, folded e_def, OF j(4) _ step] "2.prems"(2,4,5) j e by simp
    moreover have "{l..<off s e} = {l..<off s iend} \<union> {off s jb..<off s je}"
      unfolding e max_def using True ge_iff j "2.prems"(4,5) by auto
    ultimately show ?thesis using e by auto
  next
    case False
    with "2.prems" have "e' = iend" "js' = (jb, je) # js" by simp_all
    with False ge_iff j "2.prems"(2) show ?thesis by simp
  qed
qed

lemma mergeHere_spec:
  assumes "regions_from s lo rs" and "off s b < off s e" and "off s e < half" and "lo \<le> off s b"
    and "\<forall>r \<in> set (take 1 rs). off s b \<le> off s (snd r)"
  shows "regions_from s lo (mergeHere rs b e) \<and>
    octets s (mergeHere rs b e) = octets s rs \<union> {off s b..<off s e}"
proof (cases rs)
  case Nil
  then show ?thesis using assms by simp
next
  case (Cons r rest)
  obtain ib ie where r: "r = (ib, ie)" by fastforce
  have o: "off s b < half" "off s e < half" "off s ib < half" "off s ie < half"
    using assms Cons r by auto
  have ib: "lo \<le> off s ib" "off s ib < off s ie" "off s b \<le> off s ie"
    using assms Cons r by auto
  have rest: "regions_from s (Suc (off s ie)) rest" using assms(1) Cons r by simp
  let ?ib = "if seqLess b ib then b else ib"
  have oib: "off s ?ib = min (off s b) (off s ib)"
    using seqLess_off[OF o(1,3)] by (auto simp: min_def)
  show ?thesis
  proof (cases "seqLess e ib")
    case True
    then show ?thesis using assms ib rest seqLess_off[OF o(2,3)] Cons r by auto
  next
    case False
    then have ge: "off s ib \<le> off s e" using seqLess_off[OF o(2,3)] by simp
    show ?thesis
    proof (cases "seqLess ie e")
      case True
      then have lt: "off s ie < off s e" using seqLess_off[OF o(4,2)] by simp
      obtain e' rest' where m: "mergeNext e rest = (e', rest')" by fastforce
      have "off s e \<le> off s e' \<and> off s e' < half \<and> regions_from s (Suc (off s e')) rest' \<and>
        {off s ?ib..<off s e'} \<union> octets s rest' = {off s ?ib..<off s e} \<union> octets s rest"
        using mergeNext_spec[OF rest o(2) m, of "off s ?ib"] oib assms(2) ib(2) by simp
      moreover have "mergeHere rs b e = (?ib, e') # rest'"
        using Cons r False True m by (simp add: Let_def)
      moreover have "{off s ?ib..<off s e} = {off s ib..<off s ie} \<union> {off s b..<off s e}"
        unfolding oib using ge lt ib assms(2) by (auto simp: min_def)
      ultimately show ?thesis using Cons r oib ib assms lt by (auto simp: min_def)
    next
      case nlt: False
      then have "off s e \<le> off s ie" using seqLess_off[OF o(4,2)] by simp
      moreover have "mergeHere rs b e = (?ib, ie) # rest"
        using Cons r False nlt by (simp add: Let_def)
      moreover have "{off s ?ib..<off s ie} = {off s ib..<off s ie} \<union> {off s b..<off s e}"
        unfolding oib using ge ib assms(2) calculation(1) by (auto simp: min_def)
      ultimately show ?thesis using Cons r oib ib rest o assms by (auto simp: min_def)
    qed
  qed
qed

lemma merge_spec:
  assumes "regions_from s lo rs" and "off s b < off s e" and "off s e < half" and "lo \<le> off s b"
  shows "regions_from s lo (merge rs b e) \<and>
    octets s (merge rs b e) = octets s rs \<union> {off s b..<off s e}"
  using assms
proof (induction rs b e arbitrary: lo rule: merge.induct)
  case (1 b e)
  then show ?case by simp
next
  case (2 ib ie rest b e)
  have o: "off s ie < half" "off s b < half" using "2.prems" by auto
  show ?case
  proof (cases "seqLess ie b")
    case True
    then have "Suc (off s ie) \<le> off s b" using seqLess_off[OF o] by simp
    then have ih: "regions_from s (Suc (off s ie)) (merge rest b e) \<and>
      octets s (merge rest b e) = octets s rest \<union> {off s b..<off s e}"
      using "2.IH"[OF True, of "Suc (off s ie)"] "2.prems"(1-3) by simp
    show ?thesis using True ih "2.prems"(1) by (simp add: Un_assoc)
  next
    case False
    then have "off s b \<le> off s ie" using seqLess_off[OF o] by simp
    then have "regions_from s lo (mergeHere ((ib, ie) # rest) b e) \<and>
      octets s (mergeHere ((ib, ie) # rest) b e) = octets s ((ib, ie) # rest) \<union> {off s b..<off s e}"
      using "2.prems" by (intro mergeHere_spec) auto
    then show ?thesis using False by simp
  qed
qed

section \<open>\<open>TCPMsgBasedRcvQueue\<close>\<close>

text \<open>
  The messages are in a \<open>std::map<uint32, cMessage *>\<close>: an association list sorted by key,
  by the plain \<open><\<close> of \<open>uint32\<close>.
\<close>

record TCPMsgBasedRcvQueue = TCPVirtualDataRcvQueue +
  rq_payloadList :: "(uint32 \<times> app_msg) list"

fun map_insert :: "uint32 \<Rightarrow> 'm \<Rightarrow> (uint32 \<times> 'm) list \<Rightarrow> (uint32 \<times> 'm) list" where
  "map_insert k v [] = [(k, v)]"
| "map_insert k v ((k', v') # ps) =
     (if k < k' then (k, v) # (k', v') # ps
      else if k = k' then (k, v) # ps
      else (k', v') # map_insert k v ps)"

fun insertPayloads ::
    "(uint32 \<times> app_msg) list \<Rightarrow> (uint32 \<times> app_msg) list \<Rightarrow> (uint32 \<times> app_msg) list" where
  "insertPayloads [] pl = pl"
| "insertPayloads ((endSequenceNo, msg) # ps) pl =
     (case map_of pl endSequenceNo of
        Some _ \<Rightarrow> insertPayloads ps pl
      | None \<Rightarrow> insertPayloads ps (map_insert endSequenceNo msg pl))"

definition mrq_insertBytesFromSegment ::
    "TCPSegment \<Rightarrow> TCPMsgBasedRcvQueue \<Rightarrow> uint32 \<times> TCPMsgBasedRcvQueue" where
  "mrq_insertBytesFromSegment tcpseg q =
     (let q' = snd (rq_insertBytesFromSegment tcpseg q);
          q'' = q'\<lparr>rq_payloadList := insertPayloads (payloadList tcpseg) (rq_payloadList q')\<rparr>
      in (rq_rcv_nxt q'', q''))"

definition mrq_extractBytesUpTo ::
    "uint32 \<Rightarrow> TCPMsgBasedRcvQueue \<Rightarrow> (app_msg option \<times> TCPMsgBasedRcvQueue) result" where
  "mrq_extractBytesUpTo seq q =
     emap (\<lambda>(_, q').
        (case rq_payloadList q' of
           [] \<Rightarrow> (None, q')
         | (k, msg) # ps \<Rightarrow>
             if seqGreater k seq then (None, q') else (Some msg, q'\<lparr>rq_payloadList := ps\<rparr>)))
       (extractTo seq q)"

section \<open>Dynamic dispatch and the loop that passes data up\<close>

datatype TCPReceiveQueue =
    VirtualDataRQ TCPVirtualDataRcvQueue
  | MsgBasedRQ TCPMsgBasedRcvQueue

definition new_TCPVirtualDataRcvQueue :: TCPVirtualDataRcvQueue where
  "new_TCPVirtualDataRcvQueue = \<lparr>rq_rcv_nxt = 0, regionList = []\<rparr>"

definition new_TCPMsgBasedRcvQueue :: TCPMsgBasedRcvQueue where
  "new_TCPMsgBasedRcvQueue = \<lparr>rq_rcv_nxt = 0, regionList = [], rq_payloadList = []\<rparr>"

definition rcvq_init :: "uint32 \<Rightarrow> TCPReceiveQueue \<Rightarrow> TCPReceiveQueue" where
  "rcvq_init s q = (case q of
     VirtualDataRQ v \<Rightarrow> VirtualDataRQ (rq_init s v)
   | MsgBasedRQ m \<Rightarrow> MsgBasedRQ (rq_init s m))"

definition insertBytesFromSegment :: "TCPSegment \<Rightarrow> TCPReceiveQueue \<Rightarrow> uint32 \<times> TCPReceiveQueue" where
  "insertBytesFromSegment tcpseg q = (case q of
     VirtualDataRQ v \<Rightarrow> map_prod id VirtualDataRQ (rq_insertBytesFromSegment tcpseg v)
   | MsgBasedRQ m \<Rightarrow> map_prod id MsgBasedRQ (mrq_insertBytesFromSegment tcpseg m))"

definition extractBytesUpTo ::
    "uint32 \<Rightarrow> TCPReceiveQueue \<Rightarrow> (app_msg option \<times> TCPReceiveQueue) result" where
  "extractBytesUpTo seq q = (case q of
     VirtualDataRQ v \<Rightarrow> emap (map_prod id VirtualDataRQ) (rq_extractBytesUpTo seq v)
   | MsgBasedRQ m \<Rightarrow> emap (map_prod id MsgBasedRQ) (mrq_extractBytesUpTo seq m))"

text \<open>The regions and the next expected octet, whichever the class.\<close>

definition rcvq_regions :: "TCPReceiveQueue \<Rightarrow> Region list" where
  "rcvq_regions q = (case q of VirtualDataRQ v \<Rightarrow> regionList v | MsgBasedRQ m \<Rightarrow> regionList m)"

definition rcvq_nxt :: "TCPReceiveQueue \<Rightarrow> uint32" where
  "rcvq_nxt q = (case q of VirtualDataRQ v \<Rightarrow> rq_rcv_nxt v | MsgBasedRQ m \<Rightarrow> rq_rcv_nxt m)"

text \<open>
  What is left to extract: a message for the message-based queue; for the virtual queue a
  region, or the rest of one that does not begin at \<open>seq\<close> yet.
\<close>

definition rcvq_size :: "uint32 \<Rightarrow> TCPReceiveQueue \<Rightarrow> nat" where
  "rcvq_size seq q = (case q of
     VirtualDataRQ v \<Rightarrow> 2 * length (regionList v) +
       (case regionList v of [] \<Rightarrow> 0 | (b, e) # _ \<Rightarrow> if b = seq then 0 else 1)
   | MsgBasedRQ m \<Rightarrow> length (rq_payloadList m))"

lemma extractTo_frame:
  "extractTo seq q = Inr (n, q') \<Longrightarrow>
    q' = q\<lparr>regionList := regionList q'\<rparr>"
  by (auto simp: extractTo_def split: list.splits if_splits)

lemma extractTo_payload:
  "extractTo seq (q :: TCPMsgBasedRcvQueue) = Inr (n, q') \<Longrightarrow> rq_payloadList q' = rq_payloadList q"
  by (auto simp: extractTo_def split: list.splits if_splits)

lemma extract_decreases:
  assumes "extractBytesUpTo seq q = Inr (Some m, q')"
  shows "rcvq_size seq q' < rcvq_size seq q"
proof (cases q)
  case (VirtualDataRQ v)
  then show ?thesis
    using assms by (auto simp: extractBytesUpTo_def rcvq_size_def rq_extractBytesUpTo_def
        extractTo_def ASSERT_def emap_def seqLE_def split: list.splits if_splits)
next
  case (MsgBasedRQ v)
  then show ?thesis
    using assms by (auto simp: extractBytesUpTo_def rcvq_size_def mrq_extractBytesUpTo_def
        dest!: extractTo_payload split: list.splits if_splits)
qed

text \<open>
  \<open>while ((msg=receiveQueue->extractBytesUpTo(seq))!=NULL)\<close>: the messages passed up, in
  order, and the queue that is left.
\<close>

function extractAll :: "uint32 \<Rightarrow> TCPReceiveQueue \<Rightarrow> (app_msg list \<times> TCPReceiveQueue) result" where
  "extractAll seq q =
     (case extractBytesUpTo seq q of
        Inl err \<Rightarrow> Inl err
      | Inr (None, q') \<Rightarrow> Inr ([], q')
      | Inr (Some msg, q') \<Rightarrow> emap (\<lambda>(ms, q''). (msg # ms, q'')) (extractAll seq q'))"
  by pat_completeness auto
termination
  by (relation "measure (\<lambda>(seq, q). rcvq_size seq q)") (auto intro: extract_decreases)

declare extractAll.simps [simp del]

section \<open>What the queue promises\<close>

text \<open>
  Between two segments every region lies strictly above the next expected octet; the
  offsets are taken from that octet.
\<close>

definition rq_ok :: "uint32 \<Rightarrow> Region list \<Rightarrow> bool" where
  "rq_ok nxt rs \<longleftrightarrow> regions_from nxt 1 rs"

text \<open>No region crosses the wrap-around of the sequence numbers.\<close>

definition no_wrap :: "Region list \<Rightarrow> bool" where
  "no_wrap rs \<longleftrightarrow> (\<forall>(b, e) \<in> set rs. b < e)"

lemma regions_rebase:
  "regions_from s lo rs \<Longrightarrow> off s t \<le> lo \<Longrightarrow> regions_from t (lo - off s t) rs"
proof (induction s lo rs rule: regions_from.induct)
  case (2 s lo b e rs)
  have o: "off t b = off s b - off s t" "off t e = off s e - off s t"
    using off_rebase[of s t b] off_rebase[of s t e] "2.prems" by auto
  have "regions_from t (Suc (off s e) - off s t) rs"
    using "2.IH" "2.prems" by simp
  then show ?case using "2.prems" o by (auto simp: Suc_diff_le)
qed simp

lemma octets_rebase:
  "regions_from s lo rs \<Longrightarrow> off s t \<le> lo \<Longrightarrow> octets t rs = (\<lambda>n. n - off s t) ` octets s rs"
proof (induction s lo rs rule: regions_from.induct)
  case (2 s lo b e rs)
  have le: "off s t \<le> off s b" "off s t \<le> off s e" "regions_from s (Suc (off s e)) rs"
    using "2.prems" by auto
  have "octets t rs = (\<lambda>n. n - off s t) ` octets s rs"
    using "2.IH" le by simp
  moreover have "{off t b..<off t e} = (\<lambda>n. n - off s t) ` {off s b..<off s e}"
    using off_rebase[OF le(1)] off_rebase[OF le(2)] le(1,2)
    by (auto simp: image_minus_const_atLeastLessThan_nat)
  ultimately show ?case by (simp only: octets_simps image_Un)
qed simp

text \<open>
  The insertion of a segment: either its text starts at the next expected octet, and then
  the first region starts there, or the next expected octet does not change.
\<close>

lemma insert_spec:
  assumes ok: "rq_ok (rq_rcv_nxt q) (regionList q)"
    and len: "0 < payloadLength seg"
    and win: "off (rq_rcv_nxt q) (sequenceNo seg) + payloadLength seg < half"
    and ins: "rq_insertBytesFromSegment seg q = (nxt, q')"
  shows "regions_from (rq_rcv_nxt q) 0 (regionList q')"
    and "octets (rq_rcv_nxt q) (regionList q') = octets (rq_rcv_nxt q) (regionList q) \<union>
      {off (rq_rcv_nxt q) (sequenceNo seg)..<off (rq_rcv_nxt q) (sequenceNo seg) + payloadLength seg}"
    and "rq_rcv_nxt q' = nxt"
    and "(nxt = rq_rcv_nxt q \<and> rq_ok nxt (regionList q')) \<or>
      (\<exists>rest. regionList q' = (rq_rcv_nxt q, nxt) # rest \<and> nxt \<noteq> rq_rcv_nxt q \<and>
        off (rq_rcv_nxt q) nxt < half \<and> rq_ok nxt rest)"
proof -
  let ?s = "rq_rcv_nxt q" and ?b = "sequenceNo seg"
  define e where "e = ?b + of_nat (payloadLength seg)"
  have oe: "off ?s e = off ?s ?b + payloadLength seg"
    unfolding e_def using win by (intro off_add_small) (simp add: half_def)
  define rs where "rs = merge (regionList q) ?b e"
  have "regions_from ?s 0 (regionList q)"
    using ok regions_from_mono[of ?s 1 _ 0] by (simp add: rq_ok_def)
  from merge_spec[OF this, of ?b e] have m: "regions_from ?s 0 rs"
    "octets ?s rs = octets ?s (regionList q) \<union> {off ?s ?b..<off ?s e}"
    using win len oe by (auto simp: rs_def)
  have q': "regionList q' = rs" "rq_rcv_nxt q' = nxt"
    and nxt: "nxt = (case rs of [] \<Rightarrow> ?s | (b, e) # _ \<Rightarrow> if seqGE ?s b then e else ?s)"
    using ins by (auto simp: rq_insertBytesFromSegment_def rs_def e_def Let_def)
  show "regions_from ?s 0 (regionList q')" "rq_rcv_nxt q' = nxt" using m q' by auto
  show "octets ?s (regionList q') = octets ?s (regionList q) \<union>
      {off ?s ?b..<off ?s ?b + payloadLength seg}"
    using m oe q' by simp
  show "(nxt = ?s \<and> rq_ok nxt (regionList q')) \<or>
      (\<exists>rest. regionList q' = (?s, nxt) # rest \<and> nxt \<noteq> ?s \<and> off ?s nxt < half \<and> rq_ok nxt rest)"
  proof (cases rs)
    case Nil
    then show ?thesis using m oe len by simp
  next
    case (Cons r rest)
    obtain b' e' where r: "r = (b', e')" by fastforce
    have be: "off ?s b' < off ?s e'" "off ?s e' < half" "regions_from ?s (Suc (off ?s e')) rest"
      using m(1) Cons r by auto
    have ge: "seqGE ?s b' \<longleftrightarrow> b' = ?s"
      using seqGE_off[of ?s ?s b'] be by (simp add: half_def)
    show ?thesis
    proof (cases "b' = ?s")
      case True
      then have "nxt = e'" using nxt Cons r ge by simp
      moreover have "rq_ok e' rest"
        using regions_rebase[OF be(3), of e'] by (simp add: rq_ok_def)
      ultimately show ?thesis using True be Cons r q' by auto
    next
      case False
      then have "nxt = ?s" using nxt Cons r ge by simp
      moreover have "1 \<le> off ?s b'" using False off_eq_0[of ?s b'] by linarith
      ultimately show ?thesis using be q' Cons r by (auto simp: rq_ok_def)
    qed
  qed
qed

lemma extractTo_above:
  assumes "rq_ok (rq_rcv_nxt q) (regionList q)" and "no_wrap (regionList q)"
  shows "extractTo (rq_rcv_nxt q) q = Inr (0, q)"
proof (cases "regionList q")
  case Nil
  then show ?thesis by (simp add: extractTo_def seqLE_def)
next
  case (Cons r rest)
  obtain b e where r: "r = (b, e)" by fastforce
  have "off (rq_rcv_nxt q) b < half" using assms Cons r by (auto simp: rq_ok_def)
  then have "seqLE (rq_rcv_nxt q) b"
    using seqLE_off[of "rq_rcv_nxt q" "rq_rcv_nxt q" b] by (simp add: half_def)
  then show ?thesis
    using assms(2) Cons r by (simp add: extractTo_def seqLE_def no_wrap_def)
qed

text \<open>All octets below the next expected one come out in one piece.\<close>

lemma extractAll_first_region:
  assumes regs: "regionList q = (s, nxt) # rest" and nxt: "rq_rcv_nxt q = nxt"
    and s: "nxt \<noteq> s" "off s nxt < half" and ok: "rq_ok nxt rest"
    and wrap: "no_wrap (regionList q)"
  shows "extractAll nxt (VirtualDataRQ q) =
    Inr ([\<lparr>msgName = ''data'', msgLength = 8 * off s nxt\<rparr>], VirtualDataRQ (q\<lparr>regionList := rest\<rparr>))"
proof -
  have lt: "s < nxt" "no_wrap rest" using wrap regs by (auto simp: no_wrap_def)
  have nle: "\<not> seqLE nxt s"
    using seqLE_off[of s nxt s] s by (simp add: half_def)
  have nn: "seqLE nxt nxt" "\<not> seqLess nxt nxt" by (simp_all add: seqLE_def seqLess_def)
  have pos: "off s nxt \<noteq> 0" using s by simp
  have "extractTo nxt q = Inr (off s nxt, q\<lparr>regionList := rest\<rparr>)"
    using regs nxt lt nle nn by (simp add: extractTo_def off_def)
  then have first: "extractBytesUpTo nxt (VirtualDataRQ q) =
      Inr (Some \<lparr>msgName = ''data'', msgLength = 8 * off s nxt\<rparr>, VirtualDataRQ (q\<lparr>regionList := rest\<rparr>))"
    using pos by (simp add: extractBytesUpTo_def rq_extractBytesUpTo_def)
  have "extractTo nxt (q\<lparr>regionList := rest\<rparr>) = Inr (0, q\<lparr>regionList := rest\<rparr>)"
    using extractTo_above[of "q\<lparr>regionList := rest\<rparr>"] ok nxt lt by simp
  then have "extractBytesUpTo nxt (VirtualDataRQ (q\<lparr>regionList := rest\<rparr>)) =
      Inr (None, VirtualDataRQ (q\<lparr>regionList := rest\<rparr>))"
    by (simp add: extractBytesUpTo_def rq_extractBytesUpTo_def)
  with first show ?thesis by (simp add: extractAll.simps[of nxt])
qed

lemma image_diff_above:
  fixes d :: nat
  shows "(\<lambda>n. n - d) ` {n \<in> A. d \<le> n} = {n. n + d \<in> A}"
proof (intro equalityI subsetI)
  fix n assume "n \<in> {n. n + d \<in> A}"
  then have "n = (n + d) - d" "n + d \<in> {n \<in> A. d \<le> n}" by auto
  then show "n \<in> (\<lambda>n. n - d) ` {n \<in> A. d \<le> n}" by (rule image_eqI)
qed auto

text \<open>After the first region is extracted, what remains are the octets above it.\<close>

lemma octets_after_first:
  assumes "rq_ok nxt rest" and "off s nxt < half" and "regions_from s 0 ((s, nxt) # rest)"
  shows "octets nxt rest = {n. n + off s nxt \<in> octets s ((s, nxt) # rest)}"
proof -
  have r: "regions_from s (Suc (off s nxt)) rest" using assms(3) by simp
  have above: "octets s rest = {n \<in> octets s ((s, nxt) # rest). off s nxt \<le> n}"
    using octets_lower[OF r] by fastforce
  have "octets nxt rest = (\<lambda>n. n - off s nxt) ` octets s rest"
    by (rule octets_rebase[OF r]) simp
  then show ?thesis by (simp only: above image_diff_above)
qed

section \<open>Properties\<close>

text \<open>C1: \<open>merge\<close> refines the union of octet sets. For a sorted list of disjoint regions with
  gaps between them, all within half of the sequence space above a base, and a non-empty
  segment range in the same window, the new list is again sorted and disjoint with gaps, and
  covers exactly the old octets and those of the segment, whatever overlaps.\<close>

theorem merge_refines_union:
  assumes "regions_from s 0 rs" and "off s b < off s e" and "off s e < half"
  shows "regions_from s 0 (merge rs b e) \<and>
    octets s (merge rs b e) = octets s rs \<union> {off s b..<off s e}"
  using merge_spec[OF assms] by simp

theorem merge_refines_union_witness:
  "merge [(10, 20), (30, 40), (60, 70)] 15 45 = [(10, 45), (60, 70)] \<and>
   octets 0 (merge [(10, 20), (30, 40), (60, 70)] 15 45) = {10..<20} \<union> ({30..<40} \<union> {60..<70}) \<union> {15..<45}"
proof -
  have "regions_from 0 0 [(10, 20), (30, 40), (60, 70)]" "off 0 15 < off 0 45" "off 0 45 < half"
    by (simp_all add: off_def half_def)
  from merge_refines_union[OF this] show ?thesis
    by (simp add: off_def seqLess_def seqGE_def)
qed

text \<open>C2: Reliable in-order delivery by the virtual receive queue. Let the queue be well formed
  and let a segment with text arrive in the window above the next expected octet \<open>s\<close>, with
  no region across the wrap-around. Then the returned \<open>rcv_nxt\<close> is the first octet that has
  not arrived yet; extracting up to it succeeds and passes up exactly as many bytes as
  \<open>rcv_nxt\<close> advanced; and the queue left behind is well formed and holds exactly the octets
  above.\<close>

theorem receive_delivers_in_order:
  assumes ok: "rq_ok (rq_rcv_nxt q) (regionList q)" and len: "0 < payloadLength seg"
    and win: "off (rq_rcv_nxt q) (sequenceNo seg) + payloadLength seg < half"
    and ins: "rq_insertBytesFromSegment seg q = (nxt, q')" and wrap: "no_wrap (regionList q')"
    and arrived: "A = octets (rq_rcv_nxt q) (regionList q) \<union>
      {off (rq_rcv_nxt q) (sequenceNo seg)..<off (rq_rcv_nxt q) (sequenceNo seg) + payloadLength seg}"
  shows "(\<forall>n < off (rq_rcv_nxt q) nxt. n \<in> A) \<and> off (rq_rcv_nxt q) nxt \<notin> A \<and>
    (\<exists>ms q''. extractAll nxt (VirtualDataRQ q') = Inr (ms, VirtualDataRQ q'') \<and>
       sum_list (map msgLength ms) = 8 * off (rq_rcv_nxt q) nxt \<and>
       rq_rcv_nxt q'' = nxt \<and> rq_ok nxt (regionList q'') \<and>
       octets nxt (regionList q'') = {n. n + off (rq_rcv_nxt q) nxt \<in> A})"
proof -
  let ?s = "rq_rcv_nxt q"
  note spec = insert_spec[OF ok len win ins]
  have A: "octets ?s (regionList q') = A" using spec(2) arrived by simp
  show ?thesis using spec(4)
  proof (elim disjE exE conjE)
    assume nxt: "nxt = ?s" and ok': "rq_ok nxt (regionList q')"
    then have "extractAll nxt (VirtualDataRQ q') = Inr ([], VirtualDataRQ q')"
      using extractTo_above[of q'] spec(3) wrap
      by (simp add: extractAll.simps[of "rq_rcv_nxt q"] extractBytesUpTo_def rq_extractBytesUpTo_def)
    moreover have "0 \<notin> A" using octets_lower[of ?s 1 _ 0] ok' nxt A by (auto simp: rq_ok_def)
    ultimately show ?thesis using nxt ok' spec(3) A by simp
  next
    fix rest
    assume rest: "regionList q' = (?s, nxt) # rest" "nxt \<noteq> ?s" "off ?s nxt < half" "rq_ok nxt rest"
    have regs: "regions_from ?s 0 ((?s, nxt) # rest)" using spec(1) rest(1) by simp
    have "off ?s nxt \<notin> A"
      using octets_lower[of ?s "Suc (off ?s nxt)" rest "off ?s nxt"] regs A rest(1) by auto
    moreover have "\<forall>n < off ?s nxt. n \<in> A" using A rest(1) by auto
    moreover have "octets nxt rest = {n. n + off ?s nxt \<in> A}"
      unfolding A[symmetric] rest(1) by (rule octets_after_first[OF rest(4,3) regs])
    ultimately show ?thesis
      using extractAll_first_region[OF rest(1) spec(3) rest(2,3,4) wrap] spec(3) rest(4) by simp
  qed
qed

theorem receive_delivers_in_order_witness:
  "\<exists>ms q''. extractAll 130 (VirtualDataRQ \<lparr>rq_rcv_nxt = 130, regionList = [(100, 130), (150, 160)]\<rparr>)
       = Inr (ms, VirtualDataRQ q'') \<and> sum_list (map msgLength ms) = 240 \<and>
     rq_rcv_nxt q'' = 130 \<and> octets 130 (regionList q'') = {20..<30}"
proof -
  let ?q = "\<lparr>rq_rcv_nxt = 100, regionList = [(110, 130), (150, 160)]\<rparr>"
  let ?seg = "new_TCPSegment\<lparr>sequenceNo := 100, payloadLength := 15\<rparr>"
  let ?q' = "\<lparr>rq_rcv_nxt = 130, regionList = [(100, 130), (150, 160)]\<rparr>"
  have "rq_ok (rq_rcv_nxt ?q) (regionList ?q)" "0 < payloadLength ?seg"
    "off (rq_rcv_nxt ?q) (sequenceNo ?seg) + payloadLength ?seg < half"
    "rq_insertBytesFromSegment ?seg ?q = (130, ?q')" "no_wrap (regionList ?q')"
    by (simp_all add: rq_ok_def off_def half_def rq_insertBytesFromSegment_def seqLess_def
        seqGE_def no_wrap_def)
  from receive_delivers_in_order[OF this refl]
  obtain ms q'' where "extractAll 130 (VirtualDataRQ ?q') = Inr (ms, VirtualDataRQ q'')"
    "sum_list (map msgLength ms) = 240" "rq_rcv_nxt q'' = 130"
    "octets 130 (regionList q'') = {n. n + 30 \<in> {10..<30} \<union> {50..<60} \<union> {0..<15}}"
    by (auto simp: off_def)
  moreover have "{n::nat. n + 30 \<in> {10..<30} \<union> {50..<60} \<union> {0..<15}} = {20..<30}" by auto
  ultimately show ?thesis by auto
qed



end
