(* ===== verification/TCP_Connection.thy ===== *)
theory TCP_Connection
  imports TCP_SendQueue TCP_RcvQueue
begin

text \<open>
  The data of a TCP connection and its utilities that send segments and notify the
  application: \<open>Transport/TCP/TCPConnection.h\<close>, the constructors in
  \<open>TCPConnectionBase.cc\<close>, \<open>TCPConnectionUtil.cc\<close>, and the part of the algorithm classes
  these utilities call back (\<open>ackSent\<close> and \<open>dataSent\<close> of \<open>TCPBaseAlg.cc\<close> and
  \<open>DumbTCP.cc\<close>).

  Every operation takes the connection and returns the changed one, or an error. What it
  sends to the network and to the application is appended to the log \<open>outbox\<close>. A timer of
  the simulation kernel is what the module itself knows of it: not allocated, idle, or
  scheduled for some time; scheduling a timer that is scheduled already is a misuse that
  the kernel reports. Statistics vectors and log output are left out.
\<close>

section \<open>State variables\<close>

datatype TcpState =
    TCP_S_INIT | TCP_S_CLOSED | TCP_S_LISTEN | TCP_S_SYN_SENT | TCP_S_SYN_RCVD
  | TCP_S_ESTABLISHED | TCP_S_CLOSE_WAIT | TCP_S_LAST_ACK | TCP_S_FIN_WAIT_1
  | TCP_S_FIN_WAIT_2 | TCP_S_CLOSING | TCP_S_TIME_WAIT

datatype TCPEventCode =
    TCP_E_IGNORE
  | TCP_E_OPEN_ACTIVE | TCP_E_OPEN_PASSIVE | TCP_E_SEND | TCP_E_CLOSE | TCP_E_ABORT | TCP_E_STATUS
  | TCP_E_RCV_DATA | TCP_E_RCV_ACK | TCP_E_RCV_SYN | TCP_E_RCV_SYN_ACK | TCP_E_RCV_FIN
  | TCP_E_RCV_FIN_ACK | TCP_E_RCV_RST | TCP_E_RCV_UNEXP_SYN
  | TCP_E_TIMEOUT_2MSL | TCP_E_TIMEOUT_CONN_ESTAB | TCP_E_TIMEOUT_FIN_WAIT_2

definition TCP_TIMEOUT_CONN_ESTAB :: simtime where "TCP_TIMEOUT_CONN_ESTAB = 75"
definition TCP_TIMEOUT_FIN_WAIT_2 :: simtime where "TCP_TIMEOUT_FIN_WAIT_2 = 600"
definition TCP_TIMEOUT_2MSL :: simtime where "TCP_TIMEOUT_2MSL = 240"
definition TCP_TIMEOUT_SYN_REXMIT :: simtime where "TCP_TIMEOUT_SYN_REXMIT = 3"
definition TCP_TIMEOUT_SYN_REXMIT_MAX :: simtime where "TCP_TIMEOUT_SYN_REXMIT_MAX = 240"
definition MAX_SYN_REXMIT_COUNT :: int where "MAX_SYN_REXMIT_COUNT = 12"

record TCPStateVariables =
  active :: bool
  fork :: bool
  snd_mss :: uint32
  snd_una :: uint32
  snd_nxt :: uint32
  snd_max :: uint32
  snd_wnd :: uint32
  snd_up :: uint32
  snd_wl1 :: uint32
  snd_wl2 :: uint32
  iss :: uint32
  rcv_nxt :: uint32
  rcv_wnd :: uint32
  rcv_up :: uint32
  irs :: uint32
  dupacks :: int16
  syn_rexmit_count :: int
  syn_rexmit_timeout :: simtime
  fin_ack_rcvd :: bool
  send_fin :: bool
  snd_fin_seq :: uint32
  fin_rcvd :: bool
  rcv_fin_seq :: uint32

text \<open>
  The subclasses of the state block: what \<open>TCPBaseAlg\<close> adds, and what the Tahoe and Reno
  family adds to that. One type serves all algorithms; \<open>DumbTCP\<close> ignores the added fields.
\<close>

record TCPBaseAlgStateVariables = TCPStateVariables +
  delayed_acks_enabled :: bool
  nagle_enabled :: bool
  rexmit_count :: int
  rexmit_timeout :: simtime
  snd_cwnd :: uint32
  rtseq :: uint32
  rtseq_sendtime :: simtime
  srtt :: simtime
  rttvar :: simtime

record TCPTahoeRenoFamilyStateVariables = TCPBaseAlgStateVariables +
  ssthresh :: uint32

definition new_TCPStateVariables :: TCPStateVariables where
  "new_TCPStateVariables = \<lparr>active = False, fork = False, snd_mss = 1024,
     snd_una = 0, snd_nxt = 0, snd_max = 0, snd_wnd = 0, snd_up = 0, snd_wl1 = 0, snd_wl2 = 0,
     iss = 0, rcv_nxt = 0, rcv_wnd = 128 * 1024, rcv_up = 0, irs = 0, dupacks = 0,
     syn_rexmit_count = 0, syn_rexmit_timeout = 0, fin_ack_rcvd = False, send_fin = False,
     snd_fin_seq = 0, fin_rcvd = False, rcv_fin_seq = 0\<rparr>"

definition new_TCPBaseAlgStateVariables :: TCPBaseAlgStateVariables where
  "new_TCPBaseAlgStateVariables = TCPStateVariables.extend new_TCPStateVariables
     (TCPBaseAlgStateVariables.fields False True 0 3 0 0 0 0 (3 / 4))"

definition new_TCPTahoeRenoFamilyStateVariables :: TCPTahoeRenoFamilyStateVariables where
  "new_TCPTahoeRenoFamilyStateVariables =
     TCPBaseAlgStateVariables.extend new_TCPBaseAlgStateVariables
       (TCPTahoeRenoFamilyStateVariables.fields 65535)"

section \<open>The connection object\<close>

datatype TCPTimer =
    the2MSLTimer | connEstabTimer | finWait2Timer | synRexmitTimer
  | rexmitTimer | persistTimer | delayedAckTimer | keepAliveTimer

datatype timer_status = NoTimer | Idle | Scheduled simtime

datatype TCPAlgorithm = DumbTCP | TCPNoCongestionControl | TCPTahoe | TCPReno

datatype TcpStatusInd =
    TCP_I_DATA app_msg
  | TCP_I_ESTABLISHED IPvXAddress IPvXAddress int int
  | TCP_I_PEER_CLOSED | TCP_I_CLOSED
  | TCP_I_CONNECTION_REFUSED | TCP_I_CONNECTION_RESET | TCP_I_TIMED_OUT
  | TCP_I_STATUS TcpState IPvXAddress IPvXAddress int int TCPStateVariables

datatype tcp_out =
    ToIP TCPSegment uint32 uint32
  | ToIPv6 TCPSegment "uint32 \<times> uint32 \<times> uint32 \<times> uint32" "uint32 \<times> uint32 \<times> uint32 \<times> uint32"
  | ToApp int int TcpStatusInd

text \<open>
  Before an OPEN command creates them, the queues, the algorithm and the state block are
  NULL pointers; the object then is in \<open>TCP_S_INIT\<close>, where every operation that would use
  them stops with an error first. The model holds blank objects in their place.
\<close>

record TCPConnection =
  appGateIndex :: int
  connId :: int
  localAddr :: IPvXAddress
  remoteAddr :: IPvXAddress
  localPort :: int
  remotePort :: int
  fsm :: TcpState
  state :: TCPTahoeRenoFamilyStateVariables
  sendQueue :: TCPSendQueue
  receiveQueue :: TCPReceiveQueue
  tcpAlgorithm :: TCPAlgorithm
  timers :: "TCPTimer \<Rightarrow> timer_status"
  now :: simtime
  outbox :: "tcp_out list"

definition new_TCPConnection :: "simtime \<Rightarrow> int \<Rightarrow> int \<Rightarrow> TCPConnection" where
  "new_TCPConnection t appGateIdx cId = \<lparr>appGateIndex = appGateIdx, connId = cId,
     localAddr = nullAddr, remoteAddr = nullAddr, localPort = -1, remotePort = -1,
     fsm = TCP_S_INIT, state = new_TCPTahoeRenoFamilyStateVariables,
     sendQueue = VirtualDataSQ new_TCPVirtualDataSendQueue,
     receiveQueue = VirtualDataRQ new_TCPVirtualDataRcvQueue,
     tcpAlgorithm = DumbTCP,
     timers = (\<lambda>t. if t \<in> {the2MSLTimer, connEstabTimer, finWait2Timer, synRexmitTimer}
                  then Idle else NoTimer),
     now = t, outbox = []\<rparr>"

definition upd_state ::
    "(TCPTahoeRenoFamilyStateVariables \<Rightarrow> TCPTahoeRenoFamilyStateVariables)
      \<Rightarrow> TCPConnection \<Rightarrow> TCPConnection" where
  "upd_state f c = c\<lparr>state := f (state c)\<rparr>"

lemma upd_state_sel [simp]:
  "state (upd_state f c) = f (state c)"
  "appGateIndex (upd_state f c) = appGateIndex c" "connId (upd_state f c) = connId c"
  "localAddr (upd_state f c) = localAddr c" "remoteAddr (upd_state f c) = remoteAddr c"
  "localPort (upd_state f c) = localPort c" "remotePort (upd_state f c) = remotePort c"
  "fsm (upd_state f c) = fsm c" "sendQueue (upd_state f c) = sendQueue c"
  "receiveQueue (upd_state f c) = receiveQueue c" "tcpAlgorithm (upd_state f c) = tcpAlgorithm c"
  "timers (upd_state f c) = timers c" "now (upd_state f c) = now c"
  "outbox (upd_state f c) = outbox c"
  by (simp_all add: upd_state_def)

section \<open>Timers\<close>

definition isScheduled :: "TCPTimer \<Rightarrow> TCPConnection \<Rightarrow> bool" where
  "isScheduled t c = (case timers c t of Scheduled _ \<Rightarrow> True | _ \<Rightarrow> False)"

definition scheduleTimeout :: "TCPTimer \<Rightarrow> simtime \<Rightarrow> TCPConnection \<Rightarrow> TCPConnection result" where
  "scheduleTimeout t timeout c = (case timers c t of
     NoTimer \<Rightarrow> Inl (NullPointer ''scheduleAt'')
   | Idle \<Rightarrow> Inr (c\<lparr>timers := (timers c)(t := Scheduled (now c + timeout))\<rparr>)
   | Scheduled _ \<Rightarrow> Inl (TimerMisuse ''scheduleAt: message already scheduled''))"

definition cancelEvent :: "TCPTimer \<Rightarrow> TCPConnection \<Rightarrow> TCPConnection result" where
  "cancelEvent t c = (case timers c t of
     NoTimer \<Rightarrow> Inl (NullPointer ''cancelEvent'')
   | _ \<Rightarrow> Inr (c\<lparr>timers := (timers c)(t := Idle)\<rparr>))"

text \<open>\<open>if (timer) cancelEvent(timer)\<close>\<close>

definition cancelIfAllocated :: "TCPTimer \<Rightarrow> TCPConnection \<Rightarrow> TCPConnection" where
  "cancelIfAllocated t c = (case timers c t of
     NoTimer \<Rightarrow> c | _ \<Rightarrow> c\<lparr>timers := (timers c)(t := Idle)\<rparr>)"

text \<open>\<open>delete cancelEvent(timer); timer = NULL\<close>\<close>

definition deleteTimer :: "TCPTimer \<Rightarrow> TCPConnection \<Rightarrow> TCPConnection result" where
  "deleteTimer t c =
     ebind (cancelEvent t c) (\<lambda>c. Inr (c\<lparr>timers := (timers c)(t := NoTimer)\<rparr>))"

section \<open>Output\<close>

definition sendIndicationToApp :: "TcpStatusInd \<Rightarrow> TCPConnection \<Rightarrow> TCPConnection" where
  "sendIndicationToApp code c = c\<lparr>outbox := outbox c @ [ToApp (appGateIndex c) (connId c) code]\<rparr>"

definition sendEstabIndicationToApp :: "TCPConnection \<Rightarrow> TCPConnection" where
  "sendEstabIndicationToApp c =
     c\<lparr>outbox := outbox c @ [ToApp (appGateIndex c) (connId c)
       (TCP_I_ESTABLISHED (localAddr c) (remoteAddr c) (localPort c) (remotePort c))]\<rparr>"

definition signalConnectionTimeout :: "TCPConnection \<Rightarrow> TCPConnection" where
  "signalConnectionTimeout c = sendIndicationToApp TCP_I_TIMED_OUT c"

text \<open>The static \<open>sendToIP\<close>, called with the addresses the segment is to carry.\<close>

definition sendToIP_static :: "TCPSegment \<Rightarrow> IPvXAddress \<Rightarrow> IPvXAddress \<Rightarrow> tcp_out result" where
  "sendToIP_static tcpseg src dest =
     (if \<not> isIPv6 dest
      then ebind (get4 src) (\<lambda>s. ebind (get4 dest) (\<lambda>d. Inr (ToIP tcpseg s d)))
      else ebind (get6 src) (\<lambda>s. ebind (get6 dest) (\<lambda>d. Inr (ToIPv6 tcpseg s d))))"

definition sendToIP :: "TCPSegment \<Rightarrow> TCPConnection \<Rightarrow> TCPConnection result" where
  "sendToIP tcpseg c =
     (let seg = tcpseg\<lparr>srcPort := to_short (localPort c), destPort := to_short (remotePort c)\<rparr>
      in if \<not> isIPv6 (remoteAddr c)
         then ebind (get4 (localAddr c)) (\<lambda>s. ebind (get4 (remoteAddr c)) (\<lambda>d.
                Inr (c\<lparr>outbox := outbox c @ [ToIP seg s d]\<rparr>)))
         else ebind (get6 (localAddr c)) (\<lambda>s. ebind (get6 (remoteAddr c)) (\<lambda>d.
                Inr (c\<lparr>outbox := outbox c @ [ToIPv6 seg s d]\<rparr>))))"

section \<open>What the algorithm does after an ACK or data was sent\<close>

definition REXMIT_TIMEOUT :: simtime where "REXMIT_TIMEOUT = 2"

definition startRexmitTimer :: "TCPConnection \<Rightarrow> TCPConnection result" where
  "startRexmitTimer c =
     (let c = upd_state (\<lambda>s. s\<lparr>rexmit_count := 0\<rparr>) c
      in scheduleTimeout rexmitTimer (rexmit_timeout (state c)) c)"

definition TCPBaseAlg_ackSent :: "TCPConnection \<Rightarrow> TCPConnection result" where
  "TCPBaseAlg_ackSent c =
     (if isScheduled delayedAckTimer c then cancelEvent delayedAckTimer c else Inr c)"

definition TCPBaseAlg_dataSent :: "uint32 \<Rightarrow> TCPConnection \<Rightarrow> TCPConnection result" where
  "TCPBaseAlg_dataSent fromseq c =
     ebind (if \<not> isScheduled rexmitTimer c then startRexmitTimer c else Inr c) (\<lambda>c.
       Inr (if rtseq_sendtime (state c) = 0
            then upd_state (\<lambda>s. s\<lparr>rtseq := fromseq, rtseq_sendtime := now c\<rparr>) c
            else c))"

definition DumbTCP_dataSent :: "uint32 \<Rightarrow> TCPConnection \<Rightarrow> TCPConnection result" where
  "DumbTCP_dataSent fromseq c =
     ebind (if isScheduled rexmitTimer c then cancelEvent rexmitTimer c else Inr c)
       (scheduleTimeout rexmitTimer REXMIT_TIMEOUT)"

definition ackSent :: "TCPConnection \<Rightarrow> TCPConnection result" where
  "ackSent c = (case tcpAlgorithm c of DumbTCP \<Rightarrow> Inr c | _ \<Rightarrow> TCPBaseAlg_ackSent c)"

definition dataSent :: "uint32 \<Rightarrow> TCPConnection \<Rightarrow> TCPConnection result" where
  "dataSent fromseq c = (case tcpAlgorithm c of
     DumbTCP \<Rightarrow> DumbTCP_dataSent fromseq c | _ \<Rightarrow> TCPBaseAlg_dataSent fromseq c)"

section \<open>What the utilities leave alone\<close>

text \<open>
  A relation between the connection before and after an operation, kept by everything the
  sending utilities do: they append to the outbox, set timers, move \<open>snd_nxt\<close> and
  \<open>snd_max\<close>, and count retransmissions and round trips. Each utility is shown once to be
  such a step; an interpretation then gives a frame property, or an invariant, for all.
\<close>

locale conn_step =
  fixes R :: "TCPConnection \<Rightarrow> TCPConnection \<Rightarrow> bool"
  assumes R_refl: "R c c"
    and R_trans: "R c d \<Longrightarrow> R d e \<Longrightarrow> R c e"
    and R_outbox: "R c (c\<lparr>outbox := outbox c @ xs\<rparr>)"
    and R_timers: "R c (c\<lparr>timers := ts\<rparr>)"
    and R_snd_nxt: "R c (upd_state (\<lambda>s. s\<lparr>snd_nxt := f s\<rparr>) c)"
    and R_snd_max: "R c (upd_state (\<lambda>s. s\<lparr>snd_max := f s\<rparr>) c)"
    and R_rexmit_count: "R c (upd_state (\<lambda>s. s\<lparr>rexmit_count := g s\<rparr>) c)"
    and R_rtt: "R c (upd_state (\<lambda>s. s\<lparr>rtseq := h s, rtseq_sendtime := t s\<rparr>) c)"
begin

lemma sendToIP_R: "sendToIP seg c = Inr d \<Longrightarrow> R c d"
  by (auto simp: sendToIP_def Let_def R_outbox split: if_splits)

lemma scheduleTimeout_R: "scheduleTimeout t x c = Inr d \<Longrightarrow> R c d"
  by (auto simp: scheduleTimeout_def R_timers split: timer_status.splits)

lemma cancelEvent_R: "cancelEvent t c = Inr d \<Longrightarrow> R c d"
  by (auto simp: cancelEvent_def R_timers split: timer_status.splits)

lemma startRexmitTimer_R: "startRexmitTimer c = Inr d \<Longrightarrow> R c d"
  unfolding startRexmitTimer_def Let_def
  by (rule R_trans[OF R_rexmit_count]) (rule scheduleTimeout_R)

lemma ackSent_R: "ackSent c = Inr d \<Longrightarrow> R c d"
  by (auto simp: ackSent_def TCPBaseAlg_ackSent_def R_refl cancelEvent_R
      split: TCPAlgorithm.splits if_splits)

lemma TCPBaseAlg_dataSent_R: "TCPBaseAlg_dataSent x c = Inr d \<Longrightarrow> R c d"
  unfolding TCPBaseAlg_dataSent_def
  by (auto split: if_splits intro: R_refl R_rtt startRexmitTimer_R
      R_trans[OF startRexmitTimer_R R_rtt])

lemma DumbTCP_dataSent_R: "DumbTCP_dataSent x c = Inr d \<Longrightarrow> R c d"
  unfolding DumbTCP_dataSent_def
  by (auto split: if_splits intro: scheduleTimeout_R R_trans[OF cancelEvent_R scheduleTimeout_R])

lemma dataSent_R: "dataSent x c = Inr d \<Longrightarrow> R c d"
  by (auto simp: dataSent_def TCPBaseAlg_dataSent_R DumbTCP_dataSent_R split: TCPAlgorithm.splits)

end

text \<open>Everything of a connection but what such a step may change.\<close>

definition conn_rest :: "TCPConnection \<Rightarrow> TCPConnection" where
  "conn_rest c = c\<lparr>outbox := [], timers := (\<lambda>_. NoTimer),
     state := (state c)\<lparr>snd_nxt := 0, snd_max := 0, rexmit_count := 0, rexmit_timeout := 0,
       snd_cwnd := 0, rtseq := 0, rtseq_sendtime := 0, srtt := 0, rttvar := 0, ssthresh := 0\<rparr>\<rparr>"

interpretation conn_frame: conn_step "\<lambda>c d. conn_rest c = conn_rest d"
  by unfold_locales (auto simp: conn_rest_def upd_state_def)

interpretation outbox_grows: conn_step "\<lambda>c d. \<exists>xs. outbox d = outbox c @ xs"
  by unfold_locales (auto simp: upd_state_def)

lemma conn_rest_eqD:
  assumes "conn_rest c = conn_rest d"
  shows "fsm d = fsm c" "sendQueue d = sendQueue c" "receiveQueue d = receiveQueue c"
    "localAddr d = localAddr c" "remoteAddr d = remoteAddr c" "localPort d = localPort c"
    "remotePort d = remotePort c" "connId d = connId c" "appGateIndex d = appGateIndex c"
    "tcpAlgorithm d = tcpAlgorithm c" "now d = now c"
    "snd_una (state d) = snd_una (state c)" "snd_mss (state d) = snd_mss (state c)"
    "snd_wnd (state d) = snd_wnd (state c)" "iss (state d) = iss (state c)"
    "rcv_nxt (state d) = rcv_nxt (state c)" "rcv_wnd (state d) = rcv_wnd (state c)"
    "active (state d) = active (state c)" "fork (state d) = fork (state c)"
    "send_fin (state d) = send_fin (state c)" "snd_fin_seq (state d) = snd_fin_seq (state c)"
    "fin_ack_rcvd (state d) = fin_ack_rcvd (state c)" "fin_rcvd (state d) = fin_rcvd (state c)"
    "rcv_fin_seq (state d) = rcv_fin_seq (state c)" "dupacks (state d) = dupacks (state c)"
    "nagle_enabled (state d) = nagle_enabled (state c)"
    "delayed_acks_enabled (state d) = delayed_acks_enabled (state c)"
  using arg_cong[OF assms, of fsm] arg_cong[OF assms, of sendQueue]
    arg_cong[OF assms, of receiveQueue] arg_cong[OF assms, of localAddr]
    arg_cong[OF assms, of remoteAddr] arg_cong[OF assms, of localPort]
    arg_cong[OF assms, of remotePort] arg_cong[OF assms, of connId]
    arg_cong[OF assms, of appGateIndex] arg_cong[OF assms, of tcpAlgorithm]
    arg_cong[OF assms, of now] arg_cong[OF assms, of "\<lambda>c. snd_una (state c)"]
    arg_cong[OF assms, of "\<lambda>c. snd_mss (state c)"] arg_cong[OF assms, of "\<lambda>c. snd_wnd (state c)"]
    arg_cong[OF assms, of "\<lambda>c. iss (state c)"] arg_cong[OF assms, of "\<lambda>c. rcv_nxt (state c)"]
    arg_cong[OF assms, of "\<lambda>c. rcv_wnd (state c)"] arg_cong[OF assms, of "\<lambda>c. active (state c)"]
    arg_cong[OF assms, of "\<lambda>c. fork (state c)"] arg_cong[OF assms, of "\<lambda>c. send_fin (state c)"]
    arg_cong[OF assms, of "\<lambda>c. snd_fin_seq (state c)"]
    arg_cong[OF assms, of "\<lambda>c. fin_ack_rcvd (state c)"]
    arg_cong[OF assms, of "\<lambda>c. fin_rcvd (state c)"]
    arg_cong[OF assms, of "\<lambda>c. rcv_fin_seq (state c)"]
    arg_cong[OF assms, of "\<lambda>c. dupacks (state c)"]
    arg_cong[OF assms, of "\<lambda>c. nagle_enabled (state c)"]
    arg_cong[OF assms, of "\<lambda>c. delayed_acks_enabled (state c)"]
  by (simp_all add: conn_rest_def)

text \<open>
  When the addresses are of one family a segment can be sent; it carries the ports of the
  connection.
\<close>

definition addr_ok :: "TCPConnection \<Rightarrow> bool" where
  "addr_ok c \<longleftrightarrow> (if isIPv6 (remoteAddr c) then isIPv6 (localAddr c) \<or> isNull (localAddr c)
                 else \<not> isIPv6 (localAddr c))"

lemma sendToIP_ok:
  assumes "addr_ok c"
  obtains x where "sendToIP seg c = Inr (c\<lparr>outbox := outbox c @ [x]\<rparr>)"
proof (cases "isIPv6 (remoteAddr c)")
  case True
  then obtain d e where "get6 (localAddr c) = Inr d" "get6 (remoteAddr c) = Inr e"
    using assms get6_ok[of "localAddr c"] get6_ok[of "remoteAddr c"] by (auto simp: addr_ok_def)
  then show thesis using True that by (simp add: sendToIP_def)
next
  case False
  then obtain d e where "get4 (localAddr c) = Inr d" "get4 (remoteAddr c) = Inr e"
    using assms get4_ok[of "localAddr c"] get4_ok[of "remoteAddr c"] by (auto simp: addr_ok_def)
  then show thesis using False that by (simp add: sendToIP_def)
qed

end
