(* ===== verification/TCP_Util.thy ===== *)
theory TCP_Util
  imports TCP_Connection
begin

text \<open>
  The sending utilities of \<open>Transport/TCP/TCPConnectionUtil.cc\<close>: control segments, data
  under the send and congestion windows, probes and retransmission.
\<close>

section \<open>Initial sequence number and acceptability\<close>

definition fmod :: "real \<Rightarrow> real \<Rightarrow> real" where
  "fmod x m = x - m * of_int \<lfloor>x / m\<rfloor>"

definition selectInitialSeqNum :: "TCPConnection \<Rightarrow> TCPConnection" where
  "selectInitialSeqNum c =
     (let isn = word_of_int \<lfloor>fmod (now c * 250000) (1 + 4294967295)\<rfloor> AND 0xffffffff;
          c = upd_state (\<lambda>s. s\<lparr>iss := isn\<rparr>) c;
          c = upd_state (\<lambda>s. s\<lparr>snd_una := iss s, snd_nxt := iss s, snd_max := iss s\<rparr>) c
      in c\<lparr>sendQueue := sq_init (iss (state c) + 1) (sendQueue c)\<rparr>)"

definition isSegmentAcceptable :: "TCPSegment \<Rightarrow> TCPConnection \<Rightarrow> bool" where
  "isSegmentAcceptable tcpseg c \<longleftrightarrow>
     seqGE (sequenceNo tcpseg) (rcv_nxt (state c)) \<and>
     seqLE (sequenceNo tcpseg + of_nat (payloadLength tcpseg))
       (rcv_nxt (state c) + rcv_wnd (state c))"

section \<open>Control segments\<close>

definition sendSyn :: "TCPConnection \<Rightarrow> TCPConnection result" where
  "sendSyn c =
     (if isNull (remoteAddr c) \<or> remotePort c = -1
      then Inl (OppError ''Error processing command OPEN_ACTIVE: foreign socket unspecified'')
      else if localPort c = -1
      then Inl (OppError ''Error processing command OPEN_ACTIVE: local port unspecified'')
      else
        let tcpseg = new_TCPSegment\<lparr>sequenceNo := iss (state c), synBit := True,
              window := unat (rcv_wnd (state c))\<rparr>;
            c = upd_state (\<lambda>s. s\<lparr>snd_nxt := iss s + 1, snd_max := iss s + 1\<rparr>) c
        in sendToIP tcpseg c)"

definition sendSynAck :: "TCPConnection \<Rightarrow> TCPConnection result" where
  "sendSynAck c =
     (let tcpseg = new_TCPSegment\<lparr>sequenceNo := iss (state c), ackNo := rcv_nxt (state c),
            synBit := True, ackBit := True, window := unat (rcv_wnd (state c))\<rparr>;
          c = upd_state (\<lambda>s. s\<lparr>snd_nxt := iss s + 1, snd_max := iss s + 1\<rparr>) c
      in sendToIP tcpseg c)"

definition sendRst_static ::
    "uint32 \<Rightarrow> IPvXAddress \<Rightarrow> IPvXAddress \<Rightarrow> int \<Rightarrow> int \<Rightarrow> tcp_out result" where
  "sendRst_static seq src dest srcPt destPt =
     sendToIP_static (new_TCPSegment\<lparr>srcPort := to_short srcPt, destPort := to_short destPt, rstBit := True,
       sequenceNo := seq\<rparr>) src dest"

definition sendRstAck_static ::
    "uint32 \<Rightarrow> uint32 \<Rightarrow> IPvXAddress \<Rightarrow> IPvXAddress \<Rightarrow> int \<Rightarrow> int \<Rightarrow> tcp_out result" where
  "sendRstAck_static seq ack src dest srcPt destPt =
     sendToIP_static (new_TCPSegment\<lparr>srcPort := to_short srcPt, destPort := to_short destPt, rstBit := True,
       ackBit := True, sequenceNo := seq, ackNo := ack\<rparr>) src dest"

text \<open>\<open>sendRst\<close> of a connection, to given addresses and to its own peer.\<close>

definition sendRstTo ::
    "uint32 \<Rightarrow> IPvXAddress \<Rightarrow> IPvXAddress \<Rightarrow> int \<Rightarrow> int \<Rightarrow> TCPConnection \<Rightarrow> TCPConnection result" where
  "sendRstTo seq src dest srcPt destPt c =
     emap (\<lambda>p. c\<lparr>outbox := outbox c @ [p]\<rparr>) (sendRst_static seq src dest srcPt destPt)"

definition sendRst :: "uint32 \<Rightarrow> TCPConnection \<Rightarrow> TCPConnection result" where
  "sendRst seqNo c =
     sendRstTo seqNo (localAddr c) (remoteAddr c) (localPort c) (remotePort c) c"

definition sendAck :: "TCPConnection \<Rightarrow> TCPConnection result" where
  "sendAck c =
     ebind (sendToIP (new_TCPSegment\<lparr>ackBit := True, sequenceNo := snd_nxt (state c),
              ackNo := rcv_nxt (state c), window := unat (rcv_wnd (state c))\<rparr>) c)
       ackSent"

definition sendFin :: "TCPConnection \<Rightarrow> TCPConnection result" where
  "sendFin c =
     ebind (sendToIP (new_TCPSegment\<lparr>finBit := True, ackBit := True,
              ackNo := rcv_nxt (state c), sequenceNo := snd_nxt (state c),
              window := unat (rcv_wnd (state c))\<rparr>) c)
       ackSent"

section \<open>Data\<close>

definition sendSegment :: "nat \<Rightarrow> TCPConnection \<Rightarrow> TCPConnection result" where
  "sendSegment bytes c =
     ebind (createSegmentWithBytes (snd_nxt (state c)) bytes (sendQueue c)) (\<lambda>tcpseg.
       let tcpseg = tcpseg\<lparr>ackNo := rcv_nxt (state c), ackBit := True,
             window := unat (rcv_wnd (state c))\<rparr>
       in ASSERT (bytes = payloadLength tcpseg) ''bytes==tcpseg->payloadLength()''
         (let c = upd_state (\<lambda>s. s\<lparr>snd_nxt := snd_nxt s + of_nat bytes\<rparr>) c
          in if send_fin (state c) \<and> snd_nxt (state c) = snd_fin_seq (state c)
             then sendToIP (tcpseg\<lparr>finBit := True\<rparr>)
                    (upd_state (\<lambda>s. s\<lparr>snd_nxt := snd_fin_seq s + 1\<rparr>) c)
             else sendToIP tcpseg c))"

text \<open>
  The loop \<open>while (bytesToSend >= snd_mss)\<close>. The guard \<open>0 < snd_mss\<close> only makes the
  definition total: no operation changes \<open>snd_mss\<close> from its initial 1024.
\<close>

function sendWholeSegments :: "nat \<Rightarrow> TCPConnection \<Rightarrow> TCPConnection result" where
  "sendWholeSegments bytesToSend c =
     (let mss = unat (snd_mss (state c))
      in if 0 < mss \<and> mss \<le> bytesToSend
         then ebind (sendSegment mss c) (sendWholeSegments (bytesToSend - mss))
         else Inr c)"
  by pat_completeness auto
termination
  by (relation "measure fst") (auto simp: Let_def)

text \<open>The loop of \<open>retransmitData\<close>.\<close>

function retransmitLoop :: "nat \<Rightarrow> TCPConnection \<Rightarrow> TCPConnection result" where
  "retransmitLoop bytesToSend c =
     (let bytes = min bytesToSend (unat (snd_mss (state c)))
      in if 0 < bytes
         then ebind (sendSegment bytes c) (retransmitLoop (bytesToSend - bytes))
         else Inr c)"
  by pat_completeness auto
termination
  by (relation "measure fst") (auto simp: Let_def)

declare sendWholeSegments.simps [simp del] retransmitLoop.simps [simp del]

text \<open>How many bytes \<open>sendData\<close> may send now: the effective window, and what is buffered.\<close>

definition effectiveWin :: "'a TCPStateVariables_scheme \<Rightarrow> int \<Rightarrow> int" where
  "effectiveWin s congestionWindow =
     (let maxWindow = uint (snd_wnd s);
          maxWindow = (if congestionWindow \<ge> 0 \<and> maxWindow > congestionWindow
                       then congestionWindow else maxWindow)
      in maxWindow - uint (snd_nxt s - snd_una s))"

definition sendData :: "bool \<Rightarrow> int \<Rightarrow> TCPConnection \<Rightarrow> (bool \<times> TCPConnection) result" where
  "sendData fullSegmentsOnly congestionWindow c =
     (let c = upd_state (\<lambda>s. s\<lparr>snd_nxt := snd_max s\<rparr>) c;
          buffered = bytesAvailable (bufferEndSeq (sendQueue c)) (snd_nxt (state c))
      in if buffered = 0 then Inr (False, c)
         else
           let win = effectiveWin (state c) congestionWindow
           in if win \<le> 0 then Inr (False, c)
              else
                let bytesToSend = min (nat win) buffered
                in if fullSegmentsOnly \<and> bytesToSend < unat (snd_mss (state c))
                   then Inr (False, c)
                   else
                     let old_snd_nxt = snd_nxt (state c)
                     in ASSERT (bytesToSend > 0) ''bytesToSend>0''
                       (ebind (if bytesToSend \<le> unat (snd_mss (state c))
                               then sendSegment bytesToSend c
                               else sendWholeSegments bytesToSend c) (\<lambda>c.
                        let c = upd_state (\<lambda>s. s\<lparr>snd_max := snd_nxt s\<rparr>) c
                        in ebind (ackSent c) (\<lambda>c.
                           ebind (dataSent old_snd_nxt c) (\<lambda>c. Inr (True, c))))))"

definition sendProbe :: "TCPConnection \<Rightarrow> (bool \<times> TCPConnection) result" where
  "sendProbe c =
     (let c = upd_state (\<lambda>s. s\<lparr>snd_nxt := snd_max s\<rparr>) c
      in if bytesAvailable (bufferEndSeq (sendQueue c)) (snd_nxt (state c)) = 0
         then Inr (False, c)
         else
           let old_snd_nxt = snd_nxt (state c)
           in ebind (sendSegment 1 c) (\<lambda>c.
              let c = upd_state (\<lambda>s. s\<lparr>snd_max := snd_nxt s\<rparr>) c
              in ebind (ackSent c) (\<lambda>c.
                 ebind (dataSent old_snd_nxt c) (\<lambda>c. Inr (True, c)))))"

definition retransmitOneSegment :: "TCPConnection \<Rightarrow> TCPConnection result" where
  "retransmitOneSegment c =
     (let c = upd_state (\<lambda>s. s\<lparr>snd_nxt := snd_una s\<rparr>) c;
          bytes = unat (min (snd_mss (state c)) (snd_max (state c) - snd_nxt (state c)))
      in ASSERT (bytes \<noteq> 0) ''bytes!=0'' (ebind (sendSegment bytes c) ackSent))"

definition retransmitData :: "TCPConnection \<Rightarrow> TCPConnection result" where
  "retransmitData c =
     (let c = upd_state (\<lambda>s. s\<lparr>snd_nxt := snd_una s\<rparr>) c;
          bytesToSend = unat (snd_max (state c) - snd_nxt (state c))
      in ASSERT (bytesToSend \<noteq> 0) ''bytesToSend!=0'' (retransmitLoop bytesToSend c))"

section \<open>How a transmission starts and ends\<close>

definition nxt_to_max :: "TCPConnection \<Rightarrow> TCPConnection" where
  "nxt_to_max c = upd_state (\<lambda>s. s\<lparr>snd_nxt := snd_max s\<rparr>) c"

definition afterSend :: "uint32 \<Rightarrow> TCPConnection \<Rightarrow> (bool \<times> TCPConnection) result" where
  "afterSend old_snd_nxt c =
     ebind (ackSent (upd_state (\<lambda>s. s\<lparr>snd_max := snd_nxt s\<rparr>) c)) (\<lambda>c.
     ebind (dataSent old_snd_nxt c) (\<lambda>c. Inr (True, c)))"

text \<open>\<open>sendData\<close> sends nothing, or one segment, or whole segments only.\<close>

lemma sendData_cases:
  assumes "sendData full cw c = Inr (r, d)"
  shows "(r = False \<and> d = nxt_to_max c) \<or>
    (\<exists>n e. (if n \<le> unat (snd_mss (state c)) then sendSegment n (nxt_to_max c)
            else sendWholeSegments n (nxt_to_max c)) = Inr e \<and>
      afterSend (snd_max (state c)) e = Inr (r, d))"
proof -
  let ?c = "nxt_to_max c"
  let ?n = "min (nat (effectiveWin (state ?c) cw))
    (bytesAvailable (bufferEndSeq (sendQueue ?c)) (snd_nxt (state ?c)))"
  have sels: "snd_mss (state ?c) = snd_mss (state c)" "snd_nxt (state ?c) = snd_max (state c)"
    by (simp_all add: nxt_to_max_def)
  have "(r = False \<and> d = ?c) \<or>
      ebind (if ?n \<le> unat (snd_mss (state ?c)) then sendSegment ?n ?c
             else sendWholeSegments ?n ?c) (afterSend (snd_nxt (state ?c))) = Inr (r, d)"
    using assms unfolding sendData_def nxt_to_max_def[symmetric] afterSend_def Let_def
    by (simp only: ASSERT_eq_Inr split: if_splits) auto
  then show ?thesis unfolding sels by (elim disjE ebind_InrE) blast+
qed

lemma sendProbe_cases:
  assumes "sendProbe c = Inr (r, d)"
  shows "(r = False \<and> d = nxt_to_max c) \<or>
    (\<exists>e. sendSegment 1 (nxt_to_max c) = Inr e \<and> afterSend (snd_max (state c)) e = Inr (r, d))"
proof -
  let ?c = "nxt_to_max c"
  have sels: "snd_nxt (state ?c) = snd_max (state c)"
    by (simp add: nxt_to_max_def)
  have "(r = False \<and> d = ?c) \<or>
      ebind (sendSegment 1 ?c) (afterSend (snd_nxt (state ?c))) = Inr (r, d)"
    using assms unfolding sendProbe_def nxt_to_max_def[symmetric] afterSend_def Let_def
    by (simp only: split: if_splits) auto
  then show ?thesis unfolding sels by (elim disjE ebind_InrE) blast+
qed

section \<open>Every utility is a step of the connection\<close>

context conn_step
begin

lemma R_snd_nxt_max: "R c (upd_state (\<lambda>s. s\<lparr>snd_nxt := f s, snd_max := f s\<rparr>) c)"
proof -
  let ?d = "upd_state (\<lambda>s. s\<lparr>snd_nxt := f s\<rparr>) c"
  have "R ?d (upd_state (\<lambda>s. s\<lparr>snd_max := snd_nxt s\<rparr>) ?d)"
    by (rule R_snd_max)
  moreover have "upd_state (\<lambda>s. s\<lparr>snd_max := snd_nxt s\<rparr>) ?d =
      upd_state (\<lambda>s. s\<lparr>snd_nxt := f s, snd_max := f s\<rparr>) c"
    by (simp add: upd_state_def)
  ultimately show ?thesis using R_trans[OF R_snd_nxt[where c = c and f = f]] by simp
qed

lemma sendSyn_R: "sendSyn c = Inr d \<Longrightarrow> R c d"
  unfolding sendSyn_def Let_def
  by (auto split: if_splits dest!: sendToIP_R intro: R_trans[OF R_snd_nxt_max])

lemma sendSynAck_R: "sendSynAck c = Inr d \<Longrightarrow> R c d"
  unfolding sendSynAck_def Let_def
  by (auto dest!: sendToIP_R intro: R_trans[OF R_snd_nxt_max])

lemma sendRstTo_R: "sendRstTo q a b x y c = Inr d \<Longrightarrow> R c d"
  unfolding sendRstTo_def by (auto intro: R_outbox)

lemma sendRst_R: "sendRst q c = Inr d \<Longrightarrow> R c d"
  unfolding sendRst_def by (rule sendRstTo_R)

lemma sendAck_R: "sendAck c = Inr d \<Longrightarrow> R c d"
  unfolding sendAck_def by (auto intro: R_trans[OF sendToIP_R ackSent_R])

lemma sendFin_R: "sendFin c = Inr d \<Longrightarrow> R c d"
  unfolding sendFin_def by (auto intro: R_trans[OF sendToIP_R ackSent_R])

lemma sendSegment_R: "sendSegment n c = Inr d \<Longrightarrow> R c d"
  unfolding sendSegment_def Let_def
  by (auto split: if_splits dest!: sendToIP_R
      intro: R_trans[OF R_snd_nxt] R_trans[OF R_snd_nxt R_trans[OF R_snd_nxt]])

lemma sendWholeSegments_R: "sendWholeSegments n c = Inr d \<Longrightarrow> R c d"
proof (induction n c rule: sendWholeSegments.induct)
  case (1 n c)
  show ?case
  proof (cases "0 < unat (snd_mss (state c)) \<and> unat (snd_mss (state c)) \<le> n")
    case True
    with "1.prems" obtain e where "sendSegment (unat (snd_mss (state c))) c = Inr e"
      and "sendWholeSegments (n - unat (snd_mss (state c))) e = Inr d"
      by (subst (asm) sendWholeSegments.simps) (auto simp: Let_def)
    then show ?thesis using "1.IH"[OF refl True] R_trans sendSegment_R by blast
  next
    case False
    with "1.prems" have "d = c"
      by (subst (asm) sendWholeSegments.simps) (auto simp: Let_def)
    then show ?thesis by (simp add: R_refl)
  qed
qed

lemma retransmitLoop_R: "retransmitLoop n c = Inr d \<Longrightarrow> R c d"
proof (induction n c rule: retransmitLoop.induct)
  case (1 n c)
  define bytes where "bytes = min n (unat (snd_mss (state c)))"
  show ?case
  proof (cases "0 < bytes")
    case True
    with "1.prems" obtain e where "sendSegment bytes c = Inr e"
      and "retransmitLoop (n - bytes) e = Inr d"
      by (subst (asm) retransmitLoop.simps) (auto simp: Let_def bytes_def)
    then show ?thesis using "1.IH"[OF bytes_def True] R_trans sendSegment_R by blast
  next
    case False
    with "1.prems" have "d = c"
      by (subst (asm) retransmitLoop.simps) (auto simp: Let_def bytes_def)
    then show ?thesis by (simp add: R_refl)
  qed
qed

lemma afterSend_R: "afterSend x c = Inr (r, d) \<Longrightarrow> R c d"
  unfolding afterSend_def Let_def
  by (auto intro: R_trans[OF R_snd_max] R_trans[OF ackSent_R dataSent_R])

lemma sendData_R:
  assumes "sendData full cw c = Inr (r, d)"
  shows "R c d"
  using sendData_cases[OF assms]
proof (elim disjE exE conjE)
  fix n e
  assume "(if n \<le> unat (snd_mss (state c)) then sendSegment n (nxt_to_max c)
           else sendWholeSegments n (nxt_to_max c)) = Inr e" and a: "afterSend (snd_max (state c)) e = Inr (r, d)"
  then have "R (nxt_to_max c) e" using sendSegment_R sendWholeSegments_R by (auto split: if_splits)
  moreover have "R c (nxt_to_max c)" by (simp add: nxt_to_max_def R_snd_nxt)
  ultimately show ?thesis using a afterSend_R R_trans by blast
qed (simp add: nxt_to_max_def R_snd_nxt)

lemma sendProbe_R:
  assumes "sendProbe c = Inr (r, d)"
  shows "R c d"
proof -
  have "R c (nxt_to_max c)" by (simp add: nxt_to_max_def R_snd_nxt)
  then show ?thesis
    using sendProbe_cases[OF assms] sendSegment_R afterSend_R R_trans by blast
qed

lemma retransmitOneSegment_R:
  assumes "retransmitOneSegment c = Inr d"
  shows "R c d"
proof -
  let ?c = "upd_state (\<lambda>s. s\<lparr>snd_nxt := snd_una s\<rparr>) c"
  have "R c ?c" by (rule R_snd_nxt)
  moreover obtain n e where "sendSegment n ?c = Inr e" "ackSent e = Inr d"
    using assms unfolding retransmitOneSegment_def Let_def by (elim ASSERT_InrE ebind_InrE)
  ultimately show ?thesis using sendSegment_R ackSent_R R_trans by blast
qed

lemma retransmitData_R:
  assumes "retransmitData c = Inr d"
  shows "R c d"
proof -
  let ?c = "upd_state (\<lambda>s. s\<lparr>snd_nxt := snd_una s\<rparr>) c"
  have "R c ?c" by (rule R_snd_nxt)
  moreover obtain n where "retransmitLoop n ?c = Inr d"
    using assms unfolding retransmitData_def Let_def by (elim ASSERT_InrE)
  ultimately show ?thesis using retransmitLoop_R R_trans by blast
qed

end

end
