(* ===== verification/TCP_Algorithm.thy ===== *)
theory TCP_Algorithm
  imports TCP_Util
begin

text \<open>
  The algorithm classes behind \<open>TCPAlgorithm.h\<close>: \<open>DumbTCP.cc\<close>, the common part in
  \<open>TCPBaseAlg.cc\<close>, and the congestion control of \<open>TCPNoCongestionControl.cc\<close>,
  \<open>TCPTahoe.cc\<close> and \<open>TCPReno.cc\<close>. A virtual method is dispatched on \<open>tcpAlgorithm\<close>; a
  subclass that extends an inherited method calls the inherited definition first.
\<close>

definition DELAYED_ACK_TIMEOUT :: simtime where "DELAYED_ACK_TIMEOUT = 2 / 10"
definition MAX_REXMIT_COUNT :: int where "MAX_REXMIT_COUNT = 12"
definition MIN_REXMIT_TIMEOUT :: simtime where "MIN_REXMIT_TIMEOUT = 1"
definition MAX_REXMIT_TIMEOUT :: simtime where "MAX_REXMIT_TIMEOUT = 240"

section \<open>Initialisation\<close>

definition TCPBaseAlg_initialize :: "TCPConnection \<Rightarrow> TCPConnection" where
  "TCPBaseAlg_initialize c = c\<lparr>timers := (timers c)
     (rexmitTimer := Idle, persistTimer := Idle, delayedAckTimer := Idle, keepAliveTimer := Idle)\<rparr>"

definition DumbTCP_initialize :: "TCPConnection \<Rightarrow> TCPConnection" where
  "DumbTCP_initialize c = c\<lparr>timers := (timers c)(rexmitTimer := Idle)\<rparr>"

definition TCPNoCongestionControl_initialize :: "TCPConnection \<Rightarrow> TCPConnection" where
  "TCPNoCongestionControl_initialize c =
     upd_state (\<lambda>s. s\<lparr>snd_cwnd := 0x7fffffff\<rparr>) (TCPBaseAlg_initialize c)"

definition alg_initialize :: "TCPConnection \<Rightarrow> TCPConnection" where
  "alg_initialize c = (case tcpAlgorithm c of
     DumbTCP \<Rightarrow> DumbTCP_initialize c
   | TCPNoCongestionControl \<Rightarrow> TCPNoCongestionControl_initialize c
   | TCPTahoe \<Rightarrow> TCPBaseAlg_initialize c
   | TCPReno \<Rightarrow> TCPBaseAlg_initialize c)"

section \<open>\<open>TCPBaseAlg\<close>\<close>

definition TCPBaseAlg_sendData :: "TCPConnection \<Rightarrow> (bool \<times> TCPConnection) result" where
  "TCPBaseAlg_sendData c =
     (let fullSegmentsOnly = nagle_enabled (state c) \<and> snd_una (state c) \<noteq> snd_max (state c)
      in sendData fullSegmentsOnly (sint (snd_cwnd (state c))) c)"

definition TCPBaseAlg_established :: "bool \<Rightarrow> TCPConnection \<Rightarrow> TCPConnection result" where
  "TCPBaseAlg_established act c =
     (let c = upd_state (\<lambda>s. s\<lparr>snd_cwnd := snd_mss s\<rparr>) c
      in if act
         then ebind (TCPBaseAlg_sendData c) (\<lambda>(sent, c). if \<not> sent then sendAck c else Inr c)
         else Inr c)"

definition TCPBaseAlg_connectionClosed :: "TCPConnection \<Rightarrow> TCPConnection result" where
  "TCPBaseAlg_connectionClosed c =
     ebind (cancelEvent rexmitTimer c) (\<lambda>c.
     ebind (cancelEvent persistTimer c) (\<lambda>c.
     ebind (cancelEvent delayedAckTimer c) (\<lambda>c.
     cancelEvent keepAliveTimer c)))"

definition backOffRexmitTimeout :: "TCPConnection \<Rightarrow> TCPConnection" where
  "backOffRexmitTimeout c =
     (let c = upd_state (\<lambda>s. s\<lparr>rexmit_timeout := rexmit_timeout s + rexmit_timeout s\<rparr>) c
      in if rexmit_timeout (state c) > MAX_REXMIT_TIMEOUT
         then upd_state (\<lambda>s. s\<lparr>rexmit_timeout := MAX_REXMIT_TIMEOUT\<rparr>) c else c)"

definition TCPBaseAlg_processRexmitTimer ::
    "TCPEventCode \<Rightarrow> TCPConnection \<Rightarrow> (TCPEventCode \<times> TCPConnection) result" where
  "TCPBaseAlg_processRexmitTimer event c =
     (let c = upd_state (\<lambda>s. s\<lparr>rexmit_count := rexmit_count s + 1\<rparr>) c
      in if rexmit_count (state c) > MAX_REXMIT_COUNT
         then Inr (TCP_E_ABORT, signalConnectionTimeout c)
         else
           let c = backOffRexmitTimeout c
           in ebind (scheduleTimeout rexmitTimer (rexmit_timeout (state c)) c) (\<lambda>c.
              Inr (event, upd_state (\<lambda>s. s\<lparr>rtseq_sendtime := 0\<rparr>) c)))"

definition TCPBaseAlg_processPersistTimer :: "TCPConnection \<Rightarrow> TCPConnection result" where
  "TCPBaseAlg_processPersistTimer c = emap (\<lambda>r. case r of (_, c) \<Rightarrow> c) (sendProbe c)"

definition TCPBaseAlg_processDelayedAckTimer :: "TCPConnection \<Rightarrow> TCPConnection result" where
  "TCPBaseAlg_processDelayedAckTimer c = sendAck c"

definition clampRto :: "simtime \<Rightarrow> simtime" where
  "clampRto rto = (if rto > MAX_REXMIT_TIMEOUT then MAX_REXMIT_TIMEOUT
                   else if rto < MIN_REXMIT_TIMEOUT then MIN_REXMIT_TIMEOUT else rto)"

definition rttMeasurementComplete :: "simtime \<Rightarrow> simtime \<Rightarrow> TCPConnection \<Rightarrow> TCPConnection result" where
  "rttMeasurementComplete tSent tAcked c =
     (let g = 1 / 8;
          newRTT = tAcked - tSent;
          err = newRTT - srtt (state c);
          c = upd_state (\<lambda>s. s\<lparr>srtt := srtt s + g * err\<rparr>) c;
          c = upd_state (\<lambda>s. s\<lparr>rttvar := rttvar s + g * (\<bar>err\<bar> - rttvar s)\<rparr>) c;
          rto = clampRto (srtt (state c) + 4 * rttvar (state c))
      in ASSERT (\<not> isScheduled rexmitTimer c) ''!rexmitTimer->isScheduled()''
           (Inr (upd_state (\<lambda>s. s\<lparr>rexmit_timeout := rto\<rparr>) c)))"

definition TCPBaseAlg_receiveSeqChanged :: "TCPConnection \<Rightarrow> TCPConnection result" where
  "TCPBaseAlg_receiveSeqChanged c =
     (if \<not> delayed_acks_enabled (state c) then sendAck c
      else if \<not> isScheduled delayedAckTimer c
      then scheduleTimeout delayedAckTimer DELAYED_ACK_TIMEOUT c
      else Inr c)"

definition TCPBaseAlg_receivedDataAck :: "uint32 \<Rightarrow> TCPConnection \<Rightarrow> TCPConnection result" where
  "TCPBaseAlg_receivedDataAck firstSeqAcked c =
     ebind (cancelEvent rexmitTimer c) (\<lambda>c.
     ebind (if rtseq_sendtime (state c) \<noteq> 0 \<and> seqLess (rtseq (state c)) (snd_una (state c))
            then ebind (rttMeasurementComplete (rtseq_sendtime (state c)) (now c) c) (\<lambda>c.
                 Inr (upd_state (\<lambda>s. s\<lparr>rtseq_sendtime := 0\<rparr>) c))
            else Inr c) (\<lambda>c.
     if snd_una (state c) = snd_max (state c) then Inr c else startRexmitTimer c))"

section \<open>Congestion control\<close>

text \<open>Tahoe and Reno define the same threshold.\<close>

definition recalculateSlowStartThreshold :: "TCPConnection \<Rightarrow> TCPConnection" where
  "recalculateSlowStartThreshold c =
     (let flight_size = min (snd_cwnd (state c)) (snd_wnd (state c))
      in upd_state (\<lambda>s. s\<lparr>ssthresh := max (flight_size div 2) (2 * snd_mss s)\<rparr>) c)"

text \<open>
  The increase of \<open>snd_cwnd\<close> by an ACK: \<open>int incr = mss*mss/cwnd\<close>, a division by zero
  where \<open>cwnd\<close> is 0. That traps, and is an error here.
\<close>

definition slowStartOrAvoidance :: "TCPConnection \<Rightarrow> TCPConnection result" where
  "slowStartOrAvoidance c =
     (if snd_cwnd (state c) < ssthresh (state c)
      then Inr (upd_state (\<lambda>s. s\<lparr>snd_cwnd := snd_cwnd s + snd_mss s\<rparr>) c)
      else if snd_cwnd (state c) = 0 then Inl (Exception ''division by zero'')
      else
        let incr = snd_mss (state c) * snd_mss (state c) div snd_cwnd (state c);
            incr = (if incr = 0 then 1 else incr)
        in Inr (upd_state (\<lambda>s. s\<lparr>snd_cwnd := snd_cwnd s + incr\<rparr>) c))"

definition TCPTahoe_processRexmitTimer ::
    "TCPEventCode \<Rightarrow> TCPConnection \<Rightarrow> (TCPEventCode \<times> TCPConnection) result" where
  "TCPTahoe_processRexmitTimer event c =
     ebind (TCPBaseAlg_processRexmitTimer event c) (\<lambda>(event, c).
       if event = TCP_E_ABORT then Inr (event, c)
       else
         let c = recalculateSlowStartThreshold c;
             c = upd_state (\<lambda>s. s\<lparr>snd_cwnd := snd_mss s\<rparr>) c
         in emap (Pair event) (retransmitOneSegment c))"

definition TCPReno_processRexmitTimer ::
    "TCPEventCode \<Rightarrow> TCPConnection \<Rightarrow> (TCPEventCode \<times> TCPConnection) result" where
  "TCPReno_processRexmitTimer event c =
     ebind (TCPBaseAlg_processRexmitTimer event c) (\<lambda>(event, c).
       if event = TCP_E_ABORT then Inr (event, c)
       else
         let c = recalculateSlowStartThreshold c;
             c = upd_state (\<lambda>s. s\<lparr>snd_cwnd := snd_mss s\<rparr>) c
         in emap (Pair event) (retransmitData c))"

definition TCPNoCongestionControl_processRexmitTimer ::
    "TCPEventCode \<Rightarrow> TCPConnection \<Rightarrow> (TCPEventCode \<times> TCPConnection) result" where
  "TCPNoCongestionControl_processRexmitTimer event c =
     ebind (TCPBaseAlg_processRexmitTimer event c) (\<lambda>(event, c).
       if event = TCP_E_ABORT then Inr (event, c)
       else emap (Pair event) (retransmitOneSegment c))"

definition dropResult :: "(bool \<times> TCPConnection) result \<Rightarrow> TCPConnection result" where
  "dropResult r = emap snd r"

definition TCPTahoe_receivedDataAck :: "uint32 \<Rightarrow> TCPConnection \<Rightarrow> TCPConnection result" where
  "TCPTahoe_receivedDataAck firstSeqAcked c =
     ebind (TCPBaseAlg_receivedDataAck firstSeqAcked c) (\<lambda>c.
     ebind (slowStartOrAvoidance c) (\<lambda>c.
     dropResult (TCPBaseAlg_sendData c)))"

definition TCPReno_receivedDataAck :: "uint32 \<Rightarrow> TCPConnection \<Rightarrow> TCPConnection result" where
  "TCPReno_receivedDataAck firstSeqAcked c =
     ebind (TCPBaseAlg_receivedDataAck firstSeqAcked c) (\<lambda>c.
     ebind (if sint (dupacks (state c)) \<ge> 3
            then Inr (upd_state (\<lambda>s. s\<lparr>snd_cwnd := ssthresh s\<rparr>) c)
            else slowStartOrAvoidance c) (\<lambda>c.
     dropResult (TCPBaseAlg_sendData c)))"

definition TCPNoCongestionControl_receivedDataAck ::
    "uint32 \<Rightarrow> TCPConnection \<Rightarrow> TCPConnection result" where
  "TCPNoCongestionControl_receivedDataAck firstSeqAcked c =
     ebind (TCPBaseAlg_receivedDataAck firstSeqAcked c) (\<lambda>c.
     dropResult (TCPBaseAlg_sendData c))"

text \<open>Restart of the retransmission timer that ends a fast retransmit.\<close>

definition restartRexmit :: "TCPConnection \<Rightarrow> TCPConnection result" where
  "restartRexmit c =
     ebind (cancelEvent rexmitTimer c) (\<lambda>c.
     ebind (startRexmitTimer c) (\<lambda>c.
     Inr (upd_state (\<lambda>s. s\<lparr>rtseq_sendtime := 0\<rparr>) c)))"

definition TCPTahoe_receivedDuplicateAck :: "TCPConnection \<Rightarrow> TCPConnection result" where
  "TCPTahoe_receivedDuplicateAck c =
     (if sint (dupacks (state c)) = 3
      then ebind (retransmitOneSegment c) (\<lambda>c.
           let c = recalculateSlowStartThreshold c;
               c = upd_state (\<lambda>s. s\<lparr>snd_cwnd := snd_mss s\<rparr>) c
           in restartRexmit c)
      else Inr c)"

definition TCPReno_receivedDuplicateAck :: "TCPConnection \<Rightarrow> TCPConnection result" where
  "TCPReno_receivedDuplicateAck c =
     (if sint (dupacks (state c)) = 3
      then ebind (retransmitOneSegment c) (\<lambda>c.
           let c = recalculateSlowStartThreshold c;
               c = upd_state (\<lambda>s. s\<lparr>snd_cwnd := 3 * snd_mss s\<rparr>) c
           in restartRexmit c)
      else if sint (dupacks (state c)) > 3
      then Inr (upd_state (\<lambda>s. s\<lparr>snd_cwnd := snd_cwnd s + snd_mss s\<rparr>) c)
      else Inr c)"

section \<open>\<open>DumbTCP\<close>\<close>

definition DumbTCP_established :: "bool \<Rightarrow> TCPConnection \<Rightarrow> TCPConnection result" where
  "DumbTCP_established act c =
     (if act
      then ebind (sendData False (-1) c) (\<lambda>(sent, c). if \<not> sent then sendAck c else Inr c)
      else Inr c)"

definition DumbTCP_connectionClosed :: "TCPConnection \<Rightarrow> TCPConnection result" where
  "DumbTCP_connectionClosed c = cancelEvent rexmitTimer c"

definition DumbTCP_processTimer ::
    "TCPTimer \<Rightarrow> TCPEventCode \<Rightarrow> TCPConnection \<Rightarrow> (TCPEventCode \<times> TCPConnection) result" where
  "DumbTCP_processTimer timer event c =
     (if timer \<noteq> rexmitTimer then Inl (Exception ''unrecognized timer'')
      else ebind (retransmitData c) (\<lambda>c.
           emap (Pair event) (scheduleTimeout rexmitTimer REXMIT_TIMEOUT c)))"

section \<open>Dynamic dispatch\<close>

definition alg_established :: "bool \<Rightarrow> TCPConnection \<Rightarrow> TCPConnection result" where
  "alg_established act c = (case tcpAlgorithm c of
     DumbTCP \<Rightarrow> DumbTCP_established act c | _ \<Rightarrow> TCPBaseAlg_established act c)"

definition alg_connectionClosed :: "TCPConnection \<Rightarrow> TCPConnection result" where
  "alg_connectionClosed c = (case tcpAlgorithm c of
     DumbTCP \<Rightarrow> DumbTCP_connectionClosed c | _ \<Rightarrow> TCPBaseAlg_connectionClosed c)"

definition processRexmitTimer ::
    "TCPEventCode \<Rightarrow> TCPConnection \<Rightarrow> (TCPEventCode \<times> TCPConnection) result" where
  "processRexmitTimer event c = (case tcpAlgorithm c of
     TCPNoCongestionControl \<Rightarrow> TCPNoCongestionControl_processRexmitTimer event c
   | TCPTahoe \<Rightarrow> TCPTahoe_processRexmitTimer event c
   | TCPReno \<Rightarrow> TCPReno_processRexmitTimer event c
   | DumbTCP \<Rightarrow> Inr (event, c))"

definition TCPBaseAlg_processTimer ::
    "TCPTimer \<Rightarrow> TCPEventCode \<Rightarrow> TCPConnection \<Rightarrow> (TCPEventCode \<times> TCPConnection) result" where
  "TCPBaseAlg_processTimer timer event c =
     (if timer = rexmitTimer then processRexmitTimer event c
      else if timer = persistTimer then emap (Pair event) (TCPBaseAlg_processPersistTimer c)
      else if timer = delayedAckTimer then emap (Pair event) (TCPBaseAlg_processDelayedAckTimer c)
      else if timer = keepAliveTimer then Inr (event, c)
      else Inl (Exception ''unrecognized timer''))"

definition alg_processTimer ::
    "TCPTimer \<Rightarrow> TCPEventCode \<Rightarrow> TCPConnection \<Rightarrow> (TCPEventCode \<times> TCPConnection) result" where
  "alg_processTimer timer event c = (case tcpAlgorithm c of
     DumbTCP \<Rightarrow> DumbTCP_processTimer timer event c | _ \<Rightarrow> TCPBaseAlg_processTimer timer event c)"

definition sendCommandInvoked :: "TCPConnection \<Rightarrow> TCPConnection result" where
  "sendCommandInvoked c = (case tcpAlgorithm c of
     DumbTCP \<Rightarrow> dropResult (sendData False (-1) c) | _ \<Rightarrow> dropResult (TCPBaseAlg_sendData c))"

text \<open>\<open>DumbTCP\<close> and \<open>TCPBaseAlg\<close> both send an ACK at once in these two.\<close>

definition receivedOutOfOrderSegment :: "TCPConnection \<Rightarrow> TCPConnection result" where
  "receivedOutOfOrderSegment c = sendAck c"

definition receivedAckForDataNotYetSent :: "uint32 \<Rightarrow> TCPConnection \<Rightarrow> TCPConnection result" where
  "receivedAckForDataNotYetSent seq c = sendAck c"

definition receiveSeqChanged :: "TCPConnection \<Rightarrow> TCPConnection result" where
  "receiveSeqChanged c = (case tcpAlgorithm c of
     DumbTCP \<Rightarrow> sendAck c | _ \<Rightarrow> TCPBaseAlg_receiveSeqChanged c)"

definition receivedDataAck :: "uint32 \<Rightarrow> TCPConnection \<Rightarrow> TCPConnection result" where
  "receivedDataAck firstSeqAcked c = (case tcpAlgorithm c of
     DumbTCP \<Rightarrow> dropResult (sendData False (-1) c)
   | TCPNoCongestionControl \<Rightarrow> TCPNoCongestionControl_receivedDataAck firstSeqAcked c
   | TCPTahoe \<Rightarrow> TCPTahoe_receivedDataAck firstSeqAcked c
   | TCPReno \<Rightarrow> TCPReno_receivedDataAck firstSeqAcked c)"

definition receivedDuplicateAck :: "TCPConnection \<Rightarrow> TCPConnection result" where
  "receivedDuplicateAck c = (case tcpAlgorithm c of
     TCPTahoe \<Rightarrow> TCPTahoe_receivedDuplicateAck c
   | TCPReno \<Rightarrow> TCPReno_receivedDuplicateAck c
   | _ \<Rightarrow> Inr c)"

section \<open>Every algorithm operation is a step\<close>

text \<open>
  What the algorithm classes change beyond the sending utilities: the congestion window, the
  round trip estimate, the threshold, which they set to no less than two segments, and the
  retransmission timeout, which they keep within its bounds.
\<close>

definition rto_ok :: "TCPConnection \<Rightarrow> bool" where
  "rto_ok c \<longleftrightarrow> MIN_REXMIT_TIMEOUT \<le> rexmit_timeout (state c) \<and>
     rexmit_timeout (state c) \<le> MAX_REXMIT_TIMEOUT"

lemma clampRto_bounds: "MIN_REXMIT_TIMEOUT \<le> clampRto x \<and> clampRto x \<le> MAX_REXMIT_TIMEOUT"
  by (auto simp: clampRto_def MIN_REXMIT_TIMEOUT_def MAX_REXMIT_TIMEOUT_def)

locale alg_step = conn_step +
  assumes R_cwnd: "R c (upd_state (\<lambda>s. s\<lparr>snd_cwnd := w s\<rparr>) c)"
    and R_srtt: "R c (upd_state (\<lambda>s. s\<lparr>srtt := u s\<rparr>) c)"
    and R_rttvar: "R c (upd_state (\<lambda>s. s\<lparr>rttvar := v s\<rparr>) c)"
    and R_ssthresh: "2 * snd_mss (state c) \<le> x \<Longrightarrow> R c (upd_state (\<lambda>s. s\<lparr>ssthresh := x\<rparr>) c)"
    and R_rto: "(rto_ok c \<Longrightarrow> rto_ok (upd_state (\<lambda>s. s\<lparr>rexmit_timeout := y\<rparr>) c)) \<Longrightarrow>
      R c (upd_state (\<lambda>s. s\<lparr>rexmit_timeout := y\<rparr>) c)"
begin

lemma R_sendtime: "R c (upd_state (\<lambda>s. s\<lparr>rtseq_sendtime := x\<rparr>) c)"
  using R_rtt[where c = c and h = rtseq and t = "\<lambda>_. x"] by simp

lemma R_ssthresh_upd:
  assumes "2 * snd_mss (state c) \<le> f (state c)"
  shows "R c (upd_state (\<lambda>s. s\<lparr>ssthresh := f s\<rparr>) c)"
  using R_ssthresh[OF assms] by (simp add: upd_state_def)

lemma recalculateSlowStartThreshold_R: "R c (recalculateSlowStartThreshold c)"
  by (simp add: recalculateSlowStartThreshold_def Let_def R_ssthresh_upd)

lemma slowStartOrAvoidance_R: "slowStartOrAvoidance c = Inr d \<Longrightarrow> R c d"
  by (auto simp: slowStartOrAvoidance_def Let_def R_cwnd split: if_splits)

lemma TCPBaseAlg_sendData_R: "TCPBaseAlg_sendData c = Inr (r, d) \<Longrightarrow> R c d"
  unfolding TCPBaseAlg_sendData_def Let_def by (rule sendData_R)

lemma dropResult_sendData_R:
  "dropResult (sendData full cw c) = Inr d \<Longrightarrow> R c d"
  "dropResult (TCPBaseAlg_sendData c) = Inr d \<Longrightarrow> R c d"
  unfolding dropResult_def using sendData_R TCPBaseAlg_sendData_R by auto

lemma sendData_or_ack_R:
  assumes "ebind m (\<lambda>(sent, c). if \<not> sent then sendAck c else Inr c) = Inr d"
    and "\<And>r e. m = Inr (r, e) \<Longrightarrow> R c e"
  shows "R c d"
proof -
  obtain r e where m: "m = Inr (r, e)" and d: "(if \<not> r then sendAck e else Inr e) = Inr d"
    using assms(1) by auto
  have "R e d" using d sendAck_R R_refl by (auto split: if_splits)
  then show ?thesis using R_trans assms(2)[OF m] by blast
qed

lemma alg_established_R:
  assumes "alg_established act c = Inr d"
  shows "R c d"
proof (cases "tcpAlgorithm c = DumbTCP")
  case True
  then show ?thesis using assms sendData_or_ack_R[of _ d c] sendData_R R_refl
    by (auto simp: alg_established_def DumbTCP_established_def split: if_splits)
next
  case False
  let ?c = "upd_state (\<lambda>s. s\<lparr>snd_cwnd := snd_mss s\<rparr>) c"
  have "TCPBaseAlg_established act c = Inr d"
    using assms False by (auto simp: alg_established_def split: TCPAlgorithm.splits)
  then have "R ?c d"
    unfolding TCPBaseAlg_established_def Let_def
    using sendData_or_ack_R[of _ d ?c] TCPBaseAlg_sendData_R R_refl by (auto split: if_splits)
  then show ?thesis by (rule R_trans[OF R_cwnd])
qed

lemma alg_connectionClosed_R:
  assumes "alg_connectionClosed c = Inr d"
  shows "R c d"
proof -
  have "TCPBaseAlg_connectionClosed c = Inr d \<Longrightarrow> R c d"
    unfolding TCPBaseAlg_connectionClosed_def by (elim ebind_InrE) (meson cancelEvent_R R_trans)
  then show ?thesis using assms cancelEvent_R
    by (auto simp: alg_connectionClosed_def DumbTCP_connectionClosed_def split: TCPAlgorithm.splits)
qed

lemma TCPBaseAlg_processRexmitTimer_R:
  assumes "TCPBaseAlg_processRexmitTimer event c = Inr (ev, d)"
  shows "R c d"
proof -
  let ?c = "upd_state (\<lambda>s. s\<lparr>rexmit_count := rexmit_count s + 1\<rparr>) c"
  let ?t = "min (rexmit_timeout (state ?c) + rexmit_timeout (state ?c)) MAX_REXMIT_TIMEOUT"
  let ?e = "upd_state (\<lambda>s. s\<lparr>rexmit_timeout := ?t\<rparr>) ?c"
  have c: "R c ?c" by (rule R_rexmit_count)
  have e: "R ?c ?e"
    by (rule R_rto) (auto simp: rto_ok_def MIN_REXMIT_TIMEOUT_def MAX_REXMIT_TIMEOUT_def)
  have capped: "backOffRexmitTimeout ?c = ?e"
    by (simp add: backOffRexmitTimeout_def upd_state_def Let_def min_def)
  show ?thesis
  proof (cases "rexmit_count (state ?c) > MAX_REXMIT_COUNT")
    case True
    then have "d = signalConnectionTimeout ?c"
      using assms by (simp add: TCPBaseAlg_processRexmitTimer_def Let_def)
    then have "R ?c d"
      using R_outbox[of ?c] unfolding signalConnectionTimeout_def sendIndicationToApp_def by blast
    then show ?thesis using c R_trans by blast
  next
    case False
    then obtain f where "scheduleTimeout rexmitTimer (rexmit_timeout (state ?e)) ?e = Inr f"
      and "d = upd_state (\<lambda>s. s\<lparr>rtseq_sendtime := 0\<rparr>) f"
      using assms unfolding TCPBaseAlg_processRexmitTimer_def Let_def capped by auto
    then have "R ?e d" using R_trans[OF scheduleTimeout_R R_sendtime] by simp
    then show ?thesis using R_trans[OF c R_trans[OF e]] by simp
  qed
qed

lemma emap_Pair_R:
  assumes "emap (Pair ev) m = Inr (e, d)" and "\<And>d. m = Inr d \<Longrightarrow> R c d"
  shows "R c d"
  using assms by auto

lemma restart_cwnd_R:
  assumes "R (upd_state (\<lambda>s. s\<lparr>snd_cwnd := w s\<rparr>) (recalculateSlowStartThreshold c)) d"
  shows "R c d"
  using assms R_cwnd recalculateSlowStartThreshold_R R_trans by blast

lemma processRexmitTimer_R:
  assumes "processRexmitTimer event c = Inr (ev, d)"
  shows "R c d"
proof (cases "tcpAlgorithm c = DumbTCP")
  case True
  then show ?thesis using assms R_refl by (simp add: processRexmitTimer_def)
next
  case False
  let ?upd = "\<lambda>e. upd_state (\<lambda>s. s\<lparr>snd_cwnd := snd_mss s\<rparr>) (recalculateSlowStartThreshold e)"
  obtain f where "ebind (TCPBaseAlg_processRexmitTimer event c) (\<lambda>(event, e).
       if event = TCP_E_ABORT then Inr (event, e) else emap (Pair event) (f e)) = Inr (ev, d)"
    and f: "f = (\<lambda>e. retransmitOneSegment (?upd e)) \<or> f = (\<lambda>e. retransmitData (?upd e)) \<or>
      f = retransmitOneSegment"
    using assms False that[of "\<lambda>e. retransmitOneSegment (?upd e)"]
      that[of "\<lambda>e. retransmitData (?upd e)"] that[of retransmitOneSegment]
    unfolding processRexmitTimer_def TCPTahoe_processRexmitTimer_def
      TCPReno_processRexmitTimer_def TCPNoCongestionControl_processRexmitTimer_def Let_def
    by (cases "tcpAlgorithm c") auto
  then obtain e v where base: "TCPBaseAlg_processRexmitTimer event c = Inr (v, e)"
    and "(if v = TCP_E_ABORT then Inr (v, e) else emap (Pair v) (f e)) = Inr (ev, d)"
    by auto
  moreover have "R e d" if "f e = Inr d"
    using f that by (auto intro: retransmitOneSegment_R restart_cwnd_R[OF retransmitOneSegment_R]
        restart_cwnd_R[OF retransmitData_R])
  ultimately have "R e d" using R_refl by (auto split: if_splits)
  then show ?thesis using TCPBaseAlg_processRexmitTimer_R[OF base] R_trans by blast
qed

lemma alg_processTimer_R:
  assumes "alg_processTimer timer event c = Inr (ev, d)"
  shows "R c d"
proof -
  have "DumbTCP_processTimer timer event c = Inr (ev, d) \<Longrightarrow> R c d"
    unfolding DumbTCP_processTimer_def
    by (auto split: if_splits intro: R_trans[OF retransmitData_R scheduleTimeout_R])
  moreover have "TCPBaseAlg_processTimer timer event c = Inr (ev, d) \<Longrightarrow> R c d"
    unfolding TCPBaseAlg_processTimer_def TCPBaseAlg_processPersistTimer_def
      TCPBaseAlg_processDelayedAckTimer_def
    by (auto split: if_splits intro: processRexmitTimer_R sendProbe_R sendAck_R R_refl)
  ultimately show ?thesis using assms by (auto simp: alg_processTimer_def split: TCPAlgorithm.splits)
qed

lemma sendCommandInvoked_R: "sendCommandInvoked c = Inr d \<Longrightarrow> R c d"
  by (auto simp: sendCommandInvoked_def dropResult_sendData_R split: TCPAlgorithm.splits)

lemma receive_ack_R:
  "receivedOutOfOrderSegment c = Inr d \<Longrightarrow> R c d"
  "receivedAckForDataNotYetSent x c = Inr d \<Longrightarrow> R c d"
  by (simp_all add: receivedOutOfOrderSegment_def receivedAckForDataNotYetSent_def sendAck_R)

lemma receiveSeqChanged_R: "receiveSeqChanged c = Inr d \<Longrightarrow> R c d"
  by (auto simp: receiveSeqChanged_def TCPBaseAlg_receiveSeqChanged_def sendAck_R
      scheduleTimeout_R R_refl split: TCPAlgorithm.splits if_splits)

lemma rttMeasurementComplete_R:
  assumes "rttMeasurementComplete a b c = Inr d"
  shows "R c d"
proof -
  let ?e = "upd_state (\<lambda>s. s\<lparr>rttvar := rttvar s + 1 / 8 * (\<bar>b - a - srtt (state c)\<bar> - rttvar s)\<rparr>)
    (upd_state (\<lambda>s. s\<lparr>srtt := srtt s + 1 / 8 * (b - a - srtt (state c))\<rparr>) c)"
  let ?x = "clampRto (srtt (state ?e) + 4 * rttvar (state ?e))"
  have "R c ?e" by (rule R_trans[OF R_srtt R_rttvar])
  moreover have "d = upd_state (\<lambda>s. s\<lparr>rexmit_timeout := ?x\<rparr>) ?e"
    using assms unfolding rttMeasurementComplete_def Let_def
    by (elim ASSERT_InrE) (simp only: sum.inject)
  moreover have "R ?e (upd_state (\<lambda>s. s\<lparr>rexmit_timeout := ?x\<rparr>) ?e)"
    by (rule R_rto) (simp add: rto_ok_def clampRto_bounds del: upd_state_sel(2-))
  ultimately show ?thesis using R_trans by blast
qed

lemma TCPBaseAlg_receivedDataAck_R:
  assumes "TCPBaseAlg_receivedDataAck x c = Inr d"
  shows "R c d"
proof -
  obtain e f where 1: "cancelEvent rexmitTimer c = Inr e"
    and 2: "(if rtseq_sendtime (state e) \<noteq> 0 \<and> seqLess (rtseq (state e)) (snd_una (state e))
            then ebind (rttMeasurementComplete (rtseq_sendtime (state e)) (now e) e) (\<lambda>c.
                 Inr (upd_state (\<lambda>s. s\<lparr>rtseq_sendtime := 0\<rparr>) c))
            else Inr e) = Inr f"
    and 3: "(if snd_una (state f) = snd_max (state f) then Inr f else startRexmitTimer f) = Inr d"
    using assms unfolding TCPBaseAlg_receivedDataAck_def by (elim ebind_InrE)
  have "R e f"
    using 2 R_refl by (auto split: if_splits intro: R_trans[OF rttMeasurementComplete_R R_sendtime])
  moreover have "R f d" using 3 R_refl startRexmitTimer_R by (auto split: if_splits)
  ultimately show ?thesis using cancelEvent_R[OF 1] R_trans by blast
qed

lemma receivedDataAck_R:
  assumes "receivedDataAck x c = Inr d"
  shows "R c d"
proof -
  note base = TCPBaseAlg_receivedDataAck_R and send = dropResult_sendData_R
  have "TCPNoCongestionControl_receivedDataAck x c = Inr d \<Longrightarrow> R c d"
    unfolding TCPNoCongestionControl_receivedDataAck_def
    by (elim ebind_InrE) (rule R_trans[OF base send(2)])
  moreover have "TCPTahoe_receivedDataAck x c = Inr d \<Longrightarrow> R c d"
    unfolding TCPTahoe_receivedDataAck_def
    by (elim ebind_InrE) (meson base send slowStartOrAvoidance_R R_trans)
  moreover have "TCPReno_receivedDataAck x c = Inr d \<Longrightarrow> R c d"
    unfolding TCPReno_receivedDataAck_def
  proof (elim ebind_InrE)
    fix e f
    assume 1: "TCPBaseAlg_receivedDataAck x c = Inr e"
      and 2: "(if sint (dupacks (state e)) \<ge> 3 then Inr (upd_state (\<lambda>s. s\<lparr>snd_cwnd := ssthresh s\<rparr>) e)
               else slowStartOrAvoidance e) = Inr f"
      and 3: "dropResult (TCPBaseAlg_sendData f) = Inr d"
    have "R e f" using 2 R_cwnd slowStartOrAvoidance_R by (auto split: if_splits)
    then show "R c d" using base[OF 1] send(2)[OF 3] R_trans by blast
  qed
  ultimately show ?thesis using assms send(1)
    by (auto simp: receivedDataAck_def split: TCPAlgorithm.splits)
qed

lemma restartRexmit_R:
  assumes "restartRexmit c = Inr d"
  shows "R c d"
  using assms unfolding restartRexmit_def
  by (elim ebind_InrE) (auto intro: R_trans[OF R_trans[OF cancelEvent_R startRexmitTimer_R] R_sendtime])

lemma receivedDuplicateAck_R:
  assumes "receivedDuplicateAck c = Inr d"
  shows "R c d"
proof -
  have "TCPTahoe_receivedDuplicateAck c = Inr d \<Longrightarrow> R c d"
    unfolding TCPTahoe_receivedDuplicateAck_def Let_def
    by (auto split: if_splits intro: R_refl
        R_trans[OF retransmitOneSegment_R restart_cwnd_R[OF restartRexmit_R]])
  moreover have "TCPReno_receivedDuplicateAck c = Inr d \<Longrightarrow> R c d"
    unfolding TCPReno_receivedDuplicateAck_def Let_def
    by (auto split: if_splits intro: R_refl R_cwnd
        R_trans[OF retransmitOneSegment_R restart_cwnd_R[OF restartRexmit_R]])
  ultimately show ?thesis using assms R_refl
    by (auto simp: receivedDuplicateAck_def split: TCPAlgorithm.splits)
qed

end

text \<open>The algorithms change no more of a connection than the sending utilities do, and keep
  the retransmission timeout and the threshold within their bounds.\<close>

definition ssthresh_ok :: "TCPConnection \<Rightarrow> bool" where
  "ssthresh_ok c \<longleftrightarrow> 2 * snd_mss (state c) \<le> ssthresh (state c)"

interpretation alg_frame: alg_step "\<lambda>c d. conn_rest c = conn_rest d"
  by unfold_locales (auto simp: conn_rest_def upd_state_def)

interpretation alg_keeps_bounds: alg_step
    "\<lambda>c d. snd_mss (state d) = snd_mss (state c) \<and> (rto_ok c \<longrightarrow> rto_ok d) \<and> (ssthresh_ok c \<longrightarrow> ssthresh_ok d)"
  by unfold_locales (auto simp: rto_ok_def ssthresh_ok_def)

end
