(* ===== verification/TCP_FSM.thy ===== *)
theory TCP_FSM
  imports TCP_Algorithm
begin

text \<open>
  The TCP state machine: \<open>performStateTransition\<close> and \<open>stateEntered\<close> of
  \<open>Transport/TCP/TCPConnectionBase.cc\<close>. The table of transitions is the function
  \<open>nextState\<close>; the second argument is the \<open>active\<close> flag of the state block, which decides
  where a failed connection setup in \<open>SYN_RCVD\<close> leads. \<open>fsm_step\<close> is the same table as a
  step relation, by which the reachable states are characterised.
\<close>

fun nextState :: "TcpState \<Rightarrow> bool \<Rightarrow> TCPEventCode \<Rightarrow> TcpState" where
  "nextState TCP_S_INIT act event = (case event of
     TCP_E_OPEN_PASSIVE \<Rightarrow> TCP_S_LISTEN
   | TCP_E_OPEN_ACTIVE \<Rightarrow> TCP_S_SYN_SENT
   | _ \<Rightarrow> TCP_S_INIT)"
| "nextState TCP_S_LISTEN act event = (case event of
     TCP_E_OPEN_ACTIVE \<Rightarrow> TCP_S_SYN_SENT
   | TCP_E_SEND \<Rightarrow> TCP_S_SYN_SENT
   | TCP_E_CLOSE \<Rightarrow> TCP_S_CLOSED
   | TCP_E_ABORT \<Rightarrow> TCP_S_CLOSED
   | TCP_E_RCV_SYN \<Rightarrow> TCP_S_SYN_RCVD
   | _ \<Rightarrow> TCP_S_LISTEN)"
| "nextState TCP_S_SYN_RCVD act event = (case event of
     TCP_E_CLOSE \<Rightarrow> TCP_S_FIN_WAIT_1
   | TCP_E_ABORT \<Rightarrow> TCP_S_CLOSED
   | TCP_E_TIMEOUT_CONN_ESTAB \<Rightarrow> (if act then TCP_S_CLOSED else TCP_S_LISTEN)
   | TCP_E_RCV_RST \<Rightarrow> (if act then TCP_S_CLOSED else TCP_S_LISTEN)
   | TCP_E_RCV_ACK \<Rightarrow> TCP_S_ESTABLISHED
   | TCP_E_RCV_FIN \<Rightarrow> TCP_S_CLOSE_WAIT
   | TCP_E_RCV_UNEXP_SYN \<Rightarrow> TCP_S_CLOSED
   | _ \<Rightarrow> TCP_S_SYN_RCVD)"
| "nextState TCP_S_SYN_SENT act event = (case event of
     TCP_E_CLOSE \<Rightarrow> TCP_S_CLOSED
   | TCP_E_ABORT \<Rightarrow> TCP_S_CLOSED
   | TCP_E_TIMEOUT_CONN_ESTAB \<Rightarrow> TCP_S_CLOSED
   | TCP_E_RCV_RST \<Rightarrow> TCP_S_CLOSED
   | TCP_E_RCV_SYN_ACK \<Rightarrow> TCP_S_ESTABLISHED
   | TCP_E_RCV_SYN \<Rightarrow> TCP_S_SYN_RCVD
   | _ \<Rightarrow> TCP_S_SYN_SENT)"
| "nextState TCP_S_ESTABLISHED act event = (case event of
     TCP_E_CLOSE \<Rightarrow> TCP_S_FIN_WAIT_1
   | TCP_E_ABORT \<Rightarrow> TCP_S_CLOSED
   | TCP_E_RCV_FIN \<Rightarrow> TCP_S_CLOSE_WAIT
   | TCP_E_RCV_RST \<Rightarrow> TCP_S_CLOSED
   | TCP_E_RCV_UNEXP_SYN \<Rightarrow> TCP_S_CLOSED
   | _ \<Rightarrow> TCP_S_ESTABLISHED)"
| "nextState TCP_S_CLOSE_WAIT act event = (case event of
     TCP_E_CLOSE \<Rightarrow> TCP_S_LAST_ACK
   | TCP_E_ABORT \<Rightarrow> TCP_S_CLOSED
   | TCP_E_RCV_RST \<Rightarrow> TCP_S_CLOSED
   | TCP_E_RCV_UNEXP_SYN \<Rightarrow> TCP_S_CLOSED
   | _ \<Rightarrow> TCP_S_CLOSE_WAIT)"
| "nextState TCP_S_LAST_ACK act event = (case event of
     TCP_E_ABORT \<Rightarrow> TCP_S_CLOSED
   | TCP_E_RCV_ACK \<Rightarrow> TCP_S_CLOSED
   | TCP_E_RCV_RST \<Rightarrow> TCP_S_CLOSED
   | TCP_E_RCV_UNEXP_SYN \<Rightarrow> TCP_S_CLOSED
   | _ \<Rightarrow> TCP_S_LAST_ACK)"
| "nextState TCP_S_FIN_WAIT_1 act event = (case event of
     TCP_E_ABORT \<Rightarrow> TCP_S_CLOSED
   | TCP_E_RCV_FIN \<Rightarrow> TCP_S_CLOSING
   | TCP_E_RCV_ACK \<Rightarrow> TCP_S_FIN_WAIT_2
   | TCP_E_RCV_FIN_ACK \<Rightarrow> TCP_S_TIME_WAIT
   | TCP_E_RCV_RST \<Rightarrow> TCP_S_CLOSED
   | TCP_E_RCV_UNEXP_SYN \<Rightarrow> TCP_S_CLOSED
   | _ \<Rightarrow> TCP_S_FIN_WAIT_1)"
| "nextState TCP_S_FIN_WAIT_2 act event = (case event of
     TCP_E_ABORT \<Rightarrow> TCP_S_CLOSED
   | TCP_E_RCV_FIN \<Rightarrow> TCP_S_TIME_WAIT
   | TCP_E_TIMEOUT_FIN_WAIT_2 \<Rightarrow> TCP_S_CLOSED
   | TCP_E_RCV_RST \<Rightarrow> TCP_S_CLOSED
   | TCP_E_RCV_UNEXP_SYN \<Rightarrow> TCP_S_CLOSED
   | _ \<Rightarrow> TCP_S_FIN_WAIT_2)"
| "nextState TCP_S_CLOSING act event = (case event of
     TCP_E_ABORT \<Rightarrow> TCP_S_CLOSED
   | TCP_E_RCV_ACK \<Rightarrow> TCP_S_TIME_WAIT
   | TCP_E_RCV_RST \<Rightarrow> TCP_S_CLOSED
   | TCP_E_RCV_UNEXP_SYN \<Rightarrow> TCP_S_CLOSED
   | _ \<Rightarrow> TCP_S_CLOSING)"
| "nextState TCP_S_TIME_WAIT act event = (case event of
     TCP_E_ABORT \<Rightarrow> TCP_S_CLOSED
   | TCP_E_TIMEOUT_2MSL \<Rightarrow> TCP_S_CLOSED
   | TCP_E_RCV_RST \<Rightarrow> TCP_S_CLOSED
   | TCP_E_RCV_UNEXP_SYN \<Rightarrow> TCP_S_CLOSED
   | _ \<Rightarrow> TCP_S_TIME_WAIT)"
| "nextState TCP_S_CLOSED act event = TCP_S_CLOSED"

definition stateEntered :: "TcpState \<Rightarrow> TCPConnection \<Rightarrow> TCPConnection result" where
  "stateEntered st c =
     (if st \<in> {TCP_S_INIT, TCP_S_SYN_RCVD, TCP_S_SYN_SENT} then Inr c
      else if st = TCP_S_LISTEN then
        ASSERT (timers c connEstabTimer \<noteq> NoTimer \<and> timers c synRexmitTimer \<noteq> NoTimer)
          ''connEstabTimer && synRexmitTimer''
          (ebind (cancelEvent connEstabTimer c) (cancelEvent synRexmitTimer))
      else if st = TCP_S_ESTABLISHED then
        ebind (deleteTimer connEstabTimer c) (\<lambda>c.
        ebind (deleteTimer synRexmitTimer c) (\<lambda>c. Inr (sendEstabIndicationToApp c)))
      else if st = TCP_S_CLOSED then
        alg_connectionClosed
          (cancelIfAllocated synRexmitTimer
            (cancelIfAllocated finWait2Timer
              (cancelIfAllocated connEstabTimer (cancelIfAllocated the2MSLTimer c))))
      else Inr (cancelIfAllocated synRexmitTimer (cancelIfAllocated connEstabTimer c)))"

definition performStateTransition ::
    "TCPEventCode \<Rightarrow> TCPConnection \<Rightarrow> (bool \<times> TCPConnection) result" where
  "performStateTransition event c =
     ASSERT (fsm c \<noteq> TCP_S_CLOSED) ''fsm.state()!=TCP_S_CLOSED''
       (if event = TCP_E_IGNORE then Inr (True, c)
        else
          let oldState = fsm c;
              c = c\<lparr>fsm := nextState oldState (active (state c)) event\<rparr>
          in ebind (if oldState \<noteq> fsm c then stateEntered (fsm c) c else Inr c)
               (\<lambda>c. Inr (fsm c \<noteq> TCP_S_CLOSED, c)))"

section \<open>The diagram as a relation\<close>

inductive fsm_step :: "TcpState \<Rightarrow> TcpState \<Rightarrow> bool" where
  edge: "nextState s act event = t \<Longrightarrow> s \<noteq> t \<Longrightarrow> event \<noteq> TCP_E_IGNORE \<Longrightarrow> fsm_step s t"

inductive_cases fsm_stepE: "fsm_step s t"
inductive_simps fsm_step_simps: "fsm_step s t"

text \<open>
  The life of a connection: not open, set up, established, closed by one side, by both,
  \<open>TIME_WAIT\<close>, closed.
\<close>

fun phase :: "TcpState \<Rightarrow> nat" where
  "phase TCP_S_INIT = 0"
| "phase TCP_S_LISTEN = 1" | "phase TCP_S_SYN_SENT = 1" | "phase TCP_S_SYN_RCVD = 1"
| "phase TCP_S_ESTABLISHED = 2"
| "phase TCP_S_CLOSE_WAIT = 3" | "phase TCP_S_FIN_WAIT_1 = 3"
| "phase TCP_S_LAST_ACK = 4" | "phase TCP_S_CLOSING = 4" | "phase TCP_S_FIN_WAIT_2 = 4"
| "phase TCP_S_TIME_WAIT = 5"
| "phase TCP_S_CLOSED = 6"

lemma nextState_phase:
  "nextState s act event = s \<or> phase s < phase (nextState s act event) \<or>
   (phase s = 1 \<and> phase (nextState s act event) = 1)"
  by (cases s) (auto split: TCPEventCode.splits)


lemma fsm_step_phase: "fsm_step s t \<Longrightarrow> phase s < phase t \<or> (phase s = 1 \<and> phase t = 1)"
  by (elim fsm_stepE) (metis nextState_phase)

lemma fsm_steps_phase: "fsm_step\<^sup>*\<^sup>* s t \<Longrightarrow> phase s \<le> phase t"
  by (induction rule: rtranclp_induct) (auto dest: fsm_step_phase)

text \<open>Beyond set-up a number of transitions is at most the number of phases left.\<close>

lemma fsm_steps_bounded:
  "(fsm_step ^^ n) s t \<Longrightarrow> 2 \<le> phase s \<Longrightarrow> phase s + n \<le> phase t"
proof (induction n arbitrary: t)
  case (Suc n)
  then obtain u where "(fsm_step ^^ n) s u" and "fsm_step u t" by auto
  then show ?case using Suc.IH[of u] Suc.prems(2) fsm_step_phase[of u t] by auto
qed auto

section \<open>What entering a state does\<close>

lemma cancelEvent_fsm: "cancelEvent t c = Inr d \<Longrightarrow> fsm d = fsm c"
  by (auto simp: cancelEvent_def split: timer_status.splits)

lemma alg_connectionClosed_fsm: "alg_connectionClosed c = Inr d \<Longrightarrow> fsm d = fsm c"
  using alg_frame.alg_connectionClosed_R conn_rest_eqD(1) by metis

lemma stateEntered_fsm: "stateEntered st c = Inr d \<Longrightarrow> fsm d = fsm c"
proof -
  have cia: "fsm (cancelIfAllocated t c) = fsm c" for t c
    by (simp add: cancelIfAllocated_def split: timer_status.splits)
  show "stateEntered st c = Inr d \<Longrightarrow> fsm d = fsm c"
    unfolding stateEntered_def deleteTimer_def sendEstabIndicationToApp_def
    by (auto simp: cia split: if_splits dest!: cancelEvent_fsm alg_connectionClosed_fsm)
qed

lemma performStateTransition_fsm:
  assumes "performStateTransition event c = Inr (ret, d)"
  shows "fsm d = (if event = TCP_E_IGNORE then fsm c else nextState (fsm c) (active (state c)) event)"
    and "fsm c \<noteq> TCP_S_CLOSED" and "ret \<longleftrightarrow> fsm d \<noteq> TCP_S_CLOSED"
  using assms unfolding performStateTransition_def Let_def
  by (auto split: if_splits dest: stateEntered_fsm)

lemma not_scheduled_after_cancel:
  "cancelEvent t c = Inr d \<Longrightarrow> \<not> isScheduled t d \<and> (\<forall>u. isScheduled u d \<longrightarrow> isScheduled u c)"
  by (auto simp: cancelEvent_def isScheduled_def split: timer_status.splits if_splits)

lemma isScheduled_cancelIfAllocated [simp]:
  "isScheduled u (cancelIfAllocated t c) \<longleftrightarrow> u \<noteq> t \<and> isScheduled u c"
  by (auto simp: cancelIfAllocated_def isScheduled_def split: timer_status.splits if_splits)

lemma isScheduled_fsm [simp]: "isScheduled t (c\<lparr>fsm := st\<rparr>) \<longleftrightarrow> isScheduled t c"
  by (simp add: isScheduled_def)

lemma alg_connectionClosed_timers:
  assumes "alg_connectionClosed c = Inr d" and "isScheduled t d"
  shows "isScheduled t c \<and> t \<noteq> rexmitTimer \<and>
    (tcpAlgorithm c = DumbTCP \<or> t \<notin> {persistTimer, delayedAckTimer, keepAliveTimer})"
proof (cases "tcpAlgorithm c = DumbTCP")
  case True
  then show ?thesis using assms not_scheduled_after_cancel
    by (auto simp: alg_connectionClosed_def DumbTCP_connectionClosed_def)
next
  case False
  then have "TCPBaseAlg_connectionClosed c = Inr d"
    using assms(1) by (auto simp: alg_connectionClosed_def split: TCPAlgorithm.splits)
  then show ?thesis using assms(2) unfolding TCPBaseAlg_connectionClosed_def
    by (auto dest!: not_scheduled_after_cancel)
qed

section \<open>Properties\<close>



text \<open>C9: A connection that is to be removed leaves no timer behind: when a transition reports
  that the connection is closed, no timer of the connection or of its algorithm is scheduled
  (with \<open>DumbTCP\<close>, that is every timer it has).\<close>

theorem closing_cancels_all_timers:
  assumes "performStateTransition event c = Inr (False, d)"
    and "tcpAlgorithm c = DumbTCP \<longrightarrow> (\<forall>t \<in> {persistTimer, delayedAckTimer, keepAliveTimer}. timers c t = NoTimer)"
  shows "\<not> isScheduled t d"
proof
  assume sched: "isScheduled t d"
  have d: "fsm d = TCP_S_CLOSED" and c: "fsm c \<noteq> TCP_S_CLOSED"
    using performStateTransition_fsm[OF assms(1)] by simp_all
  let ?c = "c\<lparr>fsm := nextState (fsm c) (active (state c)) event\<rparr>"
  let ?e = "cancelIfAllocated synRexmitTimer (cancelIfAllocated finWait2Timer
    (cancelIfAllocated connEstabTimer (cancelIfAllocated the2MSLTimer ?c)))"
  have "event \<noteq> TCP_E_IGNORE" and n: "nextState (fsm c) (active (state c)) event = TCP_S_CLOSED"
    using performStateTransition_fsm(1)[OF assms(1)] d c by (auto split: if_splits)
  then have run: "alg_connectionClosed ?e = Inr d"
    using assms(1) c unfolding performStateTransition_def Let_def by (auto simp: stateEntered_def)
  have "tcpAlgorithm ?e = tcpAlgorithm c"
    by (simp add: cancelIfAllocated_def split: timer_status.splits)
  then have e: "isScheduled t ?e" "t \<noteq> rexmitTimer"
    and t: "tcpAlgorithm c = DumbTCP \<or> t \<notin> {persistTimer, delayedAckTimer, keepAliveTimer}"
    using alg_connectionClosed_timers[OF run sched] by simp_all
  then have "isScheduled t c" "t \<notin> {synRexmitTimer, finWait2Timer, connEstabTimer, the2MSLTimer}"
    by simp_all
  then show False using e(2) t assms(2) by (cases t) (auto simp: isScheduled_def)
qed

theorem closing_cancels_all_timers_witness:
  "\<exists>d. performStateTransition TCP_E_ABORT
      (alg_initialize ((new_TCPConnection 0 0 1)\<lparr>fsm := TCP_S_ESTABLISHED, tcpAlgorithm := TCPReno\<rparr>)
        \<lparr>timers := (\<lambda>t. Scheduled 1)\<rparr>) = Inr (False, d) \<and> \<not> isScheduled rexmitTimer d"
proof -
  let ?c = "alg_initialize ((new_TCPConnection 0 0 1)\<lparr>fsm := TCP_S_ESTABLISHED, tcpAlgorithm := TCPReno\<rparr>)
        \<lparr>timers := (\<lambda>t. Scheduled 1)\<rparr>"
  have alg: "tcpAlgorithm ?c = TCPReno" by (simp add: alg_initialize_def TCPBaseAlg_initialize_def)
  obtain d where d: "performStateTransition TCP_E_ABORT ?c = Inr (False, d)"
    by (simp add: performStateTransition_def stateEntered_def new_TCPConnection_def alg_initialize_def
        TCPBaseAlg_initialize_def cancelIfAllocated_def alg_connectionClosed_def
        TCPBaseAlg_connectionClosed_def cancelEvent_def)
  then show ?thesis using closing_cancels_all_timers[OF d, of rexmitTimer] alg by auto
qed

end
