(* ===== verification/TCP_Tables.thy ===== *)
theory TCP_Tables
  imports TCP_Connection
begin

text \<open>
  The tables of \<open>Transport/TCP/TCPMain.cc\<close>: socket pairs and application keys to
  connections, connection ids and ephemeral ports. A connection object is known by its
  address, a natural number. The tables are \<open>std::map\<close>s; here they are partial functions,
  with equality of keys where the code has the equivalence of \<open>SockPair::operator<\<close>.
\<close>

record AppConnKey =
  key_appGateIndex :: int
  key_connId :: int

record SockPair =
  sp_localAddr :: IPvXAddress
  sp_remoteAddr :: IPvXAddress
  sp_localPort :: int
  sp_remotePort :: int

type_synonym conn_ptr = nat

record TCPTables =
  tcpAppConnMap :: "AppConnKey \<rightharpoonup> conn_ptr"
  tcpConnMap :: "SockPair \<rightharpoonup> conn_ptr"
  nextConnId :: int
  nextEphemeralPort :: int

definition init_TCPTables :: "int \<Rightarrow> TCPTables" where
  "init_TCPTables connIdSoFar = \<lparr>tcpAppConnMap = Map.empty, tcpConnMap = Map.empty,
     nextConnId = connIdSoFar, nextEphemeralPort = 1024\<rparr>"

definition mkSockPair :: "IPvXAddress \<Rightarrow> IPvXAddress \<Rightarrow> int \<Rightarrow> int \<Rightarrow> SockPair" where
  "mkSockPair la ra lp rp = \<lparr>sp_localAddr = la, sp_remoteAddr = ra,
     sp_localPort = to_short lp, sp_remotePort = to_short rp\<rparr>"

definition sockPairOf :: "TCPConnection \<Rightarrow> SockPair" where
  "sockPairOf c = mkSockPair (localAddr c) (remoteAddr c) (localPort c) (remotePort c)"

definition appKeyOf :: "TCPConnection \<Rightarrow> AppConnKey" where
  "appKeyOf c = \<lparr>key_appGateIndex = appGateIndex c, key_connId = connId c\<rparr>"

definition findConnForSegment ::
    "TCPSegment \<Rightarrow> IPvXAddress \<Rightarrow> IPvXAddress \<Rightarrow> TCPTables \<Rightarrow> conn_ptr option" where
  "findConnForSegment tcpseg srcAddr destAddr m =
     (case tcpConnMap m (mkSockPair destAddr srcAddr (destPort tcpseg) (srcPort tcpseg)) of
        Some p \<Rightarrow> Some p
      | None \<Rightarrow>
     (case tcpConnMap m (mkSockPair nullAddr srcAddr (destPort tcpseg) (srcPort tcpseg)) of
        Some p \<Rightarrow> Some p
      | None \<Rightarrow>
     (case tcpConnMap m (mkSockPair destAddr nullAddr (destPort tcpseg) (-1)) of
        Some p \<Rightarrow> Some p
      | None \<Rightarrow> tcpConnMap m (mkSockPair nullAddr nullAddr (destPort tcpseg) (-1)))))"

definition findConnForApp :: "int \<Rightarrow> int \<Rightarrow> TCPTables \<Rightarrow> conn_ptr option" where
  "findConnForApp appGateIdx cId m =
     tcpAppConnMap m \<lparr>key_appGateIndex = appGateIdx, key_connId = cId\<rparr>"

definition getEphemeralPort :: "TCPTables \<Rightarrow> (int \<times> TCPTables) result" where
  "getEphemeralPort m =
     (if nextEphemeralPort m = 5000
      then Inl (OppError ''Ephemeral port range 1024..4999 exhausted'')
      else Inr (nextEphemeralPort m, m\<lparr>nextEphemeralPort := nextEphemeralPort m + 1\<rparr>))"

definition getNewConnId :: "TCPTables \<Rightarrow> int \<times> TCPTables" where
  "getNewConnId m = (nextConnId m + 1, m\<lparr>nextConnId := nextConnId m + 1\<rparr>)"

text \<open>The first argument is the address of the connection object.\<close>

definition updateSockPair ::
    "conn_ptr \<Rightarrow> IPvXAddress \<Rightarrow> IPvXAddress \<Rightarrow> int \<Rightarrow> int \<Rightarrow> TCPTables \<times> TCPConnection
      \<Rightarrow> (TCPTables \<times> TCPConnection) result" where
  "updateSockPair this la ra lp rp mc =
     (case mc of (m, conn) \<Rightarrow>
       let key = sockPairOf conn
       in ASSERT (case tcpConnMap m key of None \<Rightarrow> True | Some p \<Rightarrow> p = this) ''i->second==conn''
         (let m = m\<lparr>tcpConnMap := (tcpConnMap m)(key := None)\<rparr>;
              conn = conn\<lparr>localAddr := la, remoteAddr := ra, localPort := lp, remotePort := rp\<rparr>
          in Inr (m\<lparr>tcpConnMap := (tcpConnMap m)(sockPairOf conn \<mapsto> this)\<rparr>, conn)))"

text \<open>
  \<open>addForkedConnection\<close>: \<open>conn\<close> at address \<open>this\<close> becomes the accepted connection under
  a new id; \<open>newConn\<close> at address \<open>new\<close> keeps listening under the old one.
\<close>

definition addForkedConnection ::
    "conn_ptr \<Rightarrow> conn_ptr \<Rightarrow> IPvXAddress \<Rightarrow> IPvXAddress \<Rightarrow> int \<Rightarrow> int
      \<Rightarrow> TCPTables \<times> TCPConnection \<times> TCPConnection
      \<Rightarrow> (TCPTables \<times> TCPConnection \<times> TCPConnection) result" where
  "addForkedConnection this new la ra lp rp mcn =
     (case mcn of (m, conn, newConn) \<Rightarrow>
       ebind (updateSockPair this la ra lp rp (m, conn)) (\<lambda>(m, conn).
       ebind (updateSockPair new (localAddr newConn) (remoteAddr newConn)
                (localPort newConn) (remotePort newConn) (m, newConn)) (\<lambda>(m, newConn).
         let m = m\<lparr>tcpAppConnMap := (tcpAppConnMap m)(appKeyOf conn := None)\<rparr>
         in case getNewConnId m of (cId, m) \<Rightarrow>
           let conn = conn\<lparr>connId := cId\<rparr>;
               m = m\<lparr>tcpAppConnMap := (tcpAppConnMap m)(appKeyOf conn \<mapsto> this)\<rparr>;
               m = m\<lparr>tcpAppConnMap := (tcpAppConnMap m)(appKeyOf newConn \<mapsto> new)\<rparr>
           in Inr (m, conn, newConn))))"

definition removeFromTables :: "TCPConnection \<Rightarrow> TCPTables \<Rightarrow> TCPTables" where
  "removeFromTables conn m =
     m\<lparr>tcpAppConnMap := (tcpAppConnMap m)(appKeyOf conn := None),
       tcpConnMap := (tcpConnMap m)(sockPairOf conn := None)\<rparr>"

end
