(* ===== verification/TCP_Events.thy ===== *)
theory TCP_Events
  imports TCP_FSM TCP_Tables
begin

text \<open>
  Commands of the application (\<open>Transport/TCP/TCPConnectionEventProc.cc\<close>,
  \<open>processAppCommand\<close> in \<open>TCPConnectionBase.cc\<close>) and timers (\<open>processTimer\<close>, and the
  \<open>process_TIMEOUT\<close> functions at the end of \<open>TCPConnectionRcvSegment.cc\<close>). A handler does
  its work first and leaves the event code, which it may have changed, to the state machine.
  Handlers that register socket pairs also take and return the tables of \<open>TCPMain\<close>.
\<close>

section \<open>Commands\<close>

text \<open>
  The class names in an OPEN command select the queue classes and the algorithm; an empty
  name leaves the choice to a module parameter. The choice itself is what is kept here.
\<close>

datatype sendQueueClass = VirtualDataSendQueueClass | MsgBasedSendQueueClass
datatype receiveQueueClass = VirtualDataRcvQueueClass | MsgBasedRcvQueueClass

record TCPOpenCommand =
  oc_localAddr :: IPvXAddress
  oc_remoteAddr :: IPvXAddress
  oc_localPort :: int
  oc_remotePort :: int
  oc_fork :: bool
  oc_sendQueueClass :: sendQueueClass
  oc_receiveQueueClass :: receiveQueueClass
  oc_tcpAlgorithmClass :: TCPAlgorithm

datatype TcpCommand =
    TCP_C_OPEN_ACTIVE TCPOpenCommand
  | TCP_C_OPEN_PASSIVE TCPOpenCommand
  | TCP_C_SEND app_msg
  | TCP_C_CLOSE
  | TCP_C_ABORT
  | TCP_C_STATUS
  | TCP_C_unknown int

definition new_sendQueue :: "sendQueueClass \<Rightarrow> TCPSendQueue" where
  "new_sendQueue cl = (case cl of
     VirtualDataSendQueueClass \<Rightarrow> VirtualDataSQ new_TCPVirtualDataSendQueue
   | MsgBasedSendQueueClass \<Rightarrow> MsgBasedSQ new_TCPMsgBasedSendQueue)"

definition new_receiveQueue :: "receiveQueueClass \<Rightarrow> TCPReceiveQueue" where
  "new_receiveQueue cl = (case cl of
     VirtualDataRcvQueueClass \<Rightarrow> VirtualDataRQ new_TCPVirtualDataRcvQueue
   | MsgBasedRcvQueueClass \<Rightarrow> MsgBasedRQ new_TCPMsgBasedRcvQueue)"

definition sendQueueClassOf :: "TCPSendQueue \<Rightarrow> sendQueueClass" where
  "sendQueueClassOf q = (case q of
     VirtualDataSQ _ \<Rightarrow> VirtualDataSendQueueClass | MsgBasedSQ _ \<Rightarrow> MsgBasedSendQueueClass)"

definition receiveQueueClassOf :: "TCPReceiveQueue \<Rightarrow> receiveQueueClass" where
  "receiveQueueClassOf q = (case q of
     VirtualDataRQ _ \<Rightarrow> VirtualDataRcvQueueClass | MsgBasedRQ _ \<Rightarrow> MsgBasedRcvQueueClass)"

definition initConnection :: "TCPOpenCommand \<Rightarrow> TCPConnection \<Rightarrow> TCPConnection" where
  "initConnection openCmd c =
     alg_initialize (c\<lparr>sendQueue := new_sendQueue (oc_sendQueueClass openCmd),
       receiveQueue := new_receiveQueue (oc_receiveQueueClass openCmd),
       tcpAlgorithm := oc_tcpAlgorithmClass openCmd,
       state := new_TCPTahoeRenoFamilyStateVariables\<rparr>)"

definition cloneListeningConnection :: "TCPConnection \<Rightarrow> TCPConnection" where
  "cloneListeningConnection c =
     (let conn = (new_TCPConnection (now c) (appGateIndex c) (connId c))
            \<lparr>sendQueue := new_sendQueue (sendQueueClassOf (sendQueue c)),
             receiveQueue := new_receiveQueue (receiveQueueClassOf (receiveQueue c)),
             tcpAlgorithm := tcpAlgorithm c,
             state := new_TCPTahoeRenoFamilyStateVariables\<rparr>;
          conn = alg_initialize conn;
          conn = upd_state (\<lambda>s. s\<lparr>active := False, fork := True\<rparr>) conn
      in conn\<lparr>localAddr := localAddr c, localPort := localPort c, fsm := TCP_S_LISTEN\<rparr>)"

definition startSynRexmitTimer :: "TCPConnection \<Rightarrow> TCPConnection result" where
  "startSynRexmitTimer c =
     (let c = upd_state (\<lambda>s. s\<lparr>syn_rexmit_count := 0,
            syn_rexmit_timeout := TCP_TIMEOUT_SYN_REXMIT\<rparr>) c
      in ebind (if isScheduled synRexmitTimer c then cancelEvent synRexmitTimer c else Inr c)
           (\<lambda>c. scheduleTimeout synRexmitTimer (syn_rexmit_timeout (state c)) c))"

text \<open>What an active open and a SEND in \<open>LISTEN\<close> both do: the initial SYN and its timers.\<close>

definition sendInitialSyn :: "TCPConnection \<Rightarrow> TCPConnection result" where
  "sendInitialSyn c =
     ebind (sendSyn (selectInitialSeqNum c)) (\<lambda>c.
     ebind (startSynRexmitTimer c) (\<lambda>c.
     scheduleTimeout connEstabTimer TCP_TIMEOUT_CONN_ESTAB c))"

definition process_OPEN_ACTIVE ::
    "conn_ptr \<Rightarrow> TCPOpenCommand \<Rightarrow> TCPTables \<times> TCPConnection \<Rightarrow> (TCPTables \<times> TCPConnection) result" where
  "process_OPEN_ACTIVE this openCmd mc =
     (case mc of (m, c) \<Rightarrow>
       if fsm c \<in> {TCP_S_INIT, TCP_S_LISTEN}
       then
         let c = (if fsm c = TCP_S_INIT then initConnection openCmd c else c);
             c = upd_state (\<lambda>s. s\<lparr>active := True\<rparr>) c;
             la = oc_localAddr openCmd;
             ra = oc_remoteAddr openCmd;
             lp = to_short (oc_localPort openCmd);
             rp = to_short (oc_remotePort openCmd)
         in if isNull ra \<or> rp = -1
            then Inl (OppError ''Error processing command OPEN_ACTIVE: remote address and port must be specified'')
            else ebind (if lp = -1 then getEphemeralPort m else Inr (lp, m)) (\<lambda>(lp, m).
                 ebind (updateSockPair this la ra lp rp (m, c)) (\<lambda>(m, c).
                 emap (Pair m) (sendInitialSyn c)))
       else Inl (OppError ''Error processing command OPEN_ACTIVE: connection already exists''))"

definition process_OPEN_PASSIVE ::
    "conn_ptr \<Rightarrow> TCPOpenCommand \<Rightarrow> TCPTables \<times> TCPConnection \<Rightarrow> (TCPTables \<times> TCPConnection) result" where
  "process_OPEN_PASSIVE this openCmd mc =
     (case mc of (m, c) \<Rightarrow>
       if fsm c \<in> {TCP_S_INIT, TCP_S_LISTEN}
       then
         let c = (if fsm c = TCP_S_INIT then initConnection openCmd c else c);
             c = upd_state (\<lambda>s. s\<lparr>active := False, fork := oc_fork openCmd\<rparr>) c;
             la = oc_localAddr openCmd;
             lp = to_short (oc_localPort openCmd)
         in if lp = -1
            then Inl (OppError ''Error processing command OPEN_PASSIVE: local port must be specified'')
            else updateSockPair this la nullAddr lp (-1) (m, c)
       else Inl (OppError ''Error processing command OPEN_PASSIVE: connection already exists''))"

definition process_SEND :: "app_msg \<Rightarrow> TCPConnection \<Rightarrow> TCPConnection result" where
  "process_SEND msg c = (case fsm c of
     TCP_S_INIT \<Rightarrow> Inl (OppError ''Error processing command SEND: connection not open'')
   | TCP_S_LISTEN \<Rightarrow>
       ebind (sendInitialSyn (upd_state (\<lambda>s. s\<lparr>active := True\<rparr>) c)) (\<lambda>c.
       Inr (c\<lparr>sendQueue := enqueueAppData msg (sendQueue c)\<rparr>))
   | TCP_S_SYN_RCVD \<Rightarrow> Inr (c\<lparr>sendQueue := enqueueAppData msg (sendQueue c)\<rparr>)
   | TCP_S_SYN_SENT \<Rightarrow> Inr (c\<lparr>sendQueue := enqueueAppData msg (sendQueue c)\<rparr>)
   | TCP_S_ESTABLISHED \<Rightarrow>
       sendCommandInvoked (c\<lparr>sendQueue := enqueueAppData msg (sendQueue c)\<rparr>)
   | TCP_S_CLOSE_WAIT \<Rightarrow>
       sendCommandInvoked (c\<lparr>sendQueue := enqueueAppData msg (sendQueue c)\<rparr>)
   | TCP_S_CLOSED \<Rightarrow> Inr c
   | _ \<Rightarrow> Inl (OppError ''Error processing command SEND: connection closing''))"

definition process_CLOSE ::
    "TCPEventCode \<Rightarrow> TCPConnection \<Rightarrow> (TCPEventCode \<times> TCPConnection) result" where
  "process_CLOSE event c =
     (if fsm c = TCP_S_INIT
      then Inl (OppError ''Error processing command CLOSE: connection not open'')
      else if fsm c \<in> {TCP_S_LISTEN, TCP_S_SYN_SENT, TCP_S_CLOSED} then Inr (event, c)
      else if fsm c \<in> {TCP_S_SYN_RCVD, TCP_S_ESTABLISHED, TCP_S_CLOSE_WAIT}
      then
        ebind (if snd_max (state c) = bufferEndSeq (sendQueue c)
               then ebind (sendFin (upd_state (\<lambda>s. s\<lparr>snd_nxt := snd_max s\<rparr>) c)) (\<lambda>c.
                    Inr (event, upd_state (\<lambda>s. s\<lparr>snd_nxt := snd_nxt s + 1,
                                               snd_max := snd_nxt s + 1\<rparr>) c))
               else Inr (if fsm c = TCP_S_CLOSE_WAIT then TCP_E_IGNORE else event, c))
          (\<lambda>(event, c).
           Inr (event, upd_state (\<lambda>s. s\<lparr>send_fin := True,
                         snd_fin_seq := bufferEndSeq (sendQueue c)\<rparr>) c))
      else Inl (OppError ''Duplicate CLOSE command: connection already closing''))"

definition process_ABORT :: "TCPConnection \<Rightarrow> TCPConnection result" where
  "process_ABORT c =
     (if fsm c = TCP_S_INIT
      then Inl (OppError ''Error processing command ABORT: connection not open'')
      else if fsm c \<in> {TCP_S_SYN_RCVD, TCP_S_ESTABLISHED, TCP_S_FIN_WAIT_1,
                       TCP_S_FIN_WAIT_2, TCP_S_CLOSE_WAIT}
      then sendRst (snd_nxt (state c)) c
      else Inr c)"

definition process_STATUS :: "TCPConnection \<Rightarrow> TCPConnection result" where
  "process_STATUS c =
     (if fsm c = TCP_S_INIT
      then Inl (OppError ''Error processing command STATUS: connection not open'')
      else Inr (sendIndicationToApp
             (TCP_I_STATUS (fsm c) (localAddr c) (remoteAddr c) (localPort c) (remotePort c)
               (TCPStateVariables.truncate (state c))) c))"

definition preanalyseAppCommandEvent :: "TcpCommand \<Rightarrow> TCPEventCode result" where
  "preanalyseAppCommandEvent cmd = (case cmd of
     TCP_C_OPEN_ACTIVE _ \<Rightarrow> Inr TCP_E_OPEN_ACTIVE
   | TCP_C_OPEN_PASSIVE _ \<Rightarrow> Inr TCP_E_OPEN_PASSIVE
   | TCP_C_SEND _ \<Rightarrow> Inr TCP_E_SEND
   | TCP_C_CLOSE \<Rightarrow> Inr TCP_E_CLOSE
   | TCP_C_ABORT \<Rightarrow> Inr TCP_E_ABORT
   | TCP_C_STATUS \<Rightarrow> Inr TCP_E_STATUS
   | TCP_C_unknown _ \<Rightarrow> Inl (OppError ''Unknown message kind in app command''))"

definition handleAppCommand ::
    "conn_ptr \<Rightarrow> TcpCommand \<Rightarrow> TCPEventCode \<Rightarrow> TCPTables \<times> TCPConnection
      \<Rightarrow> (TCPEventCode \<times> TCPTables \<times> TCPConnection) result" where
  "handleAppCommand this cmd event mc =
     (case mc of (m, c) \<Rightarrow> (case cmd of
        TCP_C_OPEN_ACTIVE oc \<Rightarrow> emap (Pair event) (process_OPEN_ACTIVE this oc (m, c))
      | TCP_C_OPEN_PASSIVE oc \<Rightarrow> emap (Pair event) (process_OPEN_PASSIVE this oc (m, c))
      | TCP_C_SEND msg \<Rightarrow> emap (\<lambda>c. (event, m, c)) (process_SEND msg c)
      | TCP_C_CLOSE \<Rightarrow> emap (\<lambda>(event, c). (event, m, c)) (process_CLOSE event c)
      | TCP_C_ABORT \<Rightarrow> emap (\<lambda>c. (event, m, c)) (process_ABORT c)
      | TCP_C_STATUS \<Rightarrow> emap (\<lambda>c. (event, m, c)) (process_STATUS c)
      | TCP_C_unknown _ \<Rightarrow> Inl (OppError ''wrong event code'')))"

definition processAppCommand ::
    "conn_ptr \<Rightarrow> TcpCommand \<Rightarrow> TCPTables \<times> TCPConnection
      \<Rightarrow> (bool \<times> TCPTables \<times> TCPConnection) result" where
  "processAppCommand this cmd mc =
     ebind (preanalyseAppCommandEvent cmd) (\<lambda>event.
     ebind (handleAppCommand this cmd event mc) (\<lambda>(event, m, c).
     emap (\<lambda>(ret, c). (ret, m, c)) (performStateTransition event c)))"

section \<open>Timers\<close>

definition process_TIMEOUT_CONN_ESTAB :: "TCPConnection \<Rightarrow> TCPConnection result" where
  "process_TIMEOUT_CONN_ESTAB c =
     (if fsm c \<in> {TCP_S_SYN_RCVD, TCP_S_SYN_SENT}
      then Inr (if active (state c) then sendIndicationToApp TCP_I_TIMED_OUT c else c)
      else Inl (OppError ''Internal error: received CONN_ESTAB timeout''))"

definition process_TIMEOUT_2MSL :: "TCPConnection \<Rightarrow> TCPConnection result" where
  "process_TIMEOUT_2MSL c =
     (if fsm c = TCP_S_TIME_WAIT then Inr (sendIndicationToApp TCP_I_CLOSED c)
      else Inl (OppError ''Internal error: received time-wait (2MSL) timeout''))"

definition process_TIMEOUT_FIN_WAIT_2 :: "TCPConnection \<Rightarrow> TCPConnection result" where
  "process_TIMEOUT_FIN_WAIT_2 c =
     (if fsm c = TCP_S_FIN_WAIT_2 then Inr (sendIndicationToApp TCP_I_CLOSED c)
      else Inl (OppError ''Internal error: received FIN_WAIT_2 timeout''))"

definition backOffSynTimeout :: "TCPConnection \<Rightarrow> TCPConnection" where
  "backOffSynTimeout c =
     (let c = upd_state (\<lambda>s. s\<lparr>syn_rexmit_timeout := syn_rexmit_timeout s * 2\<rparr>) c
      in if syn_rexmit_timeout (state c) > TCP_TIMEOUT_SYN_REXMIT_MAX
         then upd_state (\<lambda>s. s\<lparr>syn_rexmit_timeout := TCP_TIMEOUT_SYN_REXMIT_MAX\<rparr>) c
         else c)"

definition process_TIMEOUT_SYN_REXMIT ::
    "TCPEventCode \<Rightarrow> TCPConnection \<Rightarrow> (TCPEventCode \<times> TCPConnection) result" where
  "process_TIMEOUT_SYN_REXMIT event c =
     (let c = upd_state (\<lambda>s. s\<lparr>syn_rexmit_count := syn_rexmit_count s + 1\<rparr>) c
      in if syn_rexmit_count (state c) > MAX_SYN_REXMIT_COUNT then Inr (TCP_E_ABORT, c)
         else
           ebind (case fsm c of
                    TCP_S_SYN_SENT \<Rightarrow> sendSyn c
                  | TCP_S_SYN_RCVD \<Rightarrow> sendSynAck c
                  | _ \<Rightarrow> Inl (OppError ''Internal error: SYN-REXMIT timer expired'')) (\<lambda>c.
           let c = backOffSynTimeout c
           in emap (Pair event)
                (scheduleTimeout synRexmitTimer (syn_rexmit_timeout (state c)) c)))"

definition handleTimer :: "TCPTimer \<Rightarrow> TCPConnection \<Rightarrow> (TCPEventCode \<times> TCPConnection) result" where
  "handleTimer msg c =
     (if msg = the2MSLTimer then emap (Pair TCP_E_TIMEOUT_2MSL) (process_TIMEOUT_2MSL c)
      else if msg = connEstabTimer
      then emap (Pair TCP_E_TIMEOUT_CONN_ESTAB) (process_TIMEOUT_CONN_ESTAB c)
      else if msg = finWait2Timer
      then emap (Pair TCP_E_TIMEOUT_FIN_WAIT_2) (process_TIMEOUT_FIN_WAIT_2 c)
      else if msg = synRexmitTimer then process_TIMEOUT_SYN_REXMIT TCP_E_IGNORE c
      else alg_processTimer msg TCP_E_IGNORE c)"

definition processTimer :: "TCPTimer \<Rightarrow> TCPConnection \<Rightarrow> (bool \<times> TCPConnection) result" where
  "processTimer msg c =
     ebind (handleTimer msg c) (\<lambda>(event, c). performStateTransition event c)"

end
