(* ===== verification/TCP_Input.thy ===== *)
theory TCP_Input
  imports TCP_Events
begin

text \<open>
  Arrival of segments: \<open>Transport/TCP/TCPConnectionRcvSegment.cc\<close> and
  \<open>processTCPSegment\<close> of \<open>TCPConnectionBase.cc\<close>. The steps of RFC 793 from the sequence
  number check to the FIN bit are separate definitions, composed in the order of the code
  by \<open>processSegment1stThru8th\<close>.
\<close>

section \<open>Segments for no connection\<close>

definition segmentArrivalWhileClosed ::
    "TCPSegment \<Rightarrow> IPvXAddress \<Rightarrow> IPvXAddress \<Rightarrow> tcp_out list result" where
  "segmentArrivalWhileClosed tcpseg srcAddr destAddr =
     (if rstBit tcpseg then Inr []
      else if \<not> ackBit tcpseg
      then emap (\<lambda>p. [p])
             (sendRstAck_static 0 (sequenceNo tcpseg + of_nat (payloadLength tcpseg))
               destAddr srcAddr (destPort tcpseg) (srcPort tcpseg))
      else emap (\<lambda>p. [p])
             (sendRst_static (ackNo tcpseg) destAddr srcAddr (destPort tcpseg) (srcPort tcpseg)))"

section \<open>RST in \<open>SYN_RCVD\<close>, and the ACK field\<close>

definition processRstInSynReceived ::
    "TCPSegment \<Rightarrow> TCPConnection \<Rightarrow> (TCPEventCode \<times> TCPConnection) result" where
  "processRstInSynReceived tcpseg c =
     ebind (discardUpTo (bufferEndSeq (sendQueue c)) (sendQueue c)) (\<lambda>q.
       let c = c\<lparr>sendQueue := q\<rparr>;
           c = (if active (state c) then sendIndicationToApp TCP_I_CONNECTION_REFUSED c else c)
       in Inr (TCP_E_RCV_RST, c))"

text \<open>The part of \<open>processAckInEstabEtc\<close> for an ACK in the window.\<close>

definition ackInWindow :: "TCPSegment \<Rightarrow> TCPConnection \<Rightarrow> TCPConnection result" where
  "ackInWindow tcpseg c =
     (let old_snd_una = snd_una (state c);
          c = upd_state (\<lambda>s. s\<lparr>snd_una := ackNo tcpseg\<rparr>) c;
          c = (if seqLess (snd_nxt (state c)) (snd_una (state c))
               then upd_state (\<lambda>s. s\<lparr>snd_nxt := snd_una s\<rparr>) c else c);
          finAcked = (send_fin (state c) \<and> ackNo tcpseg = snd_fin_seq (state c) + 1);
          discardUpToSeq = (if finAcked then snd_una (state c) - 1 else snd_una (state c));
          c = (if finAcked then upd_state (\<lambda>s. s\<lparr>fin_ack_rcvd := True\<rparr>) c else c)
      in ebind (discardUpTo discardUpToSeq (sendQueue c)) (\<lambda>q.
         let c = c\<lparr>sendQueue := q\<rparr>;
             c = (if seqLess (snd_wl1 (state c)) (sequenceNo tcpseg) \<or>
                     (snd_wl1 (state c) = sequenceNo tcpseg \<and>
                      seqLE (snd_wl2 (state c)) (ackNo tcpseg))
                  then upd_state (\<lambda>s. s\<lparr>snd_wnd := of_nat (window tcpseg),
                         snd_wl1 := sequenceNo tcpseg, snd_wl2 := ackNo tcpseg\<rparr>) c
                  else c)
         in ebind (receivedDataAck old_snd_una c) (\<lambda>c.
            Inr (upd_state (\<lambda>s. s\<lparr>dupacks := 0\<rparr>) c))))"

definition processAckInEstabEtc ::
    "TCPSegment \<Rightarrow> TCPConnection \<Rightarrow> (bool \<times> TCPConnection) result" where
  "processAckInEstabEtc tcpseg c =
     (if seqGE (snd_una (state c)) (ackNo tcpseg)
      then
        if snd_una (state c) = ackNo tcpseg \<and> payloadLength tcpseg = 0 \<and>
           snd_una (state c) \<noteq> snd_max (state c)
        then emap (Pair True)
               (receivedDuplicateAck (upd_state (\<lambda>s. s\<lparr>dupacks := dupacks s + 1\<rparr>) c))
        else Inr (True, upd_state (\<lambda>s. s\<lparr>dupacks := 0\<rparr>) c)
      else if seqLE (ackNo tcpseg) (snd_max (state c))
      then emap (Pair True) (ackInWindow tcpseg c)
      else
        ASSERT (seqGreater (ackNo tcpseg) (snd_max (state c))) ''seqGreater(ackNo,snd_max)''
          (ebind (receivedAckForDataNotYetSent (ackNo tcpseg) c) (\<lambda>c.
           Inr (False, upd_state (\<lambda>s. s\<lparr>dupacks := 0\<rparr>) c))))"

section \<open>The eight steps\<close>

text \<open>
  The second step, for an acceptable segment with the RST bit. In a state the switch does
  not list, \<open>ASSERT(0)\<close> fails.
\<close>

definition checkRst :: "TCPSegment \<Rightarrow> TCPConnection \<Rightarrow> (TCPEventCode \<times> TCPConnection) result" where
  "checkRst tcpseg c =
     (if fsm c = TCP_S_SYN_RCVD then processRstInSynReceived tcpseg c
      else if fsm c \<in> {TCP_S_ESTABLISHED, TCP_S_FIN_WAIT_1, TCP_S_FIN_WAIT_2, TCP_S_CLOSE_WAIT}
      then Inr (TCP_E_RCV_RST, sendIndicationToApp TCP_I_CONNECTION_RESET c)
      else if fsm c \<in> {TCP_S_CLOSING, TCP_S_LAST_ACK, TCP_S_TIME_WAIT}
      then Inr (TCP_E_RCV_RST, sendIndicationToApp TCP_I_CLOSED c)
      else Inl (AssertFailed ''0''))"

text \<open>The seventh step: the segment text.\<close>

definition sendDataToApp :: "app_msg list \<Rightarrow> TCPConnection \<Rightarrow> TCPConnection" where
  "sendDataToApp ms c =
     c\<lparr>outbox := outbox c @ map (\<lambda>m. ToApp (appGateIndex c) (connId c) (TCP_I_DATA m)) ms\<rparr>"

definition processSegmentText :: "TCPSegment \<Rightarrow> TCPConnection \<Rightarrow> TCPConnection result" where
  "processSegmentText tcpseg c =
     (if fsm c \<in> {TCP_S_ESTABLISHED, TCP_S_FIN_WAIT_1, TCP_S_FIN_WAIT_2} \<and>
         payloadLength tcpseg > 0
      then
        let old_rcv_nxt = rcv_nxt (state c)
        in case insertBytesFromSegment tcpseg (receiveQueue c) of (nxt, q) \<Rightarrow>
          let c = upd_state (\<lambda>s. s\<lparr>rcv_nxt := nxt\<rparr>) (c\<lparr>receiveQueue := q\<rparr>)
          in if old_rcv_nxt = rcv_nxt (state c) then receivedOutOfOrderSegment c
             else
               ebind (extractAll (rcv_nxt (state c)) (receiveQueue c)) (\<lambda>(ms, q).
                 let c = sendDataToApp ms (c\<lparr>receiveQueue := q\<rparr>)
                 in Inr (if fin_rcvd (state c) \<and> rcv_nxt (state c) = rcv_fin_seq (state c)
                         then sendIndicationToApp TCP_I_PEER_CLOSED
                                (upd_state (\<lambda>s. s\<lparr>rcv_nxt := rcv_fin_seq s + 1\<rparr>) c)
                         else c))
      else Inr c)"

text \<open>The eighth step: the FIN bit, with the event it causes in each state.\<close>

definition processFin ::
    "TCPSegment \<Rightarrow> TCPEventCode \<Rightarrow> TCPConnection \<Rightarrow> (TCPEventCode \<times> TCPConnection) result" where
  "processFin tcpseg event c =
     (if \<not> finBit tcpseg then Inr (event, c)
      else
        let fin_seq = sequenceNo tcpseg + of_nat (payloadLength tcpseg);
            c = (if rcv_nxt (state c) = fin_seq
                 then sendIndicationToApp TCP_I_PEER_CLOSED
                        (upd_state (\<lambda>s. s\<lparr>rcv_nxt := rcv_nxt s + 1\<rparr>) c)
                 else upd_state (\<lambda>s. s\<lparr>fin_rcvd := True, rcv_fin_seq := fin_seq\<rparr>) c)
        in (case fsm c of
              TCP_S_FIN_WAIT_1 \<Rightarrow>
                if fin_ack_rcvd (state c)
                then ebind (scheduleTimeout the2MSLTimer TCP_TIMEOUT_2MSL c) (\<lambda>c.
                     emap (Pair TCP_E_RCV_FIN_ACK) (cancelEvent finWait2Timer c))
                else Inr (TCP_E_RCV_FIN, c)
            | TCP_S_FIN_WAIT_2 \<Rightarrow>
                ebind (scheduleTimeout the2MSLTimer TCP_TIMEOUT_2MSL c) (\<lambda>c.
                emap (Pair TCP_E_RCV_FIN) (cancelEvent finWait2Timer c))
            | TCP_S_TIME_WAIT \<Rightarrow>
                ebind (cancelEvent the2MSLTimer c) (\<lambda>c.
                emap (Pair TCP_E_RCV_FIN) (scheduleTimeout the2MSLTimer TCP_TIMEOUT_2MSL c))
            | _ \<Rightarrow> Inr (TCP_E_RCV_FIN, c)))"

text \<open>
  From the sixth step to the end: text, FIN, the acknowledgment of what was received, and
  the CLOSE that was deferred in \<open>CLOSE_WAIT\<close>. The URG bit has no effect.
\<close>

definition processTextAndFin ::
    "TCPSegment \<Rightarrow> uint32 \<Rightarrow> TCPEventCode \<Rightarrow> TCPConnection \<Rightarrow> (TCPEventCode \<times> TCPConnection) result" where
  "processTextAndFin tcpseg old_snd_nxt event c =
     (let old_rcv_nxt = rcv_nxt (state c)
      in ebind (processSegmentText tcpseg c) (\<lambda>c.
         ebind (processFin tcpseg event c) (\<lambda>(event, c).
         ebind (if old_rcv_nxt \<noteq> rcv_nxt (state c) then receiveSeqChanged c else Inr c) (\<lambda>c.
         Inr (if fsm c = TCP_S_CLOSE_WAIT \<and> send_fin (state c) \<and>
                 snd_nxt (state c) = snd_fin_seq (state c) + 1 \<and> old_snd_nxt \<noteq> snd_nxt (state c)
              then TCP_E_CLOSE else event, c)))))"

text \<open>
  The fifth step after \<open>processAckInEstabEtc\<close>: our FIN may have been acknowledged. The
  result is either an event to return at once, or the event to go on with.
\<close>

definition checkFinAcked ::
    "TCPSegment \<Rightarrow> TCPEventCode \<Rightarrow> TCPConnection \<Rightarrow> (bool \<times> TCPEventCode \<times> TCPConnection) result" where
  "checkFinAcked tcpseg event c =
     (let event = (if fsm c = TCP_S_FIN_WAIT_1 \<and> fin_ack_rcvd (state c)
                   then TCP_E_RCV_ACK else event)
      in ebind (if fsm c = TCP_S_CLOSING \<and> fin_ack_rcvd (state c)
                then emap (Pair TCP_E_RCV_ACK) (scheduleTimeout the2MSLTimer TCP_TIMEOUT_2MSL c)
                else Inr (event, c)) (\<lambda>(event, c).
         if fsm c = TCP_S_LAST_ACK \<and> send_fin (state c) \<and>
            ackNo tcpseg = snd_fin_seq (state c) + 1
         then Inr (True, TCP_E_RCV_ACK, sendIndicationToApp TCP_I_CLOSED c)
         else if fsm c = TCP_S_TIME_WAIT
         then ebind (sendAck c) (\<lambda>c.
              ebind (cancelEvent the2MSLTimer c) (\<lambda>c.
              ebind (scheduleTimeout the2MSLTimer TCP_TIMEOUT_2MSL c) (\<lambda>c.
              Inr (False, event, c))))
         else Inr (False, event, c)))"

text \<open>The fifth step: the ACK field, for a segment that has the ACK bit.\<close>

definition processAck ::
    "TCPSegment \<Rightarrow> TCPConnection \<Rightarrow> (TCPEventCode \<times> TCPConnection) result" where
  "processAck tcpseg c =
     (if fsm c = TCP_S_SYN_RCVD \<and>
         (\<not> seqLE (snd_una (state c)) (ackNo tcpseg) \<or> \<not> seqLE (ackNo tcpseg) (snd_nxt (state c)))
      then emap (Pair TCP_E_IGNORE) (sendRst (ackNo tcpseg) c)
      else
        ebind (if fsm c = TCP_S_SYN_RCVD then emap (Pair TCP_E_RCV_ACK) (alg_established False c)
               else Inr (TCP_E_IGNORE, c)) (\<lambda>(event, c).
        let old_snd_nxt = snd_nxt (state c)
        in ebind (if fsm c \<in> {TCP_S_SYN_RCVD, TCP_S_ESTABLISHED, TCP_S_FIN_WAIT_1,
                              TCP_S_FIN_WAIT_2, TCP_S_CLOSE_WAIT, TCP_S_CLOSING}
                  then processAckInEstabEtc tcpseg c else Inr (True, c)) (\<lambda>(ok, c).
           if \<not> ok then Inr (TCP_E_IGNORE, c)
           else ebind (checkFinAcked tcpseg event c) (\<lambda>(stop, event, c).
                if stop then Inr (event, c)
                else processTextAndFin tcpseg old_snd_nxt event c))))"

definition processSegment1stThru8th ::
    "TCPSegment \<Rightarrow> TCPConnection \<Rightarrow> (TCPEventCode \<times> TCPConnection) result" where
  "processSegment1stThru8th tcpseg c =
     (if \<not> isSegmentAcceptable tcpseg c
      then if rstBit tcpseg then Inr (TCP_E_IGNORE, c)
           else emap (Pair TCP_E_IGNORE) (sendAck c)
      else if rstBit tcpseg then checkRst tcpseg c
      else if synBit tcpseg
      then ASSERT (isSegmentAcceptable tcpseg c) ''isSegmentAcceptable(tcpseg)''
             (Inr (TCP_E_RCV_UNEXP_SYN, sendIndicationToApp TCP_I_CONNECTION_RESET c))
      else if \<not> ackBit tcpseg then Inr (TCP_E_IGNORE, c)
      else processAck tcpseg c)"

section \<open>Connection setup\<close>

text \<open>
  The answer to a SYN in \<open>LISTEN\<close>, by the connection that is to be the accepted one.
\<close>

definition answerSynInListen :: "TCPSegment \<Rightarrow> TCPConnection \<Rightarrow> TCPConnection result" where
  "answerSynInListen tcpseg c =
     (let c = upd_state (\<lambda>s. s\<lparr>rcv_nxt := sequenceNo tcpseg + 1, irs := sequenceNo tcpseg\<rparr>) c;
          c = c\<lparr>receiveQueue := rcvq_init (rcv_nxt (state c)) (receiveQueue c)\<rparr>;
          c = selectInitialSeqNum c;
          c = upd_state (\<lambda>s. s\<lparr>snd_wnd := of_nat (window tcpseg),
                snd_wl1 := sequenceNo tcpseg, snd_wl2 := iss s\<rparr>) c
      in ebind (sendSynAck c) (\<lambda>c.
         ebind (startSynRexmitTimer c) (\<lambda>c.
         ebind (if \<not> isScheduled connEstabTimer c
                then scheduleTimeout connEstabTimer TCP_TIMEOUT_CONN_ESTAB c
                else Inr c) (\<lambda>c.
         Inr (if payloadLength tcpseg > 0
              then c\<lparr>receiveQueue := snd (insertBytesFromSegment tcpseg (receiveQueue c))\<rparr>
              else c)))))"

text \<open>
  \<open>this\<close> is the address of the connection. With \<open>fork\<close>, the clone that keeps listening
  gets the address \<open>new\<close>; it is part of the result.
\<close>

definition processSegmentInListen ::
    "conn_ptr \<Rightarrow> conn_ptr \<Rightarrow> TCPSegment \<Rightarrow> IPvXAddress \<Rightarrow> IPvXAddress \<Rightarrow> TCPTables \<times> TCPConnection
      \<Rightarrow> (TCPEventCode \<times> TCPTables \<times> TCPConnection \<times> TCPConnection option) result" where
  "processSegmentInListen this new tcpseg srcAddr destAddr mc =
     (case mc of (m, c) \<Rightarrow>
       if rstBit tcpseg then Inr (TCP_E_IGNORE, m, c, None)
       else if ackBit tcpseg
       then emap (\<lambda>c. (TCP_E_IGNORE, m, c, None))
              (sendRstTo (ackNo tcpseg) destAddr srcAddr (destPort tcpseg) (srcPort tcpseg) c)
       else if synBit tcpseg
       then
         ebind (if fork (state c)
                then ebind (addForkedConnection this new destAddr srcAddr
                              (destPort tcpseg) (srcPort tcpseg)
                              (m, c, cloneListeningConnection c)) (\<lambda>(m, c, conn).
                     Inr (m, c, Some conn))
                else ebind (updateSockPair this destAddr srcAddr
                              (destPort tcpseg) (srcPort tcpseg) (m, c)) (\<lambda>(m, c).
                     Inr (m, c, None))) (\<lambda>(m, c, spinoff).
         emap (\<lambda>c. (TCP_E_RCV_SYN, m, c, spinoff)) (answerSynInListen tcpseg c))
       else Inr (TCP_E_IGNORE, m, c, None))"

text \<open>
  The fourth step in \<open>SYN_SENT\<close>, for a segment with the SYN bit: its ACK field is taken
  over, and our SYN is acknowledged, or this is a simultaneous open.
\<close>

definition takeAckOfSyn :: "TCPSegment \<Rightarrow> TCPConnection \<Rightarrow> TCPConnection result" where
  "takeAckOfSyn tcpseg c =
     (if ackBit tcpseg
      then
        let c = upd_state (\<lambda>s. s\<lparr>snd_una := ackNo tcpseg\<rparr>) c
        in ebind (discardUpTo (snd_una (state c)) (sendQueue c)) (\<lambda>q.
           Inr (upd_state (\<lambda>s. s\<lparr>snd_wnd := of_nat (window tcpseg),
                  snd_wl1 := sequenceNo tcpseg, snd_wl2 := ackNo tcpseg\<rparr>)
                  (c\<lparr>sendQueue := q\<rparr>)))
      else Inr c)"

definition synSentOutcome :: "TCPSegment \<Rightarrow> TCPConnection \<Rightarrow> (TCPEventCode \<times> TCPConnection) result" where
  "synSentOutcome tcpseg c =
     (if seqGreater (snd_una (state c)) (iss (state c))
      then
        let c = (if payloadLength tcpseg > 0
                 then (case insertBytesFromSegment tcpseg (receiveQueue c) of (nxt, q) \<Rightarrow>
                         upd_state (\<lambda>s. s\<lparr>rcv_nxt := nxt\<rparr>) (c\<lparr>receiveQueue := q\<rparr>))
                 else c)
        in emap (Pair TCP_E_RCV_SYN_ACK) (alg_established True c)
      else
        let c = upd_state (\<lambda>s. s\<lparr>snd_nxt := iss s, snd_max := iss s\<rparr>) c
        in ebind (sendSynAck c) (\<lambda>c.
           ebind (startSynRexmitTimer c) (\<lambda>c.
           Inr (TCP_E_RCV_SYN,
                if payloadLength tcpseg > 0
                then c\<lparr>receiveQueue := snd (insertBytesFromSegment tcpseg (receiveQueue c))\<rparr>
                else c))))"

definition synInSynSent ::
    "conn_ptr \<Rightarrow> TCPSegment \<Rightarrow> IPvXAddress \<Rightarrow> IPvXAddress \<Rightarrow> TCPTables \<times> TCPConnection
      \<Rightarrow> (TCPEventCode \<times> TCPTables \<times> TCPConnection) result" where
  "synInSynSent this tcpseg srcAddr destAddr mc =
     (case mc of (m, c) \<Rightarrow>
       let c = upd_state (\<lambda>s. s\<lparr>rcv_nxt := sequenceNo tcpseg + 1, irs := sequenceNo tcpseg\<rparr>) c;
           c = c\<lparr>receiveQueue := rcvq_init (rcv_nxt (state c)) (receiveQueue c)\<rparr>
       in ebind (takeAckOfSyn tcpseg c) (\<lambda>c.
          ebind (updateSockPair this destAddr srcAddr (destPort tcpseg) (srcPort tcpseg) (m, c))
            (\<lambda>(m, c).
          emap (\<lambda>(event, c). (event, m, c)) (synSentOutcome tcpseg c))))"

definition processSegmentInSynSent ::
    "conn_ptr \<Rightarrow> TCPSegment \<Rightarrow> IPvXAddress \<Rightarrow> IPvXAddress \<Rightarrow> TCPTables \<times> TCPConnection
      \<Rightarrow> (TCPEventCode \<times> TCPTables \<times> TCPConnection) result" where
  "processSegmentInSynSent this tcpseg srcAddr destAddr mc =
     (case mc of (m, c) \<Rightarrow>
       if ackBit tcpseg \<and>
          (seqLE (ackNo tcpseg) (iss (state c)) \<or> seqGreater (ackNo tcpseg) (snd_nxt (state c)))
       then emap (\<lambda>c. (TCP_E_IGNORE, m, c))
              (sendRstTo (ackNo tcpseg) destAddr srcAddr (destPort tcpseg) (srcPort tcpseg) c)
       else if rstBit tcpseg
       then if ackBit tcpseg
            then Inr (TCP_E_RCV_RST, m, sendIndicationToApp TCP_I_CONNECTION_RESET c)
            else Inr (TCP_E_IGNORE, m, c)
       else if synBit tcpseg then synInSynSent this tcpseg srcAddr destAddr (m, c)
       else Inr (TCP_E_IGNORE, m, c))"

section \<open>Dispatch\<close>

definition process_RCV_SEGMENT ::
    "conn_ptr \<Rightarrow> conn_ptr \<Rightarrow> TCPSegment \<Rightarrow> IPvXAddress \<Rightarrow> IPvXAddress \<Rightarrow> TCPTables \<times> TCPConnection
      \<Rightarrow> (TCPEventCode \<times> TCPTables \<times> TCPConnection \<times> TCPConnection option) result" where
  "process_RCV_SEGMENT this new tcpseg src dest mc =
     (case mc of (m, c) \<Rightarrow>
       if fsm c = TCP_S_LISTEN then processSegmentInListen this new tcpseg src dest (m, c)
       else if fsm c = TCP_S_SYN_SENT
       then emap (\<lambda>(event, m, c). (event, m, c, None))
              (processSegmentInSynSent this tcpseg src dest (m, c))
       else emap (\<lambda>(event, c). (event, m, c, None)) (processSegment1stThru8th tcpseg c))"

definition processTCPSegment ::
    "conn_ptr \<Rightarrow> conn_ptr \<Rightarrow> TCPSegment \<Rightarrow> IPvXAddress \<Rightarrow> IPvXAddress \<Rightarrow> TCPTables \<times> TCPConnection
      \<Rightarrow> (bool \<times> TCPTables \<times> TCPConnection \<times> TCPConnection option) result" where
  "processTCPSegment this new tcpseg segSrcAddr segDestAddr mc =
     (case mc of (m, c) \<Rightarrow>
       ASSERT (isNull (localAddr c) \<or>
               (localAddr c = segDestAddr \<and> localPort c = destPort tcpseg))
         ''localAddr==segDestAddr && localPort==tcpseg->destPort()''
       (ASSERT (isNull (remoteAddr c) \<or>
                (remoteAddr c = segSrcAddr \<and> remotePort c = srcPort tcpseg))
         ''remoteAddr==segSrcAddr && remotePort==tcpseg->srcPort()''
       (ebind (process_RCV_SEGMENT this new tcpseg segSrcAddr segDestAddr (m, c))
          (\<lambda>(event, m, c, spinoff).
           emap (\<lambda>(ret, c). (ret, m, c, spinoff)) (performStateTransition event c)))))"

end
