(* ===== verification/TCP_Sending.thy ===== *)
theory TCP_Sending
  imports TCP_Util
begin

text \<open>
  What sending guarantees: an invariant that ties the send queue to the send variables, the
  segments \<open>sendData\<close> emits (contiguous from \<open>snd_max\<close>, none longer than the MSS, in total
  no more than the window allows and than is buffered), and that it never stops on an
  assertion; and what the retransmission functions do when a FIN is outstanding.
\<close>

section \<open>The segments in a log\<close>

fun segmentsOf :: "tcp_out list \<Rightarrow> TCPSegment list" where
  "segmentsOf [] = []"
| "segmentsOf (ToIP seg _ _ # xs) = seg # segmentsOf xs"
| "segmentsOf (ToIPv6 seg _ _ # xs) = seg # segmentsOf xs"
| "segmentsOf (ToApp _ _ _ # xs) = segmentsOf xs"

lemma segmentsOf_append [simp]: "segmentsOf (xs @ ys) = segmentsOf xs @ segmentsOf ys"
  by (induction xs rule: segmentsOf.induct) auto

text \<open>Segments that cover the sequence numbers from \<open>f\<close> up to \<open>t\<close> without a gap.\<close>

fun contiguous :: "nat \<Rightarrow> uint32 \<Rightarrow> TCPSegment list \<Rightarrow> uint32 \<Rightarrow> bool" where
  "contiguous mss f [] t \<longleftrightarrow> f = t"
| "contiguous mss f (seg # segs) t \<longleftrightarrow> sequenceNo seg = f \<and> 0 < payloadLength seg \<and>
     payloadLength seg \<le> mss \<and> ackBit seg \<and> contiguous mss (endSeq seg) segs t"

lemma sendToIP_segment:
  assumes "addr_ok c"
  obtains x where "sendToIP seg c = Inr (c\<lparr>outbox := outbox c @ [x]\<rparr>)"
    and "segmentsOf [x] = [seg\<lparr>srcPort := to_short (localPort c), destPort := to_short (remotePort c)\<rparr>]"
proof (cases "isIPv6 (remoteAddr c)")
  case True
  then obtain d e where "get6 (localAddr c) = Inr d" "get6 (remoteAddr c) = Inr e"
    using assms get6_ok[of "localAddr c"] get6_ok[of "remoteAddr c"] by (auto simp: addr_ok_def)
  then show thesis using True that by (simp add: sendToIP_def)
next
  case False
  then obtain d e where "get4 (localAddr c) = Inr d" "get4 (remoteAddr c) = Inr e"
    using assms get4_ok[of "localAddr c"] get4_ok[of "remoteAddr c"] by (auto simp: addr_ok_def)
  then show thesis using False that by (simp add: sendToIP_def)
qed

section \<open>The send queue and the send variables\<close>

text \<open>
  \<open>[begin, end)\<close> is buffered; \<open>snd_una\<close>, \<open>snd_max\<close> lie in it in this order, except that
  \<open>snd_max\<close> is one past the end when the FIN has been sent. The whole span is less than
  half of the sequence space.
\<close>

definition send_inv :: "TCPConnection \<Rightarrow> bool" where
  "send_inv c \<longleftrightarrow>
     (let b = bufferBeginSeq (sendQueue c); e = bufferEndSeq (sendQueue c); s = state c
      in off b e + 2 < half \<and> off b (snd_una s) \<le> off b (snd_max s) \<and>
         (send_fin s \<longrightarrow> snd_fin_seq s = e) \<and>
         off b (snd_max s) \<le> off b e + (if send_fin s then 1 else 0))"

lemma bytesAvailable_off:
  assumes "off b e < half" and "off b f < half"
  shows "bytesAvailable e f = off b e - off b f"
proof (cases "off b f < off b e")
  case True
  then show ?thesis
    using assms seqLess_off[of b f e] unat_diff_off[of e f b] by (simp add: bytesAvailable_def)
next
  case False
  then show ?thesis using assms seqLess_off[of b f e] by (simp add: bytesAvailable_def)
qed

lemma sendSegment_spec:
  assumes addr: "addr_ok c"
    and span: "off (bufferBeginSeq (sendQueue c)) (bufferEndSeq (sendQueue c)) < half"
    and pos: "off (bufferBeginSeq (sendQueue c)) (snd_nxt (state c))
      \<le> off (bufferBeginSeq (sendQueue c)) (bufferEndSeq (sendQueue c))"
    and n: "n \<le> bytesAvailable (bufferEndSeq (sendQueue c)) (snd_nxt (state c))"
  obtains x seg where "sendSegment n c = Inr ((upd_state (\<lambda>s. s\<lparr>snd_nxt :=
        (if send_fin s \<and> snd_nxt s + of_nat n = snd_fin_seq s then snd_fin_seq s + 1
         else snd_nxt s + of_nat n)\<rparr>) c)\<lparr>outbox := outbox c @ [x]\<rparr>)"
    and "segmentsOf [x] = [seg]" and "sequenceNo seg = snd_nxt (state c)"
    and "payloadLength seg = n" and "ackBit seg" and "ackNo seg = rcv_nxt (state c)"
    and "finBit seg \<longleftrightarrow> send_fin (state c) \<and> snd_nxt (state c) + of_nat n = snd_fin_seq (state c)"
proof -
  obtain ps where c: "createSegmentWithBytes (snd_nxt (state c)) n (sendQueue c) =
      Inr (new_TCPSegment\<lparr>sequenceNo := snd_nxt (state c), payloadLength := n, payloadList := ps\<rparr>)"
    using sq.create_available[OF span pos n] by blast
  define seg where "seg = new_TCPSegment\<lparr>sequenceNo := snd_nxt (state c), payloadLength := n,
    payloadList := ps, ackNo := rcv_nxt (state c), ackBit := True,
    window := unat (rcv_wnd (state c)),
    finBit := (send_fin (state c) \<and> snd_nxt (state c) + of_nat n = snd_fin_seq (state c))\<rparr>"
  let ?fin = "send_fin (state c) \<and> snd_nxt (state c) + of_nat n = snd_fin_seq (state c)"
  define d where "d = upd_state (\<lambda>s. s\<lparr>snd_nxt :=
    (if send_fin s \<and> snd_nxt s + of_nat n = snd_fin_seq s then snd_fin_seq s + 1
     else snd_nxt s + of_nat n)\<rparr>) c"
  have "addr_ok d" using addr by (simp add: d_def addr_ok_def)
  then obtain x where x: "sendToIP seg d = Inr (d\<lparr>outbox := outbox d @ [x]\<rparr>)"
    and sx: "segmentsOf [x] = [seg\<lparr>srcPort := to_short (localPort d), destPort := to_short (remotePort d)\<rparr>]"
    by (rule sendToIP_segment)
  have "sendSegment n c = sendToIP seg d"
    by (cases ?fin) (auto simp: sendSegment_def c seg_def d_def Let_def new_TCPSegment_def
        upd_state_def)
  then show thesis using x sx by (intro that) (auto simp: d_def seg_def new_TCPSegment_def)
qed

text \<open>The effect of sending \<open>k\<close> bytes from \<open>snd_nxt\<close> on, in one or more segments.\<close>

definition nxt_after :: "nat \<Rightarrow> 'a TCPStateVariables_scheme \<Rightarrow> uint32" where
  "nxt_after k s = (if 0 < k \<and> send_fin s \<and> snd_nxt s + of_nat k = snd_fin_seq s
                    then snd_fin_seq s + 1 else snd_nxt s + of_nat k)"

definition sends :: "nat \<Rightarrow> TCPConnection \<Rightarrow> TCPConnection \<Rightarrow> bool" where
  "sends k c d \<longleftrightarrow> (\<exists>xs. d = (upd_state (\<lambda>s. s\<lparr>snd_nxt := nxt_after k s\<rparr>) c)\<lparr>outbox := outbox c @ xs\<rparr> \<and>
     contiguous (unat (snd_mss (state c))) (snd_nxt (state c)) (segmentsOf xs)
       (snd_nxt (state c) + of_nat k))"

definition can_send :: "nat \<Rightarrow> TCPConnection \<Rightarrow> bool" where
  "can_send n c \<longleftrightarrow> addr_ok c \<and> 0 < snd_mss (state c) \<and>
     (let b = bufferBeginSeq (sendQueue c); e = bufferEndSeq (sendQueue c); nxt = snd_nxt (state c)
      in off b e < half \<and> (send_fin (state c) \<longrightarrow> snd_fin_seq (state c) = e) \<and>
         off b nxt + n \<le> off b e)"

lemma contiguous_append:
  "contiguous m f xs g \<Longrightarrow> contiguous m g ys t \<Longrightarrow> contiguous m f (xs @ ys) t"
  by (induction xs arbitrary: f) auto

lemma sends_0: "sends 0 c c"
  unfolding sends_def by (rule exI[of _ "[]"]) (simp add: nxt_after_def upd_state_def)

lemma can_send_nxt_after:
  assumes "can_send n c" and "k < n"
  shows "nxt_after k (state c) = snd_nxt (state c) + of_nat k"
proof (cases "send_fin (state c)")
  case True
  let ?b = "bufferBeginSeq (sendQueue c)"
  have "off ?b (snd_nxt (state c) + of_nat k) = off ?b (snd_nxt (state c)) + k"
    using assms by (intro off_add_small) (auto simp: can_send_def Let_def half_def)
  moreover have "off ?b (snd_fin_seq (state c)) \<noteq> off ?b (snd_nxt (state c)) + k"
    using assms True by (auto simp: can_send_def Let_def)
  ultimately have "snd_nxt (state c) + of_nat k \<noteq> snd_fin_seq (state c)" by metis
  then show ?thesis by (simp add: nxt_after_def)
qed (simp add: nxt_after_def)

lemma can_send_step:
  assumes "can_send n c" and "k < n" and "sends k c d"
  shows "can_send (n - k) d"
proof -
  let ?b = "bufferBeginSeq (sendQueue c)"
  have "off ?b (snd_nxt (state c) + of_nat k) = off ?b (snd_nxt (state c)) + k"
    using assms by (intro off_add_small) (auto simp: can_send_def Let_def half_def)
  then show ?thesis
    using assms can_send_nxt_after[OF assms(1,2)]
    by (auto simp: can_send_def Let_def sends_def addr_ok_def)
qed

lemma sends_trans:
  assumes "can_send n c" and "k < n" and "sends k c d" and "sends j d e"
  shows "sends (k + j) c e"
proof -
  have nxt: "nxt_after k (state c) = snd_nxt (state c) + of_nat k"
    using assms(1,2) by (rule can_send_nxt_after)
  obtain xs where d: "d = (upd_state (\<lambda>s. s\<lparr>snd_nxt := nxt_after k s\<rparr>) c)\<lparr>outbox := outbox c @ xs\<rparr>"
    and xs: "contiguous (unat (snd_mss (state c))) (snd_nxt (state c)) (segmentsOf xs)
       (snd_nxt (state c) + of_nat k)"
    using assms(3) unfolding sends_def by blast
  obtain ys where e: "e = (upd_state (\<lambda>s. s\<lparr>snd_nxt := nxt_after j s\<rparr>) d)\<lparr>outbox := outbox d @ ys\<rparr>"
    and ys: "contiguous (unat (snd_mss (state d))) (snd_nxt (state d)) (segmentsOf ys)
       (snd_nxt (state d) + of_nat j)"
    using assms(4) unfolding sends_def by blast
  have "contiguous (unat (snd_mss (state c))) (snd_nxt (state c)) (segmentsOf (xs @ ys))
      (snd_nxt (state c) + of_nat (k + j))"
    using contiguous_append[OF xs] ys by (simp add: d nxt add.assoc)
  moreover have "\<not> (0 < k \<and> send_fin (state c) \<and> snd_nxt (state c) + of_nat k = snd_fin_seq (state c))"
    using nxt by (auto simp: nxt_after_def)
  then have "nxt_after j (state d) = nxt_after (k + j) (state c)"
    by (cases "j = 0") (auto simp: nxt_after_def d nxt add.assoc)
  ultimately show ?thesis unfolding sends_def
    by (intro exI[of _ "xs @ ys"]) (simp add: e d upd_state_def)
qed

lemma sendSegment_sends:
  assumes c: "can_send n c" and n: "0 < n" "n \<le> unat (snd_mss (state c))"
  obtains d where "sendSegment n c = Inr d" and "sends n c d"
proof -
  let ?b = "bufferBeginSeq (sendQueue c)" and ?e = "bufferEndSeq (sendQueue c)"
  have a: "addr_ok c" and span: "off ?b ?e < half" and pos: "off ?b (snd_nxt (state c)) + n \<le> off ?b ?e"
    using c by (auto simp: can_send_def Let_def)
  have av: "n \<le> bytesAvailable ?e (snd_nxt (state c))"
    using span pos by (subst bytesAvailable_off[of ?b]) auto
  show thesis
  proof (rule sendSegment_spec[OF a span _ av])
    show "off ?b (snd_nxt (state c)) \<le> off ?b ?e" using pos by simp
  next
    fix x seg
    assume 1: "sendSegment n c = Inr ((upd_state (\<lambda>s. s\<lparr>snd_nxt :=
        (if send_fin s \<and> snd_nxt s + of_nat n = snd_fin_seq s then snd_fin_seq s + 1
         else snd_nxt s + of_nat n)\<rparr>) c)\<lparr>outbox := outbox c @ [x]\<rparr>)"
      and 2: "segmentsOf [x] = [seg]" "sequenceNo seg = snd_nxt (state c)" "payloadLength seg = n" "ackBit seg"
    have "sends n c ((upd_state (\<lambda>s. s\<lparr>snd_nxt := nxt_after n s\<rparr>) c)\<lparr>outbox := outbox c @ [x]\<rparr>)"
      unfolding sends_def using 2 n by (intro exI[of _ "[x]"]) (simp add: endSeq_def)
    then show thesis using 1 n that by (simp add: nxt_after_def)
  qed
qed

text \<open>What remains below an MSS is left for later by the loop of \<open>sendData\<close>.\<close>

lemma sendWholeSegments_sends:
  assumes "can_send n c"
  shows "\<exists>d. sendWholeSegments n c = Inr d \<and> sends (n - n mod unat (snd_mss (state c))) c d"
  using assms
proof (induction n arbitrary: c rule: less_induct)
  case (less n)
  let ?mss = "unat (snd_mss (state c))"
  have mss: "0 < ?mss" using less.prems by (auto simp: can_send_def unat_gt_0)
  show ?case
  proof (cases "?mss \<le> n")
    case False
    then show ?thesis using sends_0[of c] by (subst sendWholeSegments.simps) (simp add: Let_def)
  next
    case True
    have "can_send ?mss c" using less.prems True by (auto simp: can_send_def Let_def)
    then obtain d where d: "sendSegment ?mss c = Inr d" "sends ?mss c d"
      using sendSegment_sends[of ?mss c] mss by blast
    have msd: "snd_mss (state d) = snd_mss (state c)" using d(2) by (auto simp: sends_def)
    have step: "sendWholeSegments n c = sendWholeSegments (n - ?mss) d"
      using True mss d(1) by (subst sendWholeSegments.simps) (simp add: Let_def)
    show ?thesis
    proof (cases "n = ?mss")
      case True
      moreover have "sendWholeSegments 0 d = Inr d"
        by (subst sendWholeSegments.simps) (auto simp: Let_def)
      ultimately show ?thesis using d step by simp
    next
      case False
      then have lt: "?mss < n" using True by simp
      then obtain e where e: "sendWholeSegments (n - ?mss) d = Inr e"
        "sends (n - ?mss - (n - ?mss) mod ?mss) d e"
        using less.IH[of "n - ?mss" d] can_send_step[OF less.prems lt d(2)] mss msd by auto
      have "?mss + (n - ?mss - (n - ?mss) mod ?mss) = n - n mod ?mss"
        using mod_less_eq_dividend[of "n - ?mss" ?mss] le_mod_geq[OF True] True by linarith
      then show ?thesis using sends_trans[OF less.prems lt d(2) e(2)] e(1) step by simp
    qed
  qed
qed

lemma retransmitLoop_sends:
  assumes "can_send n c"
  shows "\<exists>d. retransmitLoop n c = Inr d \<and> sends n c d"
  using assms
proof (induction n arbitrary: c rule: less_induct)
  case (less n)
  let ?k = "min n (unat (snd_mss (state c)))"
  have mss: "0 < unat (snd_mss (state c))" using less.prems by (auto simp: can_send_def unat_gt_0)
  show ?case
  proof (cases "n = 0")
    case True
    then show ?thesis using sends_0[of c] by (subst retransmitLoop.simps) (simp add: Let_def)
  next
    case False
    have "can_send ?k c" using less.prems by (auto simp: can_send_def Let_def)
    then obtain d where d: "sendSegment ?k c = Inr d" "sends ?k c d"
      using sendSegment_sends[of ?k c] mss False by auto
    have step: "retransmitLoop n c = retransmitLoop (n - ?k) d"
      using False mss d(1) by (subst retransmitLoop.simps) (simp add: Let_def)
    show ?thesis
    proof (cases "?k < n")
      case True
      then obtain e where e: "retransmitLoop (n - ?k) d = Inr e" "sends (n - ?k) d e"
        using less.IH[of "n - ?k" d] can_send_step[OF less.prems True d(2)] mss by auto
      show ?thesis using sends_trans[OF less.prems True d(2) e(2)] e(1) step True by simp
    next
      case False
      then have k: "?k = n" by simp
      moreover have "retransmitLoop 0 d = Inr d"
        by (subst retransmitLoop.simps) (simp add: Let_def)
      ultimately show ?thesis using d step by simp
    qed
  qed
qed

section \<open>After the transmission\<close>

text \<open>\<open>ackSent\<close> and \<open>dataSent\<close> succeed where the retransmission timer is allocated.\<close>

lemma ackSent_ok:
  obtains d where "ackSent c = Inr d" and "timers c rexmitTimer \<noteq> NoTimer \<longrightarrow> timers d rexmitTimer \<noteq> NoTimer"
    and "snd_max (state d) = snd_max (state c)" and "snd_nxt (state d) = snd_nxt (state c)"
    and "outbox d = outbox c"
proof -
  have "\<exists>d. ackSent c = Inr d \<and> (timers c rexmitTimer \<noteq> NoTimer \<longrightarrow> timers d rexmitTimer \<noteq> NoTimer) \<and>
    state d = state c \<and> outbox d = outbox c"
    by (cases "timers c delayedAckTimer")
      (auto simp: ackSent_def TCPBaseAlg_ackSent_def isScheduled_def cancelEvent_def
        split: TCPAlgorithm.splits)
  then show thesis using that by auto
qed

lemma dataSent_ok:
  assumes "timers c rexmitTimer \<noteq> NoTimer"
  obtains d where "dataSent x c = Inr d" and "timers d rexmitTimer \<noteq> NoTimer"
    and "snd_max (state d) = snd_max (state c)" and "snd_nxt (state d) = snd_nxt (state c)"
    and "outbox d = outbox c"
proof -
  have "\<exists>d. dataSent x c = Inr d \<and> timers d rexmitTimer \<noteq> NoTimer \<and>
      snd_max (state d) = snd_max (state c) \<and> snd_nxt (state d) = snd_nxt (state c) \<and> outbox d = outbox c"
    using assms
    by (cases "timers c rexmitTimer"; cases "tcpAlgorithm c")
      (auto simp: dataSent_def DumbTCP_dataSent_def TCPBaseAlg_dataSent_def startRexmitTimer_def
        isScheduled_def cancelEvent_def scheduleTimeout_def)
  then show thesis using that by auto
qed

lemma afterSend_ok:
  assumes "timers c rexmitTimer \<noteq> NoTimer"
  obtains d where "afterSend x c = Inr (True, d)" and "snd_max (state d) = snd_nxt (state c)"
    and "snd_nxt (state d) = snd_nxt (state c)" and "outbox d = outbox c"
    and "timers d rexmitTimer \<noteq> NoTimer"
proof -
  let ?c = "upd_state (\<lambda>s. s\<lparr>snd_max := snd_nxt s\<rparr>) c"
  obtain d where d: "ackSent ?c = Inr d" "timers d rexmitTimer \<noteq> NoTimer"
    "snd_max (state d) = snd_nxt (state c)" "snd_nxt (state d) = snd_nxt (state c)" "outbox d = outbox c"
    using assms ackSent_ok[of ?c] by auto
  obtain e where "dataSent x d = Inr e" "timers e rexmitTimer \<noteq> NoTimer"
    "snd_max (state e) = snd_max (state d)" "snd_nxt (state e) = snd_nxt (state d)" "outbox e = outbox d"
    using dataSent_ok[OF d(2)] by blast
  then show thesis using d that by (simp add: afterSend_def)
qed

section \<open>\<open>sendData\<close>\<close>

definition allowedWindow :: "int \<Rightarrow> uint32 \<Rightarrow> int" where
  "allowedWindow cw wnd = (if 0 \<le> cw then min (uint wnd) cw else uint wnd)"

lemma nxt_to_max_sel [simp]:
  "snd_nxt (state (nxt_to_max c)) = snd_max (state c)"
  "snd_max (state (nxt_to_max c)) = snd_max (state c)"
  "snd_una (state (nxt_to_max c)) = snd_una (state c)"
  "snd_wnd (state (nxt_to_max c)) = snd_wnd (state c)"
  "snd_mss (state (nxt_to_max c)) = snd_mss (state c)"
  "send_fin (state (nxt_to_max c)) = send_fin (state c)"
  "snd_fin_seq (state (nxt_to_max c)) = snd_fin_seq (state c)"
  "sendQueue (nxt_to_max c) = sendQueue c" "outbox (nxt_to_max c) = outbox c"
  "timers (nxt_to_max c) = timers c" "addr_ok (nxt_to_max c) = addr_ok c"
  by (simp_all add: nxt_to_max_def addr_ok_def)

lemma effectiveWin_nxt_to_max:
  "effectiveWin (state (nxt_to_max c)) cw =
     allowedWindow cw (snd_wnd (state c)) - int (off (snd_una (state c)) (snd_max (state c)))"
  by (simp add: effectiveWin_def allowedWindow_def off_def min_def)

lemma sendData_eq:
  "sendData full cw c =
     (let buf = bytesAvailable (bufferEndSeq (sendQueue c)) (snd_max (state c));
          win = allowedWindow cw (snd_wnd (state c)) - int (off (snd_una (state c)) (snd_max (state c)));
          n = min (nat win) buf
      in if buf = 0 \<or> win \<le> 0 \<or> (full \<and> n < unat (snd_mss (state c)))
         then Inr (False, nxt_to_max c)
         else ebind (if n \<le> unat (snd_mss (state c)) then sendSegment n (nxt_to_max c)
                     else sendWholeSegments n (nxt_to_max c)) (afterSend (snd_max (state c))))"
proof -
  have after: "afterSend x = (\<lambda>c. let c = upd_state (\<lambda>s. s\<lparr>snd_max := snd_nxt s\<rparr>) c
     in ebind (ackSent c) (\<lambda>c. ebind (dataSent x c) (\<lambda>c. Inr (True, c))))" for x
    by (rule ext) (simp add: afterSend_def Let_def)
  show ?thesis
    unfolding sendData_def nxt_to_max_def[symmetric] after
    unfolding Let_def effectiveWin_nxt_to_max nxt_to_max_sel
    by (simp only: ASSERT_def split: if_split) (auto simp only: min_def split: if_splits)
qed

text \<open>The amount \<open>sendData\<close> sends.\<close>

definition sendAmount :: "bool \<Rightarrow> int \<Rightarrow> TCPConnection \<Rightarrow> nat" where
  "sendAmount full cw c =
     (let s = state c; mss = unat (snd_mss s);
          buf = bytesAvailable (bufferEndSeq (sendQueue c)) (snd_max s);
          win = allowedWindow cw (snd_wnd s) - int (off (snd_una s) (snd_max s));
          n = min (nat win) buf
      in if full \<and> n < mss then 0 else if n \<le> mss then n else n - n mod mss)"

lemma send_inv_can_send:
  assumes inv: "send_inv c" and "addr_ok c" and "0 < snd_mss (state c)"
    and n: "0 < n" "n \<le> bytesAvailable (bufferEndSeq (sendQueue c)) (snd_max (state c))"
  shows "can_send n (nxt_to_max c)"
proof -
  let ?b = "bufferBeginSeq (sendQueue c)" and ?e = "bufferEndSeq (sendQueue c)"
  let ?x = "off ?b (snd_max (state c))"
  have lt: "?x < half" and e: "off ?b ?e < half"
    using inv by (auto simp: send_inv_def Let_def split: if_splits)
  then have "0 < off ?b ?e - ?x" "n \<le> off ?b ?e - ?x"
    using n bytesAvailable_off[OF e lt] by linarith+
  then show ?thesis using assms(1-3) e
    by (auto simp: can_send_def Let_def nxt_to_max_def send_inv_def addr_ok_def)
qed

lemma sendAmount_0:
  assumes "0 < (mss :: nat)"
  shows "(if full \<and> n < mss then 0 else if n \<le> mss then n else n - n mod mss) = 0
    \<longleftrightarrow> n = 0 \<or> (full \<and> n < mss)"
proof -
  have "n mod mss < n" if "\<not> n \<le> mss" using that assms mod_less_divisor[of mss n] by linarith
  then show ?thesis by auto
qed

lemma sendData_nothing:
  assumes "sendAmount full cw c = 0" and "0 < snd_mss (state c)"
  shows "sendData full cw c = Inr (False, nxt_to_max c)"
proof -
  have "0 < unat (snd_mss (state c))" using assms(2) by (simp add: unat_gt_0)
  then have "min (nat (allowedWindow cw (snd_wnd (state c)) - int (off (snd_una (state c)) (snd_max (state c)))))
      (bytesAvailable (bufferEndSeq (sendQueue c)) (snd_max (state c))) = 0 \<or>
    (full \<and> min (nat (allowedWindow cw (snd_wnd (state c)) - int (off (snd_una (state c)) (snd_max (state c)))))
      (bytesAvailable (bufferEndSeq (sendQueue c)) (snd_max (state c))) < unat (snd_mss (state c)))"
    using assms(1) unfolding sendAmount_def Let_def by (simp only: sendAmount_0)
  then show ?thesis unfolding sendData_eq Let_def by auto
qed

lemma sendData_something:
  assumes inv: "send_inv c" and "addr_ok c" and mss: "0 < snd_mss (state c)"
    and "timers c rexmitTimer \<noteq> NoTimer" and pos: "0 < sendAmount full cw c"
  obtains e d where "sends (sendAmount full cw c) (nxt_to_max c) e"
    and "can_send (sendAmount full cw c) (nxt_to_max c)"
    and "sendData full cw c = Inr (True, d)" and "snd_max (state d) = snd_nxt (state e)"
    and "snd_nxt (state d) = snd_nxt (state e)" and "outbox d = outbox e"
    and "timers d rexmitTimer \<noteq> NoTimer"
proof -
  let ?buf = "bytesAvailable (bufferEndSeq (sendQueue c)) (snd_max (state c))"
  let ?win = "allowedWindow cw (snd_wnd (state c)) - int (off (snd_una (state c)) (snd_max (state c)))"
  let ?n = "min (nat ?win) ?buf" and ?mss = "unat (snd_mss (state c))"
  have n: "0 < ?n" and full: "\<not> (full \<and> ?n < ?mss)"
    using pos by (auto simp: sendAmount_def Let_def split: if_splits)
  have can: "can_send ?n (nxt_to_max c)"
    using send_inv_can_send[OF assms(1-3) n] by simp
  have m: "snd_mss (state (nxt_to_max c)) = snd_mss (state c)" by (simp add: nxt_to_max_def)
  obtain e where e: "sends (sendAmount full cw c) (nxt_to_max c) e"
    and run: "(if ?n \<le> ?mss then sendSegment ?n (nxt_to_max c)
               else sendWholeSegments ?n (nxt_to_max c)) = Inr e"
  proof (cases "?n \<le> ?mss")
    case True
    then have a: "sendAmount full cw c = ?n" using full by (simp add: sendAmount_def Let_def)
    have "?n \<le> unat (snd_mss (state (nxt_to_max c)))" unfolding m by (rule True)
    from sendSegment_sends[OF can n this] show thesis using that a True by auto
  next
    case False
    then have a: "sendAmount full cw c = ?n - ?n mod ?mss"
      using full by (simp add: sendAmount_def Let_def)
    from sendWholeSegments_sends[OF can] show thesis using that a False m by auto
  qed
  have "timers e rexmitTimer \<noteq> NoTimer" using assms(4) e by (auto simp: sends_def nxt_to_max_def)
  then obtain d where d: "afterSend (snd_max (state c)) e = Inr (True, d)"
    "snd_max (state d) = snd_nxt (state e)" "snd_nxt (state d) = snd_nxt (state e)"
    "outbox d = outbox e" "timers d rexmitTimer \<noteq> NoTimer"
    by (rule afterSend_ok)
  have "\<not> (?buf = 0 \<or> ?win \<le> 0 \<or> full \<and> ?n < ?mss)" using n full by auto
  then have "sendData full cw c = Inr (True, d)"
    unfolding sendData_eq Let_def using run d(1) by simp
  moreover have "can_send (sendAmount full cw c) (nxt_to_max c)"
    using can by (auto simp: can_send_def Let_def sendAmount_def split: if_splits)
  ultimately show thesis using that e d by blast
qed

lemma if_le: "(if P then 0 else if n \<le> m then n else n - n mod m) \<le> (n :: nat)"
  by simp

lemma sends_frame:
  assumes "sends k c d"
  shows "conn_rest d = conn_rest c" and "snd_nxt (state d) = nxt_after k (state c)"
  using assms by (auto simp: sends_def conn_rest_def)

lemma off_nxt_after:
  assumes "can_send k c"
  shows "off (bufferBeginSeq (sendQueue c)) (nxt_after k (state c)) =
    off (bufferBeginSeq (sendQueue c)) (snd_nxt (state c)) + k +
      (if 0 < k \<and> send_fin (state c) \<and> snd_nxt (state c) + of_nat k = snd_fin_seq (state c) then 1 else 0)"
proof -
  let ?b = "bufferBeginSeq (sendQueue c)"
  have lt: "off ?b (snd_nxt (state c)) + k + 1 < 2 ^ 32"
    using assms by (auto simp: can_send_def Let_def half_def)
  have 1: "off ?b (snd_nxt (state c) + of_nat k) = off ?b (snd_nxt (state c)) + k"
    using lt by (intro off_add_small) simp
  have "off ?b (snd_nxt (state c) + of_nat k + 1) = off ?b (snd_nxt (state c)) + k + 1"
    using off_add_small[of ?b "snd_nxt (state c) + of_nat k" 1] lt 1 by simp
  then show ?thesis using 1 by (auto simp: nxt_after_def)
qed

lemma send_inv_after:
  assumes inv: "send_inv c" and can: "can_send k (nxt_to_max c)"
    and "snd_max (state d) = nxt_after k (state (nxt_to_max c))"
    and frame: "conn_rest c = conn_rest d"
  shows "send_inv d"
proof -
  let ?b = "bufferBeginSeq (sendQueue c)" and ?e = "bufferEndSeq (sendQueue c)"
  note rest = conn_rest_eqD[OF frame]
  have "off ?b (nxt_after k (state (nxt_to_max c))) \<le> off ?b ?e + (if send_fin (state c) then 1 else 0)"
    and "off ?b (snd_max (state c)) \<le> off ?b (nxt_after k (state (nxt_to_max c)))"
    using off_nxt_after[OF can] can by (auto simp: can_send_def Let_def)
  then show ?thesis using inv assms(3) rest by (auto simp: send_inv_def Let_def)
qed

text \<open>C4: Sending data, under the invariant between send queue and send variables and with
  the rexmit timer allocated, never stops on an assertion, whatever the window, the Nagle flag
  and the queue class. It sends the computed amount in contiguous segments that start at
  \<open>snd_max\<close>, none of them empty or longer than the MSS; \<open>snd_max\<close> and \<open>snd_nxt\<close> advance by
  this amount, plus one where the FIN rides on the last segment; nothing is sent beyond the
  window that the receiver and the congestion window allow or beyond what is buffered; the
  result tells whether anything was sent; and the invariant holds again.\<close>

theorem sendData_sends_within_window:
  assumes inv: "send_inv c" and addr: "addr_ok c" and mss: "0 < snd_mss (state c)"
    and tm: "timers c rexmitTimer \<noteq> NoTimer"
  shows "\<exists>d xs. let n = sendAmount full cw c; s = state c in
    sendData full cw c = Inr (0 < n, d) \<and> outbox d = outbox c @ xs \<and>
    contiguous (unat (snd_mss s)) (snd_max s) (segmentsOf xs) (snd_max s + of_nat n) \<and>
    snd_max (state d) = nxt_after n (s\<lparr>snd_nxt := snd_max s\<rparr>) \<and>
    snd_nxt (state d) = snd_max (state d) \<and>
    (0 < n \<longrightarrow> int (off (snd_una s) (snd_max s) + n) \<le> allowedWindow cw (snd_wnd s)) \<and>
    n \<le> bytesAvailable (bufferEndSeq (sendQueue c)) (snd_max s) \<and>
    conn_rest d = conn_rest c \<and> send_inv d"
proof (cases "sendAmount full cw c = 0")
  case True
  have d: "sendData full cw c = Inr (False, nxt_to_max c)" using True mss by (rule sendData_nothing)
  have "conn_rest c = conn_rest (nxt_to_max c)" using conn_frame.sendData_R[OF d] .
  moreover from this have "send_inv (nxt_to_max c)"
    using inv by (auto simp: send_inv_def Let_def)
  ultimately show ?thesis using d True
    by (intro exI[of _ "nxt_to_max c"] exI[of _ "[]"]) (simp add: Let_def nxt_after_def)
next
  case False
  then have pos: "0 < sendAmount full cw c" by simp
  obtain e d where e: "sends (sendAmount full cw c) (nxt_to_max c) e"
    and can: "can_send (sendAmount full cw c) (nxt_to_max c)"
    and d: "sendData full cw c = Inr (True, d)" "snd_max (state d) = snd_nxt (state e)"
      "snd_nxt (state d) = snd_nxt (state e)" "outbox d = outbox e"
    using sendData_something[OF inv addr mss tm pos] by blast
  have frame: "conn_rest c = conn_rest d" using conn_frame.sendData_R[OF d(1)] .
  have max: "snd_max (state d) = nxt_after (sendAmount full cw c) (state (nxt_to_max c))"
    using d(2) sends_frame(2)[OF e] by simp
  obtain xs where xs: "outbox e = outbox c @ xs"
    "contiguous (unat (snd_mss (state c))) (snd_max (state c)) (segmentsOf xs)
       (snd_max (state c) + of_nat (sendAmount full cw c))"
    using e by (auto simp: sends_def)
  have le: "sendAmount full cw c \<le> min (nat (allowedWindow cw (snd_wnd (state c)) -
      int (off (snd_una (state c)) (snd_max (state c)))))
      (bytesAvailable (bufferEndSeq (sendQueue c)) (snd_max (state c)))"
    unfolding sendAmount_def Let_def by (rule if_le)
  then have buf: "sendAmount full cw c \<le> bytesAvailable (bufferEndSeq (sendQueue c)) (snd_max (state c))"
    and win: "int (off (snd_una (state c)) (snd_max (state c)) + sendAmount full cw c)
      \<le> allowedWindow cw (snd_wnd (state c))"
    using pos by linarith+
  show ?thesis
    using d xs max win buf pos frame send_inv_after[OF inv can max frame]
    by (intro exI[of _ d] exI[of _ xs]) (simp add: Let_def nxt_to_max_def)
qed

text \<open>A connection with 3000 bytes to send, for the concrete instances of this theory.\<close>

definition sendingExample :: "bool \<Rightarrow> uint32 \<Rightarrow> TCPConnection" where
  "sendingExample fin mx = (new_TCPConnection 10 0 1)
     \<lparr>localAddr := V4 1, remoteAddr := V4 2, localPort := 1024, remotePort := 80,
      fsm := TCP_S_ESTABLISHED, tcpAlgorithm := DumbTCP,
      timers := (\<lambda>t. Idle), sendQueue := VirtualDataSQ \<lparr>vsq_begin = 1, vsq_end = 3001\<rparr>,
      state := new_TCPTahoeRenoFamilyStateVariables\<lparr>snd_una := 1, snd_nxt := mx, snd_max := mx,
        snd_wnd := 2000, send_fin := fin, snd_fin_seq := 3001\<rparr>\<rparr>"

lemmas new_conn_defs = new_TCPConnection_def new_TCPTahoeRenoFamilyStateVariables_def
  new_TCPBaseAlgStateVariables_def new_TCPStateVariables_def TCPStateVariables.defs
  TCPBaseAlgStateVariables.defs TCPTahoeRenoFamilyStateVariables.defs

lemma sendingExample_ok:
  "send_inv (sendingExample False 1)" "addr_ok (sendingExample b m)"
  "0 < snd_mss (state (sendingExample b m))"
  "timers (sendingExample b m) rexmitTimer \<noteq> NoTimer"
  "send_inv (sendingExample True 3002)"
  by (simp_all add: sendingExample_def new_conn_defs send_inv_def addr_ok_def Let_def off_def
      bufferBeginSeq_def bufferEndSeq_def vsq_bufferEndSeq_def half_def isIPv6_def)

lemma sendingExample_amount: "sendAmount False (-1) (sendingExample False 1) = 1024"
  by (simp add: sendAmount_def sendingExample_def new_conn_defs Let_def allowedWindow_def
      bytesAvailable_def seqLess_def off_def bufferEndSeq_def vsq_bufferEndSeq_def)

theorem sendData_sends_within_window_witness:
  "\<exists>d. sendData False (-1) (sendingExample False 1) = Inr (True, d) \<and> snd_max (state d) = 1025"
proof -
  have "nxt_after 1024 ((state (sendingExample False 1))\<lparr>snd_nxt := snd_max (state (sendingExample False 1))\<rparr>) = 1025"
    by (simp add: nxt_after_def sendingExample_def new_conn_defs)
  then show ?thesis
    using sendData_sends_within_window[OF sendingExample_ok(1-4), of False "-1"]
    by (auto simp: sendingExample_amount Let_def)
qed

section \<open>Retransmission\<close>

lemma sendSegment_beyond_end:
  assumes "\<not> seqLE (snd_nxt (state c) + of_nat n) (bufferEndSeq (sendQueue c))"
  shows "\<exists>m. sendSegment n c = Inl (AssertFailed m)"
  using sq.create_fails[of "sendQueue c" "snd_nxt (state c)" n] assms
  by (auto simp: sendSegment_def)

lemma seqLE_end_off:
  assumes "off b e < half" and "off b f + n < half"
  shows "seqLE (f + of_nat n) e \<longleftrightarrow> off b f + n \<le> off b e"
proof -
  have "off b (f + of_nat n) = off b f + n"
    using assms by (intro off_add_small) (simp add: half_def)
  then show ?thesis using assms seqLE_off[of b "f + of_nat n" e] by simp
qed

text \<open>
  The loop of \<open>retransmitData\<close> when it is to send all that is buffered and one number more.
\<close>

lemma retransmitLoop_fails:
  assumes "can_send n c" and "off (bufferBeginSeq (sendQueue c)) (snd_nxt (state c)) + n =
      off (bufferBeginSeq (sendQueue c)) (bufferEndSeq (sendQueue c))"
    and "off (bufferBeginSeq (sendQueue c)) (bufferEndSeq (sendQueue c)) + 2 < half"
    and "send_fin (state c)"
  shows "\<exists>m. retransmitLoop (Suc n) c = Inl (AssertFailed m)"
  using assms
proof (induction n arbitrary: c rule: less_induct)
  case (less n)
  let ?b = "bufferBeginSeq (sendQueue c)" and ?e = "bufferEndSeq (sendQueue c)"
  let ?nxt = "snd_nxt (state c)"
  define k where "k = min (Suc n) (unat (snd_mss (state c)))"
  have mss: "0 < unat (snd_mss (state c))" using less.prems(1) by (auto simp: can_send_def unat_gt_0)
  then have k: "0 < k" "k \<le> unat (snd_mss (state c))" "k \<le> Suc n" by (simp_all add: k_def)
  have step: "retransmitLoop (Suc n) c = ebind (sendSegment k c) (retransmitLoop (Suc n - k))"
    using k(1) unfolding k_def by (subst retransmitLoop.simps) (simp add: Let_def)
  show ?case
  proof (cases "k = Suc n")
    case True
    then have "\<not> seqLE (?nxt + of_nat k) ?e"
      using less.prems(2,3) seqLE_end_off[of ?b ?e ?nxt k] by simp
    then show ?thesis using sendSegment_beyond_end step by fastforce
  next
    case False
    then have kn: "k \<le> n" using k(3) by simp
    then have "can_send k c" using less.prems(1) by (auto simp: can_send_def Let_def)
    then obtain d where d: "sendSegment k c = Inr d" "sends k c d"
      using sendSegment_sends[of k c] k by blast
    have same: "sendQueue d = sendQueue c" "send_fin (state d) = send_fin (state c)"
      using d(2) by (auto simp: sends_def)
    show ?thesis
    proof (cases "k = n")
      case True
      have "off ?b (?nxt + of_nat k) = off ?b ?e"
        using less.prems(2,3) True off_add_small[of ?b ?nxt k] by (simp add: half_def)
      then have "?nxt + of_nat k = ?e" by (simp add: off_inj)
      then have nd: "snd_nxt (state d) = ?e + 1"
        using d(2) k(1) less.prems(1,4) by (auto simp: sends_def nxt_after_def can_send_def Let_def)
      then have "off ?b (snd_nxt (state d)) = off ?b ?e + 1"
        using off_add_small[of ?b ?e 1] less.prems(3) by (simp add: half_def)
      then have "\<not> seqLE (snd_nxt (state d) + of_nat 1) ?e"
        using less.prems(3) seqLE_end_off[of ?b ?e "snd_nxt (state d)" 1] by simp
      then obtain m where "sendSegment 1 d = Inl (AssertFailed m)"
        using sendSegment_beyond_end[of d 1] same by auto
      moreover have "retransmitLoop 1 d = ebind (sendSegment 1 d) (retransmitLoop 0)"
      proof -
        have "min 1 (unat (snd_mss (state d))) = 1" using mss d(2) by (auto simp: sends_def)
        then show ?thesis by (subst retransmitLoop.simps) (simp add: Let_def)
      qed
      ultimately show ?thesis using step d True by simp
    next
      case False
      then have lt: "k < n" using kn by simp
      have "off ?b ?nxt + k < 2 ^ 32" using less.prems(2,3) lt by (simp add: half_def)
      then have "off ?b (snd_nxt (state d)) = off ?b ?nxt + k"
        using can_send_nxt_after[OF less.prems(1) lt] d(2) off_add_small[of ?b ?nxt k]
        by (auto simp: sends_def)
      then obtain m where "retransmitLoop (Suc (n - k)) d = Inl (AssertFailed m)"
        using less.IH[of "n - k" d] can_send_step[OF less.prems(1) lt d(2)] same less.prems k lt by auto
      then show ?thesis using step d lt by (simp add: Suc_diff_le)
    qed
  qed
qed

text \<open>\<open>retransmitData\<close>, with unacknowledged numbers outstanding and the queue cut at
  \<open>snd_una\<close>, sends all of \<open>[snd_una, snd_max)\<close> again in contiguous segments as long as no FIN
  is outstanding; when one is (\<open>snd_max\<close> is one past the end of the buffer), it counts the
  FIN as a byte and always stops on an assertion of the send queue.\<close>

theorem retransmitData_resends_unless_fin:
  assumes inv: "send_inv c" and addr: "addr_ok c" and mss: "0 < snd_mss (state c)"
    and cut: "bufferBeginSeq (sendQueue c) = snd_una (state c)"
    and out: "snd_una (state c) \<noteq> snd_max (state c)"
  shows "if send_fin (state c) \<and> snd_max (state c) = bufferEndSeq (sendQueue c) + 1
    then \<exists>m. retransmitData c = Inl (AssertFailed m)
    else \<exists>d xs. retransmitData c = Inr d \<and> outbox d = outbox c @ xs \<and>
      contiguous (unat (snd_mss (state c))) (snd_una (state c)) (segmentsOf xs) (snd_max (state c))"
proof -
  let ?b = "snd_una (state c)" and ?e = "bufferEndSeq (sendQueue c)" and ?m = "snd_max (state c)"
  let ?c = "upd_state (\<lambda>s. s\<lparr>snd_nxt := snd_una s\<rparr>) c"
  have e: "off ?b ?e + 2 < half" and fin: "send_fin (state c) \<longrightarrow> snd_fin_seq (state c) = ?e"
    and m: "off ?b ?m \<le> off ?b ?e + (if send_fin (state c) then 1 else 0)"
    using inv cut by (auto simp: send_inv_def Let_def)
  have pos: "0 < off ?b ?m" using out off_eq_0[of ?b ?m] by (cases "off ?b ?m") auto
  have "unat (?m - ?b) \<noteq> 0" using pos by (simp add: off_def)
  then have run: "retransmitData c = retransmitLoop (off ?b ?m) ?c"
    by (simp add: retransmitData_def Let_def off_def)
  have e1: "off ?b (?e + 1) = off ?b ?e + 1"
    using off_add_small[of ?b ?e 1] e by (simp add: half_def)
  have can: "can_send n ?c" if "n \<le> off ?b ?e" for n
    using that e fin addr mss cut by (simp add: can_send_def Let_def addr_ok_def)
  show ?thesis
  proof (cases "send_fin (state c) \<and> ?m = ?e + 1")
    case True
    then have "retransmitData c = retransmitLoop (Suc (off ?b ?e)) ?c" using run e1 by simp
    moreover have "\<exists>m. retransmitLoop (Suc (off ?b ?e)) ?c = Inl (AssertFailed m)"
      using retransmitLoop_fails[of "off ?b ?e" ?c] can[of "off ?b ?e"] e cut True by simp
    ultimately show ?thesis using True by simp
  next
    case False
    have "off ?b ?m \<noteq> off ?b ?e + 1" if "send_fin (state c)"
      using False that e1 by (metis off_inj)
    then have "off ?b ?m \<le> off ?b ?e" using m by (auto split: if_splits)
    then obtain d where "retransmitLoop (off ?b ?m) ?c = Inr d" "sends (off ?b ?m) ?c d"
      using retransmitLoop_sends can by blast
    then show ?thesis using run False by (auto simp: sends_def off_def)
  qed
qed

theorem retransmitData_resends_unless_fin_witness:
  "\<exists>m. retransmitData (sendingExample True 3002) = Inl (AssertFailed m)"
  using retransmitData_resends_unless_fin[OF sendingExample_ok(5,2,3)]
  by (simp add: sendingExample_def new_conn_defs bufferBeginSeq_def bufferEndSeq_def
      vsq_bufferEndSeq_def)

end
