(* ===== verification/TCP_Acking.thy ===== *)
theory TCP_Acking
  imports TCP_Input TCP_Sending
begin

text \<open>
  What the ACK field of a segment does in the synchronised states
  (\<open>processAckInEstabEtc\<close> of \<open>TCPConnectionRcvSegment.cc\<close>), and the errors on that path.
\<close>

text \<open>An ACK that acknowledges something new, and whether it covers our FIN.\<close>

definition newAck :: "TCPSegment \<Rightarrow> TCPConnection \<Rightarrow> bool" where
  "newAck seg c \<longleftrightarrow> \<not> seqGE (snd_una (state c)) (ackNo seg) \<and> seqLE (ackNo seg) (snd_max (state c))"

definition coversFin :: "TCPSegment \<Rightarrow> TCPConnection \<Rightarrow> bool" where
  "coversFin seg c \<longleftrightarrow> send_fin (state c) \<and> ackNo seg = snd_fin_seq (state c) + 1"

definition windowIsNewer :: "TCPSegment \<Rightarrow> TCPConnection \<Rightarrow> bool" where
  "windowIsNewer seg c \<longleftrightarrow> seqLess (snd_wl1 (state c)) (sequenceNo seg) \<or>
     (snd_wl1 (state c) = sequenceNo seg \<and> seqLE (snd_wl2 (state c)) (ackNo seg))"

lemma ackInWindow_effect:
  assumes "ackInWindow seg c = Inr d"
  shows "snd_una (state d) = ackNo seg"
    and "bufferBeginSeq (sendQueue d) = (if coversFin seg c then ackNo seg - 1 else ackNo seg)"
    and "bufferEndSeq (sendQueue d) = bufferEndSeq (sendQueue c)"
    and "snd_wnd (state d) = (if windowIsNewer seg c then of_nat (window seg) else snd_wnd (state c))"
    and "fin_ack_rcvd (state d) \<longleftrightarrow> fin_ack_rcvd (state c) \<or> coversFin seg c"
    and "dupacks (state d) = 0" and "rcv_nxt (state d) = rcv_nxt (state c)"
    and "receiveQueue d = receiveQueue c"
proof -
  define c1 where "c1 = upd_state (\<lambda>s. s\<lparr>snd_una := ackNo seg\<rparr>) c"
  define c2 where "c2 = (if seqLess (snd_nxt (state c1)) (snd_una (state c1))
               then upd_state (\<lambda>s. s\<lparr>snd_nxt := snd_una s\<rparr>) c1 else c1)"
  have cf: "coversFin seg c2 \<longleftrightarrow> coversFin seg c" by (simp add: coversFin_def c2_def c1_def)
  define c3 where "c3 = (if coversFin seg c2 then upd_state (\<lambda>s. s\<lparr>fin_ack_rcvd := True\<rparr>) c2 else c2)"
  have una: "snd_una (state c2) = ackNo seg" by (simp add: c2_def c1_def)
  obtain q e where q: "discardUpTo (if coversFin seg c2 then ackNo seg - 1 else ackNo seg) (sendQueue c3) = Inr q"
    and e: "receivedDataAck (snd_una (state c)) (if windowIsNewer seg (c3\<lparr>sendQueue := q\<rparr>)
      then upd_state (\<lambda>s. s\<lparr>snd_wnd := of_nat (window seg), snd_wl1 := sequenceNo seg, snd_wl2 := ackNo seg\<rparr>)
        (c3\<lparr>sendQueue := q\<rparr>) else c3\<lparr>sendQueue := q\<rparr>) = Inr e"
    and d: "d = upd_state (\<lambda>s. s\<lparr>dupacks := 0\<rparr>) e"
    using assms unfolding ackInWindow_def Let_def c1_def[symmetric] c2_def[symmetric] una
      coversFin_def[symmetric] c3_def[symmetric] windowIsNewer_def[symmetric]
    by (elim ebind_InrE) auto
  have sq: "sendQueue c3 = sendQueue c" by (simp add: c3_def cf c2_def c1_def)
  have w: "windowIsNewer seg (c3\<lparr>sendQueue := q\<rparr>) = windowIsNewer seg c"
    by (simp add: windowIsNewer_def c3_def cf c2_def c1_def)
  have "fin_ack_rcvd (state c2) = fin_ack_rcvd (state c)" by (simp add: c2_def c1_def)
  then have fa: "fin_ack_rcvd (state c3) \<longleftrightarrow> fin_ack_rcvd (state c) \<or> coversFin seg c"
    by (simp add: c3_def cf)
  note rest = conn_rest_eqD[OF alg_frame.receivedDataAck_R[OF e]]
  note begin_end = sq.discard_Inr[OF q[unfolded sq]]
  have qe: "sendQueue d = q" using rest(2) by (simp add: d split: if_splits)
  show "snd_una (state d) = ackNo seg" using rest(12) una by (simp add: d c3_def split: if_splits)
  show "bufferBeginSeq (sendQueue d) = (if coversFin seg c then ackNo seg - 1 else ackNo seg)"
    using begin_end(3) qe cf by simp
  show "bufferEndSeq (sendQueue d) = bufferEndSeq (sendQueue c)" using begin_end(4) qe by simp
  show "snd_wnd (state d) = (if windowIsNewer seg c then of_nat (window seg) else snd_wnd (state c))"
    using rest(14) w by (simp add: d c3_def cf c2_def c1_def)
  show "fin_ack_rcvd (state d) \<longleftrightarrow> fin_ack_rcvd (state c) \<or> coversFin seg c"
    using rest(22) fa by (simp add: d)
  show "dupacks (state d) = 0" by (simp add: d)
  show "rcv_nxt (state d) = rcv_nxt (state c)" "receiveQueue d = receiveQueue c"
    using rest(16) rest(3) by (simp_all add: d c3_def cf c2_def c1_def)
qed

lemma conn_rest_dupacks:
  "conn_rest (upd_state (\<lambda>s. s\<lparr>dupacks := x\<rparr>) c) = upd_state (\<lambda>s. s\<lparr>dupacks := x\<rparr>) (conn_rest c)"
  by (simp add: conn_rest_def upd_state_def)

text \<open>C10: The ACK field moves the left edge of the send window forward only, and never beyond
  what was sent. If the outstanding data span less than half of the sequence space, then after
  the ACK was processed \<open>snd_una\<close> is the ACK number if this acknowledges something new that was
  sent, and unchanged otherwise; it is between the old \<open>snd_una\<close> and \<open>snd_max\<close>; the send queue is
  cut at it (one before it when the ACK covers our FIN, which is then recorded) or left alone;
  the peer's window is taken over only from a newer segment; an ACK for data not sent yet
  makes the caller drop the segment, and only such an ACK does.\<close>

theorem ack_advances_within_sent_data:
  assumes run: "processAckInEstabEtc seg c = Inr (ok, d)"
    and win: "off (snd_una (state c)) (snd_max (state c)) < half"
  shows "snd_una (state d) = (if newAck seg c then ackNo seg else snd_una (state c)) \<and>
    off (snd_una (state c)) (snd_una (state d)) \<le> off (snd_una (state c)) (snd_max (state c)) \<and>
    bufferBeginSeq (sendQueue d) = (if \<not> newAck seg c then bufferBeginSeq (sendQueue c)
      else if coversFin seg c then ackNo seg - 1 else ackNo seg) \<and>
    (fin_ack_rcvd (state d) \<longleftrightarrow> fin_ack_rcvd (state c) \<or> (newAck seg c \<and> coversFin seg c)) \<and>
    snd_wnd (state d) = (if newAck seg c \<and> windowIsNewer seg c then of_nat (window seg)
      else snd_wnd (state c)) \<and>
    (ok \<longleftrightarrow> seqGE (snd_una (state c)) (ackNo seg) \<or> newAck seg c)"
proof (cases "newAck seg c")
  case True
  then have "ackInWindow seg c = Inr d" and ok
    using run by (auto simp: processAckInEstabEtc_def newAck_def)
  note eff = ackInWindow_effect[OF this(1)]
  have "off (snd_una (state c)) (ackNo seg) \<le> off (snd_una (state c)) (snd_max (state c))"
  proof -
    have "snd_una (state c) - ackNo seg \<ge> 2 ^ 31" "snd_max (state c) - ackNo seg < 2 ^ 31"
      using True by (auto simp: newAck_def seqGE_def seqLE_def not_less)
    then show ?thesis
      using win unat_diff_off[of "snd_max (state c)" "ackNo seg" "snd_una (state c)"]
        unat_diff_off[of "snd_una (state c)" "ackNo seg" "snd_una (state c)"]
      by (auto simp: word_less_half_iff word_le_nat_alt half_def split: if_splits)
  qed
  then show ?thesis using eff True \<open>ok\<close> by simp
next
  case False
  obtain x where r: "conn_rest (upd_state (\<lambda>s. s\<lparr>dupacks := x\<rparr>) c) = conn_rest d"
    and ok: "ok \<longleftrightarrow> seqGE (snd_una (state c)) (ackNo seg)"
  proof (cases "seqGE (snd_una (state c)) (ackNo seg)")
    case True
    have dup: "conn_rest (upd_state (\<lambda>s. s\<lparr>dupacks := dupacks (state c) + 1\<rparr>) c) = conn_rest d"
      if "receivedDuplicateAck (upd_state (\<lambda>s. s\<lparr>dupacks := dupacks s + 1\<rparr>) c) = Inr d"
      using alg_frame.receivedDuplicateAck_R[OF that] by (simp add: upd_state_def)
    show thesis using that True run dup
      unfolding processAckInEstabEtc_def by (auto split: if_splits)
  next
    case nge: False
    then obtain e where e: "receivedAckForDataNotYetSent (ackNo seg) c = Inr e" "\<not> ok"
      "d = upd_state (\<lambda>s. s\<lparr>dupacks := 0\<rparr>) e"
      using run False unfolding processAckInEstabEtc_def newAck_def by auto
    then have "conn_rest e = conn_rest c" using alg_frame.receive_ack_R(2)[OF e(1)] by simp
    then show thesis using that[of 0] e nge by (simp add: conn_rest_dupacks)
  qed
  from conn_rest_eqD[OF r] show ?thesis using False ok by simp
qed

theorem ack_advances_within_sent_data_witness:
  "\<exists>d. processAckInEstabEtc (new_TCPSegment\<lparr>ackBit := True, ackNo := 3001, window := 5000\<rparr>)
      (sendingExample False 3001) = Inr (True, d) \<and> snd_una (state d) = 3001 \<and> snd_wnd (state d) = 5000"
proof -
  let ?seg = "new_TCPSegment\<lparr>ackBit := True, ackNo := 3001, window := 5000\<rparr>" and ?c = "sendingExample False 3001"
  obtain d where d: "processAckInEstabEtc ?seg ?c = Inr (True, d)"
    by (simp add: processAckInEstabEtc_def ackInWindow_def sendingExample_def new_conn_defs
        new_TCPSegment_def seqGE_def seqLE_def seqLess_def discardUpTo_def vsq_discardUpTo_def Let_def
        receivedDataAck_def dropResult_def sendData_eq bytesAvailable_def bufferEndSeq_def
        vsq_bufferEndSeq_def nxt_to_max_def upd_state_def)
  have "off (snd_una (state ?c)) (snd_max (state ?c)) < half" "newAck ?seg ?c" "windowIsNewer ?seg ?c"
    by (simp_all add: sendingExample_def new_conn_defs new_TCPSegment_def off_def half_def newAck_def
        windowIsNewer_def seqGE_def seqLE_def seqLess_def)
  moreover have "ackNo ?seg = 3001" "window ?seg = 5000" by (simp_all add: new_TCPSegment_def)
  ultimately show ?thesis using ack_advances_within_sent_data[OF d] d by simp
qed

lemma sendToIP_no_assertion: "sendToIP seg c \<noteq> Inl (AssertFailed m)"
  by (cases "remoteAddr c"; cases "localAddr c")
    (simp_all add: sendToIP_def get4_def get6_def isIPv6_def Let_def)

lemma ackSent_no_assertion: "ackSent c \<noteq> Inl (AssertFailed m)"
proof -
  obtain d where "ackSent c = Inr d" by (rule ackSent_ok[of c])
  then show ?thesis by simp
qed

lemma sendAck_no_assertion: "sendAck c \<noteq> Inl (AssertFailed m)"
proof (cases "sendToIP (new_TCPSegment\<lparr>ackBit := True, sequenceNo := snd_nxt (state c),
              ackNo := rcv_nxt (state c), window := unat (rcv_wnd (state c))\<rparr>) c")
  case (Inl e)
  then show ?thesis using sendToIP_no_assertion by (auto simp: sendAck_def)
next
  case (Inr d)
  then show ?thesis using ackSent_no_assertion[of d m] by (simp add: sendAck_def)
qed

text \<open>The last assertion of that path, that an ACK number which is neither old nor at most
  \<open>snd_max\<close> is beyond \<open>snd_max\<close>, fails for one ACK number: with nothing outstanding, an ACK exactly
  half the sequence space beyond \<open>snd_max\<close> stops the simulation. Where the outstanding data span
  less than half of the sequence space, no other ACK number makes it fail.\<close>

theorem ack_half_way_round_fails:
  assumes win: "off (snd_una (state c)) (snd_max (state c)) < half"
  shows "(\<not> seqGE (snd_una (state c)) (ackNo seg) \<and> \<not> seqLE (ackNo seg) (snd_max (state c)) \<and>
      processAckInEstabEtc seg c = Inl (AssertFailed ''seqGreater(ackNo,snd_max)''))
    \<longleftrightarrow> snd_una (state c) = snd_max (state c) \<and> ackNo seg = snd_max (state c) + 2 ^ 31"
    (is "?L \<longleftrightarrow> ?R")
proof
  let ?u = "snd_una (state c)" and ?m = "snd_max (state c)" and ?a = "ackNo seg"
  assume ?R
  then have "?u = ?m" "?a = ?m + 2 ^ 31" by simp_all
  then show ?L by (simp add: processAckInEstabEtc_def seqGE_def seqLE_def seqGreater_def)
next
  let ?u = "snd_una (state c)" and ?m = "snd_max (state c)" and ?a = "ackNo seg"
  assume L: ?L
  have "\<not> seqGreater ?a ?m"
  proof
    assume "seqGreater ?a ?m"
    then have "processAckInEstabEtc seg c = ebind (receivedAckForDataNotYetSent ?a c) (\<lambda>c.
        Inr (False, upd_state (\<lambda>s. s\<lparr>dupacks := 0\<rparr>) c))"
      using L by (simp add: processAckInEstabEtc_def)
    then show False using L sendAck_no_assertion
      by (cases "sendAck c") (auto simp: receivedAckForDataNotYetSent_def)
  qed
  then have "?a \<noteq> ?m \<longrightarrow> off ?m ?a \<ge> half" and "off ?a ?m \<ge> half" and "off ?a ?u \<ge> half"
    using L by (auto simp: seqGreater_def seqLE_def seqGE_def off_def word_less_half_iff)
  moreover have "?a \<noteq> ?m" using \<open>off ?a ?m \<ge> half\<close> by (auto simp: half_def)
  moreover have "off ?m ?a = (if ?a = ?m then 0 else 2 ^ 32 - off ?a ?m)"
    using unat_diff_off[of ?a ?m ?a] by (simp add: off_def[of ?m ?a])
  ultimately have ma: "off ?m ?a = half" "off ?a ?m = half"
    using off_lt[of ?m ?a] by (auto simp: half_def)
  have ua: "off ?u ?a = 2 ^ 32 - off ?a ?u" "off ?u ?a \<le> half"
    using unat_diff_off[of ?a ?u ?a] \<open>off ?a ?u \<ge> half\<close> by (auto simp: off_def half_def)
  have "off ?u ?a = off ?u ?m + half \<or> off ?u ?a + half = off ?u ?m"
    using ma(1) unat_diff_off[of ?a ?m ?u] off_lt[of ?u ?m] by (auto simp: off_def half_def split: if_splits)
  then have "off ?u ?m = 0" using win ua(2) by auto
  then have um: "?m = ?u" by simp
  have "?a - ?m = 2 ^ 31" using ma(1) by (simp add: off_def half_def word_unat_eq_iff)
  then have "?a = ?m + 2 ^ 31" by (simp only: diff_eq_eq add.commute)
  then show ?R using um by simp
qed

theorem ack_half_way_round_fails_witness:
  "processAckInEstabEtc (new_TCPSegment\<lparr>ackBit := True, ackNo := 2147483649\<rparr>) (sendingExample False 1) =
    Inl (AssertFailed ''seqGreater(ackNo,snd_max)'')"
  using ack_half_way_round_fails[of "sendingExample False 1"
      "new_TCPSegment\<lparr>ackBit := True, ackNo := 2147483649\<rparr>"]
  by (simp add: sendingExample_def new_conn_defs new_TCPSegment_def half_def)

end
