(* ===== verification/TCP_Main.thy ===== *)
theory TCP_Main
  imports TCP_Input
begin

text \<open>
  The TCP module (\<open>Transport/TCP/TCPMain.cc\<close>): the connection objects by address, the
  tables, and the dispatch of timers, segments and application commands to a connection.
  A connection whose handler returns false is removed.
\<close>

record TCPMain =
  tables :: TCPTables
  conns :: "conn_ptr \<rightharpoonup> TCPConnection"
  nextPtr :: conn_ptr
  sent :: "tcp_out list"

definition init_TCPMain :: "int \<Rightarrow> TCPMain" where
  "init_TCPMain connIdSoFar =
     \<lparr>tables = init_TCPTables connIdSoFar, conns = Map.empty, nextPtr = 0, sent = []\<rparr>"

text \<open>
  A timer message knows its connection by a context pointer. The constructor of
  \<open>TCPConnection\<close> and \<open>TCPBaseAlg::initialize\<close> set it for their timers;
  \<open>DumbTCP::initialize\<close> does not set it for its own.
\<close>

definition contextPointer :: "TCPTimer \<Rightarrow> conn_ptr \<Rightarrow> TCPAlgorithm \<Rightarrow> conn_ptr option" where
  "contextPointer t this alg =
     (if t = rexmitTimer \<and> alg = DumbTCP then None else Some this)"

text \<open>
  The log of a connection is moved to the module's when its handler is done, and the clock
  of the connection is the time of the event.
\<close>

definition flushTo :: "TCPMain \<Rightarrow> TCPConnection \<Rightarrow> TCPMain \<times> TCPConnection" where
  "flushTo tm c = (tm\<lparr>sent := sent tm @ outbox c\<rparr>, c\<lparr>outbox := []\<rparr>)"

definition storeConnection :: "bool \<Rightarrow> conn_ptr \<Rightarrow> TCPConnection \<Rightarrow> TCPMain \<Rightarrow> TCPMain" where
  "storeConnection ret p c tm =
     (case flushTo tm c of (tm, c) \<Rightarrow>
       if ret then tm\<lparr>conns := (conns tm)(p \<mapsto> c)\<rparr>
       else tm\<lparr>tables := removeFromTables c (tables tm), conns := (conns tm)(p := None)\<rparr>)"

text \<open>
  \<open>handleMessage\<close>, first branch: the timer \<open>t\<close> of the connection at \<open>p\<close> expires at time
  \<open>tm\<close>. The kernel delivers only a scheduled timer, which is idle from then on.
\<close>

definition handleTimerMessage :: "simtime \<Rightarrow> TCPTimer \<Rightarrow> conn_ptr \<Rightarrow> TCPMain \<Rightarrow> TCPMain result" where
  "handleTimerMessage time t p tm =
     (case conns tm p of
        None \<Rightarrow> Inl (NullPointer ''no such connection'')
      | Some c \<Rightarrow>
          (case contextPointer t p (tcpAlgorithm c) of
             None \<Rightarrow> Inl (NullPointer ''contextPointer'')
           | Some p \<Rightarrow>
               ebind (processTimer t (c\<lparr>timers := (timers c)(t := Idle), now := time\<rparr>))
                 (\<lambda>(ret, c). Inr (storeConnection ret p c tm))))"

text \<open>Second branch: a segment arrives.\<close>

definition handleSegment ::
    "simtime \<Rightarrow> TCPSegment \<Rightarrow> IPvXAddress \<Rightarrow> IPvXAddress \<Rightarrow> TCPMain \<Rightarrow> TCPMain result" where
  "handleSegment time tcpseg srcAddr destAddr tm =
     (case findConnForSegment tcpseg srcAddr destAddr (tables tm) of
        None \<Rightarrow> emap (\<lambda>ps. tm\<lparr>sent := sent tm @ ps\<rparr>)
                  (segmentArrivalWhileClosed tcpseg srcAddr destAddr)
      | Some p \<Rightarrow>
          (case conns tm p of
             None \<Rightarrow> Inl (NullPointer ''no such connection'')
           | Some c \<Rightarrow>
               ebind (processTCPSegment p (nextPtr tm) tcpseg srcAddr destAddr
                        (tables tm, c\<lparr>now := time\<rparr>)) (\<lambda>(ret, m, c, spinoff).
               let tm = tm\<lparr>tables := m\<rparr>;
                   tm = (case spinoff of
                           None \<Rightarrow> tm
                         | Some conn \<Rightarrow> tm\<lparr>conns := (conns tm)(nextPtr tm \<mapsto> conn),
                                            nextPtr := nextPtr tm + 1\<rparr>)
               in Inr (storeConnection ret p c tm))))"

text \<open>
  Third branch: a command of the application. A command for an unknown connection id
  creates the connection object.
\<close>

definition handleCommand ::
    "simtime \<Rightarrow> int \<Rightarrow> int \<Rightarrow> TcpCommand \<Rightarrow> TCPMain \<Rightarrow> TCPMain result" where
  "handleCommand time appGateIdx cId cmd tm =
     (let (p, c, tm) =
        (case findConnForApp appGateIdx cId (tables tm) of
           Some p \<Rightarrow> (p, conns tm p, tm)
         | None \<Rightarrow>
             let p = nextPtr tm;
                 m = tables tm;
                 m = m\<lparr>tcpAppConnMap := (tcpAppConnMap m)
                       (\<lparr>key_appGateIndex = appGateIdx, key_connId = cId\<rparr> \<mapsto> p)\<rparr>
             in (p, Some (new_TCPConnection time appGateIdx cId),
                 tm\<lparr>tables := m, nextPtr := p + 1\<rparr>))
      in case c of
           None \<Rightarrow> Inl (NullPointer ''no such connection'')
         | Some c \<Rightarrow>
             ebind (processAppCommand p cmd (tables tm, c\<lparr>now := time\<rparr>)) (\<lambda>(ret, m, c).
             Inr (storeConnection ret p c (tm\<lparr>tables := m\<rparr>))))"

end
