(* ===== verification/TCP_Steps.thy ===== *)
theory TCP_Steps
  imports TCP_Input
begin

text \<open>
  Every handler that leaves the addresses alone is a step: it keeps a relation that is kept
  by the algorithm operations, by appending to the log, and by any change of the other
  fields. Each handler is shown to be a step once; the interpretations give what such a
  handler never changes, and the bounds it keeps.
\<close>

text \<open>What of a connection an arbitrary update of the other fields may not touch.\<close>

definition conn_core where
  "conn_core c = (appGateIndex c, connId c, localAddr c, remoteAddr c, localPort c, remotePort c,
     fsm c, tcpAlgorithm c, now c, outbox c,
     snd_mss (state c), rexmit_timeout (state c), ssthresh (state c))"

locale tcp_step =
  fixes R :: "TCPConnection \<Rightarrow> TCPConnection \<Rightarrow> bool"
  assumes step_refl: "R c c"
    and step_trans: "R c d \<Longrightarrow> R d e \<Longrightarrow> R c e"
    and step_outbox: "R c (c\<lparr>outbox := outbox c @ xs\<rparr>)"
    and step_other: "conn_core d = conn_core c \<Longrightarrow> R c d"
    and step_ssthresh: "2 * snd_mss (state c) \<le> x \<Longrightarrow> R c (upd_state (\<lambda>s. s\<lparr>ssthresh := x\<rparr>) c)"
    and step_rto: "(rto_ok c \<Longrightarrow> rto_ok (upd_state (\<lambda>s. s\<lparr>rexmit_timeout := y\<rparr>) c)) \<Longrightarrow>
      R c (upd_state (\<lambda>s. s\<lparr>rexmit_timeout := y\<rparr>) c)"

sublocale tcp_step \<subseteq> alg: alg_step R
proof (unfold_locales, goal_cases)
  case 2 then show ?case by (rule step_trans)
next
  case (12 c x) then show ?case by (rule step_ssthresh)
next
  case (13 c y) then show ?case by (rule step_rto)
qed (auto simp: conn_core_def step_refl step_outbox intro: step_other)

context tcp_step
begin

lemma other_then: "conn_core e = conn_core c \<Longrightarrow> R e d \<Longrightarrow> R c d"
  using step_other step_trans by blast

lemma then_other: "R c e \<Longrightarrow> conn_core d = conn_core e \<Longrightarrow> R c d"
  using step_other step_trans by blast

lemma sendIndicationToApp_step: "R c (sendIndicationToApp i c)"
  by (simp add: sendIndicationToApp_def step_outbox)

lemma ackInWindow_step: "ackInWindow tcpseg c = Inr d \<Longrightarrow> R c d"
  unfolding ackInWindow_def Let_def
  by (elim ebind_InrE, drule alg.receivedDataAck_R, rule then_other, erule other_then[rotated])
    (auto simp: conn_core_def)

lemma processAckInEstabEtc_step:
  assumes "processAckInEstabEtc tcpseg c = Inr (ok, d)"
  shows "R c d"
proof -
  have dup: "receivedDuplicateAck (upd_state (\<lambda>s. s\<lparr>dupacks := dupacks s + 1\<rparr>) c) = Inr d \<Longrightarrow> R c d"
    by (drule alg.receivedDuplicateAck_R, erule other_then[rotated]) (simp add: conn_core_def)
  have reset: "R c (upd_state (\<lambda>s. s\<lparr>dupacks := 0\<rparr>) c)"
    by (rule step_other) (simp add: conn_core_def)
  have notsent: "receivedAckForDataNotYetSent (ackNo tcpseg) c = Inr e \<Longrightarrow>
      R c (upd_state (\<lambda>s. s\<lparr>dupacks := 0\<rparr>) e)" for e
    by (drule alg.receive_ack_R, erule then_other) (simp add: conn_core_def)
  show ?thesis using assms dup reset notsent ackInWindow_step
    unfolding processAckInEstabEtc_def by (auto split: if_splits)
qed

lemma indication_after: "conn_core e = conn_core c \<Longrightarrow> R c (sendIndicationToApp i e)"
  using other_then sendIndicationToApp_step by blast

lemma processRstInSynReceived_step:
  assumes "processRstInSynReceived tcpseg c = Inr (ev, d)"
  shows "R c d"
proof -
  obtain q where d: "d = (if active (state c)
      then sendIndicationToApp TCP_I_CONNECTION_REFUSED (c\<lparr>sendQueue := q\<rparr>) else c\<lparr>sendQueue := q\<rparr>)"
    using assms unfolding processRstInSynReceived_def Let_def by auto
  have core: "conn_core (c\<lparr>sendQueue := q\<rparr>) = conn_core c" by (simp add: conn_core_def)
  show ?thesis unfolding d using step_other[OF core] indication_after[OF core] by simp
qed

lemma checkRst_step: "checkRst tcpseg c = Inr (ev, d) \<Longrightarrow> R c d"
  unfolding checkRst_def
  by (auto split: if_splits intro: processRstInSynReceived_step sendIndicationToApp_step)

lemma processSegmentText_step:
  assumes "processSegmentText tcpseg c = Inr d"
  shows "R c d"
proof (cases "fsm c \<in> {TCP_S_ESTABLISHED, TCP_S_FIN_WAIT_1, TCP_S_FIN_WAIT_2} \<and>
    payloadLength tcpseg > 0")
  case False
  then have "d = c" using assms unfolding processSegmentText_def by (simp split: if_splits)
  then show ?thesis using step_refl by simp
next
  case True
  obtain nxt q where ins: "insertBytesFromSegment tcpseg (receiveQueue c) = (nxt, q)"
    by (cases "insertBytesFromSegment tcpseg (receiveQueue c)")
  let ?c = "upd_state (\<lambda>s. s\<lparr>rcv_nxt := nxt\<rparr>) (c\<lparr>receiveQueue := q\<rparr>)"
  have c: "conn_core ?c = conn_core c" by (simp add: conn_core_def)
  show ?thesis
  proof (cases "rcv_nxt (state c) = nxt")
    case True
    then have "receivedOutOfOrderSegment ?c = Inr d"
      using assms \<open>_ \<and> _\<close> ins by (simp add: processSegmentText_def Let_def)
    then show ?thesis using c alg.receive_ack_R(1) other_then by blast
  next
    case False
    then obtain ms q' where ex: "extractAll (rcv_nxt (state ?c)) (receiveQueue ?c) = Inr (ms, q')"
      and d: "d = (let c = sendDataToApp ms (?c\<lparr>receiveQueue := q'\<rparr>)
        in if fin_rcvd (state c) \<and> rcv_nxt (state c) = rcv_fin_seq (state c)
           then sendIndicationToApp TCP_I_PEER_CLOSED
             (upd_state (\<lambda>s. s\<lparr>rcv_nxt := rcv_fin_seq s + 1\<rparr>) c)
           else c)"
      using assms \<open>_ \<and> _\<close> ins by (auto simp: processSegmentText_def Let_def)
    let ?e = "sendDataToApp ms (?c\<lparr>receiveQueue := q'\<rparr>)"
    have "R (?c\<lparr>receiveQueue := q'\<rparr>) ?e" unfolding sendDataToApp_def by (rule step_outbox)
    then have e: "R c ?e" by (rule other_then[rotated]) (simp add: conn_core_def)
    have "R ?e (sendIndicationToApp TCP_I_PEER_CLOSED (upd_state (\<lambda>s. s\<lparr>rcv_nxt := rcv_fin_seq s + 1\<rparr>) ?e))"
      by (rule other_then[OF _ sendIndicationToApp_step]) (simp add: conn_core_def)
    then show ?thesis using d e step_trans by (auto simp: Let_def)
  qed
qed

lemma processFin_step:
  assumes "processFin tcpseg event c = Inr (ev, d)"
  shows "R c d"
proof (cases "finBit tcpseg")
  case False
  then show ?thesis using assms step_refl by (simp add: processFin_def)
next
  case True
  define fin_seq where "fin_seq = sequenceNo tcpseg + of_nat (payloadLength tcpseg)"
  define e where "e = (if rcv_nxt (state c) = fin_seq
    then sendIndicationToApp TCP_I_PEER_CLOSED (upd_state (\<lambda>s. s\<lparr>rcv_nxt := rcv_nxt s + 1\<rparr>) c)
    else upd_state (\<lambda>s. s\<lparr>fin_rcvd := True, rcv_fin_seq := fin_seq\<rparr>) c)"
  have "R c e" unfolding e_def
    using step_other[of "upd_state (\<lambda>s. s\<lparr>fin_rcvd := True, rcv_fin_seq := fin_seq\<rparr>) c" c]
      indication_after[of "upd_state (\<lambda>s. s\<lparr>rcv_nxt := rcv_nxt s + 1\<rparr>) c" c]
    by (simp add: conn_core_def)
  moreover have "R e d"
    using assms True step_refl
    unfolding processFin_def Let_def fin_seq_def[symmetric] e_def[symmetric]
    by (auto split: TcpState.splits if_splits
        intro: step_trans[OF alg.scheduleTimeout_R alg.cancelEvent_R]
          step_trans[OF alg.cancelEvent_R alg.scheduleTimeout_R])
  ultimately show ?thesis by (rule step_trans)
qed

lemma receiveSeqChanged_if_step:
  "(if b then receiveSeqChanged c else Inr c) = Inr d \<Longrightarrow> R c d"
  using alg.receiveSeqChanged_R step_refl by (auto split: if_splits)

lemma processTextAndFin_step:
  assumes "processTextAndFin tcpseg x event c = Inr (ev, d)"
  shows "R c d"
proof -
  obtain e v f where 1: "processSegmentText tcpseg c = Inr e" and 2: "processFin tcpseg event e = Inr (v, f)"
    and 3: "(if rcv_nxt (state c) \<noteq> rcv_nxt (state f) then receiveSeqChanged f else Inr f) = Inr d"
    using assms unfolding processTextAndFin_def Let_def by auto
  show ?thesis
    using processSegmentText_step[OF 1] processFin_step[OF 2] receiveSeqChanged_if_step[OF 3]
      step_trans by blast
qed

lemma restart2MSL_step:
  assumes "ebind (sendAck c) (\<lambda>c. ebind (cancelEvent the2MSLTimer c) (\<lambda>c.
    ebind (scheduleTimeout the2MSLTimer TCP_TIMEOUT_2MSL c) (\<lambda>c. Inr (False, event, c)))) = Inr (stop, ev, d)"
  shows "R c d"
  using assms
  by (elim ebind_InrE) (auto intro: step_trans[OF alg.sendAck_R step_trans[OF alg.cancelEvent_R alg.scheduleTimeout_R]])

lemma checkFinAcked_step:
  assumes "checkFinAcked tcpseg event c = Inr (stop, ev, d)"
  shows "R c d"
proof -
  define event' where "event' = (if fsm c = TCP_S_FIN_WAIT_1 \<and> fin_ack_rcvd (state c)
    then TCP_E_RCV_ACK else event)"
  obtain v e where 1: "(if fsm c = TCP_S_CLOSING \<and> fin_ack_rcvd (state c)
                then emap (Pair TCP_E_RCV_ACK) (scheduleTimeout the2MSLTimer TCP_TIMEOUT_2MSL c)
                else Inr (event', c)) = Inr (v, e)"
    and 2: "(if fsm e = TCP_S_LAST_ACK \<and> send_fin (state e) \<and>
            ackNo tcpseg = snd_fin_seq (state e) + 1
         then Inr (True, TCP_E_RCV_ACK, sendIndicationToApp TCP_I_CLOSED e)
         else if fsm e = TCP_S_TIME_WAIT
         then ebind (sendAck e) (\<lambda>c.
              ebind (cancelEvent the2MSLTimer c) (\<lambda>c.
              ebind (scheduleTimeout the2MSLTimer TCP_TIMEOUT_2MSL c) (\<lambda>c.
              Inr (False, v, c))))
         else Inr (False, v, e)) = Inr (stop, ev, d)"
    using assms unfolding checkFinAcked_def Let_def event'_def[symmetric]
    by (elim ebind_InrE) (simp only: split_paired_all prod.case)
  have "R c e" using 1 step_refl alg.scheduleTimeout_R by (auto split: if_splits)
  moreover have "R e d"
  proof (cases "fsm e = TCP_S_LAST_ACK \<and> send_fin (state e) \<and> ackNo tcpseg = snd_fin_seq (state e) + 1")
    case True
    then show ?thesis using 2 sendIndicationToApp_step by auto
  next
    case False
    show ?thesis
    proof (cases "fsm e = TCP_S_TIME_WAIT")
      case True
      then show ?thesis using 2 False restart2MSL_step by simp
    next
      case False
      then show ?thesis using 2 \<open>\<not> (_ \<and> _)\<close> step_refl by simp
    qed
  qed
  ultimately show ?thesis by (rule step_trans)
qed

lemma sendRst_step: "sendRst x c = Inr d \<Longrightarrow> R c d"
  by (rule alg.sendRst_R)

lemma processAck_step:
  assumes "processAck tcpseg c = Inr (ev, d)"
  shows "R c d"
proof (cases "fsm c = TCP_S_SYN_RCVD \<and>
    (\<not> seqLE (snd_una (state c)) (ackNo tcpseg) \<or> \<not> seqLE (ackNo tcpseg) (snd_nxt (state c)))")
  case True
  then show ?thesis using assms sendRst_step unfolding processAck_def by (simp only: if_True) auto
next
  case False
  let ?S = "{TCP_S_SYN_RCVD, TCP_S_ESTABLISHED, TCP_S_FIN_WAIT_1, TCP_S_FIN_WAIT_2,
    TCP_S_CLOSE_WAIT, TCP_S_CLOSING}"
  obtain v e ok f where 1: "(if fsm c = TCP_S_SYN_RCVD then emap (Pair TCP_E_RCV_ACK) (alg_established False c)
               else Inr (TCP_E_IGNORE, c)) = Inr (v, e)"
    and 2: "(if fsm e \<in> ?S then processAckInEstabEtc tcpseg e else Inr (True, e)) = Inr (ok, f)"
    and 3: "(if \<not> ok then Inr (TCP_E_IGNORE, f)
           else ebind (checkFinAcked tcpseg v f) (\<lambda>(stop, event, c).
                if stop then Inr (event, c)
                else processTextAndFin tcpseg (snd_nxt (state e)) event c)) = Inr (ev, d)"
    using assms False unfolding processAck_def Let_def
    by (simp only: if_False) (elim ebind_InrE, simp only: split_paired_all prod.case, elim ebind_InrE,
      simp only: split_paired_all prod.case)
  have "R c e" using 1 step_refl alg.alg_established_R by (auto split: if_splits)
  moreover have "R e f" using 2 step_refl processAckInEstabEtc_step by (auto split: if_splits)
  moreover have "R f d"
  proof (cases ok)
    case False
    then show ?thesis using 3 step_refl by simp
  next
    case True
    then obtain stop w g where 4: "checkFinAcked tcpseg v f = Inr (stop, w, g)"
      and 5: "(if stop then Inr (w, g) else processTextAndFin tcpseg (snd_nxt (state e)) w g) = Inr (ev, d)"
      using 3 by auto
    have "R g d" using 5 step_refl processTextAndFin_step by (auto split: if_splits)
    then show ?thesis using checkFinAcked_step[OF 4] step_trans by blast
  qed
  ultimately show ?thesis using step_trans by blast
qed

lemma processSegment1stThru8th_step:
  assumes "processSegment1stThru8th tcpseg c = Inr (ev, d)"
  shows "R c d"
  using assms unfolding processSegment1stThru8th_def
  by (auto split: if_splits intro: alg.sendAck_R checkRst_step sendIndicationToApp_step
      processAck_step step_refl)

section \<open>Commands and timers\<close>

lemma startSynRexmitTimer_step:
  assumes "startSynRexmitTimer c = Inr d"
  shows "R c d"
proof -
  let ?c = "upd_state (\<lambda>s. s\<lparr>syn_rexmit_count := 0, syn_rexmit_timeout := TCP_TIMEOUT_SYN_REXMIT\<rparr>) c"
  obtain e where 1: "(if isScheduled synRexmitTimer ?c then cancelEvent synRexmitTimer ?c else Inr ?c) = Inr e"
    and 2: "scheduleTimeout synRexmitTimer (syn_rexmit_timeout (state e)) e = Inr d"
    using assms unfolding startSynRexmitTimer_def Let_def by (elim ebind_InrE)
  have "R ?c e" using 1 step_refl alg.cancelEvent_R by (auto split: if_splits)
  then have "R ?c d" using alg.scheduleTimeout_R[OF 2] step_trans by blast
  then show ?thesis by (rule other_then[rotated]) (simp add: conn_core_def)
qed

lemma selectInitialSeqNum_core: "conn_core (selectInitialSeqNum c) = conn_core c"
  by (simp add: conn_core_def selectInitialSeqNum_def Let_def)

lemma sendInitialSyn_step:
  assumes "sendInitialSyn c = Inr d"
  shows "R c d"
  using assms unfolding sendInitialSyn_def
  by (elim ebind_InrE) (blast intro: other_then[OF selectInitialSeqNum_core]
      step_trans alg.sendSyn_R startSynRexmitTimer_step alg.scheduleTimeout_R)

lemma process_SEND_step:
  assumes "process_SEND msg c = Inr d"
  shows "R c d"
proof -
  let ?enq = "\<lambda>c. c\<lparr>sendQueue := enqueueAppData msg (sendQueue c)\<rparr>"
  have enq: "conn_core (?enq c) = conn_core c" for c by (simp add: conn_core_def)
  have inv: "sendCommandInvoked (?enq c) = Inr d \<Longrightarrow> R c d"
    using alg.sendCommandInvoked_R other_then[OF enq] by blast
  have syn: "R c (?enq e)" if "sendInitialSyn (upd_state (\<lambda>s. s\<lparr>active := True\<rparr>) c) = Inr e" for e
  proof (rule then_other[OF _ enq])
    show "R c e" using sendInitialSyn_step[OF that] by (rule other_then[rotated]) (simp add: conn_core_def)
  qed
  show ?thesis
  proof (cases "fsm c = TCP_S_LISTEN")
    case True
    then show ?thesis using assms syn by (auto simp: process_SEND_def)
  next
    case False
    then show ?thesis using assms inv step_refl step_other[OF enq, of c]
      by (simp add: process_SEND_def split: TcpState.splits)
  qed
qed

lemma process_CLOSE_step:
  assumes "process_CLOSE event c = Inr (ev, d)"
  shows "R c d"
proof (cases "fsm c \<in> {TCP_S_SYN_RCVD, TCP_S_ESTABLISHED, TCP_S_CLOSE_WAIT}")
  case False
  then show ?thesis using assms step_refl unfolding process_CLOSE_def by (auto split: if_splits)
next
  case True
  obtain e v where 1: "(if snd_max (state c) = bufferEndSeq (sendQueue c)
               then ebind (sendFin (upd_state (\<lambda>s. s\<lparr>snd_nxt := snd_max s\<rparr>) c)) (\<lambda>c.
                    Inr (event, upd_state (\<lambda>s. s\<lparr>snd_nxt := snd_nxt s + 1,
                                               snd_max := snd_nxt s + 1\<rparr>) c))
               else Inr (if fsm c = TCP_S_CLOSE_WAIT then TCP_E_IGNORE else event, c)) = Inr (v, e)"
    and d: "d = upd_state (\<lambda>s. s\<lparr>send_fin := True, snd_fin_seq := bufferEndSeq (sendQueue e)\<rparr>) e"
    using assms True unfolding process_CLOSE_def by auto
  have "R c e"
  proof (cases "snd_max (state c) = bufferEndSeq (sendQueue c)")
    case False
    then show ?thesis using 1 step_refl by simp
  next
    case True
    then obtain f where f: "sendFin (upd_state (\<lambda>s. s\<lparr>snd_nxt := snd_max s\<rparr>) c) = Inr f"
      and e: "e = upd_state (\<lambda>s. s\<lparr>snd_nxt := snd_nxt s + 1, snd_max := snd_nxt s + 1\<rparr>) f"
      using 1 by auto
    have "R c f" using alg.sendFin_R[OF f] by (rule other_then[rotated]) (simp add: conn_core_def)
    then show ?thesis unfolding e by (rule then_other) (simp add: conn_core_def)
  qed
  then show ?thesis unfolding d by (rule then_other) (simp add: conn_core_def)
qed

lemma process_ABORT_step: "process_ABORT c = Inr d \<Longrightarrow> R c d"
  unfolding process_ABORT_def by (auto split: if_splits intro: sendRst_step step_refl)

lemma process_STATUS_step: "process_STATUS c = Inr d \<Longrightarrow> R c d"
  unfolding process_STATUS_def by (auto split: if_splits intro: sendIndicationToApp_step)

lemma process_TIMEOUT_step:
  "process_TIMEOUT_CONN_ESTAB c = Inr d \<Longrightarrow> R c d"
  "process_TIMEOUT_2MSL c = Inr d \<Longrightarrow> R c d"
  "process_TIMEOUT_FIN_WAIT_2 c = Inr d \<Longrightarrow> R c d"
  unfolding process_TIMEOUT_CONN_ESTAB_def process_TIMEOUT_2MSL_def process_TIMEOUT_FIN_WAIT_2_def
  by (auto split: if_splits intro: sendIndicationToApp_step step_refl)

lemma process_TIMEOUT_SYN_REXMIT_step:
  assumes "process_TIMEOUT_SYN_REXMIT event c = Inr (ev, d)"
  shows "R c d"
proof -
  let ?c = "upd_state (\<lambda>s. s\<lparr>syn_rexmit_count := syn_rexmit_count s + 1\<rparr>) c"
  have core: "conn_core ?c = conn_core c" by (simp add: conn_core_def)
  show ?thesis
  proof (cases "syn_rexmit_count (state ?c) > MAX_SYN_REXMIT_COUNT")
    case True
    then show ?thesis using assms step_other[OF core]
      by (simp add: process_TIMEOUT_SYN_REXMIT_def Let_def)
  next
    case False
    then obtain e where 1: "(case fsm ?c of
                    TCP_S_SYN_SENT \<Rightarrow> sendSyn ?c
                  | TCP_S_SYN_RCVD \<Rightarrow> sendSynAck ?c
                  | _ \<Rightarrow> Inl (OppError ''Internal error: SYN-REXMIT timer expired'')) = Inr e"
      and 2: "scheduleTimeout synRexmitTimer (syn_rexmit_timeout (state (backOffSynTimeout e)))
        (backOffSynTimeout e) = Inr d"
      using assms unfolding process_TIMEOUT_SYN_REXMIT_def Let_def
      by (simp only: if_False) (elim ebind_InrE emap_InrE, auto)
    have f: "conn_core (backOffSynTimeout e) = conn_core e"
      by (simp add: backOffSynTimeout_def Let_def conn_core_def)
    have "R ?c e" using 1 by (auto split: TcpState.splits intro: alg.sendSyn_R alg.sendSynAck_R)
    then show ?thesis
      using alg.scheduleTimeout_R[OF 2] f core other_then then_other step_trans by blast
  qed
qed

lemma handleTimer_step:
  assumes "handleTimer t c = Inr (ev, d)"
  shows "R c d"
  using assms unfolding handleTimer_def
  by (auto split: if_splits intro: process_TIMEOUT_step process_TIMEOUT_SYN_REXMIT_step
      alg.alg_processTimer_R)

section \<open>Connection setup\<close>

lemma answerSynInListen_step:
  assumes "answerSynInListen seg c = Inr d"
  shows "R c d"
proof -
  let ?c0 = "upd_state (\<lambda>s. s\<lparr>rcv_nxt := sequenceNo seg + 1, irs := sequenceNo seg\<rparr>) c"
  define e where "e = upd_state (\<lambda>s. s\<lparr>snd_wnd := of_nat (window seg),
      snd_wl1 := sequenceNo seg, snd_wl2 := iss s\<rparr>)
    (selectInitialSeqNum (?c0\<lparr>receiveQueue := rcvq_init (rcv_nxt (state ?c0)) (receiveQueue ?c0)\<rparr>))"
  have e: "conn_core e = conn_core c"
    by (simp add: e_def conn_core_def selectInitialSeqNum_def Let_def)
  obtain f g h where 1: "sendSynAck e = Inr f" and 2: "startSynRexmitTimer f = Inr g"
    and 3: "(if \<not> isScheduled connEstabTimer g
                then scheduleTimeout connEstabTimer TCP_TIMEOUT_CONN_ESTAB g else Inr g) = Inr h"
    and d': "d = (if payloadLength seg > 0
              then h\<lparr>receiveQueue := snd (insertBytesFromSegment seg (receiveQueue h))\<rparr> else h)"
    using assms unfolding answerSynInListen_def Let_def e_def[symmetric] by auto
  have d: "conn_core d = conn_core h" by (simp add: d' conn_core_def)
  have "R g h" using 3 step_refl alg.scheduleTimeout_R by (auto split: if_splits)
  then show ?thesis
    using alg.sendSynAck_R[OF 1] startSynRexmitTimer_step[OF 2] other_then[OF e] then_other[OF _ d]
      step_trans by blast
qed

lemma takeAckOfSyn_step: "takeAckOfSyn seg c = Inr d \<Longrightarrow> R c d"
  unfolding takeAckOfSyn_def Let_def by (auto simp: conn_core_def split: if_splits intro!: step_other)

lemma synSentOutcome_step:
  assumes "synSentOutcome seg c = Inr (ev, d)"
  shows "R c d"
proof (cases "seqGreater (snd_una (state c)) (iss (state c))")
  case True
  let ?c = "if payloadLength seg > 0
    then (case insertBytesFromSegment seg (receiveQueue c) of (nxt, q) \<Rightarrow>
            upd_state (\<lambda>s. s\<lparr>rcv_nxt := nxt\<rparr>) (c\<lparr>receiveQueue := q\<rparr>)) else c"
  have "alg_established True ?c = Inr d"
    using assms True unfolding synSentOutcome_def Let_def by (simp only: if_True) auto
  moreover have "conn_core ?c = conn_core c" by (simp add: conn_core_def split: prod.split)
  ultimately show ?thesis using alg.alg_established_R other_then by blast
next
  case False
  let ?c = "upd_state (\<lambda>s. s\<lparr>snd_nxt := iss s, snd_max := iss s\<rparr>) c"
  obtain e f where 1: "sendSynAck ?c = Inr e" and 2: "startSynRexmitTimer e = Inr f"
    and d: "d = (if payloadLength seg > 0
      then f\<lparr>receiveQueue := snd (insertBytesFromSegment seg (receiveQueue f))\<rparr> else f)"
    using assms False unfolding synSentOutcome_def Let_def by (simp only: if_False) auto
  have "R ?c f" using alg.sendSynAck_R[OF 1] startSynRexmitTimer_step[OF 2] step_trans by blast
  then have "R c f" by (rule other_then[rotated]) (simp add: conn_core_def)
  then show ?thesis unfolding d by (rule then_other) (simp add: conn_core_def)
qed

section \<open>State transitions\<close>

lemma cancelIfAllocated_core: "conn_core (cancelIfAllocated t c) = conn_core c"
  by (simp add: cancelIfAllocated_def conn_core_def split: timer_status.splits)

lemma deleteTimer_step: "deleteTimer t c = Inr d \<Longrightarrow> R c d"
  unfolding deleteTimer_def
  by (auto simp: conn_core_def intro!: then_other[OF alg.cancelEvent_R])

lemma sendEstabIndicationToApp_step: "R c (sendEstabIndicationToApp c)"
  unfolding sendEstabIndicationToApp_def by (rule step_outbox)

lemma stateEntered_step:
  assumes "stateEntered st c = Inr d"
  shows "R c d"
proof -
  note core = cancelIfAllocated_core
  have "R c d" if "deleteTimer connEstabTimer c = Inr e" "deleteTimer synRexmitTimer e = Inr f"
    "d = sendEstabIndicationToApp f" for e f
    using that deleteTimer_step sendEstabIndicationToApp_step step_trans by blast
  moreover have "R c d" if "cancelEvent connEstabTimer c = Inr e" "cancelEvent synRexmitTimer e = Inr d" for e
    using that alg.cancelEvent_R step_trans by blast
  moreover have "R c d" if "alg_connectionClosed (cancelIfAllocated synRexmitTimer
            (cancelIfAllocated finWait2Timer
              (cancelIfAllocated connEstabTimer (cancelIfAllocated the2MSLTimer c)))) = Inr d"
    using alg.alg_connectionClosed_R[OF that] by (rule other_then[rotated]) (simp add: core)
  moreover have "R c (cancelIfAllocated synRexmitTimer (cancelIfAllocated connEstabTimer c))"
    by (rule step_other) (simp add: core)
  ultimately show ?thesis using assms step_refl
    unfolding stateEntered_def by (auto split: if_splits)
qed

end

locale tcp_fsm_step = tcp_step +
  assumes step_fsm: "R c (c\<lparr>fsm := st\<rparr>)"
begin

lemma performStateTransition_step:
  assumes "performStateTransition event c = Inr (ret, d)"
  shows "R c d"
proof (cases "event = TCP_E_IGNORE")
  case True
  then show ?thesis using assms step_refl by (auto simp: performStateTransition_def)
next
  case False
  let ?e = "c\<lparr>fsm := nextState (fsm c) (active (state c)) event\<rparr>"
  have "R ?e d"
    using assms False step_refl stateEntered_step
    unfolding performStateTransition_def Let_def by (auto split: if_splits)
  then show ?thesis using step_fsm step_trans by blast
qed

lemma processTimer_step:
  assumes "processTimer t c = Inr (ret, d)"
  shows "R c d"
  using assms unfolding processTimer_def
  by (auto intro: step_trans[OF handleTimer_step performStateTransition_step])

end

section \<open>What no such handler changes\<close>

definition conn_ident where
  "conn_ident c = (appGateIndex c, connId c, localAddr c, remoteAddr c, localPort c, remotePort c,
     tcpAlgorithm c, now c)"

definition is_short :: "int \<Rightarrow> bool" where
  "is_short i \<longleftrightarrow> to_short i = i"

definition bounds_ok :: "TCPConnection \<Rightarrow> bool" where
  "bounds_ok c \<longleftrightarrow> rto_ok c \<and> ssthresh_ok c \<and> snd_mss (state c) = 1024 \<and>
     is_short (localPort c) \<and> is_short (remotePort c)"

interpretation fsm_frame: tcp_step "\<lambda>c d. fsm d = fsm c"
  by unfold_locales (auto simp: conn_core_def)

interpretation log_grows: tcp_fsm_step "\<lambda>c d. \<exists>xs. outbox d = outbox c @ xs"
  by unfold_locales (auto simp: conn_core_def)

interpretation conn_keeps: tcp_fsm_step
    "\<lambda>c d. conn_ident d = conn_ident c \<and> (bounds_ok c \<longrightarrow> bounds_ok d)"
  by unfold_locales (auto simp: conn_core_def conn_ident_def bounds_ok_def rto_ok_def ssthresh_ok_def)

end
