(* ===== verification/TCP_Invariant.thy ===== *)
theory TCP_Invariant
  imports TCP_Main TCP_Steps
begin

text \<open>
  The TCP module as a state machine: its steps are the messages \<open>handleMessage\<close> dispatches,
  its reachable states those the steps lead to, and an invariant of all reachable states:
  the tables point to live connections with the right keys, no closed connection is kept,
  ephemeral ports stay in their range, and every connection keeps its bounds.
\<close>

section \<open>The tables\<close>

definition tables_ok :: "TCPTables \<Rightarrow> (conn_ptr \<rightharpoonup> TCPConnection) \<Rightarrow> bool" where
  "tables_ok m cs \<longleftrightarrow>
     (\<forall>k p. tcpConnMap m k = Some p \<longrightarrow> (\<exists>c. cs p = Some c \<and> sockPairOf c = k)) \<and>
     (\<forall>k p. tcpAppConnMap m k = Some p \<longrightarrow> (\<exists>c. cs p = Some c \<and> appKeyOf c = k)) \<and>
     1024 \<le> nextEphemeralPort m \<and> nextEphemeralPort m \<le> 5000"

lemma tables_ok_init: "tables_ok (init_TCPTables i) Map.empty"
  by (simp add: tables_ok_def init_TCPTables_def)

lemma tables_ok_frame:
  assumes "tables_ok m (cs(p \<mapsto> c))" and "sockPairOf d = sockPairOf c" and "appKeyOf d = appKeyOf c"
  shows "tables_ok m (cs(p \<mapsto> d))"
  using assms unfolding tables_ok_def by (auto split: if_splits)

lemma ident_keys:
  "conn_ident d = conn_ident c \<Longrightarrow> sockPairOf d = sockPairOf c \<and> appKeyOf d = appKeyOf c"
  by (simp add: conn_ident_def sockPairOf_def appKeyOf_def)

lemma tables_ok_ident:
  "tables_ok m (cs(p \<mapsto> c)) \<Longrightarrow> conn_ident d = conn_ident c \<Longrightarrow> tables_ok m (cs(p \<mapsto> d))"
  using tables_ok_frame ident_keys by blast

lemma tables_ok_ident2:
  assumes "tables_ok m (cs(p \<mapsto> c, q \<mapsto> n))" and "q \<noteq> p" and "conn_ident d = conn_ident c"
  shows "tables_ok m (cs(p \<mapsto> d, q \<mapsto> n))"
  using tables_ok_ident[of m "cs(q \<mapsto> n)" p c d] assms by (simp add: fun_upd_twist)

lemma tables_ok_fresh:
  assumes "tables_ok m cs" and "cs p = None"
  shows "tables_ok m (cs(p \<mapsto> c))"
  using assms unfolding tables_ok_def by (metis fun_upd_other option.distinct(1))

lemma tables_ok_key:
  assumes "tables_ok m (cs(p \<mapsto> c))"
  shows "tcpConnMap m k = Some p \<Longrightarrow> k = sockPairOf c"
    and "tcpAppConnMap m a = Some p \<Longrightarrow> a = appKeyOf c"
  using assms unfolding tables_ok_def by (metis fun_upd_same option.inject)+

lemma updateSockPair_ok:
  assumes "updateSockPair p la ra lp rp (m, c) = Inr (m', c')" and ok: "tables_ok m (cs(p \<mapsto> c))"
  shows "tables_ok m' (cs(p \<mapsto> c'))" and "appKeyOf c' = appKeyOf c"
    and "c' = c\<lparr>localAddr := la, remoteAddr := ra, localPort := lp, remotePort := rp\<rparr>"
proof -
  show c': "c' = c\<lparr>localAddr := la, remoteAddr := ra, localPort := lp, remotePort := rp\<rparr>"
    using assms(1) by (auto simp: updateSockPair_def Let_def)
  then show key: "appKeyOf c' = appKeyOf c" by (simp add: appKeyOf_def)
  have m': "m' = m\<lparr>tcpConnMap := (tcpConnMap m)(sockPairOf c := None, sockPairOf c' \<mapsto> p)\<rparr>"
    using assms(1) c' by (auto simp: updateSockPair_def Let_def)
  show "tables_ok m' (cs(p \<mapsto> c'))"
    using ok tables_ok_key[OF ok] key unfolding tables_ok_def m'
    by (auto split: if_splits)
qed

lemma removeFromTables_ok:
  assumes ok: "tables_ok m (cs(p \<mapsto> c))"
  shows "tables_ok (removeFromTables c m) (cs(p := None))"
  using ok tables_ok_key[OF ok] unfolding tables_ok_def removeFromTables_def
  by (auto split: if_splits)

lemma getEphemeralPort_ok:
  assumes "getEphemeralPort m = Inr (port, m')" and "tables_ok m cs"
  shows "tables_ok m' cs" and "1024 \<le> port \<and> port \<le> 4999"
  using assms unfolding getEphemeralPort_def tables_ok_def by (auto split: if_splits)

lemma addForkedConnection_ok:
  assumes run: "addForkedConnection p new la ra lp rp (m, c, n) = Inr (m', c', n')"
    and ok: "tables_ok m (cs(p \<mapsto> c))" and new: "new \<noteq> p" "cs new = None"
  shows "tables_ok m' (cs(p \<mapsto> c', new \<mapsto> n'))"
    and "c' = c\<lparr>localAddr := la, remoteAddr := ra, localPort := lp, remotePort := rp, connId := connId c'\<rparr>"
    and "n' = n"
proof -
  obtain m1 c1 m2 n2 where 1: "updateSockPair p la ra lp rp (m, c) = Inr (m1, c1)"
    and 2: "updateSockPair new (localAddr n) (remoteAddr n) (localPort n) (remotePort n) (m1, n) = Inr (m2, n2)"
    and c': "c' = c1\<lparr>connId := nextConnId m2 + 1\<rparr>" and n': "n' = n2"
    and m': "m' = m2\<lparr>tcpAppConnMap := (tcpAppConnMap m2)(appKeyOf c1 := None, appKeyOf c' \<mapsto> p,
      appKeyOf n2 \<mapsto> new), nextConnId := nextConnId m2 + 1\<rparr>"
    using run by (auto simp: addForkedConnection_def getNewConnId_def Let_def)
  have ok1: "tables_ok m1 (cs(p \<mapsto> c1))" using updateSockPair_ok(1)[OF 1 ok] .
  then have "tables_ok m1 ((cs(p \<mapsto> c1))(new \<mapsto> n))" 
    by (rule tables_ok_fresh) (use new in simp)
  note ok2 = updateSockPair_ok[OF 2 this]
  then show "n' = n" by (simp add: n')
  have "tables_ok m2 ((cs(new \<mapsto> n2))(p \<mapsto> c1))" using ok2(1) new by (simp add: fun_upd_twist)
  note key1 = tables_ok_key[OF this] and key2 = tables_ok_key[OF ok2(1)]
  have "sockPairOf c' = sockPairOf c1" by (simp add: c' sockPairOf_def)
  then show "tables_ok m' (cs(p \<mapsto> c', new \<mapsto> n'))"
    using ok2(1) key1 key2 new unfolding tables_ok_def m' n'
    by (auto split: if_splits)
  show "c' = c\<lparr>localAddr := la, remoteAddr := ra, localPort := lp, remotePort := rp, connId := connId c'\<rparr>"
    using updateSockPair_ok(3)[OF 1 ok] by (simp add: c')
qed

section \<open>The handlers\<close>

lemma performStateTransition_ret:
  "performStateTransition event c = Inr (ret, d) \<Longrightarrow> ret \<longleftrightarrow> fsm d \<noteq> TCP_S_CLOSED"
  unfolding performStateTransition_def Let_def by (auto split: if_splits)

lemma bounds_ok_core: "conn_core d = conn_core c \<Longrightarrow> bounds_ok d = bounds_ok c"
  by (simp add: conn_core_def bounds_ok_def rto_ok_def ssthresh_ok_def)

lemma bounds_ok_cong:
  "snd_mss (state d) = snd_mss (state c) \<Longrightarrow> rexmit_timeout (state d) = rexmit_timeout (state c) \<Longrightarrow>
    ssthresh (state d) = ssthresh (state c) \<Longrightarrow> localPort d = localPort c \<Longrightarrow>
    remotePort d = remotePort c \<Longrightarrow> bounds_ok d = bounds_ok c"
  by (simp add: bounds_ok_def rto_ok_def ssthresh_ok_def)

lemma is_short_simps:
  "is_short (to_short i)" "is_short (-1)" "1024 \<le> j \<Longrightarrow> j \<le> 4999 \<Longrightarrow> is_short j"
proof -
  have eq: "is_short i \<longleftrightarrow> - 32768 \<le> i \<and> i < 32768" for i
    by (auto simp: is_short_def to_short_def signed_take_bit_int_eq_self_iff sint_sbintrunc')
  show "is_short (to_short i)"
    by (simp add: is_short_def to_short_def)
  show "is_short (-1)" "1024 \<le> j \<Longrightarrow> j \<le> 4999 \<Longrightarrow> is_short j"
    by (simp_all add: eq)
qed

lemma bounds_ok_rename:
  assumes "bounds_ok c" and "is_short lp" and "is_short rp"
  shows "bounds_ok (c\<lparr>localAddr := la, remoteAddr := ra, localPort := lp, remotePort := rp\<rparr>)"
  using assms by (auto simp: bounds_ok_def rto_ok_def ssthresh_ok_def)

lemma bounds_ok_new: "state c = new_TCPTahoeRenoFamilyStateVariables \<Longrightarrow>
    is_short (localPort c) \<Longrightarrow> is_short (remotePort c) \<Longrightarrow> bounds_ok c"
  by (simp add: bounds_ok_def rto_ok_def ssthresh_ok_def MIN_REXMIT_TIMEOUT_def
      MAX_REXMIT_TIMEOUT_def new_TCPTahoeRenoFamilyStateVariables_def
      new_TCPBaseAlgStateVariables_def new_TCPStateVariables_def TCPStateVariables.defs
      TCPBaseAlgStateVariables.defs TCPTahoeRenoFamilyStateVariables.defs)

lemma alg_initialize_keys:
  "sockPairOf (alg_initialize c) = sockPairOf c" "appKeyOf (alg_initialize c) = appKeyOf c"
  "fsm (alg_initialize c) = fsm c" "outbox (alg_initialize c) = outbox c"
  "bounds_ok (alg_initialize c) = bounds_ok c"
  by (simp_all add: alg_initialize_def DumbTCP_initialize_def TCPBaseAlg_initialize_def
      TCPNoCongestionControl_initialize_def sockPairOf_def appKeyOf_def bounds_ok_def rto_ok_def
      ssthresh_ok_def split: TCPAlgorithm.splits)

lemma initConnection_keys:
  "sockPairOf (initConnection oc c) = sockPairOf c" "appKeyOf (initConnection oc c) = appKeyOf c"
  "bounds_ok c \<Longrightarrow> bounds_ok (initConnection oc c)"
  by (simp_all add: initConnection_def alg_initialize_keys bounds_ok_new)
    (simp_all add: sockPairOf_def appKeyOf_def bounds_ok_new bounds_ok_def[of c])

lemma cloneListeningConnection_ok:
  "bounds_ok c \<Longrightarrow> bounds_ok (cloneListeningConnection c)"
  "fsm (cloneListeningConnection c) = TCP_S_LISTEN"
  "outbox (cloneListeningConnection c) = []"
proof -
  have 1: "bounds_ok ((upd_state (\<lambda>s. s\<lparr>active := False, fork := True\<rparr>) d)\<lparr>localAddr := x, localPort := y, fsm := z\<rparr>)"
    if "bounds_ok d" "is_short y" for d x y z
    using that by (auto simp: bounds_ok_def rto_ok_def ssthresh_ok_def)
  show "bounds_ok (cloneListeningConnection c)" if "bounds_ok c"
    unfolding cloneListeningConnection_def Let_def
  proof (rule 1)
    show "is_short (localPort c)" using that by (simp add: bounds_ok_def)
  qed (simp only: alg_initialize_keys, rule bounds_ok_new,
      simp_all add: new_TCPConnection_def is_short_simps)
  show "fsm (cloneListeningConnection c) = TCP_S_LISTEN" "outbox (cloneListeningConnection c) = []"
    by (simp_all add: cloneListeningConnection_def Let_def alg_initialize_keys)
      (simp add: new_TCPConnection_def)
qed

definition opened :: "TCPOpenCommand \<Rightarrow> TCPConnection \<Rightarrow> TCPConnection" where
  "opened oc c = (if fsm c = TCP_S_INIT then initConnection oc c else c)"

lemma opened_keys:
  "sockPairOf (opened oc c) = sockPairOf c" "appKeyOf (opened oc c) = appKeyOf c"
  "bounds_ok c \<Longrightarrow> bounds_ok (opened oc c)"
  by (simp_all add: opened_def initConnection_keys)

lemma process_OPEN_ACTIVE_ok:
  assumes run: "process_OPEN_ACTIVE p oc (m, c) = Inr (m', d)"
    and ok: "tables_ok m (cs(p \<mapsto> c))" and b: "bounds_ok c"
  shows "tables_ok m' (cs(p \<mapsto> d)) \<and> bounds_ok d"
proof -
  let ?c = "upd_state (\<lambda>s. s\<lparr>active := True\<rparr>) (opened oc c)"
  obtain lp m1 m2 e where 1: "(if to_short (oc_localPort oc) = -1 then getEphemeralPort m
        else Inr (to_short (oc_localPort oc), m)) = Inr (lp, m1)"
    and 2: "updateSockPair p (oc_localAddr oc) (oc_remoteAddr oc) lp (to_short (oc_remotePort oc)) (m1, ?c) = Inr (m', e)"
    and 3: "sendInitialSyn e = Inr d"
    using run unfolding process_OPEN_ACTIVE_def prod.case Let_def opened_def[symmetric]
    by (auto split: if_splits)
  have "sockPairOf ?c = sockPairOf c" "appKeyOf ?c = appKeyOf c"
    using opened_keys[where oc = oc and c = c] by (simp_all add: sockPairOf_def appKeyOf_def)
  then have "tables_ok m (cs(p \<mapsto> ?c))" by (rule tables_ok_frame[OF ok])
  then have "tables_ok m1 (cs(p \<mapsto> ?c))" using 1 getEphemeralPort_ok(1) by (auto split: if_splits)
  note e = updateSockPair_ok[OF 2 this]
  have "is_short lp" using 1 getEphemeralPort_ok(2)[OF _ ok] is_short_simps by (auto split: if_splits)
  moreover have "bounds_ok ?c" using opened_keys(3)[OF b] bounds_ok_cong[of ?c "opened oc c"] by simp
  ultimately have "bounds_ok e" unfolding e(3) by (intro bounds_ok_rename is_short_simps(1))
  then show ?thesis
    using e(1) conn_keeps.sendInitialSyn_step[OF 3] tables_ok_ident by blast
qed

lemma process_OPEN_PASSIVE_ok:
  assumes run: "process_OPEN_PASSIVE p oc (m, c) = Inr (m', d)"
    and ok: "tables_ok m (cs(p \<mapsto> c))" and b: "bounds_ok c"
  shows "tables_ok m' (cs(p \<mapsto> d)) \<and> bounds_ok d"
proof -
  let ?c = "upd_state (\<lambda>s. s\<lparr>active := False, fork := oc_fork oc\<rparr>) (opened oc c)"
  have 2: "updateSockPair p (oc_localAddr oc) nullAddr (to_short (oc_localPort oc)) (-1) (m, ?c) = Inr (m', d)"
    using run unfolding process_OPEN_PASSIVE_def prod.case Let_def opened_def[symmetric]
    by (auto split: if_splits)
  have "sockPairOf ?c = sockPairOf c" "appKeyOf ?c = appKeyOf c"
    using opened_keys[where oc = oc and c = c] by (simp_all add: sockPairOf_def appKeyOf_def)
  then have "tables_ok m (cs(p \<mapsto> ?c))" by (rule tables_ok_frame[OF ok])
  note e = updateSockPair_ok[OF 2 this]
  have "bounds_ok ?c" using opened_keys(3)[OF b] bounds_ok_cong[of ?c "opened oc c"] by simp
  then have "bounds_ok d" unfolding e(3) by (intro bounds_ok_rename is_short_simps)
  then show ?thesis using e(1) by simp
qed

lemma handleAppCommand_ok:
  assumes run: "handleAppCommand p cmd event (m, c) = Inr (ev, m', d)"
    and ok: "tables_ok m (cs(p \<mapsto> c))" and b: "bounds_ok c"
  shows "tables_ok m' (cs(p \<mapsto> d)) \<and> bounds_ok d"
proof (cases "(\<exists>oc. cmd = TCP_C_OPEN_ACTIVE oc) \<or> (\<exists>oc. cmd = TCP_C_OPEN_PASSIVE oc)")
  case True
  then show ?thesis using run process_OPEN_ACTIVE_ok[OF _ ok b] process_OPEN_PASSIVE_ok[OF _ ok b]
    by (auto simp: handleAppCommand_def)
next
  case False
  then have "m' = m \<and> conn_ident d = conn_ident c \<and> bounds_ok d"
    using run b unfolding handleAppCommand_def
    by (cases cmd)
      (auto dest: conn_keeps.process_SEND_step conn_keeps.process_CLOSE_step
        conn_keeps.process_ABORT_step conn_keeps.process_STATUS_step)
  then show ?thesis using tables_ok_ident[OF ok] by blast
qed

lemma processAppCommand_ok:
  assumes run: "processAppCommand p cmd (m, c) = Inr (ret, m', d)"
    and ok: "tables_ok m (cs(p \<mapsto> c))" and b: "bounds_ok c"
  shows "tables_ok m' (cs(p \<mapsto> d)) \<and> bounds_ok d \<and> (ret \<longleftrightarrow> fsm d \<noteq> TCP_S_CLOSED)"
proof -
  obtain ev v e where 1: "handleAppCommand p cmd ev (m, c) = Inr (v, m', e)"
    and 2: "performStateTransition v e = Inr (ret, d)"
    using run unfolding processAppCommand_def by auto
  note e = handleAppCommand_ok[OF 1 ok b]
  show ?thesis
    using e performStateTransition_ret[OF 2] conn_keeps.performStateTransition_step[OF 2]
      tables_ok_ident by blast
qed

lemma processTimer_ok:
  assumes run: "processTimer t c = Inr (ret, d)"
    and ok: "tables_ok m (cs(p \<mapsto> c))" and b: "bounds_ok c"
  shows "tables_ok m (cs(p \<mapsto> d)) \<and> bounds_ok d \<and> (ret \<longleftrightarrow> fsm d \<noteq> TCP_S_CLOSED)"
proof -
  obtain ev e where "performStateTransition ev e = Inr (ret, d)"
    using run unfolding processTimer_def by auto
  then show ?thesis
    using performStateTransition_ret conn_keeps.processTimer_step[OF run] tables_ok_ident[OF ok] b
    by blast
qed

section \<open>Segments\<close>

definition seg_ports_ok :: "TCPSegment \<Rightarrow> bool" where
  "seg_ports_ok seg \<longleftrightarrow> is_short (srcPort seg) \<and> is_short (destPort seg)"

lemma tables_ok_updateSockPair:
  assumes "updateSockPair p la ra lp rp (m, c) = Inr (m', d)"
    and "tables_ok m (cs(p \<mapsto> c))" and "bounds_ok c" and "is_short lp" and "is_short rp"
  shows "tables_ok m' (cs(p \<mapsto> d)) \<and> bounds_ok d"
  using updateSockPair_ok[OF assms(1,2)] bounds_ok_rename[OF assms(3-5)] by simp

lemma synInSynSent_ok:
  assumes run: "synInSynSent p seg src dest (m, c) = Inr (ev, m', d)"
    and ok: "tables_ok m (cs(p \<mapsto> c))" and b: "bounds_ok c" and ports: "seg_ports_ok seg"
  shows "tables_ok m' (cs(p \<mapsto> d)) \<and> bounds_ok d"
proof -
  let ?c0 = "upd_state (\<lambda>s. s\<lparr>rcv_nxt := sequenceNo seg + 1, irs := sequenceNo seg\<rparr>) c"
  define c1 where "c1 = ?c0\<lparr>receiveQueue := rcvq_init (rcv_nxt (state ?c0)) (receiveQueue ?c0)\<rparr>"
  have c1: "conn_core c1 = conn_core c" by (simp add: c1_def conn_core_def)
  obtain c2 c3 where 1: "takeAckOfSyn seg c1 = Inr c2"
    and 2: "updateSockPair p dest src (destPort seg) (srcPort seg) (m, c2) = Inr (m', c3)"
    and 3: "synSentOutcome seg c3 = Inr (ev, d)"
    using run unfolding synInSynSent_def Let_def prod.case c1_def[symmetric] by auto
  have "conn_ident c2 = conn_ident c \<and> bounds_ok c2"
    using conn_keeps.takeAckOfSyn_step[OF 1] c1 bounds_ok_core[OF c1] b
    by (auto simp: conn_core_def conn_ident_def)
  then have "tables_ok m' (cs(p \<mapsto> c3)) \<and> bounds_ok c3"
    using tables_ok_updateSockPair[OF 2] tables_ok_ident[OF ok] ports unfolding seg_ports_ok_def by blast
  then show ?thesis using conn_keeps.synSentOutcome_step[OF 3] tables_ok_ident by blast
qed

lemma processSegmentInListen_ok:
  assumes run: "processSegmentInListen p new seg src dest (m, c) = Inr (ev, m', d, spin)"
    and ok: "tables_ok m (cs(p \<mapsto> c))" and b: "bounds_ok c" and ports: "seg_ports_ok seg" and new: "new \<noteq> p" "cs new = None"
  shows "bounds_ok d \<and> (case spin of None \<Rightarrow> tables_ok m' (cs(p \<mapsto> d))
    | Some n \<Rightarrow> tables_ok m' (cs(p \<mapsto> d, new \<mapsto> n)) \<and> n = cloneListeningConnection c)"
proof (cases "\<not> rstBit seg \<and> \<not> ackBit seg \<and> synBit seg")
  case False
  then have "m' = m \<and> spin = None \<and> conn_ident d = conn_ident c \<and> bounds_ok d"
    using run b conn_keeps.alg.sendRstTo_R unfolding processSegmentInListen_def
    by (auto split: if_splits)
  then show ?thesis using tables_ok_ident[OF ok] by auto
next
  case True
  obtain e where answer: "answerSynInListen seg e = Inr d"
    and reg: "(if fork (state c)
          then ebind (addForkedConnection p new dest src (destPort seg) (srcPort seg)
                (m, c, cloneListeningConnection c)) (\<lambda>(m, c, conn). Inr (m, c, Some conn))
          else ebind (updateSockPair p dest src (destPort seg) (srcPort seg) (m, c))
                (\<lambda>(m, c). Inr (m, c, None))) = Inr (m', e, spin)"
    using run True unfolding processSegmentInListen_def by auto
  note keep = conn_keeps.answerSynInListen_step[OF answer]
  show ?thesis
  proof (cases "fork (state c)")
    case False
    then have "updateSockPair p dest src (destPort seg) (srcPort seg) (m, c) = Inr (m', e)" "spin = None"
      using reg by auto
    then show ?thesis using tables_ok_updateSockPair[OF _ ok b] ports keep tables_ok_ident
      unfolding seg_ports_ok_def by fastforce
  next
    case True
    then obtain n where n: "addForkedConnection p new dest src (destPort seg) (srcPort seg)
        (m, c, cloneListeningConnection c) = Inr (m', e, n)" "spin = Some n"
      using reg by auto
    note add = addForkedConnection_ok[OF n(1) ok new]
    have "bounds_ok (c\<lparr>localAddr := dest, remoteAddr := src, localPort := destPort seg,
        remotePort := srcPort seg, connId := connId e\<rparr>)"
      using b ports by (auto simp: bounds_ok_def rto_ok_def ssthresh_ok_def seg_ports_ok_def)
    then have "bounds_ok e" by (subst add(2))
    then have "bounds_ok d" and "conn_ident d = conn_ident e" using keep by simp_all
    then show ?thesis using tables_ok_ident2[OF add(1) new(1), of d] n(2) add(3) by simp
  qed
qed

lemma processTCPSegment_ok:
  assumes run: "processTCPSegment p new seg src dest (m, c) = Inr (ret, m', d, spin)"
    and ok: "tables_ok m (cs(p \<mapsto> c))" and b: "bounds_ok c" and ports: "seg_ports_ok seg" and new: "new \<noteq> p" "cs new = None"
  shows "bounds_ok d \<and> (ret \<longleftrightarrow> fsm d \<noteq> TCP_S_CLOSED) \<and> (case spin of None \<Rightarrow> tables_ok m' (cs(p \<mapsto> d))
    | Some n \<Rightarrow> tables_ok m' (cs(p \<mapsto> d, new \<mapsto> n)) \<and> n = cloneListeningConnection c)"
proof -
  obtain ev e where 1: "process_RCV_SEGMENT p new seg src dest (m, c) = Inr (ev, m', e, spin)"
    and 2: "performStateTransition ev e = Inr (ret, d)"
    using run unfolding processTCPSegment_def by auto
  have "bounds_ok e \<and> (case spin of None \<Rightarrow> tables_ok m' (cs(p \<mapsto> e))
    | Some n \<Rightarrow> tables_ok m' (cs(p \<mapsto> e, new \<mapsto> n)) \<and> n = cloneListeningConnection c)"
  proof (cases "fsm c = TCP_S_LISTEN")
    case True
    then have "processSegmentInListen p new seg src dest (m, c) = Inr (ev, m', e, spin)"
      using 1 by (simp add: process_RCV_SEGMENT_def)
    then show ?thesis using processSegmentInListen_ok[OF _ ok b ports new] by blast
  next
    case False
    then have "spin = None \<and> (processSegmentInSynSent p seg src dest (m, c) = Inr (ev, m', e) \<or>
        m' = m \<and> processSegment1stThru8th seg c = Inr (ev, e))"
      using 1 by (auto simp: process_RCV_SEGMENT_def split: if_splits)
    moreover have "tables_ok m' (cs(p \<mapsto> e)) \<and> bounds_ok e"
      if "processSegmentInSynSent p seg src dest (m, c) = Inr (ev, m', e)"
      using that synInSynSent_ok[OF _ ok b ports] conn_keeps.alg.sendRstTo_R
        conn_keeps.sendIndicationToApp_step tables_ok_ident[OF ok] ok b
      unfolding processSegmentInSynSent_def by (auto split: if_splits)
    moreover have "conn_ident e = conn_ident c \<and> bounds_ok e" if "processSegment1stThru8th seg c = Inr (ev, e)"
      using conn_keeps.processSegment1stThru8th_step[OF that] b by blast
    ultimately show ?thesis using tables_ok_ident[OF ok] by auto
  qed
  then have e: "bounds_ok e" and t: "case spin of None \<Rightarrow> tables_ok m' (cs(p \<mapsto> e))
    | Some n \<Rightarrow> tables_ok m' (cs(p \<mapsto> e, new \<mapsto> n)) \<and> n = cloneListeningConnection c" by simp_all
  note keep = conn_keeps.performStateTransition_step[OF 2] and ret = performStateTransition_ret[OF 2]
  have id: "conn_ident d = conn_ident e" using keep by simp
  show ?thesis
  proof (cases spin)
    case None
    then show ?thesis using t keep ret e tables_ok_ident[OF _ id] by simp
  next
    case (Some n)
    then have t': "tables_ok m' (cs(p \<mapsto> e, new \<mapsto> n))" and n: "n = cloneListeningConnection c"
      using t[unfolded Some option.case] by blast+
    show ?thesis using tables_ok_ident2[OF t' new(1) id] n Some keep ret e by auto
  qed
qed

section \<open>The module\<close>

text \<open>
  A step is one message: a timer that is scheduled, a segment or a command. What an
  application or the network sends is not constrained; the ports of a segment are \<open>short\<close>s.
\<close>

inductive tcp_step_rel :: "TCPMain \<Rightarrow> TCPMain \<Rightarrow> bool" where
  timer: "conns tm p = Some c \<Longrightarrow> timers c t = Scheduled time \<Longrightarrow>
    handleTimerMessage time t p tm = Inr tm' \<Longrightarrow> tcp_step_rel tm tm'"
| segment: "seg_ports_ok seg \<Longrightarrow> handleSegment time seg src dest tm = Inr tm' \<Longrightarrow> tcp_step_rel tm tm'"
| command: "handleCommand time gate cId cmd tm = Inr tm' \<Longrightarrow> tcp_step_rel tm tm'"

inductive reachable :: "TCPMain \<Rightarrow> bool" where
  init: "reachable (init_TCPMain connIdSoFar)"
| step: "reachable tm \<Longrightarrow> tcp_step_rel tm tm' \<Longrightarrow> reachable tm'"

inductive_cases tcp_step_relE: "tcp_step_rel tm tm'"

definition conn_ok :: "TCPConnection \<Rightarrow> bool" where
  "conn_ok c \<longleftrightarrow> bounds_ok c \<and> fsm c \<noteq> TCP_S_CLOSED \<and> outbox c = []"

definition main_inv :: "TCPMain \<Rightarrow> bool" where
  "main_inv tm \<longleftrightarrow> tables_ok (tables tm) (conns tm) \<and>
     (\<forall>p c. conns tm p = Some c \<longrightarrow> p < nextPtr tm \<and> conn_ok c)"

lemma storeConnection_ok:
  assumes "tables_ok (tables tm) ((conns tm)(p \<mapsto> c))"
    and "\<forall>q d. conns tm q = Some d \<longrightarrow> q < nextPtr tm \<and> (q = p \<or> conn_ok d)" and "p < nextPtr tm"
    and "bounds_ok c" and "ret \<longleftrightarrow> fsm c \<noteq> TCP_S_CLOSED"
  shows "main_inv (storeConnection ret p c tm)"
proof -
  let ?d = "c\<lparr>outbox := []\<rparr>"
  have keys: "conn_ident ?d = conn_ident c" by (simp add: conn_ident_def)
  have b: "bounds_ok ?d" using assms(4) bounds_ok_cong[of ?d c] by simp
  have t: "tables_ok (tables tm) ((conns tm)(p \<mapsto> ?d))" using assms(1) keys by (rule tables_ok_ident)
  show ?thesis
  proof (cases ret)
    case True
    then show ?thesis using t b assms
      by (auto simp: storeConnection_def flushTo_def main_inv_def conn_ok_def split: if_splits)
  next
    case False
    have "tables_ok (removeFromTables ?d (tables tm)) ((conns tm)(p := None))"
      using removeFromTables_ok[OF t] by simp
    then show ?thesis using False assms
      by (auto simp: storeConnection_def flushTo_def main_inv_def split: if_splits)
  qed
qed

lemma tables_ok_time:
  assumes "main_inv tm" and "conns tm p = Some c" and "sockPairOf d = sockPairOf c" "appKeyOf d = appKeyOf c"
  shows "tables_ok (tables tm) ((conns tm)(p \<mapsto> d))"
proof (rule tables_ok_frame)
  have "(conns tm)(p \<mapsto> c) = conns tm" using assms(2) by auto
  then show "tables_ok (tables tm) ((conns tm)(p \<mapsto> c))" using assms(1) by (simp add: main_inv_def)
qed (use assms in auto)

lemma now_keys:
  "sockPairOf (c\<lparr>timers := ts, now := t\<rparr>) = sockPairOf c" "appKeyOf (c\<lparr>timers := ts, now := t\<rparr>) = appKeyOf c"
  "bounds_ok (c\<lparr>timers := ts, now := t\<rparr>) = bounds_ok c"
  "sockPairOf (c\<lparr>timers := ts\<rparr>) = sockPairOf c" "appKeyOf (c\<lparr>timers := ts\<rparr>) = appKeyOf c"
  "bounds_ok (c\<lparr>timers := ts\<rparr>) = bounds_ok c"
  "sockPairOf (c\<lparr>now := t\<rparr>) = sockPairOf c" "appKeyOf (c\<lparr>now := t\<rparr>) = appKeyOf c"
  "bounds_ok (c\<lparr>now := t\<rparr>) = bounds_ok c"
  by (simp_all add: sockPairOf_def appKeyOf_def bounds_ok_def rto_ok_def ssthresh_ok_def)

lemma handleTimerMessage_inv:
  assumes inv: "main_inv tm" and run: "handleTimerMessage time t p tm = Inr tm'"
  shows "main_inv tm'"
proof -
  obtain c ret d where c: "conns tm p = Some c"
    and 1: "processTimer t (c\<lparr>timers := (timers c)(t := Idle), now := time\<rparr>) = Inr (ret, d)"
    and tm': "tm' = storeConnection ret p d tm"
    using run by (auto simp: handleTimerMessage_def contextPointer_def split: option.splits if_splits)
  have "bounds_ok c" using inv c by (auto simp: main_inv_def conn_ok_def)
  then have "tables_ok (tables tm) ((conns tm)(p \<mapsto> d)) \<and> bounds_ok d \<and> (ret \<longleftrightarrow> fsm d \<noteq> TCP_S_CLOSED)"
    by (intro processTimer_ok[OF 1] tables_ok_time[OF inv c]) (simp_all add: now_keys)
  then show ?thesis unfolding tm' using inv c
    by (intro storeConnection_ok) (auto simp: main_inv_def)
qed

lemma handleSegment_inv:
  assumes inv: "main_inv tm" and ports: "seg_ports_ok seg" and run: "handleSegment time seg src dest tm = Inr tm'"
  shows "main_inv tm'"
proof (cases "findConnForSegment seg src dest (tables tm)")
  case None
  then show ?thesis using run inv by (auto simp: handleSegment_def main_inv_def)
next
  case (Some p)
  then obtain c m ret d spin where c: "conns tm p = Some c"
    and 1: "processTCPSegment p (nextPtr tm) seg src dest (tables tm, c\<lparr>now := time\<rparr>) = Inr (ret, m, d, spin)"
    and tm': "tm' = storeConnection ret p d (case spin of None \<Rightarrow> tm\<lparr>tables := m\<rparr>
      | Some n \<Rightarrow> tm\<lparr>tables := m, conns := (conns tm)(nextPtr tm \<mapsto> n), nextPtr := nextPtr tm + 1\<rparr>)"
    using run by (auto simp: handleSegment_def Let_def split: option.splits)
  have p: "p < nextPtr tm" and b: "bounds_ok c" using inv c by (auto simp: main_inv_def conn_ok_def)
  have new: "nextPtr tm \<noteq> p" "conns tm (nextPtr tm) = None"
    using p inv by (auto simp: main_inv_def) (metis not_None_eq nat_neq_iff)
  have res: "bounds_ok d \<and> (ret \<longleftrightarrow> fsm d \<noteq> TCP_S_CLOSED) \<and>
    (case spin of None \<Rightarrow> tables_ok m ((conns tm)(p \<mapsto> d))
    | Some n \<Rightarrow> tables_ok m ((conns tm)(p \<mapsto> d, nextPtr tm \<mapsto> n)) \<and> n = cloneListeningConnection (c\<lparr>now := time\<rparr>))"
    using b new ports by (intro processTCPSegment_ok[OF 1] tables_ok_time[OF inv c]) (simp_all add: now_keys)
  show ?thesis
  proof (cases spin)
    case None
    then show ?thesis unfolding tm' using res inv p
      by (intro storeConnection_ok) (auto simp: main_inv_def)
  next
    case (Some n)
    have "conn_ok n" using res Some b cloneListeningConnection_ok by (simp add: conn_ok_def now_keys)
    then show ?thesis unfolding tm' Some option.case using res inv p new Some
      by (intro storeConnection_ok) (auto simp: main_inv_def fun_upd_twist less_SucI)
  qed
qed

lemma handleCommand_inv:
  assumes inv: "main_inv tm" and run: "handleCommand time gate cId cmd tm = Inr tm'"
  shows "main_inv tm'"
proof (cases "findConnForApp gate cId (tables tm)")
  case (Some p)
  then obtain c ret m d where c: "conns tm p = Some c"
    and 1: "processAppCommand p cmd (tables tm, c\<lparr>now := time\<rparr>) = Inr (ret, m, d)"
    and tm': "tm' = storeConnection ret p d (tm\<lparr>tables := m\<rparr>)"
    using run by (auto simp: handleCommand_def split: option.splits)
  have "bounds_ok c" using inv c by (auto simp: main_inv_def conn_ok_def)
  then have "tables_ok m ((conns tm)(p \<mapsto> d)) \<and> bounds_ok d \<and> (ret \<longleftrightarrow> fsm d \<noteq> TCP_S_CLOSED)"
    by (intro processAppCommand_ok[OF 1] tables_ok_time[OF inv c]) (simp_all add: now_keys)
  then show ?thesis unfolding tm' using inv c
    by (intro storeConnection_ok) (auto simp: main_inv_def)
next
  case None
  let ?p = "nextPtr tm" and ?c = "new_TCPConnection time gate cId"
  let ?m = "(tables tm)\<lparr>tcpAppConnMap := (tcpAppConnMap (tables tm))
    (\<lparr>key_appGateIndex = gate, key_connId = cId\<rparr> \<mapsto> ?p)\<rparr>"
  obtain ret m d where 1: "processAppCommand ?p cmd (?m, ?c\<lparr>now := time\<rparr>) = Inr (ret, m, d)"
    and tm': "tm' = storeConnection ret ?p d (tm\<lparr>nextPtr := ?p + 1, tables := m\<rparr>)"
    using run None by (auto simp: handleCommand_def Let_def)
  have new: "conns tm ?p = None"
    using inv by (auto simp: main_inv_def) (metis not_None_eq nat_neq_iff)
  then have "tables_ok (tables tm) ((conns tm)(?p \<mapsto> ?c\<lparr>now := time\<rparr>))"
    using inv by (intro tables_ok_fresh) (simp_all add: main_inv_def)
  moreover have "appKeyOf (?c\<lparr>now := time\<rparr>) = \<lparr>key_appGateIndex = gate, key_connId = cId\<rparr>"
    by (simp add: appKeyOf_def new_TCPConnection_def)
  ultimately have t: "tables_ok ?m ((conns tm)(?p \<mapsto> ?c\<lparr>now := time\<rparr>))"
    unfolding tables_ok_def by auto
  have b: "bounds_ok (?c\<lparr>now := time\<rparr>)" by (rule bounds_ok_new) (simp_all add: new_TCPConnection_def is_short_simps)
  show ?thesis unfolding tm' using inv processAppCommand_ok[OF 1 t b]
    by (intro storeConnection_ok) (auto simp: main_inv_def less_SucI)
qed

lemma reachable_inv: "reachable tm \<Longrightarrow> main_inv tm"
proof (induction rule: reachable.induct)
  case (init i)
  show ?case using tables_ok_init by (simp add: main_inv_def init_TCPMain_def)
next
  case (step tm tm')
  from step.hyps(2) show ?case
    using handleTimerMessage_inv[OF step.IH] handleSegment_inv[OF step.IH] handleCommand_inv[OF step.IH]
    by (elim tcp_step_relE) blast+
qed

section \<open>A reachable state with a listening connection\<close>

definition passiveOpenExample :: TCPOpenCommand where
  "passiveOpenExample = \<lparr>oc_localAddr = V4 1, oc_remoteAddr = nullAddr, oc_localPort = 80,
     oc_remotePort = -1, oc_fork = True, oc_sendQueueClass = VirtualDataSendQueueClass,
     oc_receiveQueueClass = VirtualDataRcvQueueClass, oc_tcpAlgorithmClass = TCPReno\<rparr>"

definition synExample :: TCPSegment where
  "synExample = new_TCPSegment\<lparr>srcPort := 1024, destPort := 80, sequenceNo := 100, synBit := True,
     window := 8192\<rparr>"

lemma listening_reachable:
  obtains tm c where "reachable tm" and "conns tm 0 = Some c"
    and "findConnForSegment synExample (V4 2) (V4 1) (tables tm) = Some 0" and "fsm c = TCP_S_LISTEN"
proof -
  let ?run = "handleCommand 0 0 1 (TCP_C_OPEN_PASSIVE passiveOpenExample) (init_TCPMain 5)"
  have "\<exists>tm c. ?run = Inr tm \<and> conns tm 0 = Some c \<and> fsm c = TCP_S_LISTEN \<and>
      findConnForSegment synExample (V4 2) (V4 1) (tables tm) = Some 0"
    by (simp add: handleCommand_def init_TCPMain_def init_TCPTables_def findConnForApp_def Let_def
        processAppCommand_def preanalyseAppCommandEvent_def handleAppCommand_def
        process_OPEN_PASSIVE_def passiveOpenExample_def new_TCPConnection_def initConnection_def
        alg_initialize_def TCPBaseAlg_initialize_def updateSockPair_def sockPairOf_def mkSockPair_def
        performStateTransition_def stateEntered_def cancelEvent_def storeConnection_def flushTo_def
        findConnForSegment_def synExample_def nullAddr_def to_short_def new_TCPSegment_def)
  then obtain tm c where run: "?run = Inr tm" and "conns tm 0 = Some c" "fsm c = TCP_S_LISTEN"
    "findConnForSegment synExample (V4 2) (V4 1) (tables tm) = Some 0" by blast
  moreover have "reachable tm" using reachable.step[OF reachable.init tcp_step_rel.command[OF run]] .
  ultimately show thesis using that by blast
qed

section \<open>Properties\<close>



text \<open>C6: In every reachable state, every connection, whatever its algorithm, keeps its
  retransmission timeout between one second and 240 seconds, its slow start threshold at two
  segments at least, and the initial segment size.\<close>

theorem retransmission_bounds_hold:
  assumes "reachable tm" and "conns tm p = Some c"
  shows "1 \<le> rexmit_timeout (state c) \<and> rexmit_timeout (state c) \<le> 240 \<and>
    2 * snd_mss (state c) \<le> ssthresh (state c) \<and> snd_mss (state c) = 1024"
proof -
  have "bounds_ok c" using reachable_inv[OF assms(1)] assms(2) by (simp add: main_inv_def conn_ok_def)
  then show ?thesis
    by (auto simp: bounds_ok_def rto_ok_def ssthresh_ok_def MIN_REXMIT_TIMEOUT_def MAX_REXMIT_TIMEOUT_def)
qed

theorem retransmission_bounds_hold_witness:
  "\<exists>tm c. reachable tm \<and> conns tm 0 = Some c \<and> rexmit_timeout (state c) \<le> 240"
proof -
  obtain tm c where "reachable tm" "conns tm 0 = Some c" by (rule listening_reachable)
  then show ?thesis using retransmission_bounds_hold[of tm 0 c] by blast
qed



end
