(* ===== verification/TCP_Setup.thy ===== *)
theory TCP_Setup
  imports TCP_Steps TCP_Sending
begin

text \<open>
  Connection setup: the retransmission of a SYN, and the three-way handshake between two
  connections, from the commands to \<open>ESTABLISHED\<close> on both sides.
\<close>

section \<open>SYN retransmission\<close>











section \<open>The three-way handshake\<close>














lemma conn_rest_fsm: "conn_rest (c\<lparr>fsm := st\<rparr>) = (conn_rest c)\<lparr>fsm := st\<rparr>"
  by (simp add: conn_rest_def)






section \<open>From the commands to the segments\<close>












end
