(* ===== verification/IPv4_Address.thy ===== *)
theory IPv4_Address
  imports Prelude
begin

unbundle bit_operations_syntax

text \<open>
  IPv4 addresses: \<open>Network/Contract/IPAddress.cc\<close> and \<open>IPAddress.h\<close>. An address is four
  bytes; \<open>getInt\<close> and \<open>set\<close> convert it to and from a 32-bit word. The lemmas read the byte
  operations as operations on the bits of that word.
\<close>

record IPAddress =
  addr0 :: uint8
  addr1 :: uint8
  addr2 :: uint8
  addr3 :: uint8

definition IPAddress4 :: "uint8 \<Rightarrow> uint8 \<Rightarrow> uint8 \<Rightarrow> uint8 \<Rightarrow> IPAddress" where
  "IPAddress4 i0 i1 i2 i3 = \<lparr>addr0 = i0, addr1 = i1, addr2 = i2, addr3 = i3\<rparr>"

definition ip_null :: IPAddress where
  "ip_null = IPAddress4 0 0 0 0"

definition ip_set :: "uint32 \<Rightarrow> IPAddress" where
  "ip_set ip = \<lparr>addr0 = ucast (drop_bit 24 ip AND 0xFF), addr1 = ucast (drop_bit 16 ip AND 0xFF),
     addr2 = ucast (drop_bit 8 ip AND 0xFF), addr3 = ucast (ip AND 0xFF)\<rparr>"

definition getInt :: "IPAddress \<Rightarrow> uint32" where
  "getInt a = push_bit 24 (ucast (addr0 a)) + push_bit 16 (ucast (addr1 a)) +
     push_bit 8 (ucast (addr2 a)) + ucast (addr3 a)"

definition ip_isNull :: "IPAddress \<Rightarrow> bool" where
  "ip_isNull a \<longleftrightarrow> addr0 a = 0 \<and> addr1 a = 0 \<and> addr2 a = 0 \<and> addr3 a = 0"

definition ip_equals :: "IPAddress \<Rightarrow> IPAddress \<Rightarrow> bool" where
  "ip_equals a b \<longleftrightarrow> addr0 a = addr0 b \<and> addr1 a = addr1 b \<and> addr2 a = addr2 b \<and> addr3 a = addr3 b"

definition doAnd :: "IPAddress \<Rightarrow> IPAddress \<Rightarrow> IPAddress" where
  "doAnd a ip = IPAddress4 (addr0 a AND addr0 ip) (addr1 a AND addr1 ip)
     (addr2 a AND addr2 ip) (addr3 a AND addr3 ip)"

definition isMulticast :: "IPAddress \<Rightarrow> bool" where
  "isMulticast a \<longleftrightarrow> addr0 a AND 0xF0 = 0xE0"

definition maskedAddrAreEqual :: "IPAddress \<Rightarrow> IPAddress \<Rightarrow> IPAddress \<Rightarrow> bool" where
  "maskedAddrAreEqual a1 a2 netmask = ip_equals (doAnd a1 netmask) (doAnd a2 netmask)"

section \<open>Classes\<close>

datatype IPClass = ClassA | ClassB | ClassC | ClassD | ClassE | ClassUnknown

definition getIPClass :: "IPAddress \<Rightarrow> IPClass" where
  "getIPClass a =
     (if addr0 a AND 0x80 = 0x00 then ClassA
      else if addr0 a AND 0xC0 = 0x80 then ClassB
      else if addr0 a AND 0xE0 = 0xC0 then ClassC
      else if addr0 a AND 0xF0 = 0xE0 then ClassD
      else if addr0 a AND 0xF8 = 0xF0 then ClassE
      else ClassUnknown)"

definition getNetwork :: "IPAddress \<Rightarrow> IPAddress" where
  "getNetwork a = (case getIPClass a of
     ClassA \<Rightarrow> IPAddress4 (addr0 a) 0 0 0
   | ClassB \<Rightarrow> IPAddress4 (addr0 a) (addr1 a) 0 0
   | ClassC \<Rightarrow> IPAddress4 (addr0 a) (addr1 a) (addr2 a) 0
   | _ \<Rightarrow> ip_null)"

definition getNetworkMask :: "IPAddress \<Rightarrow> IPAddress" where
  "getNetworkMask a = (case getIPClass a of
     ClassA \<Rightarrow> IPAddress4 255 0 0 0
   | ClassB \<Rightarrow> IPAddress4 255 255 0 0
   | ClassC \<Rightarrow> IPAddress4 255 255 255 0
   | _ \<Rightarrow> ip_null)"

definition isNetwork :: "IPAddress \<Rightarrow> IPAddress \<Rightarrow> bool" where
  "isNetwork a toCmp \<longleftrightarrow> (case getIPClass a of
     ClassA \<Rightarrow> addr0 a = addr0 toCmp
   | ClassB \<Rightarrow> addr0 a = addr0 toCmp \<and> addr1 a = addr1 toCmp
   | ClassC \<Rightarrow> addr0 a = addr0 toCmp \<and> addr1 a = addr1 toCmp \<and> addr2 a = addr2 toCmp
   | _ \<Rightarrow> False)"

section \<open>Prefixes\<close>

definition prefixMatches :: "IPAddress \<Rightarrow> IPAddress \<Rightarrow> int \<Rightarrow> bool" where
  "prefixMatches a to_cmp numbits \<longleftrightarrow>
     (if numbits < 1 then True
      else if numbits > 31 then getInt a = getInt to_cmp
      else let mask = NOT (drop_bit (nat numbits) (0xFFFFFFFF :: uint32))
           in getInt a AND mask = getInt to_cmp AND mask)"

text \<open>The loop of \<open>numMatchingPrefixBits\<close>, with \<open>i + 1\<close> bits left to look at.\<close>

fun matchingBits :: "uint32 \<Rightarrow> nat \<Rightarrow> int" where
  "matchingBits res 0 = 32"
| "matchingBits res (Suc i) = (if res AND push_bit i 1 \<noteq> 0 then 31 - int i else matchingBits res i)"

definition numMatchingPrefixBits :: "IPAddress \<Rightarrow> IPAddress \<Rightarrow> int" where
  "numMatchingPrefixBits a to_cmp = matchingBits (getInt a XOR getInt to_cmp) 32"

text \<open>The loop of \<open>netmaskLength\<close> stops before bit 31.\<close>

function netmaskBits :: "uint32 \<Rightarrow> nat \<Rightarrow> int" where
  "netmaskBits a i =
     (if i < 31 then if a AND push_bit i 1 \<noteq> 0 then 32 - int i else netmaskBits a (i + 1) else 0)"
  by pat_completeness auto
termination
  by (relation "measure (\<lambda>(a, i). 31 - i)") auto

declare netmaskBits.simps [simp del]

definition netmaskLength :: "IPAddress \<Rightarrow> int" where
  "netmaskLength a = netmaskBits (getInt a) 0"

section \<open>Text form\<close>

definition digit :: "nat \<Rightarrow> char" where
  "digit d = char_of (48 + d)"

definition isDigit :: "char \<Rightarrow> bool" where
  "isDigit c \<longleftrightarrow> 48 \<le> (of_char c :: nat) \<and> (of_char c :: nat) \<le> 57"

definition isSpace :: "char \<Rightarrow> bool" where
  "isSpace c \<longleftrightarrow> (of_char c :: nat) = 32 \<or> 9 \<le> (of_char c :: nat) \<and> (of_char c :: nat) \<le> 13"

text \<open>\<open>%d\<close> of \<open>sprintf\<close>, for numbers that are not negative.\<close>

function decimal :: "nat \<Rightarrow> string" where
  "decimal n = (if n < 10 then [digit n] else decimal (n div 10) @ [digit (n mod 10)])"
  by pat_completeness auto
termination by (relation "measure id") auto

declare decimal.simps [simp del]

definition ip_str :: "IPAddress \<Rightarrow> string" where
  "ip_str a = decimal (unat (addr0 a)) @ ''.'' @ decimal (unat (addr1 a)) @ ''.'' @
     decimal (unat (addr2 a)) @ ''.'' @ decimal (unat (addr3 a))"

text \<open>
  The parser reads digits into an \<open>int\<close>, which wraps around at 32 bits; the end of the
  list is the terminating zero.
\<close>

fun readNumber :: "uint32 \<Rightarrow> string \<Rightarrow> uint32 \<times> string" where
  "readNumber num [] = (num, [])"
| "readNumber num (c # s) =
     (if isDigit c then readNumber (10 * num + (of_nat (of_char c) - 48)) s else (num, c # s))"

lemma readNumber_length: "length (snd (readNumber num s)) \<le> length s"
  by (induction s arbitrary: num) (auto intro: le_SucI)

lemma readNumber_less:
  "isDigit c \<Longrightarrow> length (snd (readNumber num (c # s))) < Suc (length s)"
  using readNumber_length by (auto simp: less_Suc_eq_le)

function parseNumbers :: "uint8 list \<Rightarrow> string \<Rightarrow> uint8 list option" where
  "parseNumbers tobytes [] = None"
| "parseNumbers tobytes (c # s) =
     (if \<not> isDigit c then None
      else
        let num = fst (readNumber 0 (c # s));
            rest = snd (readNumber 0 (c # s));
            tobytes = tobytes @ [ucast num]
        in if 255 <s num then None
           else (case rest of
                   [] \<Rightarrow> if length tobytes = 4 then Some tobytes else None
                 | d # s \<Rightarrow>
                     if d \<noteq> CHR ''.'' then None
                     else if length tobytes = 4 then None
                     else parseNumbers tobytes s))"
  by pat_completeness auto
termination
proof (relation "measure (\<lambda>(_, s). length s)", goal_cases)
  case 1 then show ?case by simp
next
  case (2 tobytes c s x xa xb d s')
  then show ?case using readNumber_less[of c 0 s] by (cases "readNumber 0 (c # s)") auto
qed

declare parseNumbers.simps(2) [simp del]

definition parseIPAddress :: "string \<Rightarrow> IPAddress option" where
  "parseIPAddress text = (case parseNumbers [] text of
     Some [b0, b1, b2, b3] \<Rightarrow> Some (IPAddress4 b0 b1 b2 b3)
   | _ \<Rightarrow> None)"

section \<open>Addresses as words\<close>


lemma getInt_or:
  "getInt a = push_bit 24 (ucast (addr0 a)) OR push_bit 16 (ucast (addr1 a)) OR
     push_bit 8 (ucast (addr2 a)) OR ucast (addr3 a)"
proof -
  have 1: "(push_bit 24 (ucast (addr0 a)) :: uint32) + push_bit 16 (ucast (addr1 a)) =
      push_bit 24 (ucast (addr0 a)) OR push_bit 16 (ucast (addr1 a))"
    by (rule disjunctive_add_eq_or) (auto simp: bit_eq_iff bit_simps dest: bit_imp_le_length)
  have 2: "(push_bit 24 (ucast (addr0 a)) OR push_bit 16 (ucast (addr1 a)) :: uint32) + push_bit 8 (ucast (addr2 a)) =
      (push_bit 24 (ucast (addr0 a)) OR push_bit 16 (ucast (addr1 a))) OR push_bit 8 (ucast (addr2 a))"
    by (rule disjunctive_add_eq_or) (auto simp: bit_eq_iff bit_simps dest: bit_imp_le_length)
  have 3: "((push_bit 24 (ucast (addr0 a)) OR push_bit 16 (ucast (addr1 a))) OR push_bit 8 (ucast (addr2 a)) :: uint32) + ucast (addr3 a) =
      ((push_bit 24 (ucast (addr0 a)) OR push_bit 16 (ucast (addr1 a))) OR push_bit 8 (ucast (addr2 a))) OR ucast (addr3 a)"
    by (rule disjunctive_add_eq_or) (auto simp: bit_eq_iff bit_simps dest: bit_imp_le_length)
  show ?thesis unfolding getInt_def 1 2 3 by (simp add: or.assoc)
qed

lemma bit_getInt:
  "bit (getInt a) n \<longleftrightarrow>
     (if n < 8 then bit (addr3 a) n
      else if n < 16 then bit (addr2 a) (n - 8)
      else if n < 24 then bit (addr1 a) (n - 16)
      else n < 32 \<and> bit (addr0 a) (n - 24))"
  unfolding getInt_or by (auto simp: bit_simps dest: bit_imp_le_length)

lemma getInt_ip_set [simp]: "getInt (ip_set ip) = ip"
proof (rule bit_word_eqI)
  fix n assume "n < LENGTH(32)"
  have ff: "bit (255::32 word) k \<longleftrightarrow> k < 8" for k
    using bit_mask_iff[of 8 k, where 'a="32 word"] by (auto simp: mask_eq_exp_minus_1)
  show "bit (getInt (ip_set ip)) n = bit ip n"
    using \<open>n < LENGTH(32)\<close> unfolding bit_getInt ip_set_def by (auto simp: bit_simps ff simp del: bit_numeral_word_iff)
qed

lemma getInt_eq_iff: "getInt a = getInt b \<longleftrightarrow> a = b"
proof
  assume eq: "getInt a = getInt b"
  have b: "bit (getInt a) n = bit (getInt b) n" for n using eq by simp
  have "addr3 a = addr3 b"
  proof (rule bit_word_eqI)
    fix n assume "n < LENGTH(8)" then show "bit (addr3 a) n = bit (addr3 b) n"
      using b[of n] by (simp add: bit_getInt)
  qed
  moreover have "addr2 a = addr2 b"
  proof (rule bit_word_eqI)
    fix n assume "n < LENGTH(8)" then show "bit (addr2 a) n = bit (addr2 b) n"
      using b[of "n + 8"] by (simp add: bit_getInt)
  qed
  moreover have "addr1 a = addr1 b"
  proof (rule bit_word_eqI)
    fix n assume "n < LENGTH(8)" then show "bit (addr1 a) n = bit (addr1 b) n"
      using b[of "n + 16"] by (simp add: bit_getInt)
  qed
  moreover have "addr0 a = addr0 b"
  proof (rule bit_word_eqI)
    fix n assume "n < LENGTH(8)" then show "bit (addr0 a) n = bit (addr0 b) n"
      using b[of "n + 24"] by (simp add: bit_getInt)
  qed
  ultimately show "a = b" by simp
qed simp

lemma ip_set_getInt [simp]: "ip_set (getInt a) = a"
  using getInt_eq_iff by force

lemma ip_equals_eq [simp]: "ip_equals a b \<longleftrightarrow> a = b"
  by (auto simp: ip_equals_def)

lemma getInt_doAnd [simp]: "getInt (doAnd a b) = getInt a AND getInt b"
  by (rule bit_word_eqI) (auto simp: bit_getInt doAnd_def IPAddress4_def bit_simps)

lemma maskedAddrAreEqual_word:
  "maskedAddrAreEqual a b m \<longleftrightarrow> getInt a AND getInt m = getInt b AND getInt m"
  by (simp add: maskedAddrAreEqual_def getInt_eq_iff[symmetric])

lemma ip_isNull_iff: "ip_isNull a \<longleftrightarrow> getInt a = 0"
proof -
  have "getInt ip_null = 0" by (simp add: ip_null_def IPAddress4_def getInt_def)
  then have "getInt a = 0 \<longleftrightarrow> a = ip_null" using getInt_eq_iff[of a ip_null] by simp
  then show ?thesis by (auto simp: ip_isNull_def ip_null_def IPAddress4_def)
qed

text \<open>The first \<open>n\<close> bits of a word.\<close>

definition samePrefix :: "nat \<Rightarrow> uint32 \<Rightarrow> uint32 \<Rightarrow> bool" where
  "samePrefix n v w \<longleftrightarrow> drop_bit (32 - n) v = drop_bit (32 - n) w"

lemma samePrefix_bits:
  "samePrefix n v w \<longleftrightarrow> (\<forall>i. 32 - n \<le> i \<and> i < 32 \<longrightarrow> bit v i = bit w i)"
proof
  assume s: "samePrefix n v w"
  have "bit v (32 - n + j) = bit w (32 - n + j)" for j
    using arg_cong[OF s[unfolded samePrefix_def], of "\<lambda>x. bit x j"] by (simp add: bit_simps)
  then show "\<forall>i. 32 - n \<le> i \<and> i < 32 \<longrightarrow> bit v i = bit w i"
    by (metis le_add_diff_inverse)
next
  assume "\<forall>i. 32 - n \<le> i \<and> i < 32 \<longrightarrow> bit v i = bit w i"
  then show "samePrefix n v w"
    unfolding samePrefix_def
  proof (intro bit_word_eqI)
    fix j
    show "bit (drop_bit (32 - n) v) j = bit (drop_bit (32 - n) w) j"
      using \<open>\<forall>i. _ i\<close>[rule_format, of "32 - n + j"]
      by (cases "32 - n + j < 32") (auto simp: bit_simps dest: bit_imp_le_length)
  qed
qed

lemma samePrefix_from:
  "i \<le> 32 \<Longrightarrow> samePrefix (32 - i) v w \<longleftrightarrow> (\<forall>j. i \<le> j \<and> j < 32 \<longrightarrow> bit v j = bit w j)"
  by (simp add: samePrefix_bits)

lemma bit_ffffffff: "bit (0xFFFFFFFF :: uint32) n \<longleftrightarrow> n < 32"
  using bit_mask_iff[of 32 n, where 'a = "32 word"]
  by (simp add: mask_eq_exp_minus_1)

lemma and_mask_eq_samePrefix:
  assumes "n \<le> 32"
  shows "v AND NOT (drop_bit n (0xFFFFFFFF :: uint32)) = w AND NOT (drop_bit n 0xFFFFFFFF) \<longleftrightarrow> samePrefix n v w"
proof -
  have b: "bit (v AND NOT (drop_bit n (0xFFFFFFFF :: uint32))) i \<longleftrightarrow> 32 - n \<le> i \<and> i < 32 \<and> bit v i" for v i
    using assms by (auto simp: bit_simps bit_ffffffff not_less simp del: bit_numeral_word_iff dest: bit_imp_le_length)
  show ?thesis unfolding samePrefix_bits
    by (subst bit_eq_iff, subst (1 2) b) (auto dest: bit_imp_le_length)
qed

lemma prefixMatches_samePrefix:
  "prefixMatches a b k \<longleftrightarrow> samePrefix (nat (min k 32)) (getInt a) (getInt b)"
proof -
  consider "k < 1" | "1 \<le> k \<and> k \<le> 31" | "k > 31" by linarith
  then show ?thesis
  proof cases
    case 1 then show ?thesis by (auto simp: prefixMatches_def samePrefix_bits)
  next
    case 2
    then show ?thesis
      using and_mask_eq_samePrefix[of "nat k" "getInt a" "getInt b"]
      by (auto simp: prefixMatches_def min_def Let_def)
  next
    case 3 then show ?thesis by (simp add: prefixMatches_def samePrefix_def min_def)
  qed
qed

lemma and_bit_ne_0: "i < 32 \<Longrightarrow> (a :: uint32) AND push_bit i 1 \<noteq> 0 \<longleftrightarrow> bit a i"
  by (auto simp: bit_eq_iff[of _ 0] bit_simps bit_1_iff intro!: exI[of _ i])

lemma matchingBits_samePrefix:
  "i \<le> 32 \<Longrightarrow> samePrefix (32 - i) v w \<Longrightarrow> n \<le> 32 \<Longrightarrow>
     int n \<le> matchingBits (v XOR w) i \<longleftrightarrow> samePrefix n v w"
proof (induction i)
  case 0
  then show ?case by (auto simp: samePrefix_bits)
next
  case (Suc i)
  show ?case
  proof (cases "bit (v XOR w) i")
    case True
    have "int n \<le> 31 - int i \<longleftrightarrow> samePrefix n v w"
    proof
      assume "int n \<le> 31 - int i"
      then show "samePrefix n v w" using Suc.prems by (auto simp: samePrefix_bits)
    next
      assume s: "samePrefix n v w"
      show "int n \<le> 31 - int i"
      proof (rule ccontr)
        assume "\<not> int n \<le> 31 - int i"
        then have "32 - n \<le> i" by linarith
        then have "bit v i = bit w i" using s Suc.prems by (simp add: samePrefix_bits)
        then show False using True by (simp add: bit_simps)
      qed
    qed
    then show ?thesis using True Suc.prems and_bit_ne_0[of i "v XOR w"] by simp
  next
    case False
    then have "bit v i = bit w i" using Suc.prems by (simp add: bit_simps)
    moreover have "\<forall>j. Suc i \<le> j \<and> j < 32 \<longrightarrow> bit v j = bit w j"
      using Suc.prems samePrefix_from[of "Suc i" v w] by blast
    ultimately have "\<forall>j. i \<le> j \<and> j < 32 \<longrightarrow> bit v j = bit w j"
      by (metis Suc_leI le_neq_implies_less)
    then have "samePrefix (32 - i) v w"
      using Suc.prems samePrefix_from[of i v w] by auto
    then show ?thesis using Suc False and_bit_ne_0[of i "v XOR w"] by simp
  qed
qed


text \<open>The netmask of \<open>l\<close> one bits.\<close>

definition netmaskOf :: "nat \<Rightarrow> uint32" where
  "netmaskOf l = NOT (drop_bit l 0xFFFFFFFF)"

lemma bit_netmaskOf: "l \<le> 32 \<Longrightarrow> bit (netmaskOf l) i \<longleftrightarrow> 32 - l \<le> i \<and> i < 32"
  by (auto simp: netmaskOf_def bit_simps bit_ffffffff simp del: bit_numeral_word_iff)

lemma netmaskBits_mask:
  "l \<le> 32 \<Longrightarrow> i \<le> 32 - l \<Longrightarrow> netmaskBits (netmaskOf l) i = (if l \<le> 1 then 0 else int l)"
proof (induction "netmaskOf l" i rule: netmaskBits.induct)
  case (1 i)
  have b: "netmaskOf l AND push_bit i 1 \<noteq> 0 \<longleftrightarrow> i = 32 - l" if "i < 31"
    using that 1 and_bit_ne_0[of i "netmaskOf l"] by (auto simp: bit_netmaskOf)
  show ?case
  proof (cases "i < 31 \<and> i \<noteq> 32 - l")
    case True
    then have "netmaskBits (netmaskOf l) i = netmaskBits (netmaskOf l) (i + 1)"
      using b by (subst netmaskBits.simps) simp
    then show ?thesis using 1 True b by simp
  next
    case False
    then show ?thesis using b 1(3) 1(2) by (subst netmaskBits.simps) auto
  qed
qed

lemma of_char_digit: "d < 10 \<Longrightarrow> (of_char (digit d) :: nat) = 48 + d"
  by (simp add: digit_def)

lemma isDigit_digit: "d < 10 \<Longrightarrow> isDigit (digit d)"
  by (simp add: isDigit_def of_char_digit)

lemma readNumber_decimal:
  "readNumber num (decimal n @ s) = readNumber (num * 10 ^ length (decimal n) + of_nat n) s"
proof (induction n arbitrary: num s rule: decimal.induct)
  case (1 n)
  show ?case
  proof (cases "n < 10")
    case True
    then show ?thesis
      by (subst (1 2) decimal.simps) (simp add: isDigit_digit of_char_digit algebra_simps)
  next
    case False
    have d: "decimal n = decimal (n div 10) @ [digit (n mod 10)]"
      using False by (subst decimal.simps) simp
    have n: "(of_nat n :: uint32) = 10 * of_nat (n div 10) + of_nat (n mod 10)"
      by (metis mult_div_mod_eq of_nat_add of_nat_mult of_nat_numeral)
    show ?thesis
      unfolding d append_assoc 1[OF False]
      by (simp add: isDigit_digit of_char_digit) (simp add: n algebra_simps)
  qed
qed

lemma decimal_digit: "\<exists>c s. decimal n = c # s \<and> isDigit c"
proof (induction n rule: decimal.induct)
  case (1 n)
  show ?case
    by (cases "n < 10", subst decimal.simps, simp add: isDigit_digit,
        subst decimal.simps, use 1 in auto)
qed

lemma not_isDigit_dot: "\<not> isDigit CHR ''.''"
  by (simp add: isDigit_def)

lemma of_nat_unat8: "(of_nat (unat (b :: uint8)) :: uint32) = ucast b"
  by (simp add: unsigned_of_nat word_eq_iff_unsigned)

lemma ucast_ucast8 [simp]: "ucast (ucast (b :: uint8) :: uint32) = b"
  by (rule bit_word_eqI) (simp add: bit_simps)

lemma byte_le_255: "\<not> 255 <s (ucast (b :: uint8) :: uint32)"
proof -
  have u: "uint b < 256" using unsigned_less[of b, where 'a = int] by simp
  have "signed_take_bit 31 (uint b) = uint b"
    by (rule signed_take_bit_int_eq_self) (use u uint_ge_0[of b] in \<open>auto intro: order_trans[of _ 0]\<close>)
  then have "sint (ucast b :: uint32) = uint b"
    using u by (simp add: sint_uint unsigned_ucast_eq take_bit_int_eq_self)
  then show ?thesis using u by (simp add: word_sless_alt)
qed

lemma parseNumbers_byte:
  "parseNumbers bs (decimal (unat b) @ CHR ''.'' # s) =
     (if length bs = 3 then None else parseNumbers (bs @ [b]) s)"
proof -
  obtain c cs where c: "decimal (unat b) = c # cs" "isDigit c" using decimal_digit by blast
  have "readNumber 0 (decimal (unat b) @ CHR ''.'' # s) = (ucast b, CHR ''.'' # s)"
    by (simp add: readNumber_decimal not_isDigit_dot of_nat_unat8)
  then show ?thesis
    using c(2) unfolding c(1) append_Cons
    by (subst parseNumbers.simps) (auto simp: byte_le_255 Let_def simp del: readNumber.simps)
qed

lemma parseNumbers_last_byte:
  "parseNumbers bs (decimal (unat b)) = (if length bs = 3 then Some (bs @ [b]) else None)"
proof -
  obtain c cs where c: "decimal (unat b) = c # cs" "isDigit c" using decimal_digit by blast
  have "readNumber 0 (decimal (unat b)) = (ucast b, [])"
    using readNumber_decimal[of 0 "unat b" "[]"] by (simp add: of_nat_unat8)
  then show ?thesis
    using c(2) unfolding c(1)
    by (subst parseNumbers.simps) (auto simp: byte_le_255 Let_def simp del: readNumber.simps)
qed

lemma parse_str: "parseIPAddress (ip_str a) = Some a"
  by (simp add: parseIPAddress_def ip_str_def parseNumbers_byte parseNumbers_last_byte
      IPAddress4_def)


section \<open>Properties\<close>

text \<open>The classful network test compares under the mask of the class.\<close>

lemma isNetwork_mask:
  "isNetwork a b \<longleftrightarrow> getIPClass a \<in> {ClassA, ClassB, ClassC} \<and>
     maskedAddrAreEqual a b (getNetworkMask a)"
proof -
  have "x AND 255 = x" for x :: uint8
  proof (rule bit_word_eqI)
    fix n assume "n < LENGTH(8)"
    then show "bit (x AND 255) n = bit x n"
      using bit_mask_iff[of 8 n, where 'a = "8 word"]
      by (auto simp: mask_eq_exp_minus_1 bit_simps)
  qed
  then show ?thesis
    by (cases "getIPClass a")
      (auto simp: isNetwork_def getNetworkMask_def maskedAddrAreEqual_def doAnd_def IPAddress4_def)
qed

text \<open>Printing an IPv4 address and parsing the text gives the same address, for all
  addresses: no number is misread, no separator is missed, nothing is left over.\<close>

theorem address_text_roundtrip: "parseIPAddress (ip_str a) = Some a"
  by (rule parse_str)

text \<open>C17: The number of matching prefix bits of two addresses is the length of their
  longest common prefix: a prefix of any length (below 1 it is empty, above 32 it is all of
  the address) matches exactly when its length is at most that number; and on the mask of that
  length the masked comparison, which routes are selected by, says the same.\<close>

theorem matching_prefix_is_longest:
  "(prefixMatches a b k \<longleftrightarrow> min k 32 \<le> numMatchingPrefixBits a b) \<and>
   (maskedAddrAreEqual a b (ip_set (netmaskOf (nat (min k 32)))) \<longleftrightarrow> prefixMatches a b k)"
proof
  have 0: "samePrefix 0 v w" for v w by (auto simp: samePrefix_bits)
  have m: "int n \<le> numMatchingPrefixBits a b \<longleftrightarrow> samePrefix n (getInt a) (getInt b)" if "n \<le> 32" for n
    using matchingBits_samePrefix[of 32 "getInt a" "getInt b" n] that 0
    by (simp add: numMatchingPrefixBits_def)
  show "prefixMatches a b k \<longleftrightarrow> min k 32 \<le> numMatchingPrefixBits a b"
  proof (cases "k < 0")
    case True
    then show ?thesis using m[of 0] 0 by (simp add: prefixMatches_samePrefix)
  next
    case False
    then show ?thesis using m[of "nat (min k 32)"] by (simp add: prefixMatches_samePrefix)
  qed
  show "maskedAddrAreEqual a b (ip_set (netmaskOf (nat (min k 32)))) \<longleftrightarrow> prefixMatches a b k"
    using and_mask_eq_samePrefix[of "nat (min k 32)" "getInt a" "getInt b"]
    by (simp add: maskedAddrAreEqual_word netmaskOf_def prefixMatches_samePrefix)
qed

text \<open>\<open>netmaskLength\<close> inverts the netmasks of every prefix length but one: its loop
  stops before the top bit, so the mask \<open>128.0.0.0\<close> of length 1 is reported as length 0.\<close>

theorem netmaskLength_inverts_masks:
  assumes "l \<le> 32"
  shows "netmaskLength (ip_set (netmaskOf l)) = (if l = 1 then 0 else int l)"
  using netmaskBits_mask[OF assms, of 0] by (simp add: netmaskLength_def)

lemma netmaskLength_inverts_masks_witness:
  "netmaskLength (ip_set (netmaskOf 1)) = 0 \<and> netmaskLength (ip_set (netmaskOf 24)) = 24"
  using netmaskLength_inverts_masks[of 1] netmaskLength_inverts_masks[of 24] by simp

end
