(* ===== verification/Std_Map.thy ===== *)
theory Std_Map
  imports Prelude
begin

text \<open>
  \<open>std::map\<close> of the C++ library as the code uses it: an association list in strictly
  increasing order of the keys. Iteration is the order of the list; \<open>operator[]\<close> on the
  left of an assignment is \<open>map_put\<close>, \<open>find\<close> is \<open>map_of\<close>, \<open>erase\<close> is \<open>map_erase\<close>.
\<close>

type_synonym ('k, 'v) std_map = "('k \<times> 'v) list"

fun map_put :: "'k :: linorder \<Rightarrow> 'v \<Rightarrow> ('k, 'v) std_map \<Rightarrow> ('k, 'v) std_map" where
  "map_put k v [] = [(k, v)]"
| "map_put k v ((k', v') # xs) =
     (if k < k' then (k, v) # (k', v') # xs
      else if k = k' then (k, v) # xs
      else (k', v') # map_put k v xs)"

fun map_erase :: "'k \<Rightarrow> ('k, 'v) std_map \<Rightarrow> ('k, 'v) std_map" where
  "map_erase k [] = []"
| "map_erase k ((k', v') # xs) = (if k = k' then xs else (k', v') # map_erase k xs)"

definition map_ok :: "('k :: linorder, 'v) std_map \<Rightarrow> bool" where
  "map_ok xs \<longleftrightarrow> sorted_wrt (<) (map fst xs)"

lemma map_ok_Nil [simp]: "map_ok []"
  by (simp add: map_ok_def)

lemma map_ok_Cons [simp]: "map_ok ((k, v) # xs) \<longleftrightarrow> (\<forall>k' \<in> fst ` set xs. k < k') \<and> map_ok xs"
  by (auto simp: map_ok_def)

lemma set_map_put: "set (map_put k v xs) \<subseteq> insert (k, v) (set xs)"
  by (induction xs) (auto split: if_splits)

lemma map_put_key: "(k', v') \<in> set (map_put k v xs) \<Longrightarrow> k' = k \<or> (k', v') \<in> set xs"
  using set_map_put by fastforce

lemma map_of_map_put [simp]: "map_of (map_put k v xs) = (map_of xs)(k \<mapsto> v)"
  by (induction xs) (auto simp: fun_upd_twist)

lemma map_ok_put [simp]: "map_ok xs \<Longrightarrow> map_ok (map_put k v xs)"
proof (induction xs)
  case (Cons p xs)
  obtain a b where p: "p = (a, b)" by (cases p)
  consider "k < a" | "k = a" | "a < k" by (rule linorder_cases)
  then show ?case
  proof cases
    case 1 then show ?thesis using Cons.prems p by (force intro: less_trans)
  next
    case 2 then show ?thesis using Cons.prems p by simp
  next
    case 3
    then have "\<forall>k' \<in> fst ` set (map_put k v xs). a < k'"
      using Cons.prems p by (auto dest: map_put_key)
    then show ?thesis using 3 Cons p by auto
  qed
qed simp

lemma map_erase_mem: "p \<in> set (map_erase k xs) \<Longrightarrow> p \<in> set xs"
  by (induction xs) (auto split: if_splits)

lemma map_ok_erase [simp]: "map_ok xs \<Longrightarrow> map_ok (map_erase k xs)"
  by (induction xs) (fastforce dest: map_erase_mem)+

lemma map_of_map_erase [simp]: "map_ok xs \<Longrightarrow> map_of (map_erase k xs) = (map_of xs)(k := None)"
proof (induction xs)
  case (Cons p xs)
  obtain k' v where p: "p = (k', v)" by (cases p)
  show ?case
  proof (cases "k = k'")
    case True
    then have "map_of xs k = None" using Cons.prems p by (auto simp: map_of_eq_None_iff)
    then show ?thesis using True p by auto
  next
    case False then show ?thesis using Cons p by (auto simp: fun_upd_twist)
  qed
qed simp

lemma map_ok_filter [simp]: "map_ok xs \<Longrightarrow> map_ok (filter P xs)"
  by (induction xs) auto

lemma map_ok_distinct: "map_ok xs \<Longrightarrow> distinct (map fst xs)"
  by (induction xs) force+

lemma map_of_filter_ok:
  "map_ok xs \<Longrightarrow> map_of (filter P xs) k =
     (case map_of xs k of None \<Rightarrow> None | Some v \<Rightarrow> if P (k, v) then Some v else None)"
proof (induction xs)
  case (Cons p xs)
  obtain a b where p: "p = (a, b)" by (cases p)
  show ?case
  proof (cases "k = a")
    case True
    then have "map_of xs k = None" using Cons.prems p by (auto simp: map_of_eq_None_iff)
    then show ?thesis using True Cons p by simp
  next
    case False then show ?thesis using Cons p by simp
  qed
qed simp

lemma map_erase_absent: "k \<notin> fst ` set xs \<Longrightarrow> map_erase k xs = xs"
  by (induction xs) auto

lemma map_put_erase: "map_ok xs \<Longrightarrow> map_put k v (map_erase k xs) = map_put k v xs"
proof (induction xs)
  case (Cons p xs)
  obtain a b where p: "p = (a, b)" by fastforce
  show ?case
  proof (cases "k = a")
    case True
    then have "\<forall>k' \<in> fst ` set xs. k < k'" using Cons.prems p by simp
    then have "map_put k v xs = (k, v) # xs" by (cases xs) auto
    then show ?thesis using True p by simp
  next
    case False
    show ?thesis
    proof (cases "k < a")
      case True
      then have "k \<notin> fst ` set xs" using Cons.prems p by force
      then have "map_erase k xs = xs" by (rule map_erase_absent)
      then show ?thesis using False p by simp
    qed (use Cons False p in auto)
  qed
qed simp

lemma length_map_put:
  "map_ok xs \<Longrightarrow> length (map_put k v xs) = (if map_of xs k = None then Suc (length xs) else length xs)"
proof (induction xs)
  case (Cons p xs)
  obtain a b where p: "p = (a, b)" by fastforce
  have "k < a \<Longrightarrow> map_of xs k = None" using Cons.prems p by (force simp: map_of_eq_None_iff)
  then show ?case using Cons p by auto
qed simp

lemma length_map_erase:
  "length (map_erase k xs) = (if map_of xs k = None then length xs else length xs - 1)"
proof (induction xs)
  case (Cons p xs)
  then show ?case by (cases p; cases xs) (auto split: if_splits)
qed simp

end
