(* ===== verification/IPv4_FragBuf.thy ===== *)
theory IPv4_FragBuf
  imports IPv4_Address Std_Map
begin

text \<open>
  The reassembly of fragmented IPv4 datagrams: \<open>Network/IPv4/IPFragBuf.cc\<close>. A datagram has
  the fields of \<open>IPDatagram.msg\<close> the code reads, its length in bits, and the encapsulated
  message, of any type, and the index of the gate it arrived on, -1 where it did not arrive on
  one. Offsets are in bytes and kept in 16 bits. A null pointer to the
  vector of disjoint fragments is the empty list, which no operation tells from an empty
  vector.
\<close>

record 'm IPDatagram =
  headerLength :: int
  srcAddress :: IPAddress
  destAddress :: IPAddress
  transportProtocol :: int
  timeToLive :: int
  identification :: int
  moreFragments :: bool
  dontFragment :: bool
  fragmentOffset :: int
  diffServCodePoint :: uint8
  dg_length :: int
  encapsulatedMsg :: "'m option"
  arrivalPort :: int

record FragRegion =
  r_beg :: uint16
  r_end :: uint16
  r_islast :: bool

text \<open>The key of a reassembly buffer, ordered by \<open>Key::operator<\<close>.\<close>

datatype FragKey = FragKey (key_id: uint16) (key_src: IPAddress) (key_dest: IPAddress)

instantiation FragKey :: linorder
begin

definition less_FragKey :: "FragKey \<Rightarrow> FragKey \<Rightarrow> bool" where
  "a < b \<longleftrightarrow>
     (if key_id a \<noteq> key_id b then key_id a < key_id b
      else if key_src a \<noteq> key_src b then getInt (key_src a) < getInt (key_src b)
      else getInt (key_dest a) < getInt (key_dest b))"

definition less_eq_FragKey :: "FragKey \<Rightarrow> FragKey \<Rightarrow> bool" where
  "a \<le> b \<longleftrightarrow> a < b \<or> a = (b :: FragKey)"

instance
proof
  fix x y z :: FragKey
  show "x < y \<longleftrightarrow> x \<le> y \<and> \<not> y \<le> x"
    by (cases x; cases y) (auto simp: less_eq_FragKey_def less_FragKey_def split: if_splits)
  show "x \<le> x" by (simp add: less_eq_FragKey_def)
  show "x \<le> y \<Longrightarrow> y \<le> z \<Longrightarrow> x \<le> z"
    by (cases x; cases y; cases z)
      (auto simp: less_eq_FragKey_def less_FragKey_def split: if_splits)
  show "x \<le> y \<Longrightarrow> y \<le> x \<Longrightarrow> x = y"
    by (cases x; cases y) (auto simp: less_eq_FragKey_def less_FragKey_def split: if_splits)
  show "x \<le> y \<or> y \<le> x"
    by (cases x; cases y)
      (auto simp: less_eq_FragKey_def less_FragKey_def getInt_eq_iff[symmetric] split: if_splits)
qed

end

record 'm ReassemblyBuffer =
  rb_main :: FragRegion
  rb_fragments :: "FragRegion list"
  rb_datagram :: "'m IPDatagram"
  rb_lastupdate :: simtime

type_synonym 'm IPFragBuf = "(FragKey, 'm ReassemblyBuffer) std_map"

section \<open>Merging\<close>

text \<open>One pass of the loop of \<open>mergeFragments\<close>; the flag is \<open>oncemore\<close>.\<close>

fun mergePass :: "FragRegion \<Rightarrow> FragRegion list \<Rightarrow> FragRegion \<times> FragRegion list \<times> bool" where
  "mergePass main [] = (main, [], False)"
| "mergePass main (frag # frags) =
     (if r_end main = r_beg frag then
        (case mergePass (main\<lparr>r_end := r_end frag, r_islast := r_islast main \<or> r_islast frag\<rparr>) frags of
           (m, fs, _) \<Rightarrow> (m, fs, True))
      else if r_beg main = r_end frag then
        (case mergePass (main\<lparr>r_beg := r_beg frag\<rparr>) frags of (m, fs, _) \<Rightarrow> (m, fs, True))
      else if r_beg main \<le> r_beg frag \<and> r_end main \<ge> r_end frag then
        (case mergePass main frags of (m, fs, _) \<Rightarrow> (m, fs, True))
      else
        (case mergePass main frags of (m, fs, oncemore) \<Rightarrow> (m, frag # fs, oncemore)))"

lemma mergePass_length:
  "length (fst (snd (mergePass main frags))) \<le> length frags \<and>
   (snd (snd (mergePass main frags)) \<longrightarrow> length (fst (snd (mergePass main frags))) < length frags)"
  by (induction frags arbitrary: main)
    (auto simp: case_prod_beta less_Suc_eq_le le_SucI Suc_le_eq)

function mergeFragments :: "FragRegion \<Rightarrow> FragRegion list \<Rightarrow> FragRegion \<times> FragRegion list" where
  "mergeFragments main frags =
     (case mergePass main frags of (m, fs, oncemore) \<Rightarrow>
        if oncemore then mergeFragments m fs else (m, fs))"
  by pat_completeness auto
termination
  by (relation "measure (\<lambda>(_, fs). length fs)") (use mergePass_length in \<open>auto, metis fst_conv snd_conv\<close>)

declare mergeFragments.simps [simp del]

definition fb_merge :: "uint16 \<Rightarrow> uint16 \<Rightarrow> bool \<Rightarrow> 'm ReassemblyBuffer \<Rightarrow> 'm ReassemblyBuffer" where
  "fb_merge beg endd islast buf =
     (let main = rb_main buf in
      if r_end main = beg then
        (case mergeFragments (main\<lparr>r_end := endd, r_islast := r_islast main \<or> islast\<rparr>) (rb_fragments buf) of
           (m, fs) \<Rightarrow> buf\<lparr>rb_main := m, rb_fragments := fs\<rparr>)
      else if r_beg main = endd then
        (case mergeFragments (main\<lparr>r_beg := beg\<rparr>) (rb_fragments buf) of
           (m, fs) \<Rightarrow> buf\<lparr>rb_main := m, rb_fragments := fs\<rparr>)
      else if r_end main < beg \<or> r_beg main > endd then
        buf\<lparr>rb_fragments := rb_fragments buf @ [\<lparr>r_beg = beg, r_end = endd, r_islast = islast\<rparr>]\<rparr>
      else buf)"

section \<open>Operations\<close>

definition fragKeyOf :: "'m IPDatagram \<Rightarrow> FragKey" where
  "fragKeyOf d = FragKey (word_of_int (identification d)) (srcAddress d) (destAddress d)"

definition addFragment ::
    "'m IPDatagram \<Rightarrow> simtime \<Rightarrow> 'm IPFragBuf \<Rightarrow> ('m IPDatagram option \<times> 'm IPFragBuf) result" where
  "addFragment d time bufs =
     (let key = fragKeyOf d;
          bytes = dg_length d div 8 - headerLength d;
          beg = (word_of_int (fragmentOffset d) :: uint16);
          endd = beg + word_of_int bytes
      in case map_of bufs key of
           None \<Rightarrow>
             let main = \<lparr>r_beg = beg, r_end = endd, r_islast = \<not> moreFragments d\<rparr>;
                 bufs = map_put key \<lparr>rb_main = main, rb_fragments = [], rb_datagram = d,
                          rb_lastupdate = time\<rparr> bufs
             in ASSERT (r_beg main \<noteq> 0 \<or> \<not> r_islast main) ''buf.main.beg!=0 || !buf.main.islast''
                  (Inr (None, bufs))
         | Some buf \<Rightarrow>
             let buf = fb_merge beg endd (\<not> moreFragments d) buf;
                 buf = (if encapsulatedMsg d \<noteq> None then buf\<lparr>rb_datagram := d\<rparr> else buf)
             in if r_beg (rb_main buf) = 0 \<and> r_islast (rb_main buf)
                then Inr (Some ((rb_datagram buf)
                            \<lparr>dg_length := 8 * (headerLength (rb_datagram buf) + uint (r_end (rb_main buf)))\<rparr>),
                          map_erase key bufs)
                else Inr (None, map_put key (buf\<lparr>rb_lastupdate := time\<rparr>) bufs))"

text \<open>
  The buffers last updated before \<open>lastupdate\<close> are dropped; for each, in the order of the
  keys, ICMP is asked to send TIME EXCEEDED about its datagram.
\<close>

definition purgeStaleFragments :: "simtime \<Rightarrow> 'm IPFragBuf \<Rightarrow> 'm IPDatagram list \<times> 'm IPFragBuf" where
  "purgeStaleFragments lastupdate bufs =
     (map (rb_datagram \<circ> snd) (filter (\<lambda>(_, b). rb_lastupdate b < lastupdate) bufs),
      filter (\<lambda>(_, b). \<not> rb_lastupdate b < lastupdate) bufs)"


section \<open>Reassembly of one datagram\<close>

text \<open>
  A datagram cut at the offsets \<open>b 0 = 0 < b 1 < \<dots> < b n\<close>: its \<open>i\<close>-th fragment is the region
  from \<open>b i\<close> to \<open>b (i + 1)\<close>, and only the one that ends at \<open>b n\<close> is the last.
\<close>

definition cut_ok :: "(nat \<Rightarrow> nat) \<Rightarrow> nat \<Rightarrow> bool" where
  "cut_ok b n \<longleftrightarrow> b 0 = 0 \<and> 0 < n \<and> (\<forall>i < n. b i < b (Suc i)) \<and> b n < 2 ^ 16"

definition reg :: "(nat \<Rightarrow> nat) \<Rightarrow> nat \<Rightarrow> nat \<Rightarrow> nat \<Rightarrow> FragRegion" where
  "reg b n lo hi = \<lparr>r_beg = of_nat (b lo), r_end = of_nat (b hi), r_islast = (hi = n)\<rparr>"

lemma cut_mono: "cut_ok b n \<Longrightarrow> i < j \<Longrightarrow> j \<le> n \<Longrightarrow> b i < b j"
proof (induction j)
  case (Suc j)
  then have "b j < b (Suc j)" by (simp add: cut_ok_def)
  then show ?case using Suc by (cases "i = j") (auto intro: less_trans)
qed simp

lemma cut_less_iff: "cut_ok b n \<Longrightarrow> i \<le> n \<Longrightarrow> j \<le> n \<Longrightarrow> b i < b j \<longleftrightarrow> i < j"
  by (metis cut_mono less_asym linorder_neqE_nat)

lemma cut_eq_iff: "cut_ok b n \<Longrightarrow> i \<le> n \<Longrightarrow> j \<le> n \<Longrightarrow> b i = b j \<longleftrightarrow> i = j"
  by (metis cut_less_iff less_irrefl linorder_neqE_nat)

lemma cut_bound: "cut_ok b n \<Longrightarrow> i \<le> n \<Longrightarrow> b i < 2 ^ 16"
  using cut_mono[of b n i n] by (cases "i = n") (auto simp: cut_ok_def)

lemma unat_cut: "cut_ok b n \<Longrightarrow> i \<le> n \<Longrightarrow> unat (of_nat (b i) :: uint16) = b i"
  using cut_bound[of b n i] by (simp add: unsigned_of_nat take_bit_nat_eq_self)

lemma reg_simps [simp]:
  "r_beg (reg b n lo hi) = of_nat (b lo)" "r_end (reg b n lo hi) = of_nat (b hi)"
  "r_islast (reg b n lo hi) = (hi = n)"
  by (simp_all add: reg_def)

lemma of_cut_eq: "cut_ok b n \<Longrightarrow> i \<le> n \<Longrightarrow> j \<le> n \<Longrightarrow> (of_nat (b i) :: uint16) = of_nat (b j) \<longleftrightarrow> i = j"
  by (metis cut_eq_iff unat_cut)

lemma of_cut_less: "cut_ok b n \<Longrightarrow> i \<le> n \<Longrightarrow> j \<le> n \<Longrightarrow> (of_nat (b i) :: uint16) < of_nat (b j) \<longleftrightarrow> i < j"
  by (simp add: word_less_nat_alt unat_cut cut_less_iff)

lemma of_cut_le: "cut_ok b n \<Longrightarrow> i \<le> n \<Longrightarrow> j \<le> n \<Longrightarrow> (of_nat (b i) :: uint16) \<le> of_nat (b j) \<longleftrightarrow> i \<le> j"
  by (metis of_cut_less linorder_not_le)

lemma of_cut_zero: "cut_ok b n \<Longrightarrow> i \<le> n \<Longrightarrow> (of_nat (b i) :: uint16) = 0 \<longleftrightarrow> i = 0"
  using of_cut_eq[of b n i 0] by (simp add: cut_ok_def)

lemmas of_cut = of_cut_eq of_cut_less of_cut_le of_cut_zero

text \<open>
  What the buffer knows of the set \<open>A\<close> of fragments that arrived: its main region is a run
  \<open>[lo, hi)\<close> of them, the regions put aside are some of them, and all others are among these.
\<close>

definition holds :: "(nat \<Rightarrow> nat) \<Rightarrow> nat \<Rightarrow> nat set \<Rightarrow> FragRegion \<Rightarrow> FragRegion list \<Rightarrow> nat \<Rightarrow> nat \<Rightarrow> bool" where
  "holds b n A m fs lo hi \<longleftrightarrow> lo < hi \<and> hi \<le> n \<and> m = reg b n lo hi \<and> {lo..<hi} \<subseteq> A \<and> A \<subseteq> {0..<n} \<and>
     (\<forall>f \<in> set fs. \<exists>i \<in> A. f = reg b n i (Suc i)) \<and>
     (\<forall>i \<in> A - {lo..<hi}. reg b n i (Suc i) \<in> set fs)"

text \<open>The run is maximal.\<close>

definition maximal :: "nat set \<Rightarrow> nat \<Rightarrow> nat \<Rightarrow> bool" where
  "maximal A lo hi \<longleftrightarrow> hi \<notin> A \<and> (lo = 0 \<or> lo - 1 \<notin> A)"

lemma reg_inj: "cut_ok b n \<Longrightarrow> i < n \<Longrightarrow> j < n \<Longrightarrow> reg b n i (Suc i) = reg b n j (Suc j) \<longleftrightarrow> i = j"
  using of_cut_eq[of b n i j] by (auto simp: reg_def)

lemma holds_grow:
  assumes c: "cut_ok b n" and h: "holds b n A m (ks @ reg b n i (Suc i) # fs) lo hi"
    and i: "i \<in> A" "i \<in> {lo'..<hi'}" and sub: "{lo..<hi} \<subseteq> {lo'..<hi'}" "{lo'..<hi'} \<subseteq> A"
  shows "holds b n A (reg b n lo' hi') (ks @ fs) lo' hi'"
proof -
  have A: "A \<subseteq> {0..<n}" using h by (simp add: holds_def)
  have "hi' - 1 \<in> {lo'..<hi'}" using i(2) by auto
  then have hi': "hi' \<le> n" "lo' < hi'" using sub(2) A i(2) by fastforce+
  have "reg b n j (Suc j) \<in> set (ks @ fs)" if j: "j \<in> A - {lo'..<hi'}" for j
  proof -
    have "reg b n j (Suc j) \<in> set (ks @ reg b n i (Suc i) # fs)"
      using h j sub(1) by (auto simp: holds_def)
    moreover have "reg b n j (Suc j) \<noteq> reg b n i (Suc i)"
      using reg_inj[OF c, of j i] j i A by auto
    ultimately show ?thesis by auto
  qed
  then show ?thesis using h hi' sub(2) by (auto simp: holds_def)
qed

lemma mergePass_holds:
  assumes c: "cut_ok b n"
  shows "holds b n A m (ks @ fs) lo hi \<Longrightarrow>
    \<exists>lo' hi'. holds b n A (fst (mergePass m fs)) (ks @ fst (snd (mergePass m fs))) lo' hi' \<and>
      (\<not> snd (snd (mergePass m fs)) \<longrightarrow> lo' = lo \<and> hi' = hi \<and> fst (snd (mergePass m fs)) = fs \<and>
         (\<forall>f \<in> set fs. r_beg f \<noteq> r_end m \<and> r_end f \<noteq> r_beg m))"
proof (induction fs arbitrary: m ks lo hi)
  case Nil then show ?case by auto
next
  case (Cons f fs)
  note h = Cons.prems
  have lh: "lo < hi" "hi \<le> n" and m: "m = reg b n lo hi" and A: "{lo..<hi} \<subseteq> A" "A \<subseteq> {0..<n}"
    using h by (auto simp: holds_def)
  obtain i where i: "i \<in> A" "f = reg b n i (Suc i)" using h by (auto simp: holds_def)
  have "i < n" using i A by auto
  consider (after) "i = hi" | (before) "Suc i = lo" | (inside) "lo \<le> i \<and> i < hi"
    | (apart) "i \<noteq> hi" "Suc i \<noteq> lo" "\<not> (lo \<le> i \<and> i < hi)" by blast
  then show ?case
  proof cases
    case after
    let ?m = "m\<lparr>r_end := r_end f, r_islast := r_islast m \<or> r_islast f\<rparr>"
    have "?m = reg b n lo (Suc hi)" using m i after \<open>i < n\<close> by (auto simp: reg_def)
    moreover have "holds b n A (reg b n lo (Suc hi)) (ks @ fs) lo (Suc hi)"
      by (rule holds_grow[OF c h[unfolded i(2)]]) (use i after A lh in \<open>auto simp: less_Suc_eq\<close>)
    ultimately show ?thesis using Cons.IH[of ?m ks lo "Suc hi"] m i after by (auto simp: case_prod_beta)
  next
    case before
    let ?m = "m\<lparr>r_beg := r_beg f\<rparr>"
    have ne: "r_end m \<noteq> r_beg f" "r_beg m = r_end f"
      using m i before lh \<open>i < n\<close> of_cut_eq[OF c, of hi i] by auto
    have "{i..<hi} = insert i {lo..<hi}" using before lh by auto
    then have "holds b n A (reg b n i hi) (ks @ fs) i hi"
      by (intro holds_grow[OF c h[unfolded i(2)]]) (use i before A lh in auto)
    moreover have "?m = reg b n i hi" using m i before by (simp add: reg_def)
    ultimately show ?thesis using Cons.IH[of ?m ks i hi] ne by (auto simp: case_prod_beta)
  next
    case inside
    have ne: "r_end m \<noteq> r_beg f" "r_beg m \<noteq> r_end f" "r_beg m \<le> r_beg f \<and> r_end m \<ge> r_end f"
      using m i inside lh \<open>i < n\<close> of_cut_eq[OF c, of hi i] of_cut_eq[OF c, of lo "Suc i"]
        of_cut_le[OF c, of lo i] of_cut_le[OF c, of "Suc i" hi] by (auto simp del: of_nat_Suc)
    have "holds b n A m (ks @ fs) lo hi"
      unfolding m by (rule holds_grow[OF c h[unfolded i(2)]]) (use i inside A in auto)
    then show ?thesis using Cons.IH[of m ks lo hi] ne by (auto simp: case_prod_beta)
  next
    case apart
    have ne: "r_end m \<noteq> r_beg f" "r_beg m \<noteq> r_end f" "\<not> (r_beg m \<le> r_beg f \<and> r_end m \<ge> r_end f)"
      using m i apart lh \<open>i < n\<close> of_cut_eq[OF c, of hi i] of_cut_eq[OF c, of lo "Suc i"]
        of_cut_le[OF c, of lo i] of_cut_le[OF c, of "Suc i" hi] by auto
    have "holds b n A m ((ks @ [f]) @ fs) lo hi" using h by simp
    from Cons.IH[OF this] show ?thesis using ne by (auto simp: case_prod_beta)
  qed
qed

lemma mergeFragments_holds:
  assumes c: "cut_ok b n"
  shows "holds b n A m fs lo hi \<Longrightarrow>
    \<exists>lo' hi'. holds b n A (fst (mergeFragments m fs)) (snd (mergeFragments m fs)) lo' hi' \<and> maximal A lo' hi'"
proof (induction m fs arbitrary: lo hi rule: mergeFragments.induct)
  case (1 m fs)
  obtain m' fs' more where p: "mergePass m fs = (m', fs', more)" by (cases "mergePass m fs")
  obtain lo' hi' where h: "holds b n A m' fs' lo' hi'"
    and stop: "\<not> more \<longrightarrow> lo' = lo \<and> hi' = hi \<and> fs' = fs \<and>
        (\<forall>f \<in> set fs. r_beg f \<noteq> r_end m \<and> r_end f \<noteq> r_beg m)"
    using mergePass_holds[OF c, of A m "[]" fs lo hi] 1(2) p by auto
  show ?case
  proof (cases more)
    case True
    have "mergeFragments m fs = mergeFragments m' fs'"
      by (subst mergeFragments.simps) (simp add: p True)
    then show ?thesis using 1(1)[OF p[symmetric] refl True h] by simp
  next
    case False
    have e: "mergeFragments m fs = (m', fs')"
      by (subst mergeFragments.simps) (simp add: p False)
    have m: "m = reg b n lo hi" "lo < hi" "hi \<le> n" using 1(2) by (auto simp: holds_def)
    have h': "holds b n A m' fs lo hi" using h stop False by simp
    have no: "r_beg f \<noteq> r_end m \<and> r_end f \<noteq> r_beg m" if "f \<in> set fs" for f
      using stop False that by blast
    have "hi \<notin> A"
    proof
      assume "hi \<in> A"
      then have "reg b n hi (Suc hi) \<in> set fs" using h' by (simp add: holds_def)
      then show False using no m by fastforce
    qed
    moreover have "lo = 0 \<or> lo - 1 \<notin> A"
    proof (rule ccontr)
      assume "\<not> (lo = 0 \<or> lo - 1 \<notin> A)"
      then have lo: "lo - 1 \<in> A - {lo..<hi}" "Suc (lo - 1) = lo" by auto
      then have "reg b n (lo - 1) (Suc (lo - 1)) \<in> set fs"
        using h' unfolding holds_def by blast
      then show False using no m lo(2) by fastforce
    qed
    ultimately show ?thesis using e h' stop False by (auto simp: maximal_def)
  qed
qed


section \<open>Fragments that arrive\<close>

lemma fb_merge_holds:
  assumes c: "cut_ok b n" and h: "holds b n A (rb_main buf) (rb_fragments buf) lo hi"
    and max: "maximal A lo hi" and j: "j < n"
  defines "buf' \<equiv> fb_merge (of_nat (b j)) (of_nat (b (Suc j))) (Suc j = n) buf"
  shows "\<exists>lo' hi'. holds b n (insert j A) (rb_main buf') (rb_fragments buf') lo' hi' \<and>
     maximal (insert j A) lo' hi'"
proof -
  have lh: "lo < hi" "hi \<le> n" and m: "rb_main buf = reg b n lo hi"
    and A: "{lo..<hi} \<subseteq> A" "A \<subseteq> {0..<n}"
    using h by (auto simp: holds_def)
  note eqs = of_cut_eq[OF c, of hi j] of_cut_eq[OF c, of lo "Suc j"]
    of_cut_less[OF c, of hi j] of_cut_less[OF c, of "Suc j" lo]
  consider (after) "j = hi" | (before) "Suc j = lo" | (inside) "lo \<le> j \<and> j < hi"
    | (apart) "hi < j \<or> Suc j < lo" by linarith
  then show ?thesis
  proof cases
    case after
    let ?m = "reg b n lo (Suc hi)"
    have "holds b n (insert j A) ?m (rb_fragments buf) lo (Suc hi)"
      using h j after unfolding holds_def by (auto simp: less_Suc_eq)
    from mergeFragments_holds[OF c this] obtain lo' hi' where
      *: "holds b n (insert j A) (fst (mergeFragments ?m (rb_fragments buf)))
           (snd (mergeFragments ?m (rb_fragments buf))) lo' hi'" "maximal (insert j A) lo' hi'"
      by blast
    have "(rb_main buf)\<lparr>r_end := of_nat (b (Suc j)), r_islast := r_islast (rb_main buf) \<or> Suc j = n\<rparr> = ?m"
      using m after j by (auto simp: reg_def)
    then have "rb_main buf' = fst (mergeFragments ?m (rb_fragments buf)) \<and>
        rb_fragments buf' = snd (mergeFragments ?m (rb_fragments buf))"
      using m after unfolding buf'_def fb_merge_def by (simp add: Let_def case_prod_beta)
    then show ?thesis using * by auto
  next
    case before
    let ?m = "reg b n j hi"
    have "{j..<hi} = insert j {lo..<hi}" using before lh by auto
    then have "holds b n (insert j A) ?m (rb_fragments buf) j hi"
      using h j before lh unfolding holds_def by auto
    from mergeFragments_holds[OF c this] obtain lo' hi' where
      *: "holds b n (insert j A) (fst (mergeFragments ?m (rb_fragments buf)))
           (snd (mergeFragments ?m (rb_fragments buf))) lo' hi'" "maximal (insert j A) lo' hi'"
      by blast
    have "(rb_main buf)\<lparr>r_beg := of_nat (b j)\<rparr> = ?m" using m by (simp add: reg_def)
    moreover have "r_end (rb_main buf) \<noteq> of_nat (b j)" "r_beg (rb_main buf) = of_nat (b (Suc j))"
      using eqs m before lh j by auto
    ultimately have "rb_main buf' = fst (mergeFragments ?m (rb_fragments buf)) \<and>
        rb_fragments buf' = snd (mergeFragments ?m (rb_fragments buf))"
      unfolding buf'_def fb_merge_def by (simp add: Let_def case_prod_beta)
    then show ?thesis using * by auto
  next
    case inside
    have "buf' = buf"
      using eqs m inside lh j unfolding buf'_def fb_merge_def by (simp del: of_nat_Suc)
    moreover have "insert j A = A" using inside A by auto
    ultimately show ?thesis using h max by auto
  next
    case apart
    have "rb_main buf' = rb_main buf" "rb_fragments buf' = rb_fragments buf @ [reg b n j (Suc j)]"
      using eqs m apart lh j unfolding buf'_def fb_merge_def by (auto simp: reg_def)
    moreover have "holds b n (insert j A) (rb_main buf) (rb_fragments buf @ [reg b n j (Suc j)]) lo hi"
      using h j unfolding holds_def by auto
    moreover have "maximal (insert j A) lo hi"
      using max apart lh unfolding maximal_def by auto
    ultimately show ?thesis by auto
  qed
qed

lemma fb_merge_datagram [simp]: "rb_datagram (fb_merge beg endd l buf) = rb_datagram buf"
  by (simp add: fb_merge_def Let_def case_prod_beta)

lemma complete_iff:
  assumes c: "cut_ok b n" and h: "holds b n A m fs lo hi" and max: "maximal A lo hi"
  shows "r_beg m = 0 \<and> r_islast m \<longleftrightarrow> A = {0..<n}"
    and "A = {0..<n} \<Longrightarrow> r_end m = of_nat (b n)"
proof -
  have lh: "lo < hi" "hi \<le> n" "m = reg b n lo hi" "{lo..<hi} \<subseteq> A" "A \<subseteq> {0..<n}"
    using h by (auto simp: holds_def)
  have all: "lo = 0 \<and> hi = n" if a: "A = {0..<n}"
  proof -
    have "hi = n" using max lh(2) a by (auto simp: maximal_def)
    moreover have "lo = 0" using max lh(1,2) a by (auto simp: maximal_def)
    ultimately show ?thesis by simp
  qed
  have "r_beg m = 0 \<longleftrightarrow> lo = 0" using lh of_cut_zero[OF c, of lo] by simp
  moreover have "r_islast m \<longleftrightarrow> hi = n" using lh by simp
  ultimately show "r_beg m = 0 \<and> r_islast m \<longleftrightarrow> A = {0..<n}" using all lh by auto
  show "A = {0..<n} \<Longrightarrow> r_end m = of_nat (b n)" using all lh by simp
qed

text \<open>\<open>d\<close> is the \<open>i\<close>-th fragment of the cut, of the datagram with the key \<open>key\<close>.\<close>

definition is_fragment :: "(nat \<Rightarrow> nat) \<Rightarrow> nat \<Rightarrow> FragKey \<Rightarrow> nat \<Rightarrow> 'm IPDatagram \<Rightarrow> bool" where
  "is_fragment b n key i d \<longleftrightarrow> i < n \<and> fragKeyOf d = key \<and> fragmentOffset d = int (b i) \<and>
     dg_length d div 8 - headerLength d = int (b (Suc i)) - int (b i) \<and>
     (moreFragments d \<longleftrightarrow> Suc i \<noteq> n) \<and> encapsulatedMsg d \<noteq> None"

text \<open>The buffer of \<open>key\<close> holds the fragments in \<open>A\<close>; there is none when nothing arrived.\<close>

definition buffers :: "(nat \<Rightarrow> nat) \<Rightarrow> nat \<Rightarrow> FragKey \<Rightarrow> nat set \<Rightarrow> 'm IPFragBuf \<Rightarrow> bool" where
  "buffers b n key A bufs \<longleftrightarrow> map_ok bufs \<and>
     (if A = {} then map_of bufs key = None
      else \<exists>buf lo hi. map_of bufs key = Some buf \<and>
             holds b n A (rb_main buf) (rb_fragments buf) lo hi \<and> maximal A lo hi)"

lemma addFragment_step:
  assumes c: "cut_ok b n" and n: "2 \<le> n" and f: "is_fragment b n key i d"
    and bufs: "buffers b n key A bufs" and A: "A \<noteq> {0..<n}"
  shows "\<exists>bufs'. (\<forall>k. k \<noteq> key \<longrightarrow> map_of bufs' k = map_of bufs k) \<and>
    (if insert i A = {0..<n}
     then addFragment d time bufs = Inr (Some (d\<lparr>dg_length := 8 * (headerLength d + int (b n))\<rparr>), bufs') \<and>
          buffers b n key {} bufs'
     else addFragment d time bufs = Inr (None, bufs') \<and> buffers b n key (insert i A) bufs')"
proof -
  have i: "i < n" and key: "fragKeyOf d = key" and off: "fragmentOffset d = int (b i)"
    and len: "dg_length d div 8 - headerLength d = int (b (Suc i)) - int (b i)"
    and more: "moreFragments d \<longleftrightarrow> Suc i \<noteq> n" and enc: "encapsulatedMsg d \<noteq> None"
    using f by (auto simp: is_fragment_def)
  have beg: "(word_of_int (fragmentOffset d) :: uint16) = of_nat (b i)" using off by simp
  have endd: "(of_nat (b i) + word_of_int (dg_length d div 8 - headerLength d) :: uint16) = of_nat (b (Suc i))"
    using len by simp
  have ok: "map_ok bufs" using bufs by (simp add: buffers_def)
  show ?thesis
  proof (cases "A = {}")
    case True
    define buf where "buf = \<lparr>rb_main = reg b n i (Suc i), rb_fragments = [], rb_datagram = d, rb_lastupdate = time\<rparr>"
    have none: "map_of bufs key = None" using bufs True by (simp add: buffers_def)
    have "of_nat (b i) \<noteq> (0 :: uint16) \<or> Suc i \<noteq> n" using of_cut_zero[OF c, of i] i n by auto
    then have "addFragment d time bufs = Inr (None, map_put key buf bufs)"
      using none key beg endd more by (simp add: addFragment_def Let_def reg_def buf_def)
    moreover have "buffers b n key {i} (map_put key buf bufs)"
    proof -
      have "holds b n {i} (reg b n i (Suc i)) [] i (Suc i)" "maximal {i} i (Suc i)"
        using i by (auto simp: holds_def maximal_def)
      then show ?thesis unfolding buffers_def using ok by (auto simp: buf_def)
    qed
    moreover have "{i} \<noteq> {0..<n}"
    proof
      assume "{i} = {0..<n}"
      then have "card {i} = card {0..<n}" by simp
      then show False using n by simp
    qed
    ultimately show ?thesis using True by (intro exI[of _ "map_put key buf bufs"]) simp
  next
    case False
    obtain buf lo hi where buf: "map_of bufs key = Some buf"
      and h: "holds b n A (rb_main buf) (rb_fragments buf) lo hi" and max: "maximal A lo hi"
      using bufs False by (auto simp: buffers_def)
    define buf' where "buf' = fb_merge (of_nat (b i)) (of_nat (b (Suc i))) (Suc i = n) buf"
    obtain lo' hi' where h': "holds b n (insert i A) (rb_main buf') (rb_fragments buf') lo' hi'"
      and max': "maximal (insert i A) lo' hi'"
      using fb_merge_holds[OF c h max i] unfolding buf'_def by blast
    note cpl = complete_iff[OF c h' max']
    show ?thesis
    proof (cases "insert i A = {0..<n}")
      case True
      have "uint (r_end (rb_main buf')) = int (b n)"
        unfolding cpl(2)[OF True] uint_nat unat_cut[OF c order_refl] ..
      then have "addFragment d time bufs =
          Inr (Some (d\<lparr>dg_length := 8 * (headerLength d + int (b n))\<rparr>), map_erase key bufs)"
        using buf key beg endd more enc cpl(1) True
        by (simp add: addFragment_def Let_def buf'_def[symmetric])
      then show ?thesis using True ok
        by (intro exI[of _ "map_erase key bufs"]) (simp add: buffers_def)
    next
      case F: False
      let ?buf = "buf'\<lparr>rb_datagram := d, rb_lastupdate := time\<rparr>"
      have "\<not> (r_beg (rb_main buf') = 0 \<and> r_islast (rb_main buf'))" using cpl(1) F by simp
      then have "addFragment d time bufs = Inr (None, map_put key ?buf bufs)"
        using buf key beg endd more enc
        by (auto simp: addFragment_def Let_def buf'_def[symmetric])
      moreover have "buffers b n key (insert i A) (map_put key ?buf bufs)"
        unfolding buffers_def using ok h' max' by auto
      ultimately show ?thesis using F by (intro exI[of _ "map_put key ?buf bufs"]) simp
    qed
  qed
qed

text \<open>Fragments that arrive one after the other, and what each call returns.\<close>

fun addFragments :: "('m IPDatagram \<times> simtime) list \<Rightarrow> 'm IPFragBuf \<Rightarrow> ('m IPDatagram option list \<times> 'm IPFragBuf) result" where
  "addFragments [] bufs = Inr ([], bufs)"
| "addFragments ((d, time) # ds) bufs =
     ebind (addFragment d time bufs) (\<lambda>(r, bufs).
       emap (\<lambda>(rs, bufs). (r # rs, bufs)) (addFragments ds bufs))"

lemma addFragments_incomplete:
  assumes c: "cut_ok b n" and n: "2 \<le> n"
  shows "list_all2 (\<lambda>i dt. is_fragment b n key i (fst dt)) js ds \<Longrightarrow> buffers b n key A bufs \<Longrightarrow>
    A \<union> set js \<noteq> {0..<n} \<Longrightarrow> A \<subseteq> {0..<n} \<Longrightarrow>
    \<exists>bufs'. addFragments ds bufs = Inr (replicate (length ds) None, bufs') \<and>
      buffers b n key (A \<union> set js) bufs' \<and> (\<forall>k. k \<noteq> key \<longrightarrow> map_of bufs' k = map_of bufs k)"
proof (induction ds arbitrary: js A bufs)
  case Nil then show ?case by simp
next
  case (Cons dt ds)
  obtain d t where dt: "dt = (d, t)" by (cases dt)
  obtain i is1 where js: "js = i # is1" "is_fragment b n key i d"
      "list_all2 (\<lambda>i dt. is_fragment b n key i (fst dt)) is1 ds"
    using Cons.prems(1) dt by (cases js) auto
  have idx: "set is1 \<subseteq> {0..<n}" "i < n"
    using js(2,3) by (auto simp: is_fragment_def list_all2_conv_all_nth in_set_conv_nth)
  have A': "insert i A \<noteq> {0..<n}" "A \<noteq> {0..<n}" using Cons.prems(3,4) js(1) idx by auto
  obtain bufs1 where b1: "addFragment d t bufs = Inr (None, bufs1)"
      "buffers b n key (insert i A) bufs1" "\<forall>k. k \<noteq> key \<longrightarrow> map_of bufs1 k = map_of bufs k"
    using addFragment_step[OF c n js(2) Cons.prems(2) A'(2), of t] A'(1) by auto
  obtain bufs2 where b2: "addFragments ds bufs1 = Inr (replicate (length ds) None, bufs2)"
      "buffers b n key (insert i A \<union> set is1) bufs2" "\<forall>k. k \<noteq> key \<longrightarrow> map_of bufs2 k = map_of bufs1 k"
    using Cons.IH[OF js(3) b1(2)] Cons.prems(3,4) js(1) idx by auto
  have "insert i A \<union> set is1 = A \<union> set js" using js(1) by auto
  then show ?case using b1 b2 dt by (intro exI[of _ bufs2]) auto
qed

lemma reassembly:
  assumes c: "cut_ok b n" and n: "2 \<le> n" and none: "map_of bufs key = None" "map_ok bufs"
    and ds: "list_all2 (\<lambda>i dt. is_fragment b n key i (fst dt)) js ds"
    and inc: "set js \<noteq> {0..<n}"
    and last: "is_fragment b n key i d" "set (js @ [i]) = {0..<n}"
  shows "\<exists>bufs'. addFragments (ds @ [(d, t)]) bufs =
      Inr (replicate (length ds) None @ [Some (d\<lparr>dg_length := 8 * (headerLength d + int (b n))\<rparr>)], bufs') \<and>
    map_of bufs' = map_of bufs"
proof -
  have app: "addFragments (ds @ [x]) bufs = ebind (addFragments ds bufs) (\<lambda>(rs, bufs).
      emap (\<lambda>(r, bufs). (rs @ r, bufs)) (addFragments [x] bufs))" for x :: "'a IPDatagram \<times> simtime" and ds bufs
  proof (induction ds arbitrary: bufs)
    case Nil then show ?case by (cases x; cases "addFragments [x] bufs") auto
  next
    case (Cons y ds)
    show ?case
    proof (cases y)
      case (Pair d t)
      show ?thesis
      proof (cases "addFragment d t bufs")
        case (Inr p)
        then show ?thesis using Cons[of "snd p"] Pair
          by (cases p; cases "addFragments ds (snd p)"; cases x)
            (auto simp: emap_def ebind_def split: sum.splits)
      qed (simp add: Pair)
    qed
  qed
  have b0: "buffers b n key {} bufs" using none by (simp add: buffers_def)
  obtain bufs1 where b1: "addFragments ds bufs = Inr (replicate (length ds) None, bufs1)"
      "buffers b n key (set js) bufs1" "\<forall>k. k \<noteq> key \<longrightarrow> map_of bufs1 k = map_of bufs k"
    using addFragments_incomplete[OF c n ds b0] inc by auto
  obtain bufs2 where b2: "addFragment d t bufs1 = Inr (Some (d\<lparr>dg_length := 8 * (headerLength d + int (b n))\<rparr>), bufs2)"
      "buffers b n key {} bufs2" "\<forall>k. k \<noteq> key \<longrightarrow> map_of bufs2 k = map_of bufs1 k"
    using addFragment_step[OF c n last(1) b1(2) inc, of t] last(2) by auto
  have "map_of bufs2 k = map_of bufs k" for k
    using b1(3) b2(2,3) none by (cases "k = key") (auto simp: buffers_def)
  then show ?thesis using b1 b2 by (intro exI[of _ bufs2]) (auto simp: app)
qed

end
