(* ===== verification/IPv4_Routing.thy ===== *)
theory IPv4_Routing
  imports IPv4_Address
begin

text \<open>
  The IPv4 routing table (\<open>Network/IPv4/RoutingTable.cc\<close>) over the interface table
  (\<open>Network/Contract/InterfaceTable.cc\<close>). Both tables are vectors. An interface is known by
  its position in its table, a routing entry by its address, a number of its own.
\<close>

section \<open>Interfaces\<close>

record IPv4InterfaceData =
  inetAddress :: IPAddress
  if_netmask :: IPAddress
  if_metric :: int
  multicastGroups :: "IPAddress list"

record InterfaceEntry =
  if_name :: string
  outputPort :: int
  mtu :: int
  isLoopback :: bool
  isBroadcastIf :: bool
  llAddrStr :: string
  ipv4 :: IPv4InterfaceData

type_synonym InterfaceTable = "InterfaceEntry list"

definition new_IPv4InterfaceData :: IPv4InterfaceData where
  "new_IPv4InterfaceData = \<lparr>inetAddress = ip_null, if_netmask = IPAddress4 255 255 255 255,
     if_metric = 0, multicastGroups = []\<rparr>"

fun interfaceByPortNo :: "int \<Rightarrow> InterfaceTable \<Rightarrow> InterfaceEntry option" where
  "interfaceByPortNo portNo [] = None"
| "interfaceByPortNo portNo (ie # ift) =
     (if outputPort ie = portNo then Some ie else interfaceByPortNo portNo ift)"

fun interfaceByName :: "string \<Rightarrow> InterfaceTable \<Rightarrow> nat option" where
  "interfaceByName name [] = None"
| "interfaceByName name (ie # ift) =
     (if name = if_name ie then Some 0 else map_option Suc (interfaceByName name ift))"

fun firstLoopbackInterface :: "InterfaceTable \<Rightarrow> nat option" where
  "firstLoopbackInterface [] = None"
| "firstLoopbackInterface (ie # ift) =
     (if isLoopback ie then Some 0 else map_option Suc (firstLoopbackInterface ift))"

definition interfaceAt :: "int \<Rightarrow> InterfaceTable \<Rightarrow> InterfaceEntry result" where
  "interfaceAt pos ift =
     (if pos < 0 \<or> pos \<ge> int (length ift) then Inl (OppError ''interfaceAt(): nonexistent interface'')
      else Inr (ift ! nat pos))"

definition addInterface :: "InterfaceEntry \<Rightarrow> InterfaceTable \<Rightarrow> InterfaceTable result" where
  "addInterface entry ift =
     (if interfaceByName (if_name entry) ift \<noteq> None
      then Inl (OppError ''addInterface(): interface already registered'')
      else if outputPort entry \<noteq> -1 \<and> interfaceByPortNo (outputPort entry) ift \<noteq> None
      then Inl (OppError ''addInterface(): interface with outputPort already registered'')
      else Inr (ift @ [entry]))"

text \<open>The name an interface registers with: the name of its module without special characters.\<close>

definition isalnum :: "char \<Rightarrow> bool" where
  "isalnum c = (let n = of_char c :: nat in (48 \<le> n \<and> n \<le> 57) \<or> (65 \<le> n \<and> n \<le> 90) \<or> (97 \<le> n \<and> n \<le> 122))"

definition interfaceNameOf :: "string \<Rightarrow> string" where
  "interfaceNameOf moduleName = filter isalnum moduleName"

definition numInterfaceGates :: "InterfaceTable \<Rightarrow> int" where
  "numInterfaceGates ift = foldl (\<lambda>m ie. if outputPort ie > m then outputPort ie else m) (-1) ift + 1"

text \<open>Names are unique, and so are the output ports in use.\<close>

definition ift_ok :: "InterfaceTable \<Rightarrow> bool" where
  "ift_ok ift \<longleftrightarrow> distinct (map if_name ift) \<and>
     distinct (filter (\<lambda>p. p \<noteq> -1) (map outputPort ift))"

section \<open>Routes\<close>

datatype RouteType = DIRECT | REMOTE
datatype RouteSource = MANUAL | RIP | OSPF | BGP

record RoutingEntry =
  re_ptr :: nat
  host :: IPAddress
  netmask :: IPAddress
  gateway :: IPAddress
  interfaceName :: string
  interfacePtr :: "nat option"
  re_type :: RouteType
  re_source :: RouteSource
  re_metric :: int
  re_age :: int

definition new_RoutingEntry :: "nat \<Rightarrow> RoutingEntry" where
  "new_RoutingEntry p = \<lparr>re_ptr = p, host = ip_null, netmask = ip_null, gateway = ip_null,
     interfaceName = [], interfacePtr = None, re_type = DIRECT, re_source = MANUAL,
     re_metric = 0, re_age = -1\<rparr>"

record RoutingTable =
  ift :: InterfaceTable
  routerId :: IPAddress
  ipForward :: bool
  routes :: "RoutingEntry list"
  multicastRoutes :: "RoutingEntry list"

definition interfaceByAddress :: "IPAddress \<Rightarrow> RoutingTable \<Rightarrow> InterfaceEntry option" where
  "interfaceByAddress addr rt =
     (if ip_isNull addr then None
      else find (\<lambda>ie. ip_equals (inetAddress (ipv4 ie)) addr) (ift rt))"

definition rt_localDeliver :: "IPAddress \<Rightarrow> RoutingTable \<Rightarrow> bool" where
  "rt_localDeliver dest rt \<longleftrightarrow>
     list_ex (\<lambda>ie. maskedAddrAreEqual dest (inetAddress (ipv4 ie)) (if_netmask (ipv4 ie))) (ift rt)"

definition multicastLocalDeliver :: "IPAddress \<Rightarrow> RoutingTable \<Rightarrow> bool" where
  "multicastLocalDeliver dest rt \<longleftrightarrow>
     list_ex (\<lambda>ie. list_ex (\<lambda>g. ip_equals dest g) (multicastGroups (ipv4 ie))) (ift rt)"

text \<open>The loop of \<open>selectBestMatchingRoute\<close>, with \<open>bestRoute\<close> and \<open>longestNetmask\<close>.\<close>

fun selectLoop :: "IPAddress \<Rightarrow> RoutingEntry option \<Rightarrow> uint32 \<Rightarrow> RoutingEntry list \<Rightarrow> RoutingEntry option" where
  "selectLoop dest bestRoute longestNetmask [] = bestRoute"
| "selectLoop dest bestRoute longestNetmask (e # es) =
     (if maskedAddrAreEqual dest (host e) (netmask e) \<and>
         (bestRoute = None \<or> getInt (netmask e) > longestNetmask)
      then selectLoop dest (Some e) (getInt (netmask e)) es
      else selectLoop dest bestRoute longestNetmask es)"

definition selectBestMatchingRoute :: "IPAddress \<Rightarrow> RoutingTable \<Rightarrow> RoutingEntry option" where
  "selectBestMatchingRoute dest rt = selectLoop dest None 0 (routes rt)"

definition interfaceOf :: "RoutingEntry \<Rightarrow> RoutingTable \<Rightarrow> InterfaceEntry result" where
  "interfaceOf e rt = (case interfacePtr e of
     None \<Rightarrow> Inl (NullPointer ''interfacePtr'')
   | Some i \<Rightarrow> if i < length (ift rt) then Inr (ift rt ! i) else Inl (NullPointer ''interfacePtr''))"

definition outputPortNo :: "IPAddress \<Rightarrow> RoutingTable \<Rightarrow> int result" where
  "outputPortNo dest rt = (case selectBestMatchingRoute dest rt of
     None \<Rightarrow> Inr (-1)
   | Some e \<Rightarrow> emap outputPort (interfaceOf e rt))"

definition nextGatewayAddress :: "IPAddress \<Rightarrow> RoutingTable \<Rightarrow> IPAddress" where
  "nextGatewayAddress dest rt = (case selectBestMatchingRoute dest rt of
     None \<Rightarrow> ip_null | Some e \<Rightarrow> gateway e)"

text \<open>A multicast route: the position of the interface, null when the name is unknown, and the gateway.\<close>

definition multicastRoutesFor :: "IPAddress \<Rightarrow> RoutingTable \<Rightarrow> (nat option \<times> IPAddress) list" where
  "multicastRoutesFor dest rt =
     map (\<lambda>e. (interfaceByName (interfaceName e) (ift rt), gateway e))
       (filter (\<lambda>e. maskedAddrAreEqual dest (host e) (netmask e)) (multicastRoutes rt))"

definition numRoutingEntries :: "RoutingTable \<Rightarrow> nat" where
  "numRoutingEntries rt = length (routes rt) + length (multicastRoutes rt)"

definition routingEntry :: "nat \<Rightarrow> RoutingTable \<Rightarrow> RoutingEntry option" where
  "routingEntry k rt =
     (if k < length (routes rt) then Some (routes rt ! k)
      else let k = k - length (routes rt)
           in if k < length (multicastRoutes rt) then Some (multicastRoutes rt ! k) else None)"

definition routingEntryMatches ::
    "RoutingEntry \<Rightarrow> IPAddress \<Rightarrow> IPAddress \<Rightarrow> IPAddress \<Rightarrow> int \<Rightarrow> string option \<Rightarrow> bool" where
  "routingEntryMatches entry target nmask gw metric dev \<longleftrightarrow>
     (if \<not> ip_isNull target \<and> \<not> ip_equals target (host entry) then False
      else if \<not> ip_isNull nmask \<and> \<not> ip_equals nmask (netmask entry) then False
      else if \<not> ip_isNull gw \<and> \<not> ip_equals gw (gateway entry) then False
      else if metric \<noteq> 0 \<and> metric \<noteq> re_metric entry then False
      else if dev \<noteq> None \<and> the dev \<noteq> interfaceName entry then False
      else True)"

definition findRoutingEntry ::
    "IPAddress \<Rightarrow> IPAddress \<Rightarrow> IPAddress \<Rightarrow> int \<Rightarrow> string option \<Rightarrow> RoutingTable \<Rightarrow> RoutingEntry option" where
  "findRoutingEntry target nmask gw metric dev rt =
     find (\<lambda>e. routingEntryMatches e target nmask gw metric dev) (routes rt @ multicastRoutes rt)"

definition addRoutingEntry :: "RoutingEntry \<Rightarrow> RoutingTable \<Rightarrow> RoutingTable result" where
  "addRoutingEntry entry rt =
     (if (ip_isNull (host entry) \<or> ip_isNull (netmask entry)) \<and>
         (\<not> ip_isNull (host entry) \<or> \<not> ip_isNull (netmask entry))
      then Inl (OppError ''addRoutingEntry(): to add a default route, set both host and netmask to zero'')
      else
        let entry = entry\<lparr>interfacePtr := interfaceByName (interfaceName entry) (ift rt)\<rparr>
        in if interfacePtr entry = None
           then Inl (OppError ''addRoutingEntry(): interface doesn't exist'')
           else if \<not> isMulticast (host entry) then Inr (rt\<lparr>routes := routes rt @ [entry]\<rparr>)
           else Inr (rt\<lparr>multicastRoutes := multicastRoutes rt @ [entry]\<rparr>))"

fun eraseEntry :: "nat \<Rightarrow> RoutingEntry list \<Rightarrow> RoutingEntry list" where
  "eraseEntry p [] = []"
| "eraseEntry p (e # es) = (if re_ptr e = p then es else e # eraseEntry p es)"

definition deleteRoutingEntry :: "nat \<Rightarrow> RoutingTable \<Rightarrow> bool \<times> RoutingTable" where
  "deleteRoutingEntry p rt =
     (if p \<in> re_ptr ` set (routes rt) then (True, rt\<lparr>routes := eraseEntry p (routes rt)\<rparr>)
      else if p \<in> re_ptr ` set (multicastRoutes rt)
      then (True, rt\<lparr>multicastRoutes := eraseEntry p (multicastRoutes rt)\<rparr>)
      else (False, rt))"


section \<open>Selection\<close>

abbreviation matches :: "IPAddress \<Rightarrow> RoutingEntry \<Rightarrow> bool" where
  "matches dest e \<equiv> maskedAddrAreEqual dest (host e) (netmask e)"

abbreviation maskLen :: "RoutingEntry \<Rightarrow> uint32" where
  "maskLen e \<equiv> getInt (netmask e)"

text \<open>\<open>e\<close> is the first of the matching routes with the largest netmask.\<close>

definition first_best :: "IPAddress \<Rightarrow> RoutingEntry list \<Rightarrow> RoutingEntry \<Rightarrow> bool" where
  "first_best dest es e \<longleftrightarrow> (\<exists>pre post. es = pre @ e # post \<and> matches dest e \<and>
     (\<forall>r \<in> set pre. matches dest r \<longrightarrow> maskLen r < maskLen e) \<and>
     (\<forall>r \<in> set post. matches dest r \<longrightarrow> maskLen r \<le> maskLen e))"

lemma first_best_max:
  "first_best dest es e \<Longrightarrow> r \<in> set es \<Longrightarrow> matches dest r \<Longrightarrow> maskLen r \<le> maskLen e"
  unfolding first_best_def by (auto simp: le_less)

lemma selectLoop_Some:
  "selectLoop dest (Some b) (maskLen b) es =
     (if \<exists>r \<in> set es. matches dest r \<and> maskLen b < maskLen r
      then selectLoop dest None 0 es else Some b) \<and>
   (\<forall>e. selectLoop dest None 0 es = Some e \<longrightarrow> first_best dest es e) \<and>
   (selectLoop dest None 0 es = None \<longleftrightarrow> (\<forall>r \<in> set es. \<not> matches dest r))"
proof (induction es arbitrary: b)
  case Nil then show ?case by simp
next
  case (Cons a es)
  have best_Cons: "first_best dest (a # es) e" if "first_best dest es e" "matches dest a \<longrightarrow> maskLen a < maskLen e" for e
  proof -
    from that(1) obtain pre post where es: "es = pre @ e # post" and "matches dest e"
      "\<forall>r \<in> set pre. matches dest r \<longrightarrow> maskLen r < maskLen e"
      "\<forall>r \<in> set post. matches dest r \<longrightarrow> maskLen r \<le> maskLen e"
      unfolding first_best_def by blast
    then show ?thesis unfolding first_best_def using that(2)
      by (intro exI[of _ "a # pre"] exI[of _ post]) auto
  qed
  show ?case
  proof (cases "matches dest a")
    case False
    then show ?thesis using Cons best_Cons by auto
  next
    case True
    have None: "selectLoop dest None 0 (a # es) = selectLoop dest (Some a) (maskLen a) es"
      using True by simp
    have A: "selectLoop dest (Some a) (maskLen a) es =
      (if \<exists>r \<in> set es. matches dest r \<and> maskLen a < maskLen r then selectLoop dest None 0 es else Some a)"
      using Cons.IH[of a] by blast
    have first: "first_best dest (a # es) e" if e: "selectLoop dest (Some a) (maskLen a) es = Some e" for e
    proof (cases "\<exists>r \<in> set es. matches dest r \<and> maskLen a < maskLen r")
      case True
      then obtain r where r: "r \<in> set es" "matches dest r" "maskLen a < maskLen r" by blast
      have "selectLoop dest None 0 es = Some e" using e A True by simp
      then have fb: "first_best dest es e" using Cons.IH by blast
      then have "maskLen a < maskLen e" using first_best_max[OF fb r(1,2)] r(3) by simp
      then show ?thesis using best_Cons fb by blast
    next
      case False
      then have "e = a" using e trans[OF A if_not_P[OF False]] by simp
      then show ?thesis unfolding first_best_def using False \<open>matches dest a\<close>
        by (intro exI[of _ "[]"] exI[of _ es]) (auto simp: not_less)
    qed
    have second: "selectLoop dest (Some b) (maskLen b) (a # es) =
      (if \<exists>r \<in> set (a # es). matches dest r \<and> maskLen b < maskLen r
       then selectLoop dest None 0 (a # es) else Some b)"
    proof (cases "maskLen b < maskLen a")
      case T: True
      then show ?thesis using True None by simp
    next
      case F: False
      have "selectLoop dest (Some b) (maskLen b) (a # es) = selectLoop dest (Some b) (maskLen b) es"
        using F by simp
      also have "\<dots> = (if \<exists>r \<in> set es. matches dest r \<and> maskLen b < maskLen r
         then selectLoop dest None 0 es else Some b)" using Cons.IH[of b] by blast
      also have "\<dots> = (if \<exists>r \<in> set (a # es). matches dest r \<and> maskLen b < maskLen r
         then selectLoop dest None 0 (a # es) else Some b)"
        using F A None by (auto simp: not_less intro: le_less_trans)
      finally show ?thesis .
    qed
    have "selectLoop dest (Some a) (maskLen a) es \<noteq> None"
      using A Cons.IH by (auto split: if_splits)
    then show ?thesis using first second None True by auto
  qed
qed

lemma select_first_best: "selectBestMatchingRoute dest rt = Some e \<Longrightarrow> first_best dest (routes rt) e"
  using selectLoop_Some unfolding selectBestMatchingRoute_def by blast

lemma select_None_iff: "selectBestMatchingRoute dest rt = None \<longleftrightarrow> (\<forall>r \<in> set (routes rt). \<not> matches dest r)"
  using selectLoop_Some unfolding selectBestMatchingRoute_def by blast

text \<open>Prefix masks are ordered by their length.\<close>

lemma netmaskOf_le:
  assumes "l \<le> m" "m \<le> 32"
  shows "netmaskOf l \<le> netmaskOf m"
proof -
  have "netmaskOf l = netmaskOf l AND netmaskOf m"
    by (rule bit_word_eqI) (use assms in \<open>auto simp: bit_simps bit_netmaskOf\<close>)
  then show ?thesis by (metis word_and_le1)
qed

lemma netmaskOf_inj: "l \<le> 32 \<Longrightarrow> m \<le> 32 \<Longrightarrow> netmaskOf l = netmaskOf m \<Longrightarrow> l = m"
proof (induction l m rule: linorder_wlog)
  case (le l m)
  show ?case
  proof (rule ccontr)
    assume "l \<noteq> m"
    then have "l < m" using le by simp
    then have "bit (netmaskOf m) (32 - m)" "\<not> bit (netmaskOf l) (32 - m)"
      using le(1-3) by (auto simp: bit_netmaskOf)
    then show False using le(4) by simp
  qed
next
  case (sym l m) then show ?case by metis
qed

lemma netmaskOf_le_iff: "l \<le> 32 \<Longrightarrow> m \<le> 32 \<Longrightarrow> netmaskOf l \<le> netmaskOf m \<longleftrightarrow> l \<le> m"
  by (metis netmaskOf_inj netmaskOf_le nat_le_linear order_antisym)

lemma netmaskOf_less_iff: "l \<le> 32 \<Longrightarrow> m \<le> 32 \<Longrightarrow> netmaskOf l < netmaskOf m \<longleftrightarrow> l < m"
  by (metis netmaskOf_le_iff linorder_not_le)

section \<open>The invariant of the routing table\<close>

definition entry_ok :: "InterfaceTable \<Rightarrow> RoutingEntry \<Rightarrow> bool" where
  "entry_ok t e \<longleftrightarrow> (\<exists>i. interfacePtr e = Some i \<and> i < length t \<and> if_name (t ! i) = interfaceName e) \<and>
     (ip_isNull (host e) \<longleftrightarrow> ip_isNull (netmask e))"

definition rt_ok :: "RoutingTable \<Rightarrow> bool" where
  "rt_ok rt \<longleftrightarrow> ift_ok (ift rt) \<and>
     (\<forall>e \<in> set (routes rt). entry_ok (ift rt) e \<and> \<not> isMulticast (host e)) \<and>
     (\<forall>e \<in> set (multicastRoutes rt). entry_ok (ift rt) e \<and> isMulticast (host e)) \<and>
     distinct (map re_ptr (routes rt @ multicastRoutes rt))"

lemma interfaceByName_Some:
  "interfaceByName n t = Some i \<Longrightarrow> i < length t \<and> if_name (t ! i) = n"
  by (induction t arbitrary: i) (auto split: if_splits)

lemma interfaceByName_None: "interfaceByName n t = None \<longleftrightarrow> n \<notin> if_name ` set t"
  by (induction t) auto

lemma interfaceByPortNo_Some:
  "interfaceByPortNo p t = Some ie \<Longrightarrow> ie \<in> set t \<and> outputPort ie = p"
  by (induction t) (auto split: if_splits)

lemma interfaceByPortNo_None: "interfaceByPortNo p t = None \<longleftrightarrow> p \<notin> outputPort ` set t"
  by (induction t) auto

lemma interfaceByPortNo_unique:
  "ift_ok t \<Longrightarrow> ie \<in> set t \<Longrightarrow> outputPort ie \<noteq> -1 \<Longrightarrow> interfaceByPortNo (outputPort ie) t = Some ie"
proof (induction t)
  case (Cons a t)
  have ok: "ift_ok t" using Cons.prems(1) by (auto simp: ift_ok_def split: if_splits)
  show ?case
  proof (cases "ie = a")
    case False
    then have m: "ie \<in> set t" using Cons.prems by simp
    then have "outputPort a \<noteq> outputPort ie"
      using Cons.prems by (auto simp: ift_ok_def split: if_splits)
    then show ?thesis using Cons.IH[OF ok m Cons.prems(3)] by simp
  qed simp
qed simp

lemma addInterface_ok: "ift_ok t \<Longrightarrow> addInterface ie t = Inr t' \<Longrightarrow> ift_ok t' \<and> t' = t @ [ie]"
  by (auto simp: addInterface_def ift_ok_def interfaceByName_None interfaceByPortNo_None split: if_splits)

lemma eraseEntry_set: "distinct (map re_ptr es) \<Longrightarrow> set (eraseEntry p es) = {e \<in> set es. re_ptr e \<noteq> p}"
  by (induction es) (auto simp: image_iff)

lemma eraseEntry_distinct: "distinct (map re_ptr es) \<Longrightarrow> distinct (map re_ptr (eraseEntry p es))"
  by (induction es) (auto simp: eraseEntry_set)

lemma deleteRoutingEntry_ok:
  "rt_ok rt \<Longrightarrow> rt_ok (snd (deleteRoutingEntry p rt))"
  by (auto simp: deleteRoutingEntry_def rt_ok_def eraseEntry_set eraseEntry_distinct)

lemma addRoutingEntry_cases:
  assumes "addRoutingEntry e rt = Inr rt'"
  obtains i where "interfaceByName (interfaceName e) (ift rt) = Some i"
    and "ip_isNull (host e) \<longleftrightarrow> ip_isNull (netmask e)"
    and "rt' = (if isMulticast (host e)
           then rt\<lparr>multicastRoutes := multicastRoutes rt @ [e\<lparr>interfacePtr := Some i\<rparr>]\<rparr>
           else rt\<lparr>routes := routes rt @ [e\<lparr>interfacePtr := Some i\<rparr>]\<rparr>)"
  using assms unfolding addRoutingEntry_def Let_def by (auto split: if_splits)

lemma addRoutingEntry_ok:
  assumes ok: "rt_ok rt" and add: "addRoutingEntry e rt = Inr rt'"
    and new: "re_ptr e \<notin> re_ptr ` set (routes rt @ multicastRoutes rt)"
  shows "rt_ok rt'"
proof -
  obtain i where i: "interfaceByName (interfaceName e) (ift rt) = Some i"
    and n: "ip_isNull (host e) \<longleftrightarrow> ip_isNull (netmask e)"
    and rt': "rt' = (if isMulticast (host e)
           then rt\<lparr>multicastRoutes := multicastRoutes rt @ [e\<lparr>interfacePtr := Some i\<rparr>]\<rparr>
           else rt\<lparr>routes := routes rt @ [e\<lparr>interfacePtr := Some i\<rparr>]\<rparr>)"
    using add by (rule addRoutingEntry_cases)
  have "entry_ok (ift rt) (e\<lparr>interfacePtr := Some i\<rparr>)"
    using interfaceByName_Some[OF i] n by (simp add: entry_ok_def)
  then show ?thesis using ok new unfolding rt' rt_ok_def by (auto simp: image_iff)
qed


lemma outputPortNo_interface:
  assumes ok: "rt_ok rt"
  shows "outputPortNo dest rt = Inr (case selectBestMatchingRoute dest rt of
           None \<Rightarrow> -1 | Some e \<Rightarrow> outputPort (ift rt ! the (interfacePtr e))) \<and>
         (\<forall>e. selectBestMatchingRoute dest rt = Some e \<longrightarrow>
            (\<exists>i < length (ift rt). interfacePtr e = Some i \<and> if_name (ift rt ! i) = interfaceName e))"
proof (cases "selectBestMatchingRoute dest rt")
  case None then show ?thesis by (simp add: outputPortNo_def)
next
  case (Some e)
  then have "e \<in> set (routes rt)"
    using select_first_best[OF Some] by (auto simp: first_best_def)
  then obtain i where "interfacePtr e = Some i" "i < length (ift rt)" "if_name (ift rt ! i) = interfaceName e"
    using ok by (auto simp: rt_ok_def entry_ok_def)
  then show ?thesis using Some by (simp add: outputPortNo_def interfaceOf_def)
qed

lemma outputPortNo_usable:
  assumes ok: "rt_ok rt" and p: "outputPortNo dest rt = Inr p" "p \<noteq> -1"
  shows "\<exists>ie. interfaceByPortNo p (ift rt) = Some ie \<and> ie \<in> set (ift rt)"
proof -
  obtain e where e: "selectBestMatchingRoute dest rt = Some e"
    using p outputPortNo_interface[OF ok, of dest] by (cases "selectBestMatchingRoute dest rt") auto
  then obtain i where i: "i < length (ift rt)" "interfacePtr e = Some i"
    using outputPortNo_interface[OF ok, of dest] by blast
  have "p = outputPort (ift rt ! i)" using outputPortNo_interface[OF ok, of dest] e i p by simp
  then have "interfaceByPortNo p (ift rt) = Some (ift rt ! i)"
    using interfaceByPortNo_unique[of "ift rt" "ift rt ! i"] ok i(1) p(2) by (simp add: rt_ok_def)
  then show ?thesis using i(1) by auto
qed

lemma select_add:
  assumes new: "rt' = rt\<lparr>routes := routes rt @ [e]\<rparr>" and m: "matches dest e"
    and best: "\<forall>r \<in> set (routes rt). matches dest r \<longrightarrow> maskLen r < maskLen e"
  shows "selectBestMatchingRoute dest rt' = Some e"
proof -
  have "selectBestMatchingRoute dest rt' \<noteq> None"
    using m new by (simp add: select_None_iff)
  then obtain f where f: "selectBestMatchingRoute dest rt' = Some f" by auto
  have fb: "first_best dest (routes rt @ [e]) f" using select_first_best[OF f] new by simp
  have "f = e"
  proof (rule ccontr)
    assume "f \<noteq> e"
    obtain pre post where s: "routes rt @ [e] = pre @ f # post" and mf: "matches dest f"
      and le: "\<forall>r \<in> set post. matches dest r \<longrightarrow> maskLen r \<le> maskLen f"
      using fb unfolding first_best_def by blast
    have "post \<noteq> []" using s \<open>f \<noteq> e\<close> by auto
    then obtain post' where p: "post = post' @ [e]" "routes rt = pre @ f # post'"
      using s by (metis append_Cons append_butlast_last_id append_is_Nil_conv append.assoc butlast_append
          butlast_snoc last_appendR last_snoc list.distinct(1) last_ConsR)
    then have "maskLen e \<le> maskLen f" using le m by simp
    moreover have "maskLen f < maskLen e" using best mf p(2) by simp
    ultimately show False by simp
  qed
  then show ?thesis using f by simp
qed

section \<open>Properties\<close>

text \<open>C15: Route selection is longest prefix match. A destination has no route exactly when
  no entry matches it; the selected entry matches, no matching entry has a larger netmask, and
  it is the first of those with its netmask; where all netmasks are prefix masks, no matching
  entry has a longer prefix.\<close>

theorem selection_is_longest_match:
  "(selectBestMatchingRoute dest rt = None \<longleftrightarrow> (\<forall>r \<in> set (routes rt). \<not> matches dest r)) \<and>
   (\<forall>e. selectBestMatchingRoute dest rt = Some e \<longrightarrow>
      first_best dest (routes rt) e \<and>
      (\<forall>r \<in> set (routes rt). \<forall>l m. matches dest r \<and> l \<le> 32 \<and> m \<le> 32 \<and>
         maskLen r = netmaskOf l \<and> maskLen e = netmaskOf m \<longrightarrow> l \<le> m))"
proof (intro conjI allI impI ballI)
  show "selectBestMatchingRoute dest rt = None \<longleftrightarrow> (\<forall>r \<in> set (routes rt). \<not> matches dest r)"
    by (rule select_None_iff)
  fix e assume e: "selectBestMatchingRoute dest rt = Some e"
  show fb: "first_best dest (routes rt) e" using e by (rule select_first_best)
  fix r l m
  assume r: "r \<in> set (routes rt)" and *: "matches dest r \<and> l \<le> 32 \<and> m \<le> 32 \<and>
         maskLen r = netmaskOf l \<and> maskLen e = netmaskOf m"
  have "maskLen r \<le> maskLen e" using first_best_max[OF fb r] * by blast
  then show "l \<le> m" using * netmaskOf_le_iff by simp
qed

definition routeExample :: RoutingTable where
  "routeExample =
     \<lparr>ift = [\<lparr>if_name = ''lo0'', outputPort = -1, mtu = 3924, isLoopback = True, isBroadcastIf = False, llAddrStr = [], ipv4 = new_IPv4InterfaceData\<rparr>,
             \<lparr>if_name = ''eth0'', outputPort = 0, mtu = 1500, isLoopback = False, isBroadcastIf = True, llAddrStr = [], ipv4 = new_IPv4InterfaceData\<rparr>],
      routerId = ip_null, ipForward = True,
      routes = [(new_RoutingEntry 0)\<lparr>interfaceName := ''eth0'', interfacePtr := Some 1\<rparr>],
      multicastRoutes = []\<rparr>"

definition entryExample :: RoutingEntry where
  "entryExample = (new_RoutingEntry 1)\<lparr>host := IPAddress4 10 1 0 0, netmask := IPAddress4 255 255 0 0,
     gateway := IPAddress4 10 1 0 1, interfaceName := ''eth0''\<rparr>"

lemma selection_is_longest_match_witness:
  "selectBestMatchingRoute (IPAddress4 10 1 2 3) routeExample = Some (routes routeExample ! 0)"
proof -
  have "matches (IPAddress4 10 1 2 3) (routes routeExample ! 0)"
    by (simp add: routeExample_def new_RoutingEntry_def maskedAddrAreEqual_def doAnd_def IPAddress4_def ip_null_def)
  then show ?thesis
    using selection_is_longest_match[of "IPAddress4 10 1 2 3" routeExample]
    by (cases "selectBestMatchingRoute (IPAddress4 10 1 2 3) routeExample")
      (auto simp: routeExample_def first_best_def Cons_eq_append_conv)
qed

text \<open>C16: Adding and deleting routes keep the routing table well formed (interface names and
  ports unique, every entry with the interface of its name, multicast and unicast entries
  apart, default routes with a null mask, no entry twice). An added unicast entry that is more
  specific than every entry that matches the destination is the one packets are sent by: over
  the interface of its name and to its gateway. A port that the table gives out is always the
  port of an interface, and the interface pointer of a selected entry is never null.\<close>

theorem routing_table_invariant:
  assumes ok: "rt_ok rt" and new: "re_ptr e \<notin> re_ptr ` set (routes rt @ multicastRoutes rt)"
  shows "rt_ok (snd (deleteRoutingEntry p rt)) \<and>
    (\<exists>q. outputPortNo dest rt = Inr q \<and> (q \<noteq> -1 \<longrightarrow> interfaceByPortNo q (ift rt) \<noteq> None)) \<and>
    (\<forall>rt'. addRoutingEntry e rt = Inr rt' \<longrightarrow> rt_ok rt' \<and>
      (\<not> isMulticast (host e) \<and> matches dest e \<and>
       (\<forall>r \<in> set (routes rt). matches dest r \<longrightarrow> maskLen r < maskLen e) \<longrightarrow>
       (\<exists>ie \<in> set (ift rt). if_name ie = interfaceName e \<and> outputPortNo dest rt' = Inr (outputPort ie)) \<and>
       nextGatewayAddress dest rt' = gateway e))"
proof (intro conjI allI impI)
  show "rt_ok (snd (deleteRoutingEntry p rt))" using ok by (rule deleteRoutingEntry_ok)
  obtain q where q: "outputPortNo dest rt = Inr q" using outputPortNo_interface[OF ok] by blast
  then show "\<exists>q. outputPortNo dest rt = Inr q \<and> (q \<noteq> -1 \<longrightarrow> interfaceByPortNo q (ift rt) \<noteq> None)"
    using outputPortNo_usable[OF ok q] by auto
  fix rt' assume add: "addRoutingEntry e rt = Inr rt'"
  show ok': "rt_ok rt'" using ok add new by (rule addRoutingEntry_ok)
  assume *: "\<not> isMulticast (host e) \<and> matches dest e \<and>
       (\<forall>r \<in> set (routes rt). matches dest r \<longrightarrow> maskLen r < maskLen e)"
  obtain i where i: "interfaceByName (interfaceName e) (ift rt) = Some i"
    and rt': "rt' = (if isMulticast (host e)
           then rt\<lparr>multicastRoutes := multicastRoutes rt @ [e\<lparr>interfacePtr := Some i\<rparr>]\<rparr>
           else rt\<lparr>routes := routes rt @ [e\<lparr>interfacePtr := Some i\<rparr>]\<rparr>)"
    using add by (rule addRoutingEntry_cases)
  have sel: "selectBestMatchingRoute dest rt' = Some (e\<lparr>interfacePtr := Some i\<rparr>)"
    by (rule select_add[where rt = rt]) (use * rt' in simp_all)
  have ie: "ift rt ! i \<in> set (ift rt)" "if_name (ift rt ! i) = interfaceName e" "ift rt' = ift rt"
    using interfaceByName_Some[OF i] rt' by auto
  then have "outputPortNo dest rt' = Inr (outputPort (ift rt ! i))"
    using outputPortNo_interface[OF ok', of dest] sel by simp
  then show "\<exists>ie \<in> set (ift rt). if_name ie = interfaceName e \<and> outputPortNo dest rt' = Inr (outputPort ie)"
    using ie by blast
  show "nextGatewayAddress dest rt' = gateway e" using sel by (simp add: nextGatewayAddress_def)
qed

lemma routing_table_invariant_witness:
  "\<exists>rt'. addRoutingEntry entryExample routeExample = Inr rt' \<and> rt_ok rt' \<and>
     nextGatewayAddress (IPAddress4 10 1 2 3) rt' = IPAddress4 10 1 0 1"
proof -
  have null: "ip_isNull (host (routes routeExample ! 0))" "ip_isNull (netmask (routes routeExample ! 0))"
    by (simp_all add: routeExample_def new_RoutingEntry_def ip_isNull_def ip_null_def IPAddress4_def)
  have ok: "rt_ok routeExample"
    using null by (simp add: routeExample_def rt_ok_def ift_ok_def entry_ok_def new_RoutingEntry_def
        isMulticast_def ip_null_def IPAddress4_def)
  have new: "re_ptr entryExample \<notin> re_ptr ` set (routes routeExample @ multicastRoutes routeExample)"
    by (simp add: routeExample_def entryExample_def new_RoutingEntry_def)
  obtain rt' where rt': "addRoutingEntry entryExample routeExample = Inr rt'"
    by (simp add: addRoutingEntry_def routeExample_def entryExample_def new_RoutingEntry_def
        ip_isNull_def IPAddress4_def isMulticast_def)
  have "\<not> isMulticast (host entryExample)" "matches (IPAddress4 10 1 2 3) entryExample"
    "\<forall>r \<in> set (routes routeExample). matches (IPAddress4 10 1 2 3) r \<longrightarrow> maskLen r < maskLen entryExample"
    "gateway entryExample = IPAddress4 10 1 0 1"
    by (simp_all add: entryExample_def routeExample_def new_RoutingEntry_def isMulticast_def IPAddress4_def
        ip_null_def maskedAddrAreEqual_def doAnd_def getInt_def)
  then show ?thesis
    using routing_table_invariant[OF ok new, of 0 "IPAddress4 10 1 2 3"] rt' by auto
qed

end
