(* ===== verification/IPv4_IP.thy ===== *)
theory IPv4_IP
  imports IPv4_FragBuf IPv4_Routing
begin

text \<open>
  The IPv4 module (\<open>Network/IPv4/IP.cc\<close>), with the map from protocols to gates
  (\<open>ProtocolMap.cc\<close>) and the ICMP module it reports errors to (\<open>ICMP.cc\<close>). What a handler
  sends is a list of \<open>ip_out\<close>. The number of fragments is computed in the code with
  floating point numbers; here with exact ones.
\<close>

section \<open>Control information and outputs\<close>

record IPControlInfo =
  ci_destAddr :: IPAddress
  ci_srcAddr :: IPAddress
  ci_inputPort :: int
  ci_protocol :: int
  ci_diffServCodePoint :: uint8
  ci_timeToLive :: int
  ci_dontFragment :: bool

datatype ICMPType =
    ICMP_DESTINATION_UNREACHABLE | ICMP_REDIRECT | ICMP_TIME_EXCEEDED | ICMP_PARAMETER_PROBLEM
  | ICMP_ECHO_REQUEST | ICMP_ECHO_REPLY | ICMP_TIMESTAMP_REQUEST | ICMP_TIMESTAMP_REPLY
  | ICMP_unknown int

datatype 'm ip_out =
    QueueOut "'m IPDatagram" (out_port: int) (out_nextHop: IPAddress)
  | TransportOut 'm IPControlInfo (out_gate: int)
  | PreRoutingOut 'm IPControlInfo
  | IcmpError "'m IPDatagram" ICMPType int

definition IP_PROT_ICMP :: int where "IP_PROT_ICMP = 1"
definition IP_PROT_IP :: int where "IP_PROT_IP = 4"
definition IP_HEADER_BYTES :: int where "IP_HEADER_BYTES = 20"
definition ICMP_FRAGMENTATION_ERROR_CODE :: int where "ICMP_FRAGMENTATION_ERROR_CODE = 4"

section \<open>\<open>ProtocolMapping\<close>\<close>

type_synonym ProtocolMapping = "(int \<times> int) list"

fun outputGateForProtocol :: "int \<Rightarrow> ProtocolMapping \<Rightarrow> int result" where
  "outputGateForProtocol protocol [] = Inl (OppError ''No output gate defined in protocolMapping'')"
| "outputGateForProtocol protocol ((protocolNumber, outGateIndex) # es) =
     (if protocolNumber = protocol then Inr outGateIndex else outputGateForProtocol protocol es)"

text \<open>\<open>atoi\<close> of the digits at the front; the numbers are taken to fit an \<open>int\<close>.\<close>

definition digitsValue :: "string \<Rightarrow> int" where
  "digitsValue s = foldl (\<lambda>n c. 10 * n + (of_char c - 48)) 0 s"

function parseEntries :: "string \<Rightarrow> ProtocolMapping result" where
  "parseEntries s =
     (case s of
        [] \<Rightarrow> Inr []
      | c # _ \<Rightarrow>
          if \<not> isDigit c then Inl (Exception ''syntax error: protocol number expected'')
          else
            let num = digitsValue (takeWhile isDigit s)
            in (case dropWhile isDigit s of
                  [] \<Rightarrow> Inl (Exception ''syntax error: colon expected'')
                | d # s2 \<Rightarrow>
                    if d \<noteq> CHR '':'' then Inl (Exception ''syntax error: colon expected'')
                    else
                      let s3 = dropWhile isSpace s2
                      in if s3 = [] \<or> \<not> isDigit (hd s3)
                         then Inl (Exception ''syntax error in script: output gate index expected'')
                         else
                           let entry = (num, digitsValue (takeWhile isDigit s3));
                               s4 = dropWhile isSpace (dropWhile isDigit s3)
                           in (case s4 of
                                 [] \<Rightarrow> Inr [entry]
                               | e # s5 \<Rightarrow>
                                   if e \<noteq> CHR '','' then Inl (Exception ''syntax error: comma expected'')
                                   else emap (Cons entry) (parseEntries (dropWhile isSpace s5)))))"
  by pat_completeness auto
termination
proof (relation "measure length", goal_cases)
  case 1 then show ?case by simp
next
  case (2 s c cs num d s2 s3 entry s4 e s5)
  have "length (dropWhile isSpace s5) \<le> length s5" by (rule length_dropWhile_le)
  also have "length s5 < length s4" using 2 by (metis length_Cons lessI)
  also have "length s4 \<le> length (dropWhile isDigit s3)" using 2 length_dropWhile_le by simp
  also have "\<dots> \<le> length s3" by (rule length_dropWhile_le)
  also have "\<dots> \<le> length s2" using 2 length_dropWhile_le by simp
  also have "\<dots> < length (dropWhile isDigit s)" using 2 by simp
  also have "\<dots> \<le> length s" by (rule length_dropWhile_le)
  finally show ?case by simp
qed

declare parseEntries.simps [simp del]

definition parseProtocolMapping :: "string \<Rightarrow> ProtocolMapping result" where
  "parseProtocolMapping s = parseEntries (dropWhile isSpace s)"

section \<open>The module\<close>

record 'm IPModule =
  rt :: RoutingTable
  defaultTimeToLive :: int
  defaultMCTimeToLive :: int
  fragmentTimeoutTime :: simtime
  curFragmentId :: int
  fragbuf :: "'m IPFragBuf"
  lastCheckTime :: simtime
  mapping :: ProtocolMapping
  numMulticast :: int
  numLocalDeliver :: int
  numDropped :: int
  numUnroutable :: int
  numForwarded :: int

definition IP_initialize ::
    "RoutingTable \<Rightarrow> int \<Rightarrow> int \<Rightarrow> simtime \<Rightarrow> string \<Rightarrow> 'm IPModule result" where
  "IP_initialize table ttl mcttl fragtimeout protocolMapping =
     emap (\<lambda>es. \<lparr>rt = table, defaultTimeToLive = ttl, defaultMCTimeToLive = mcttl,
             fragmentTimeoutTime = fragtimeout, curFragmentId = 0, fragbuf = [],
             lastCheckTime = 0, mapping = es, numMulticast = 0, numLocalDeliver = 0,
             numDropped = 0, numUnroutable = 0, numForwarded = 0\<rparr>)
       (parseProtocolMapping protocolMapping)"

definition sendDatagramToOutput :: "'m IPDatagram \<Rightarrow> int \<Rightarrow> IPAddress \<Rightarrow> 'm ip_out list" where
  "sendDatagramToOutput datagram port nextHopAddr =
     (if timeToLive datagram \<le> 0 then [IcmpError datagram ICMP_TIME_EXCEEDED 0]
      else [QueueOut datagram port nextHopAddr])"

text \<open>
  The number of fragments, and the \<open>i\<close>-th of them. Where the MTU is 0 or just the header,
  the code divides by zero and converts the result to \<open>int\<close>.
\<close>

definition noOfFragments :: "int \<Rightarrow> int \<Rightarrow> int \<Rightarrow> int" where
  "noOfFragments payload headerLen unit_size =
     \<lceil>(real_of_int payload / real_of_int unit_size) / (1 - real_of_int headerLen / real_of_int unit_size)\<rceil>"

definition nthFragment :: "int \<Rightarrow> int \<Rightarrow> 'm IPDatagram \<Rightarrow> int \<Rightarrow> 'm IPDatagram" where
  "nthFragment unit_size n datagram i =
     (let fragment =
        (if i \<noteq> n - 1
         then datagram\<lparr>moreFragments := True, dg_length := 8 * unit_size\<rparr>
         else datagram\<lparr>dg_length := 8 * (dg_length datagram div 8 - (n - 1) * (unit_size - headerLength datagram))\<rparr>)
      in fragment\<lparr>fragmentOffset := i * (unit_size - headerLength datagram)\<rparr>)"

definition fragmentAndSend ::
    "'m IPDatagram \<Rightarrow> int \<Rightarrow> IPAddress \<Rightarrow> InterfaceTable \<Rightarrow> 'm ip_out list result" where
  "fragmentAndSend datagram port nextHopAddr ifs = (case interfaceByPortNo port ifs of
     None \<Rightarrow> Inl (NullPointer ''interfaceByPortNo(outputPort)'')
   | Some ie \<Rightarrow>
       if dg_length datagram div 8 \<le> mtu ie
       then Inr (sendDatagramToOutput datagram port nextHopAddr)
       else if mtu ie = 0 \<or> mtu ie = headerLength datagram
       then Inl (Exception ''conversion of infinity to int'')
       else
         let payload = dg_length datagram div 8 - headerLength datagram;
             n = noOfFragments payload (headerLength datagram) (mtu ie)
         in if dontFragment datagram \<and> n > 1
            then Inr [IcmpError datagram ICMP_DESTINATION_UNREACHABLE ICMP_FRAGMENTATION_ERROR_CODE]
            else Inr (concat (map (\<lambda>i. sendDatagramToOutput (nthFragment (mtu ie) n datagram (int i))
                        port nextHopAddr) [0..<nat n])))"

definition decapsulateIP :: "'m IPDatagram \<Rightarrow> ('m \<times> IPControlInfo) result" where
  "decapsulateIP datagram = (case encapsulatedMsg datagram of
     None \<Rightarrow> Inl (NullPointer ''packet'')
   | Some packet \<Rightarrow> Inr (packet,
       \<lparr>ci_destAddr = destAddress datagram, ci_srcAddr = srcAddress datagram,
        ci_inputPort = arrivalPort datagram, ci_protocol = transportProtocol datagram,
        ci_diffServCodePoint = diffServCodePoint datagram, ci_timeToLive = 0,
        ci_dontFragment = False\<rparr>))"

definition deliverUp :: "'m IPDatagram \<Rightarrow> 'm IPModule \<Rightarrow> 'm ip_out list result" where
  "deliverUp datagram ip =
     ebind (decapsulateIP datagram) (\<lambda>(packet, ctrl).
       if transportProtocol datagram = IP_PROT_IP then Inr [PreRoutingOut packet ctrl]
       else emap (\<lambda>gate. [TransportOut packet ctrl gate])
              (outputGateForProtocol (transportProtocol datagram) (mapping ip)))"

definition localDeliver ::
    "simtime \<Rightarrow> 'm IPDatagram \<Rightarrow> 'm IPModule \<Rightarrow> ('m ip_out list \<times> 'm IPModule) result" where
  "localDeliver time datagram ip =
     (if fragmentOffset datagram \<noteq> 0 \<or> moreFragments datagram
      then
        let (stale, ip) =
              (if time \<ge> lastCheckTime ip + 10
               then case purgeStaleFragments (time - fragmentTimeoutTime ip) (fragbuf ip) of
                      (ds, bufs) \<Rightarrow> (map (\<lambda>d. IcmpError d ICMP_TIME_EXCEEDED 0) ds,
                                     ip\<lparr>lastCheckTime := time, fragbuf := bufs\<rparr>)
               else ([], ip))
        in ebind (addFragment datagram time (fragbuf ip)) (\<lambda>(complete, bufs).
           let ip = ip\<lparr>fragbuf := bufs\<rparr>
           in case complete of
                None \<Rightarrow> Inr (stale, ip)
              | Some d \<Rightarrow> emap (\<lambda>out. (stale @ out, ip)) (deliverUp d ip))
      else emap (\<lambda>out. (out, ip)) (deliverUp datagram ip))"

text \<open>The loop over the multicast routes.\<close>

fun sendToMulticastRoutes ::
    "'m IPDatagram \<Rightarrow> (nat option \<times> IPAddress) list \<Rightarrow> InterfaceTable \<Rightarrow> 'm ip_out list result" where
  "sendToMulticastRoutes datagram [] ifs = Inr []"
| "sendToMulticastRoutes datagram ((interf, gw) # rs) ifs =
     (case interf of
        None \<Rightarrow> Inl (NullPointer ''routes[i].interf'')
      | Some k \<Rightarrow>
          let port = outputPort (ifs ! k)
          in ebind (if port \<ge> 0 \<and> port \<noteq> arrivalPort datagram
                    then (case interfaceByPortNo port ifs of
                            None \<Rightarrow> Inl (NullPointer ''interfaceByPortNo(outputPort)'')
                          | Some ie \<Rightarrow>
                              let copy = (if ip_isNull (srcAddress datagram)
                                          then datagram\<lparr>srcAddress := inetAddress (ipv4 ie)\<rparr>
                                          else datagram)
                              in fragmentAndSend copy port gw ifs)
                    else Inr [])
               (\<lambda>out. emap (\<lambda>outs. out @ outs) (sendToMulticastRoutes datagram rs ifs)))"

definition handleMulticastPacket ::
    "simtime \<Rightarrow> 'm IPDatagram \<Rightarrow> 'm IPModule \<Rightarrow> ('m ip_out list \<times> 'm IPModule) result" where
  "handleMulticastPacket time datagram ip =
     ebind (outputPortNo (srcAddress datagram) (rt ip)) (\<lambda>shortestPathInputPort.
       if arrivalPort datagram \<noteq> -1 \<and> shortestPathInputPort \<noteq> -1 \<and>
          arrivalPort datagram \<noteq> shortestPathInputPort
       then Inr ([], ip)
       else
         ebind (if multicastLocalDeliver (destAddress datagram) (rt ip)
                then localDeliver time (datagram\<lparr>destAddress := routerId (rt ip)\<rparr>) ip
                else Inr ([], ip)) (\<lambda>(out, ip).
         if arrivalPort datagram \<noteq> -1 \<and> \<not> ipForward (rt ip) then Inr (out, ip)
         else emap (\<lambda>outs. (out @ outs, ip))
                (sendToMulticastRoutes datagram (multicastRoutesFor (destAddress datagram) (rt ip))
                  (ift (rt ip)))))"

definition routePacket ::
    "simtime \<Rightarrow> 'm IPDatagram \<Rightarrow> 'm IPModule \<Rightarrow> ('m ip_out list \<times> 'm IPModule) result" where
  "routePacket time datagram ip =
     (let dest = destAddress datagram in
      if isMulticast dest
      then handleMulticastPacket time datagram (ip\<lparr>numMulticast := numMulticast ip + 1\<rparr>)
      else if rt_localDeliver dest (rt ip)
      then localDeliver time datagram (ip\<lparr>numLocalDeliver := numLocalDeliver ip + 1\<rparr>)
      else if arrivalPort datagram \<noteq> -1 \<and> \<not> ipForward (rt ip)
      then Inr ([], ip\<lparr>numDropped := numDropped ip + 1\<rparr>)
      else
        ebind (outputPortNo dest (rt ip)) (\<lambda>port.
          if port = -1
          then Inr ([IcmpError datagram ICMP_DESTINATION_UNREACHABLE 0],
                    ip\<lparr>numUnroutable := numUnroutable ip + 1\<rparr>)
          else
            let nextHopAddr = nextGatewayAddress dest (rt ip)
            in ebind (if ip_isNull (srcAddress datagram)
                      then (case interfaceByPortNo port (ift (rt ip)) of
                              None \<Rightarrow> Inl (NullPointer ''interfaceByPortNo(outputPort)'')
                            | Some ie \<Rightarrow> Inr (datagram\<lparr>srcAddress := inetAddress (ipv4 ie)\<rparr>))
                      else Inr datagram) (\<lambda>datagram.
               emap (\<lambda>out. (out, ip\<lparr>numForwarded := numForwarded ip + 1\<rparr>))
                 (fragmentAndSend datagram port nextHopAddr (ift (rt ip))))))"

text \<open>
  A datagram from the network. \<open>rnd\<close> is the value of \<open>dblrand()\<close>, drawn when the packet has
  a bit error.
\<close>

definition handlePacketFromNetwork ::
    "simtime \<Rightarrow> bool \<Rightarrow> real \<Rightarrow> 'm IPDatagram \<Rightarrow> 'm IPModule \<Rightarrow> ('m ip_out list \<times> 'm IPModule) result" where
  "handlePacketFromNetwork time hasBitError rnd datagram ip =
     (let relativeHeaderLength = real_of_int (headerLength datagram) / real_of_int (dg_length datagram) / 8
      in if hasBitError \<and> rnd \<le> relativeHeaderLength
         then Inr ([IcmpError datagram ICMP_PARAMETER_PROBLEM 0], ip)
         else routePacket time (datagram\<lparr>timeToLive := to_short (timeToLive datagram - 1)\<rparr>) ip)"

text \<open>A packet of \<open>len\<close> bits from the transport layer; null when there is no interface.\<close>

definition encapsulate ::
    "'m \<Rightarrow> int \<Rightarrow> IPControlInfo \<Rightarrow> 'm IPModule \<Rightarrow> ('m IPDatagram option \<times> 'm IPModule) result" where
  "encapsulate transportPacket len ctrl ip =
     (if ift (rt ip) = [] then Inr (None, ip)
      else if \<not> ip_isNull (ci_srcAddr ctrl) \<and> interfaceByAddress (ci_srcAddr ctrl) (rt ip) = None
      then Inl (OppError ''Wrong source address: no interface with such address'')
      else Inr (Some
        \<lparr>headerLength = IP_HEADER_BYTES,
         srcAddress = (if ip_isNull (ci_srcAddr ctrl) then ip_null else ci_srcAddr ctrl),
         destAddress = ci_destAddr ctrl,
         transportProtocol = ci_protocol ctrl,
         timeToLive = (if ci_timeToLive ctrl > 0 then ci_timeToLive ctrl
                       else if isMulticast (ci_destAddr ctrl) then to_short (defaultMCTimeToLive ip)
                       else to_short (defaultTimeToLive ip)),
         identification = curFragmentId ip,
         moreFragments = False,
         dontFragment = ci_dontFragment ctrl,
         fragmentOffset = 0,
         diffServCodePoint = ci_diffServCodePoint ctrl,
         dg_length = 8 * IP_HEADER_BYTES + len,
         encapsulatedMsg = Some transportPacket,
         arrivalPort = -1\<rparr>,
        ip\<lparr>curFragmentId := curFragmentId ip + 1\<rparr>))"

definition handleMessageFromHL ::
    "simtime \<Rightarrow> 'm \<Rightarrow> int \<Rightarrow> IPControlInfo \<Rightarrow> 'm IPModule \<Rightarrow> ('m ip_out list \<times> 'm IPModule) result" where
  "handleMessageFromHL time msg len ctrl ip =
     ebind (encapsulate msg len ctrl ip) (\<lambda>(datagram, ip).
       case datagram of
         None \<Rightarrow> Inl (NullPointer ''datagram'')
       | Some d \<Rightarrow> routePacket time d ip)"

section \<open>\<open>ICMP\<close>\<close>

text \<open>An ICMP message carries the datagram it complains about, or the payload of a ping.\<close>

datatype 'm icmp_body = OrigDatagram "'m IPDatagram" | PingPayload 'm

record 'm ICMPMessage =
  icmp_type :: ICMPType
  icmp_code :: int
  icmp_length :: int
  icmp_body :: "'m icmp_body"

datatype 'm icmp_out =
    SendOut "'m ICMPMessage" IPControlInfo
  | ErrorOut "'m ICMPMessage"
  | PingOut "'m icmp_body" IPControlInfo

fun typeCode :: "ICMPType \<Rightarrow> int" where
  "typeCode ICMP_DESTINATION_UNREACHABLE = 13"
| "typeCode ICMP_REDIRECT = 5"
| "typeCode ICMP_TIME_EXCEEDED = 11"
| "typeCode ICMP_PARAMETER_PROBLEM = 12"
| "typeCode ICMP_ECHO_REQUEST = 128"
| "typeCode ICMP_ECHO_REPLY = 129"
| "typeCode ICMP_TIMESTAMP_REQUEST = 130"
| "typeCode ICMP_TIMESTAMP_REPLY = 131"
| "typeCode (ICMP_unknown k) = k"

definition icmpControlInfo :: "IPAddress \<Rightarrow> IPAddress \<Rightarrow> IPControlInfo" where
  "icmpControlInfo src dest = \<lparr>ci_destAddr = dest, ci_srcAddr = src, ci_inputPort = 0,
     ci_protocol = IP_PROT_ICMP, ci_diffServCodePoint = 0, ci_timeToLive = 0, ci_dontFragment = False\<rparr>"

fun processICMPMessage :: "'m ICMPMessage \<Rightarrow> IPControlInfo \<Rightarrow> 'm icmp_out list result" where
  "processICMPMessage msg ctrl = (case icmp_type msg of
     ICMP_DESTINATION_UNREACHABLE \<Rightarrow> Inr [ErrorOut msg]
   | ICMP_REDIRECT \<Rightarrow> Inr [ErrorOut msg]
   | ICMP_TIME_EXCEEDED \<Rightarrow> Inr [ErrorOut msg]
   | ICMP_PARAMETER_PROBLEM \<Rightarrow> Inr [ErrorOut msg]
   | ICMP_ECHO_REQUEST \<Rightarrow> Inr [SendOut (msg\<lparr>icmp_type := ICMP_ECHO_REPLY\<rparr>)
       (ctrl\<lparr>ci_srcAddr := ci_destAddr ctrl, ci_destAddr := ci_srcAddr ctrl\<rparr>)]
   | ICMP_ECHO_REPLY \<Rightarrow> Inr [PingOut (icmp_body msg) ctrl]
   | ICMP_TIMESTAMP_REQUEST \<Rightarrow> Inr [SendOut (msg\<lparr>icmp_type := ICMP_ECHO_REPLY\<rparr>)
       (ctrl\<lparr>ci_srcAddr := ci_destAddr ctrl, ci_destAddr := ci_srcAddr ctrl\<rparr>)]
   | ICMP_TIMESTAMP_REPLY \<Rightarrow> Inr [PingOut (icmp_body msg) ctrl]
   | ICMP_unknown k \<Rightarrow> Inl (OppError ''Unknown ICMP type''))"

text \<open>
  \<open>sendErrorMessage\<close>. \<open>icmpTypeOf\<close> reads the type of an encapsulated ICMP message; it gives
  None where the message is not one, and the checked cast of the code fails.
\<close>

definition sendErrorMessage ::
    "('m \<Rightarrow> ICMPType option) \<Rightarrow> 'm IPDatagram \<Rightarrow> ICMPType \<Rightarrow> int \<Rightarrow> 'm icmp_out list result" where
  "sendErrorMessage icmpTypeOf orig type code =
     (let sendIt =
        (let errorMessage = \<lparr>icmp_type = type, icmp_code = code,
                icmp_length = 8 * (4 + headerLength orig + 8), icmp_body = OrigDatagram orig\<rparr>
         in if ip_isNull (srcAddress orig)
            then processICMPMessage errorMessage (icmpControlInfo (IPAddress4 127 0 0 1) ip_null)
            else Inr [SendOut errorMessage (icmpControlInfo ip_null (srcAddress orig))])
      in if isMulticast (destAddress orig) then Inr []
         else if transportProtocol orig = IP_PROT_ICMP
         then (case encapsulatedMsg orig of
                 None \<Rightarrow> Inl (NullPointer ''recICMPMsg'')
               | Some m \<Rightarrow> (case icmpTypeOf m of
                     None \<Rightarrow> Inl (OppError ''check_and_cast'')
                   | Some t \<Rightarrow> if typeCode t < 128 then Inr [] else sendIt))
         else sendIt)"

definition sendEchoRequest :: "'m \<Rightarrow> int \<Rightarrow> IPControlInfo \<Rightarrow> 'm icmp_out list" where
  "sendEchoRequest msg len ctrl =
     [SendOut \<lparr>icmp_type = ICMP_ECHO_REQUEST, icmp_code = 0, icmp_length = len,
        icmp_body = PingPayload msg\<rparr> (ctrl\<lparr>ci_protocol := IP_PROT_ICMP\<rparr>)]"


section \<open>Fragmentation\<close>

lemma noOfFragments_bounds:
  assumes h: "0 \<le> hl" "hl < m" and p: "m - hl < p"
  defines "n \<equiv> noOfFragments p hl m"
  shows "2 \<le> n" and "(n - 1) * (m - hl) < p" and "p \<le> n * (m - hl)"
proof -
  have pos: "0 < real_of_int (m - hl)" "0 < real_of_int m" using h by simp_all
  have "(real_of_int p / real_of_int m) / (1 - real_of_int hl / real_of_int m) =
      real_of_int p / real_of_int (m - hl)"
    using pos by (simp add: field_simps)
  then have n: "n = \<lceil>real_of_int p / real_of_int (m - hl)\<rceil>"
    unfolding n_def noOfFragments_def by (rule arg_cong)
  have u: "real_of_int p / real_of_int (m - hl) \<le> real_of_int n"
    unfolding n by (rule le_of_int_ceiling)
  then have "real_of_int p \<le> real_of_int n * real_of_int (m - hl)"
    using pos by (simp add: divide_le_eq)
  then show p1: "p \<le> n * (m - hl)" by (metis of_int_le_iff of_int_mult)
  have "real_of_int n - 1 < real_of_int p / real_of_int (m - hl)"
    unfolding n by linarith
  then have "(real_of_int n - 1) * real_of_int (m - hl) < real_of_int p"
    using pos by (simp add: less_divide_eq)
  then have "real_of_int ((n - 1) * (m - hl)) < real_of_int p" by simp
  then show "(n - 1) * (m - hl) < p" by (simp only: of_int_less_iff)
  show "2 \<le> n"
  proof (rule ccontr)
    assume "\<not> 2 \<le> n"
    then have "n * (m - hl) \<le> 1 * (m - hl)" using h by (intro mult_right_mono) auto
    then show False using p1 p by simp
  qed
qed

text \<open>The offsets at which the payload is cut.\<close>

definition fragOffsets :: "int \<Rightarrow> int \<Rightarrow> int \<Rightarrow> nat \<Rightarrow> nat" where
  "fragOffsets chunk payload n i = nat (if int i < n then int i * chunk else payload)"

lemma fragOffsets_cut:
  assumes "0 < chunk" "2 \<le> n" "(n - 1) * chunk < payload" "payload < 2 ^ 16"
  shows "cut_ok (fragOffsets chunk payload n) (nat n)"
proof -
  have step: "int i * chunk < (if int (Suc i) < n then int (Suc i) * chunk else payload)" if "int i < n" for i
  proof (cases "int (Suc i) < n")
    case True then show ?thesis using assms(1) by (simp add: algebra_simps)
  next
    case False then have "int i = n - 1" using that by simp
    then show ?thesis using assms(3) by simp
  qed
  have "fragOffsets chunk payload n i < fragOffsets chunk payload n (Suc i)" if i: "i < nat n" for i
  proof -
    have "int i < n" using i by simp
    then have "fragOffsets chunk payload n i = nat (int i * chunk)"
      "int i * chunk < (if int (Suc i) < n then int (Suc i) * chunk else payload)"
      using step by (simp_all add: fragOffsets_def)
    moreover have "0 \<le> int i * chunk" using assms(1) by simp
    ultimately show ?thesis
      unfolding fragOffsets_def[of _ _ _ "Suc i"] by (simp only: nat_less_eq_zless)
  qed
  moreover have "fragOffsets chunk payload n (nat n) < 2 ^ 16" "fragOffsets chunk payload n 0 = 0"
    using assms by (auto simp: fragOffsets_def)
  ultimately show ?thesis unfolding cut_ok_def using assms(2) by auto
qed

text \<open>\<open>f\<close> is what arrives of the datagram \<open>g\<close>: on the way the hop limit and the gate change.\<close>

definition arrived :: "'m IPDatagram \<Rightarrow> 'm IPDatagram \<Rightarrow> bool" where
  "arrived g f \<longleftrightarrow> f\<lparr>timeToLive := timeToLive g, arrivalPort := arrivalPort g\<rparr> = g"

lemma arrived_fields:
  assumes "arrived g f"
  shows "fragKeyOf f = fragKeyOf g" "fragmentOffset f = fragmentOffset g" "dg_length f = dg_length g"
    "headerLength f = headerLength g" "moreFragments f = moreFragments g"
    "encapsulatedMsg f = encapsulatedMsg g" "transportProtocol f = transportProtocol g"
    "srcAddress f = srcAddress g" "destAddress f = destAddress g"
  using assms unfolding arrived_def fragKeyOf_def by (cases f; cases g; auto)+

lemma nthFragment_is_fragment:
  assumes d: "headerLength d < u" "\<not> moreFragments d" "encapsulatedMsg d \<noteq> None"
    and n: "2 \<le> n" "(n - 1) * (u - headerLength d) < dg_length d div 8 - headerLength d"
    and i: "i < nat n"
  shows "is_fragment (fragOffsets (u - headerLength d) (dg_length d div 8 - headerLength d) n) (nat n)
     (fragKeyOf d) i (nthFragment u n d (int i))"
proof -
  have pos: "0 \<le> int i * (u - headerLength d)" using d(1) by simp
  have key: "fragKeyOf (nthFragment u n d (int i)) = fragKeyOf d"
    by (simp add: nthFragment_def fragKeyOf_def Let_def)
  show ?thesis
  proof (cases "int (Suc i) < n")
    case True
    then show ?thesis using i d pos key
      by (auto simp: is_fragment_def nthFragment_def fragOffsets_def Let_def algebra_simps)
  next
    case False
    then have "int i = n - 1" using i by linarith
    then have l: "n - 1 = int i" "nat n = Suc i" by simp_all
    show ?thesis using i d pos key n(2) l
      by (auto simp: is_fragment_def nthFragment_def fragOffsets_def Let_def algebra_simps)
  qed
qed

lemma is_fragment_arrived: "is_fragment b n key i g \<Longrightarrow> arrived g f \<Longrightarrow> is_fragment b n key i f"
  using arrived_fields[of g f] by (simp add: is_fragment_def)

text \<open>The fragments of a datagram that does not fit, and what becomes of them on arrival.\<close>

definition fragmentsOf :: "'m IPDatagram \<Rightarrow> int \<Rightarrow> 'm IPDatagram list" where
  "fragmentsOf d u =
     (let n = noOfFragments (dg_length d div 8 - headerLength d) (headerLength d) u
      in map (\<lambda>i. nthFragment u n d (int i)) [0..<nat n])"

definition must_fragment :: "'m IPDatagram \<Rightarrow> InterfaceEntry \<Rightarrow> bool" where
  "must_fragment d ie \<longleftrightarrow> 0 \<le> headerLength d \<and> headerLength d < mtu ie \<and> mtu ie < dg_length d div 8 \<and>
     dg_length d div 8 - headerLength d < 2 ^ 16 \<and> 8 dvd dg_length d \<and>
     0 < timeToLive d \<and> encapsulatedMsg d \<noteq> None"




lemma fragmentation_roundtrip:
  assumes d: "must_fragment d ie" "\<not> moreFragments d"
    and bufs: "map_ok bufs" "map_of bufs (fragKeyOf d) = None"
    and arr: "list_all2 (\<lambda>j ft. j < length (fragmentsOf d (mtu ie)) \<and>
        arrived (fragmentsOf d (mtu ie) ! j) (fst ft)) (js @ [k]) (ds @ [(f, t)])"
    and once: "set (js @ [k]) = {0..<length (fragmentsOf d (mtu ie))}"
      "set js \<noteq> {0..<length (fragmentsOf d (mtu ie))}"
  shows "\<exists>bufs'. addFragments (ds @ [(f, t)]) bufs =
      Inr (replicate (length ds) None @ [Some (f\<lparr>dg_length := dg_length d\<rparr>)], bufs') \<and>
    map_of bufs' = map_of bufs"
proof -
  let ?p = "dg_length d div 8 - headerLength d" and ?c = "mtu ie - headerLength d"
  define n where "n = noOfFragments ?p (headerLength d) (mtu ie)"
  define b where "b = fragOffsets ?c ?p n"
  have n: "2 \<le> n" "(n - 1) * ?c < ?p" "?p \<le> n * ?c"
    using noOfFragments_bounds[of "headerLength d" "mtu ie" ?p] d(1)
    by (auto simp: must_fragment_def n_def)
  have c: "cut_ok b (nat n)"
    unfolding b_def by (rule fragOffsets_cut) (use n d(1) in \<open>auto simp: must_fragment_def\<close>)
  have len: "length (fragmentsOf d (mtu ie)) = nat n"
    by (simp add: fragmentsOf_def Let_def n_def)
  have frag: "is_fragment b (nat n) (fragKeyOf d) j g"
    if "j < nat n" "arrived (fragmentsOf d (mtu ie) ! j) g" for j g
  proof -
    have "fragmentsOf d (mtu ie) ! j = nthFragment (mtu ie) n d (int j)"
      using that(1) by (simp add: fragmentsOf_def Let_def n_def[symmetric])
    then show ?thesis
      using is_fragment_arrived[OF nthFragment_is_fragment[of d "mtu ie" n j]] that n d
      by (auto simp: b_def must_fragment_def)
  qed
  have js: "list_all2 (\<lambda>j ft. is_fragment b (nat n) (fragKeyOf d) j (fst ft)) js ds"
    and k: "is_fragment b (nat n) (fragKeyOf d) k f"
    using arr frag len
    by (auto simp: list_all2_append1 list_all2_Cons1 elim!: list_all2_mono)
  have hl: "headerLength f = headerLength d"
  proof -
    have "arrived (fragmentsOf d (mtu ie) ! k) f" "k < nat n"
      using arr len by (auto simp: list_all2_append1 list_all2_Cons1)
    then show ?thesis
      using arrived_fields(4)[of "fragmentsOf d (mtu ie) ! k" f]
      by (simp add: fragmentsOf_def Let_def n_def[symmetric] nthFragment_def)
  qed
  have "int (b (nat n)) = ?p" using n d(1) by (auto simp: b_def fragOffsets_def must_fragment_def)
  then have "8 * (headerLength f + int (b (nat n))) = dg_length d"
    using hl d(1) by (simp add: must_fragment_def)
  then show ?thesis
    using reassembly[OF c _ bufs(2,1) js _ k, of t] once n(1) len by simp
qed


section \<open>What the module sends\<close>

text \<open>An output that goes to an interface carries the datagram with its hop limit.\<close>

fun carries :: "'m IPDatagram \<Rightarrow> 'm ip_out \<Rightarrow> bool" where
  "carries d (QueueOut f port nh) \<longleftrightarrow> timeToLive f = timeToLive d \<and> 0 < timeToLive f \<and>
     destAddress f = destAddress d \<and> encapsulatedMsg f = encapsulatedMsg d \<and>
     transportProtocol f = transportProtocol d"
| "carries d _ \<longleftrightarrow> True"

fun up :: "'m ip_out \<Rightarrow> bool" where
  "up (QueueOut f port nh) \<longleftrightarrow> False"
| "up _ \<longleftrightarrow> True"

lemma nthFragment_fields [simp]:
  "timeToLive (nthFragment u n d i) = timeToLive d"
  "destAddress (nthFragment u n d i) = destAddress d"
  "srcAddress (nthFragment u n d i) = srcAddress d"
  "headerLength (nthFragment u n d i) = headerLength d"
  "encapsulatedMsg (nthFragment u n d i) = encapsulatedMsg d"
  "transportProtocol (nthFragment u n d i) = transportProtocol d"
  by (simp_all add: nthFragment_def Let_def)

lemma fragmentAndSend_carries:
  "fragmentAndSend d port nh ifs = Inr out \<Longrightarrow> x \<in> set out \<Longrightarrow> carries d x"
  by (auto simp: fragmentAndSend_def sendDatagramToOutput_def Let_def split: option.splits if_splits)

lemma fragmentAndSend_src_carries:
  assumes "fragmentAndSend (d\<lparr>srcAddress := a\<rparr>) port nh ifs = Inr out" "x \<in> set out"
  shows "carries d x"
  using fragmentAndSend_carries[OF assms] by (cases x) auto

lemma deliverUp_up: "deliverUp d ip = Inr out \<Longrightarrow> x \<in> set out \<Longrightarrow> up x"
  by (auto simp: deliverUp_def split: if_splits)

lemma localDeliver_up:
  "localDeliver time d ip = Inr (out, ip') \<Longrightarrow> x \<in> set out \<Longrightarrow> up x"
  by (auto simp: localDeliver_def Let_def purgeStaleFragments_def
      split: if_splits prod.splits option.splits) (blast intro: deliverUp_up)+

lemma localDeliver_rt: "localDeliver time d ip = Inr (out, ip') \<Longrightarrow> rt ip' = rt ip"
  by (auto simp: localDeliver_def Let_def split: if_splits prod.splits option.splits)

lemma up_carries: "up x \<Longrightarrow> carries d x"
  by (cases x) auto

lemma carries_src [simp]: "carries (d\<lparr>srcAddress := a\<rparr>) x = carries d x"
  by (cases x) auto

lemma localDeliver_carries: "localDeliver time d ip = Inr (out, ip') \<Longrightarrow> x \<in> set out \<Longrightarrow> carries d' x"
  by (blast dest: localDeliver_up up_carries)

lemma sendToMulticastRoutes_carries:
  "sendToMulticastRoutes d rs ifs = Inr out \<Longrightarrow> x \<in> set out \<Longrightarrow> carries d x"
proof (induction rs arbitrary: out)
  case (Cons r rs)
  obtain interf gw where r: "r = (interf, gw)" by (cases r)
  then obtain k where k: "interf = Some k" using Cons.prems(1) by (cases interf) auto
  let ?port = "outputPort (ifs ! k)"
  obtain o1 o2 where o: "out = o1 @ o2" "sendToMulticastRoutes d rs ifs = Inr o2"
    and o1: "(if ?port \<ge> 0 \<and> ?port \<noteq> arrivalPort d
              then (case interfaceByPortNo ?port ifs of
                      None \<Rightarrow> Inl (NullPointer ''interfaceByPortNo(outputPort)'')
                    | Some ie \<Rightarrow>
                        let copy = (if ip_isNull (srcAddress d) then d\<lparr>srcAddress := inetAddress (ipv4 ie)\<rparr> else d)
                        in fragmentAndSend copy ?port gw ifs)
              else Inr []) = Inr o1"
    using Cons.prems(1) by (auto simp: r k Let_def)
  have "carries d x" if "x \<in> set o1"
    using o1 that by (auto simp: Let_def split: if_splits option.splits dest: fragmentAndSend_carries)
  then show ?case using Cons.IH[OF o(2)] Cons.prems(2) o(1) by auto
qed simp

lemma handleMulticastPacket_carries:
  "handleMulticastPacket time d ip = Inr (out, ip') \<Longrightarrow> x \<in> set out \<Longrightarrow> carries d x"
  by (auto simp: handleMulticastPacket_def split: if_splits)
    (blast intro: sendToMulticastRoutes_carries localDeliver_carries)+

lemma routePacket_carries:
  assumes "routePacket time d ip = Inr (out, ip')" and "x \<in> set out"
  shows "carries d x"
  using assms
  by (auto simp: routePacket_def Let_def split: if_splits option.splits)
    (blast intro: handleMulticastPacket_carries localDeliver_carries fragmentAndSend_carries
      fragmentAndSend_src_carries)+

lemma to_short_small: "- 32768 \<le> i \<Longrightarrow> i < 32768 \<Longrightarrow> to_short i = i"
  by (simp add: to_short_def signed_of_int signed_take_bit_int_eq_self)

section \<open>Properties\<close>


definition bigDatagram :: "int \<Rightarrow> nat IPDatagram" where
  "bigDatagram off = \<lparr>headerLength = 20, srcAddress = IPAddress4 10 0 0 1, destAddress = IPAddress4 10 1 2 3,
     transportProtocol = 17, timeToLive = 32, identification = 7, moreFragments = False,
     dontFragment = False, fragmentOffset = off, diffServCodePoint = 0, dg_length = 8 * 2020,
     encapsulatedMsg = Some 1, arrivalPort = -1\<rparr>"

definition ethExample :: InterfaceEntry where
  "ethExample = \<lparr>if_name = ''eth0'', outputPort = 0, mtu = 1020, isLoopback = False, isBroadcastIf = True, llAddrStr = [], ipv4 = new_IPv4InterfaceData\<rparr>"

lemma bigDatagram_facts:
  "must_fragment (bigDatagram off) ethExample" "\<not> moreFragments (bigDatagram off)"
  "\<not> dontFragment (bigDatagram off)" "length (fragmentsOf (bigDatagram off) (mtu ethExample)) = 2"
  by (simp_all add: must_fragment_def bigDatagram_def ethExample_def fragmentsOf_def noOfFragments_def Let_def)

definition arrivedFragment :: "int \<Rightarrow> nat \<Rightarrow> nat IPDatagram" where
  "arrivedFragment off j = fragmentsOf (bigDatagram off) (mtu ethExample) ! j"

lemma bigDatagram_arrivals:
  "list_all2 (\<lambda>j ft. j < length (fragmentsOf (bigDatagram off) (mtu ethExample)) \<and>
        arrived (fragmentsOf (bigDatagram off) (mtu ethExample) ! j) (fst ft)) ([1] @ [0])
     ([(arrivedFragment off 1, 0)] @ [(arrivedFragment off 0, 1)])"
  by (simp add: bigDatagram_facts arrived_def arrivedFragment_def)

lemma bigDatagram_once:
  "set ([1] @ [0]) = {0..<length (fragmentsOf (bigDatagram off) (mtu ethExample))}"
  "set [1] \<noteq> {0..<length (fragmentsOf (bigDatagram off) (mtu ethExample))}"
proof -
  have two: "{0..<2} = {0, 1 :: nat}" by auto
  show "set ([1] @ [0]) = {0..<length (fragmentsOf (bigDatagram off) (mtu ethExample))}"
    unfolding bigDatagram_facts(4) two by auto
  show "set [1] \<noteq> {0..<length (fragmentsOf (bigDatagram off) (mtu ethExample))}"
    unfolding bigDatagram_facts(4) two by simp
qed


text \<open>A fragment that has to be cut again loses its offset: the new fragments start at
  offset 0. When the last fragment of a datagram is cut by a router and its pieces reach a node
  where nothing of the datagram is buffered, the node takes them for a complete datagram, one
  that is shorter than the original by the offset of the fragment, and delivers it.\<close>

theorem refragmented_fragment_poses_as_datagram:
  assumes d: "must_fragment d ie" "\<not> moreFragments d" "0 < fragmentOffset d"
    and bufs: "map_ok bufs" "map_of bufs (fragKeyOf d) = None"
    and arr: "list_all2 (\<lambda>j ft. j < length (fragmentsOf d (mtu ie)) \<and>
        arrived (fragmentsOf d (mtu ie) ! j) (fst ft)) (js @ [k]) (ds @ [(f, t)])"
    and once: "set (js @ [k]) = {0..<length (fragmentsOf d (mtu ie))}"
      "set js \<noteq> {0..<length (fragmentsOf d (mtu ie))}"
  shows "\<exists>r bufs'. addFragments (ds @ [(f, t)]) bufs = Inr (replicate (length ds) None @ [Some r], bufs') \<and>
    dg_length r = dg_length d \<and>
    dg_length r div 8 < fragmentOffset d + dg_length d div 8"
  using fragmentation_roundtrip[OF d(1,2) bufs arr once] d(3)
  by (auto intro!: exI[of _ "f\<lparr>dg_length := dg_length d\<rparr>"])

lemma refragmented_fragment_poses_as_datagram_witness:
  "\<exists>r bufs'. addFragments ([(arrivedFragment 3000 1, 0)] @ [(arrivedFragment 3000 0, 1)]) [] =
       Inr (replicate (length [(arrivedFragment 3000 1, 0 :: simtime)]) None @ [Some r], bufs') \<and>
     dg_length r = 8 * 2020"
proof -
  have off: "0 < fragmentOffset (bigDatagram 3000)" and len: "dg_length (bigDatagram 3000) = 8 * 2020"
    by (simp_all add: bigDatagram_def)
  have none: "map_of [] (fragKeyOf (bigDatagram 3000)) = None" by simp
  note R = refragmented_fragment_poses_as_datagram[OF bigDatagram_facts(1,2) off map_ok_Nil none
      bigDatagram_arrivals bigDatagram_once, unfolded len]
  show ?thesis using R by (elim exE conjE) (intro exI conjI, assumption+)
qed

text \<open>C14: Forwarding consumes the hop limit. Whatever a node does with a datagram from the
  network, everything it sends on has the hop limit of the datagram minus one, which is still
  positive, and its destination, protocol and content; so a datagram is forwarded at most as
  often as its hop limit says.\<close>

theorem forwarding_consumes_hop_limit:
  assumes "handlePacketFromNetwork time hasBitError rnd d ip = Inr (out, ip')"
    and "QueueOut f port nh \<in> set out" and "- 32767 \<le> timeToLive d" "timeToLive d \<le> 32767"
  shows "timeToLive f = timeToLive d - 1 \<and> 0 < timeToLive f \<and> destAddress f = destAddress d \<and>
    transportProtocol f = transportProtocol d \<and> encapsulatedMsg f = encapsulatedMsg d"
proof -
  have r: "routePacket time (d\<lparr>timeToLive := to_short (timeToLive d - 1)\<rparr>) ip = Inr (out, ip')"
    using assms(1,2) by (auto simp: handlePacketFromNetwork_def Let_def split: if_splits)
  have "to_short (timeToLive d - 1) = timeToLive d - 1"
    using assms(3,4) by (intro to_short_small) auto
  then show ?thesis using routePacket_carries[OF r assms(2)] by simp
qed

text \<open>Unicast forwarding follows the routing table. A datagram that is not for this node
  and may be forwarded leads to one ICMP error when no route matches or the route leads to an
  interface without a port; otherwise every piece of it is sent over the interface of the
  longest matching route, to the gateway of that route, and fits the interface, or an ICMP
  error is reported; the forwarding counters follow. No null pointer is used on the way.\<close>

theorem unicast_forwarding:
  assumes ok: "rt_ok (rt ip)" and dest: "\<not> isMulticast (destAddress d)" "\<not> rt_localDeliver (destAddress d) (rt ip)"
    and fwd: "arrivalPort d = -1 \<or> ipForward (rt ip)"
    and size: "0 \<le> headerLength d" "\<forall>ie \<in> set (ift (rt ip)). headerLength d < mtu ie"
  shows "case selectBestMatchingRoute (destAddress d) (rt ip) of
      None \<Rightarrow> routePacket time d ip =
        Inr ([IcmpError d ICMP_DESTINATION_UNREACHABLE 0], ip\<lparr>numUnroutable := numUnroutable ip + 1\<rparr>)
    | Some e \<Rightarrow> let ie = ift (rt ip) ! the (interfacePtr e) in
        if outputPort ie = -1
        then routePacket time d ip =
          Inr ([IcmpError d ICMP_DESTINATION_UNREACHABLE 0], ip\<lparr>numUnroutable := numUnroutable ip + 1\<rparr>)
        else \<exists>out. routePacket time d ip = Inr (out, ip\<lparr>numForwarded := numForwarded ip + 1\<rparr>) \<and>
          (\<forall>x \<in> set out. (\<exists>f. x = QueueOut f (outputPort ie) (gateway e) \<and> dg_length f div 8 \<le> mtu ie) \<or>
                        (\<exists>f t code. x = IcmpError f t code))"
proof (cases "selectBestMatchingRoute (destAddress d) (rt ip)")
  case None
  then show ?thesis using dest fwd outputPortNo_interface[OF ok, of "destAddress d"]
    by (auto simp: routePacket_def Let_def)
next
  case (Some e)
  define ie where "ie = ift (rt ip) ! the (interfacePtr e)"
  have p: "outputPortNo (destAddress d) (rt ip) = Inr (outputPort ie)"
    using outputPortNo_interface[OF ok, of "destAddress d"] Some by (simp add: ie_def)
  have mem: "ie \<in> set (ift (rt ip))"
    using outputPortNo_interface[OF ok, of "destAddress d"] Some by (auto simp: ie_def)
  show ?thesis
  proof (cases "outputPort ie = -1")
    case True
    then show ?thesis using dest fwd p Some by (auto simp: routePacket_def Let_def ie_def)
  next
    case False
    have if_ie: "interfaceByPortNo (outputPort ie) (ift (rt ip)) = Some ie"
      using ok mem False by (intro interfaceByPortNo_unique) (auto simp: rt_ok_def)
    define d1 where "d1 = (if ip_isNull (srcAddress d) then d\<lparr>srcAddress := inetAddress (ipv4 ie)\<rparr> else d)"
    have d1: "headerLength d1 = headerLength d" "dg_length d1 = dg_length d"
      by (simp_all add: d1_def)
    have gw: "nextGatewayAddress (destAddress d) (rt ip) = gateway e"
      using Some by (simp add: nextGatewayAddress_def)
    have m: "headerLength d1 < mtu ie" "0 \<le> headerLength d1" using size mem d1 by auto
    have "\<exists>out. fragmentAndSend d1 (outputPort ie) (gateway e) (ift (rt ip)) = Inr out \<and>
        (\<forall>x \<in> set out. (\<exists>f. x = QueueOut f (outputPort ie) (gateway e) \<and> dg_length f div 8 \<le> mtu ie) \<or>
                        (\<exists>f t code. x = IcmpError f t code))"
    proof (cases "dg_length d1 div 8 \<le> mtu ie")
      case True
      then show ?thesis using if_ie by (auto simp: fragmentAndSend_def sendDatagramToOutput_def)
    next
      case F: False
      define n where "n = noOfFragments (dg_length d1 div 8 - headerLength d1) (headerLength d1) (mtu ie)"
      have n: "2 \<le> n" "dg_length d1 div 8 - headerLength d1 \<le> n * (mtu ie - headerLength d1)"
        using noOfFragments_bounds[of "headerLength d1" "mtu ie" "dg_length d1 div 8 - headerLength d1"] m F
        by (auto simp: n_def)
      have fits: "dg_length (nthFragment (mtu ie) n d1 i) div 8 \<le> mtu ie" for i
        using n(2) by (simp add: nthFragment_def Let_def algebra_simps)
      show ?thesis using if_ie F m fits
        by (auto simp: fragmentAndSend_def sendDatagramToOutput_def Let_def n_def[symmetric])
    qed
    then obtain out where out: "fragmentAndSend d1 (outputPort ie) (gateway e) (ift (rt ip)) = Inr out"
      "\<forall>x \<in> set out. (\<exists>f. x = QueueOut f (outputPort ie) (gateway e) \<and> dg_length f div 8 \<le> mtu ie) \<or>
                        (\<exists>f t code. x = IcmpError f t code)" by blast
    have "routePacket time d ip = Inr (out, ip\<lparr>numForwarded := numForwarded ip + 1\<rparr>)"
      using dest fwd p False if_ie gw out(1)
      by (auto simp: routePacket_def Let_def d1_def split: if_splits)
    then show ?thesis using Some False out(2) by (simp add: ie_def[symmetric] Let_def)
  qed
qed


definition ipExample :: "nat IPModule" where
  "ipExample = \<lparr>rt = routeExample, defaultTimeToLive = 32, defaultMCTimeToLive = 32,
     fragmentTimeoutTime = 60, curFragmentId = 0, fragbuf = [], lastCheckTime = 0, mapping = [(17, 0)],
     numMulticast = 0, numLocalDeliver = 0, numDropped = 0, numUnroutable = 0, numForwarded = 0\<rparr>"

lemma routeExample_ok: "rt_ok routeExample"
proof -
  have "ip_isNull (host (routes routeExample ! 0))" "ip_isNull (netmask (routes routeExample ! 0))"
    by (simp_all add: routeExample_def new_RoutingEntry_def ip_isNull_def ip_null_def IPAddress4_def)
  then show ?thesis
    by (simp add: routeExample_def rt_ok_def ift_ok_def entry_ok_def new_RoutingEntry_def
        isMulticast_def ip_null_def IPAddress4_def)
qed

lemma ipExample_facts:
  "rt ipExample = routeExample" "\<not> isMulticast (destAddress (bigDatagram off))"
  "\<not> rt_localDeliver (destAddress (bigDatagram off)) (rt ipExample)"
  "selectBestMatchingRoute (destAddress (bigDatagram off)) (rt ipExample) = Some (routes routeExample ! 0)"
  by (simp_all add: ipExample_def bigDatagram_def isMulticast_def rt_localDeliver_def routeExample_def
      maskedAddrAreEqual_def doAnd_def IPAddress4_def new_IPv4InterfaceData_def ip_null_def
      selectBestMatchingRoute_def new_RoutingEntry_def)

lemma forwarding_consumes_hop_limit_witness:
  "\<exists>out ip' f. handlePacketFromNetwork 0 False 0 ((bigDatagram 0)\<lparr>dg_length := 800, arrivalPort := 1\<rparr>) ipExample = Inr (out, ip') \<and>
     QueueOut f 0 ip_null \<in> set out \<and> timeToLive f = 31"
proof -
  define d where "d = (bigDatagram 0)\<lparr>dg_length := 800, arrivalPort := 1\<rparr>"
  define f where "f = d\<lparr>timeToLive := 31\<rparr>"
  have t: "to_short 31 = 31" by (rule to_short_small) simp_all
  have "selectBestMatchingRoute (destAddress d) routeExample = Some (routes routeExample ! 0)"
    "\<not> isMulticast (destAddress d)" "\<not> rt_localDeliver (destAddress d) routeExample"
    using ipExample_facts(2-4)[of 0] by (simp_all add: d_def ipExample_facts(1))
  moreover have "interfaceOf (routes routeExample ! 0) routeExample = Inr (ift routeExample ! 1)"
    "outputPort (ift routeExample ! 1) = 0" "gateway (routes routeExample ! 0) = ip_null"
    "ipForward routeExample" "mtu (ift routeExample ! 1) = 1500"
    "interfaceByPortNo 0 (ift routeExample) = Some (ift routeExample ! 1)"
    by (simp_all add: routeExample_def interfaceOf_def new_RoutingEntry_def)
  moreover have "timeToLive d = 32" "\<not> ip_isNull (srcAddress d)" "dg_length d = 800"
    by (simp_all add: d_def bigDatagram_def ip_isNull_def IPAddress4_def)
  ultimately have "handlePacketFromNetwork 0 False 0 d ipExample =
      Inr ([QueueOut f 0 ip_null], ipExample\<lparr>numForwarded := numForwarded ipExample + 1\<rparr>)"
    by (simp add: handlePacketFromNetwork_def routePacket_def Let_def outputPortNo_def
        nextGatewayAddress_def fragmentAndSend_def sendDatagramToOutput_def f_def t ipExample_facts(1))
  moreover from this have "timeToLive f = timeToLive d - 1"
    using forwarding_consumes_hop_limit[of 0 False 0 d ipExample] \<open>timeToLive d = 32\<close> by auto
  ultimately show ?thesis using \<open>timeToLive d = 32\<close> by (auto simp: d_def[symmetric])
qed

lemma unicast_forwarding_witness:
  "\<exists>out. routePacket 0 (bigDatagram 0) ipExample = Inr (out, ipExample\<lparr>numForwarded := 1\<rparr>)"
proof -
  have facts: "rt_ok (rt ipExample)" "arrivalPort (bigDatagram 0) = -1 \<or> ipForward (rt ipExample)"
    "0 \<le> headerLength (bigDatagram 0)"
    "\<forall>ie \<in> set (ift (rt ipExample)). headerLength (bigDatagram 0) < mtu ie"
    by (simp_all add: ipExample_def routeExample_ok bigDatagram_def)
      (simp_all add: routeExample_def)
  have "outputPort (ift (rt ipExample) ! the (interfacePtr (routes routeExample ! 0))) = 0"
    "numForwarded ipExample = 0"
    by (simp_all add: ipExample_def routeExample_def new_RoutingEntry_def)
  then show ?thesis
    using unicast_forwarding[OF facts(1) ipExample_facts(2,3) facts(2-4), where time = 0] ipExample_facts(4)[of 0]
    by (auto simp: Let_def)
qed

end
