(* ===== verification/IPv6_Address.thy ===== *)
theory IPv6_Address
  imports IPv4_Address Std_Map
begin

unbundle bit_operations_syntax

text \<open>
  IPv6 addresses: \<open>Network/IPv6/ipv6_addr.h\<close>, \<open>ipv6_addr.cc\<close>, \<open>IPv6Address.h\<close> and
  \<open>IPv6Address.cc\<close>. An \<open>ipv6_addr\<close> is four 32-bit words, the most significant first; an
  \<open>IPv6Address\<close> adds a prefix length, a cached scope and two lifetimes. A shift by the width
  of the shifted type or more is undefined in C++: an operation that can reach one returns an
  option, and None stands for it. The lemmas read the operations on words as operations on the
  128 bits of the address, bit 0 being the first one sent.
\<close>

datatype ipv6_addr = Ipv6Addr (extreme: uint32) (high: uint32) (normal: uint32) (low: uint32)

datatype SCOPE = Scope_None | Scope_Node | Scope_Link | Scope_Site | Scope_Organization | Scope_Global

definition IPv6_ADDR_BITLENGTH :: nat where "IPv6_ADDR_BITLENGTH = 128"

definition IPv6_ADDR_UNSPECIFIED :: ipv6_addr where
  "IPv6_ADDR_UNSPECIFIED = Ipv6Addr 0 0 0 0"
definition IPv6_ADDR_MULTICAST_PREFIX :: ipv6_addr where
  "IPv6_ADDR_MULTICAST_PREFIX = Ipv6Addr 0xFF000000 0 0 0"
definition IPv6_ADDR_MULT_NODE_PREFIX :: ipv6_addr where
  "IPv6_ADDR_MULT_NODE_PREFIX = Ipv6Addr 0xFF010000 0 0 0"
definition IPv6_ADDR_MULT_LINK_PREFIX :: ipv6_addr where
  "IPv6_ADDR_MULT_LINK_PREFIX = Ipv6Addr 0xFF020000 0 0 0"
definition IPv6_ADDR_MULT_SITE_PREFIX :: ipv6_addr where
  "IPv6_ADDR_MULT_SITE_PREFIX = Ipv6Addr 0xFF050000 0 0 0"
definition IPv6_ADDR_MULT_ORGN_PREFIX :: ipv6_addr where
  "IPv6_ADDR_MULT_ORGN_PREFIX = Ipv6Addr 0xFF080000 0 0 0"
definition IPv6_ADDR_MULT_GLOB_PREFIX :: ipv6_addr where
  "IPv6_ADDR_MULT_GLOB_PREFIX = Ipv6Addr 0xFF0E0000 0 0 0"
definition IPv6_ADDR_LINK_LOCAL_PREFIX :: ipv6_addr where
  "IPv6_ADDR_LINK_LOCAL_PREFIX = Ipv6Addr 0xFE800000 0 0 0"
definition IPv6_ADDR_SITE_LOCAL_PREFIX :: ipv6_addr where
  "IPv6_ADDR_SITE_LOCAL_PREFIX = Ipv6Addr 0xFEC00000 0 0 0"
definition IPv6_ADDR_GLOBAL_PREFIX :: ipv6_addr where
  "IPv6_ADDR_GLOBAL_PREFIX = Ipv6Addr 0x20000000 0 0 0"

text \<open>\<open>c_ipv6_addr(LOOPBACK_ADDRESS)\<close>; the text is \<open>0:0:0:0:0:0:0:1/0\<close>.\<close>

definition LOOPBACK_ADDRESS :: ipv6_addr where
  "LOOPBACK_ADDRESS = Ipv6Addr 0 0 0 1"

section \<open>Operators\<close>

definition add_number :: "ipv6_addr \<Rightarrow> uint32 \<Rightarrow> ipv6_addr" where
  "add_number a number = Ipv6Addr (extreme a) (high a) (normal a) (low a + number)"

definition addr_plus :: "ipv6_addr \<Rightarrow> ipv6_addr \<Rightarrow> ipv6_addr" where
  "addr_plus a rhs = Ipv6Addr (extreme a + extreme rhs) (high a + high rhs)
     (normal a + normal rhs) (low a + low rhs)"

definition addr_or :: "ipv6_addr \<Rightarrow> ipv6_addr \<Rightarrow> ipv6_addr" where
  "addr_or a rhs = Ipv6Addr (extreme a OR extreme rhs) (high a OR high rhs)
     (normal a OR normal rhs) (low a OR low rhs)"

definition addr_and :: "ipv6_addr \<Rightarrow> ipv6_addr \<Rightarrow> ipv6_addr" where
  "addr_and a rhs = Ipv6Addr (extreme a AND extreme rhs) (high a AND high rhs)
     (normal a AND normal rhs) (low a AND low rhs)"

text \<open>The two 64-bit halves: \<open>addr[0]\<close> is the lower one.\<close>

definition toLongArray :: "ipv6_addr \<Rightarrow> 64 word \<times> 64 word" where
  "toLongArray src = (push_bit 32 (ucast (normal src)) + ucast (low src),
     push_bit 32 (ucast (extreme src)) + ucast (high src))"

definition fromLongArray :: "64 word \<times> 64 word \<Rightarrow> ipv6_addr" where
  "fromLongArray addr = (case addr of (a0, a1) \<Rightarrow>
     Ipv6Addr (ucast (drop_bit 32 a1)) (ucast (a1 AND 0xFFFFFFFF))
       (ucast (drop_bit 32 a0)) (ucast (a0 AND 0xFFFFFFFF)))"

text \<open>
  \<open>operator>>=\<close>: the mask \<open>(1 << shift) - 1\<close> is computed in an \<open>int\<close>, which is undefined
  from 31 on.
\<close>

definition shiftRight :: "ipv6_addr \<Rightarrow> nat \<Rightarrow> ipv6_addr option" where
  "shiftRight a shift =
     (if shift = 0 then Some a
      else case toLongArray a of (a0, a1) \<Rightarrow>
        if shift < 64 then
          if 31 \<le> shift then None
          else
            let a0 = drop_bit shift a0;
                carry = a1 AND (push_bit shift 1 - 1);
                a1 = drop_bit shift a1;
                a0 = a0 OR push_bit (64 - shift) carry
            in Some (fromLongArray (a0, a1))
        else if shift = 64 then Some (fromLongArray (a1, 0))
        else Some (fromLongArray (drop_bit (shift mod 64) a1, 0)))"

definition shiftLeft :: "ipv6_addr \<Rightarrow> nat \<Rightarrow> ipv6_addr" where
  "shiftLeft a shift =
     (if shift = 0 then a
      else case toLongArray a of (a0, a1) \<Rightarrow>
        if shift < 64 then
          let a1 = push_bit shift a1;
              carry = drop_bit (64 - shift) a0;
              a1 = a1 OR carry;
              a0 = push_bit shift a0
          in fromLongArray (a0, a1)
        else if shift = 64 then fromLongArray (0, a0)
        else fromLongArray (0, push_bit (shift mod 64) a0))"

text \<open>The order of addresses in maps is the reverse of the numerical one.\<close>

instantiation ipv6_addr :: linorder
begin

definition less_ipv6_addr :: "ipv6_addr \<Rightarrow> ipv6_addr \<Rightarrow> bool" where
  "lhs < rhs \<longleftrightarrow>
     (if extreme lhs \<noteq> extreme rhs then \<not> extreme lhs < extreme rhs
      else if high lhs \<noteq> high rhs then \<not> high lhs < high rhs
      else if normal lhs \<noteq> normal rhs then \<not> normal lhs < normal rhs
      else if low lhs \<noteq> low rhs then \<not> low lhs < low rhs
      else False)"

definition less_eq_ipv6_addr :: "ipv6_addr \<Rightarrow> ipv6_addr \<Rightarrow> bool" where
  "lhs \<le> rhs \<longleftrightarrow> lhs < rhs \<or> lhs = (rhs :: ipv6_addr)"

instance
proof
  fix x y z :: ipv6_addr
  show "x < y \<longleftrightarrow> x \<le> y \<and> \<not> y \<le> x"
    by (cases x; cases y) (auto simp: less_eq_ipv6_addr_def less_ipv6_addr_def split: if_splits)
  show "x \<le> x" by (simp add: less_eq_ipv6_addr_def)
  show "x \<le> y \<Longrightarrow> y \<le> z \<Longrightarrow> x \<le> z"
    by (cases x; cases y; cases z)
      (auto simp: less_eq_ipv6_addr_def less_ipv6_addr_def split: if_splits)
  show "x \<le> y \<Longrightarrow> y \<le> x \<Longrightarrow> x = y"
    by (cases x; cases y) (auto simp: less_eq_ipv6_addr_def less_ipv6_addr_def split: if_splits)
  show "x \<le> y \<or> y \<le> x"
    by (cases x; cases y) (auto simp: less_eq_ipv6_addr_def less_ipv6_addr_def split: if_splits)
qed

end

section \<open>Matching bits and scopes\<close>

definition toArray :: "ipv6_addr \<Rightarrow> uint32 list" where
  "toArray addr = [extreme addr, high addr, normal addr, low addr]"

text \<open>The inner loop of \<open>calcBitsMatch\<close>, with bits \<open>j - 1\<close> down to 0 left.\<close>

fun firstSetBit :: "uint32 \<Rightarrow> nat \<Rightarrow> nat option" where
  "firstSetBit res 0 = None"
| "firstSetBit res (Suc j) = (if res AND push_bit j 1 \<noteq> 0 then Some (31 - j) else firstSetBit res j)"

fun calcBitsMatchFrom :: "nat \<Rightarrow> uint32 list \<Rightarrow> uint32 list \<Rightarrow> nat" where
  "calcBitsMatchFrom i (x # xs) (y # ys) =
     (case firstSetBit (x XOR y) 32 of
        Some k \<Rightarrow> k + 32 * i
      | None \<Rightarrow> calcBitsMatchFrom (i + 1) xs ys)"
| "calcBitsMatchFrom i _ _ = 4 * 32"

definition calcBitsMatch :: "ipv6_addr \<Rightarrow> ipv6_addr \<Rightarrow> nat" where
  "calcBitsMatch addr_a addr_b = calcBitsMatchFrom 0 (toArray addr_a) (toArray addr_b)"

definition isMulticast6 :: "ipv6_addr \<Rightarrow> bool" where
  "isMulticast6 a \<longleftrightarrow>
     extreme a AND extreme IPv6_ADDR_MULTICAST_PREFIX = extreme IPv6_ADDR_MULTICAST_PREFIX"

definition ipv6_addr_scope :: "ipv6_addr \<Rightarrow> SCOPE" where
  "ipv6_addr_scope a =
     (if \<not> isMulticast6 a then
        if addr_and a IPv6_ADDR_SITE_LOCAL_PREFIX = IPv6_ADDR_SITE_LOCAL_PREFIX then Scope_Site
        else if addr_and a IPv6_ADDR_LINK_LOCAL_PREFIX = IPv6_ADDR_LINK_LOCAL_PREFIX then Scope_Link
        else if addr_and a IPv6_ADDR_GLOBAL_PREFIX = IPv6_ADDR_GLOBAL_PREFIX then Scope_Global
        else if a = LOOPBACK_ADDRESS then Scope_Node
        else Scope_None
      else
        let m = (\<lambda>p. extreme a AND extreme p = extreme p) in
        if m IPv6_ADDR_MULT_LINK_PREFIX then Scope_Link
        else if m IPv6_ADDR_MULT_SITE_PREFIX then Scope_Site
        else if m IPv6_ADDR_MULT_NODE_PREFIX then Scope_Node
        else if m IPv6_ADDR_MULT_ORGN_PREFIX then Scope_Organization
        else if m IPv6_ADDR_MULT_GLOB_PREFIX then Scope_Global
        else Scope_None)"

record ipv6_prefix =
  prefix :: ipv6_addr
  plength :: nat

definition matchPrefix :: "ipv6_prefix \<Rightarrow> ipv6_addr \<Rightarrow> bool" where
  "matchPrefix p addr \<longleftrightarrow> plength p \<le> calcBitsMatch (prefix p) addr"

section \<open>\<open>IPv6Address\<close>\<close>

record IPv6Address =
  m_addr :: ipv6_addr
  m_prefix_length :: nat
  m_scope :: SCOPE
  m_storedLifetime :: uint32
  m_preferredLifetime :: uint32
  m_updated :: bool

definition VALID_LIFETIME_INFINITY :: uint32 where
  "VALID_LIFETIME_INFINITY = 0xffffffff"

definition new_IPv6Address :: "ipv6_addr \<Rightarrow> nat \<Rightarrow> IPv6Address" where
  "new_IPv6Address addr prefix_len =
     \<lparr>m_addr = addr,
      m_prefix_length = (if prefix_len = 0 \<and> addr \<noteq> IPv6_ADDR_UNSPECIFIED then IPv6_ADDR_BITLENGTH
        else prefix_len),
      m_scope = Scope_None, m_storedLifetime = VALID_LIFETIME_INFINITY,
      m_preferredLifetime = VALID_LIFETIME_INFINITY, m_updated = False\<rparr>"

definition IPv6Address_of_prefix :: "ipv6_prefix \<Rightarrow> IPv6Address" where
  "IPv6Address_of_prefix pref = new_IPv6Address (prefix pref) (plength pref)"

text \<open>The conversion of an address without a length; the default length is 128.\<close>

abbreviation addr128 :: "ipv6_addr \<Rightarrow> IPv6Address" where
  "addr128 a \<equiv> new_IPv6Address a IPv6_ADDR_BITLENGTH"

text \<open>The copy constructor clears the flag; \<open>operator=\<close> keeps the one of its target.\<close>

definition copy_IPv6Address :: "IPv6Address \<Rightarrow> IPv6Address" where
  "copy_IPv6Address obj = obj\<lparr>m_updated := False\<rparr>"

definition assign_IPv6Address :: "IPv6Address \<Rightarrow> IPv6Address \<Rightarrow> IPv6Address" where
  "assign_IPv6Address target obj = obj\<lparr>m_updated := m_updated target\<rparr>"

text \<open>The value of \<open>scope()\<close>. That it stores its result is not modelled.\<close>

definition scope :: "IPv6Address \<Rightarrow> SCOPE" where
  "scope a = (if m_scope a = Scope_None then ipv6_addr_scope (m_addr a) else m_scope a)"

definition setAddress6 :: "ipv6_addr \<Rightarrow> IPv6Address \<Rightarrow> IPv6Address" where
  "setAddress6 addr a = a\<lparr>m_addr := addr, m_scope := Scope_None\<rparr>"

definition IPv6Address_less :: "IPv6Address \<Rightarrow> IPv6Address \<Rightarrow> bool" where
  "IPv6Address_less a rhs \<longleftrightarrow>
     (if m_prefix_length a \<noteq> m_prefix_length rhs then \<not> m_prefix_length a < m_prefix_length rhs
      else m_addr a < m_addr rhs)"

definition IPv6Address_eq :: "IPv6Address \<Rightarrow> IPv6Address \<Rightarrow> bool" where
  "IPv6Address_eq a rhs \<longleftrightarrow>
     m_addr a = m_addr rhs \<and> m_prefix_length a = m_prefix_length rhs \<and> scope a = scope rhs"

definition IPv6Address_plus :: "IPv6Address \<Rightarrow> IPv6Address \<Rightarrow> IPv6Address" where
  "IPv6Address_plus lhs rhs =
     (new_IPv6Address IPv6_ADDR_UNSPECIFIED 0)
       \<lparr>m_prefix_length := (if m_prefix_length lhs > 0 then m_prefix_length lhs
          else if m_prefix_length rhs > 0 then m_prefix_length rhs else 0),
        m_addr := addr_or (m_addr lhs) (m_addr rhs)\<rparr>"

text \<open>\<open>nbBitsMatching(addr) >= match\<close>, with a prefix length of 0 read as 128.\<close>

definition isNetwork6 :: "IPv6Address \<Rightarrow> ipv6_addr \<Rightarrow> bool" where
  "isNetwork6 a prfx \<longleftrightarrow>
     (if m_prefix_length a = 0 then 128 else m_prefix_length a) \<le> calcBitsMatch (m_addr a) prfx"

text \<open>
  \<open>higherNbBits\<close> shifts the word the prefix ends in right and left by
  \<open>32 - nbbits % 32\<close>, which is 32, and undefined, at a word boundary.
\<close>

definition higherNbBits :: "ipv6_addr \<Rightarrow> nat \<Rightarrow> ipv6_addr option" where
  "higherNbBits a nbbits =
     (if nbbits = 0 then Some IPv6_ADDR_UNSPECIFIED
      else if nbbits = IPv6_ADDR_BITLENGTH then Some a
      else
        let nb_segs = nbbits div 32; nth_bit = 32 - nbbits mod 32 in
        if 32 \<le> nth_bit then None
        else
          let w = (\<lambda>i. if i < nb_segs then toArray a ! i
                 else if i = nb_segs then push_bit nth_bit (drop_bit nth_bit (toArray a ! i))
                 else 0)
          in Some (Ipv6Addr (w 0) (w 1) (w 2) (w 3)))"

definition truncate6 :: "IPv6Address \<Rightarrow> IPv6Address option" where
  "truncate6 a =
     (if m_prefix_length a > 0 \<and> m_prefix_length a < IPv6_ADDR_BITLENGTH then
        map_option (\<lambda>p. a\<lparr>m_addr := p\<rparr>) (higherNbBits (m_addr a) (m_prefix_length a))
      else Some a)"

definition solNodeAddr :: "ipv6_addr \<Rightarrow> ipv6_addr" where
  "solNodeAddr addr = Ipv6Addr 0xFF020000 0 1 (low addr OR 0xFF000000)"

section \<open>Text form\<close>

text \<open>
  Reading from an \<open>istream\<close>: an extraction from a stream that has failed or ended fails and
  leaves its target as it was; so does a number that is missing or too large. Signs and the
  prefix \<open>0x\<close>, which \<open>operator>>\<close> accepts in front of a number, are not modelled.
\<close>

record istream =
  is_text :: string
  is_fail :: bool
  is_eof :: bool

definition stringstream :: "string \<Rightarrow> istream" where
  "stringstream s = \<lparr>is_text = s, is_fail = False, is_eof = False\<rparr>"

definition digitVal :: "char \<Rightarrow> nat" where
  "digitVal c =
     (let n = of_char c in
      if 48 \<le> n \<and> n \<le> 57 then n - 48
      else if 97 \<le> n \<and> n \<le> 102 then n - 87
      else if 65 \<le> n \<and> n \<le> 70 then n - 55
      else 16)"

definition digitsVal :: "nat \<Rightarrow> string \<Rightarrow> nat" where
  "digitsVal base s = foldl (\<lambda>n c. base * n + digitVal c) 0 s"

definition readUnsigned :: "nat \<Rightarrow> nat \<Rightarrow> istream \<Rightarrow> nat \<times> istream" where
  "readUnsigned base old st =
     (if is_fail st \<or> is_eof st then (old, st\<lparr>is_fail := True\<rparr>)
      else
        let s = dropWhile isSpace (is_text st);
            digits = takeWhile (\<lambda>c. digitVal c < base) s;
            rest = dropWhile (\<lambda>c. digitVal c < base) s;
            st = st\<lparr>is_text := rest, is_eof := (rest = [])\<rparr>
        in if digits = [] \<or> 2 ^ 32 \<le> digitsVal base digits then (old, st\<lparr>is_fail := True\<rparr>)
           else (digitsVal base digits, st))"

definition readChar :: "char \<Rightarrow> istream \<Rightarrow> char \<times> istream" where
  "readChar old st =
     (if is_fail st \<or> is_eof st then (old, st\<lparr>is_fail := True\<rparr>)
      else case dropWhile isSpace (is_text st) of
             [] \<Rightarrow> (old, st\<lparr>is_text := [], is_eof := True, is_fail := True\<rparr>)
           | c # s \<Rightarrow> (c, st\<lparr>is_text := s\<rparr>))"

text \<open>The loops that read up to eight groups of 16 bits.\<close>

fun readOctals :: "nat \<Rightarrow> char \<Rightarrow> istream \<Rightarrow> nat list" where
  "readOctals 0 sep st = []"
| "readOctals (Suc n) sep st =
     (case readUnsigned 16 0 st of (v, st) \<Rightarrow>
        if is_eof st then v # replicate n 0
        else case readChar sep st of (sep, st) \<Rightarrow>
          if sep = CHR ''/'' then v # replicate n 0 else v # readOctals n sep st)"

fun readOctalsAndPrefix :: "nat \<Rightarrow> char \<Rightarrow> nat \<Rightarrow> istream \<Rightarrow> nat list \<times> nat" where
  "readOctalsAndPrefix 0 sep len st = ([], len)"
| "readOctalsAndPrefix (Suc n) sep len st =
     (case readUnsigned 16 0 st of (v, st) \<Rightarrow>
        if is_eof st then (v # replicate n 0, len)
        else case readChar sep st of (sep, st) \<Rightarrow>
          (case (if sep = CHR ''/'' then readUnsigned 10 len st else (len, st)) of (len, st) \<Rightarrow>
            (case readOctalsAndPrefix n sep len st of (vs, len) \<Rightarrow> (v # vs, len))))"

definition addr_of_octals :: "nat list \<Rightarrow> ipv6_addr" where
  "addr_of_octals octals =
     (let w = (\<lambda>i. push_bit 16 (of_nat (octals ! (2 * i))) + of_nat (octals ! (2 * i + 1)))
      in Ipv6Addr (w 0) (w 1) (w 2) (w 3))"

definition c_ipv6_addr :: "string \<Rightarrow> ipv6_addr" where
  "c_ipv6_addr t = addr_of_octals (readOctals 8 (char_of (0 :: nat)) (stringstream t))"

definition parseIPv6Address :: "string \<Rightarrow> IPv6Address" where
  "parseIPv6Address t =
     (case readOctalsAndPrefix 8 (char_of (0 :: nat)) 0 (stringstream t) of (octals, len) \<Rightarrow>
        new_IPv6Address (addr_of_octals octals) len)"

text \<open>Printing a number to an \<open>ostream\<close> in base 10 or 16.\<close>

definition digitChar :: "nat \<Rightarrow> char" where
  "digitChar d = char_of (if d < 10 then 48 + d else 87 + d)"

function number_str :: "nat \<Rightarrow> nat \<Rightarrow> string" where
  "number_str base n =
     (if base < 2 \<or> n < base then [digitChar n]
      else number_str base (n div base) @ [digitChar (n mod base)])"
  by pat_completeness auto
termination by (relation "measure snd") auto

declare number_str.simps [simp del]

definition word_str :: "uint32 \<Rightarrow> string" where
  "word_str w = number_str 16 (unat (drop_bit 16 w)) @ '':'' @ number_str 16 (unat (w AND 0xFFFF))"

definition ipv6_addr_str :: "ipv6_addr \<Rightarrow> string" where
  "ipv6_addr_str a = word_str (extreme a) @ '':'' @ word_str (high a) @ '':'' @
     word_str (normal a) @ '':'' @ word_str (low a)"

definition address_str :: "IPv6Address \<Rightarrow> string" where
  "address_str a = ipv6_addr_str (m_addr a) @ ''/'' @ number_str 10 (m_prefix_length a)"


section \<open>The bits of an address\<close>

definition addr_bit :: "ipv6_addr \<Rightarrow> nat \<Rightarrow> bool" where
  "addr_bit a i \<longleftrightarrow> bit (toArray a ! (i div 32)) (31 - i mod 32)"

lemma less_128_cases:
  assumes "i < (128 :: nat)"
  obtains (w0) j where "i = j" "j < 32" | (w1) j where "i = 32 + j" "j < 32"
    | (w2) j where "i = 64 + j" "j < 32" | (w3) j where "i = 96 + j" "j < 32"
proof -
  consider "i < 32" | "32 \<le> i" "i < 64" | "64 \<le> i" "i < 96" | "96 \<le> i" by linarith
  then show thesis
  proof cases
    case 1 then show ?thesis using w0 by blast
  next
    case 2 then show ?thesis using w1[of "i - 32"] by simp
  next
    case 3 then show ?thesis using w2[of "i - 64"] by simp
  next
    case 4 then show ?thesis using w3[of "i - 96"] assms by simp
  qed
qed

lemma addr_bit_at:
  "j < 32 \<Longrightarrow> addr_bit a (32 * k + j) = bit (toArray a ! k) (31 - j)"
  by (simp add: addr_bit_def)

lemma addr_bit_words [simp]:
  assumes "j < 32"
  shows "addr_bit a j = bit (extreme a) (31 - j)"
    and "addr_bit a (32 + j) = bit (high a) (31 - j)"
    and "addr_bit a (64 + j) = bit (normal a) (31 - j)"
    and "addr_bit a (96 + j) = bit (low a) (31 - j)"
  using addr_bit_at[OF assms, of a 0] addr_bit_at[OF assms, of a 1]
    addr_bit_at[OF assms, of a 2] addr_bit_at[OF assms, of a 3]
  by (simp_all add: toArray_def numeral_3_eq_3)

lemma word32_eqI:
  assumes "\<And>j. j < 32 \<Longrightarrow> bit x (31 - j) = bit (y :: uint32) (31 - j)"
  shows "x = y"
proof (rule bit_word_eqI)
  fix n assume "n < LENGTH(32)"
  then show "bit x n = bit y n" using assms[of "31 - n"] by simp
qed

lemma ipv6_addr_eqI:
  assumes eq: "\<And>i. i < 128 \<Longrightarrow> addr_bit a i = addr_bit b i"
  shows "a = b"
proof (rule ipv6_addr.expand, intro conjI)
  show "extreme a = extreme b"
  proof (rule word32_eqI)
    fix j :: nat assume "j < 32"
    then show "bit (extreme a) (31 - j) = bit (extreme b) (31 - j)" using eq[of j] by simp
  qed
  show "high a = high b"
  proof (rule word32_eqI)
    fix j :: nat assume "j < 32"
    then show "bit (high a) (31 - j) = bit (high b) (31 - j)" using eq[of "32 + j"] by simp
  qed
  show "normal a = normal b"
  proof (rule word32_eqI)
    fix j :: nat assume "j < 32"
    then show "bit (normal a) (31 - j) = bit (normal b) (31 - j)" using eq[of "64 + j"] by simp
  qed
  show "low a = low b"
  proof (rule word32_eqI)
    fix j :: nat assume "j < 32"
    then show "bit (low a) (31 - j) = bit (low b) (31 - j)" using eq[of "96 + j"] by simp
  qed
qed

lemma addr_bit_ops:
  assumes "i < 128"
  shows "addr_bit (addr_and a b) i \<longleftrightarrow> addr_bit a i \<and> addr_bit b i"
    and "addr_bit (addr_or a b) i \<longleftrightarrow> addr_bit a i \<or> addr_bit b i"
  using assms
  by (auto elim!: less_128_cases simp: addr_and_def addr_or_def bit_simps)

lemma firstSetBit_Suc:
  "j < 32 \<Longrightarrow> firstSetBit res (Suc j) = (if bit res j then Some (31 - j) else firstSetBit res j)"
  by (simp only: firstSetBit.simps and_bit_ne_0)

declare firstSetBit.simps(2) [simp del]

lemma firstSetBit_None: "j \<le> 32 \<Longrightarrow> firstSetBit res j = None \<longleftrightarrow> (\<forall>k < j. \<not> bit res k)"
  by (induction j) (auto simp: firstSetBit_Suc less_Suc_eq)

lemma firstSetBit_Some:
  "j \<le> 32 \<Longrightarrow> firstSetBit res j = Some k \<Longrightarrow>
     k < 32 \<and> bit res (31 - k) \<and> (\<forall>i < j. 31 - k < i \<longrightarrow> \<not> bit res i)"
  by (induction j) (auto simp: firstSetBit_Suc less_Suc_eq split: if_splits)

text \<open>The number of equal leading bits of a list of words.\<close>

definition words_bit :: "uint32 list \<Rightarrow> nat \<Rightarrow> bool" where
  "words_bit ws i \<longleftrightarrow> bit (ws ! (i div 32)) (31 - i mod 32)"

lemma words_bit_Cons:
  "words_bit (w # ws) i \<longleftrightarrow> (if i < 32 then bit w (31 - i) else words_bit ws (i - 32))"
proof (cases "i < 32")
  case False
  then have "i div 32 = Suc ((i - 32) div 32)" "i mod 32 = (i - 32) mod 32"
    by (auto simp: le_div_geq le_mod_geq)
  then show ?thesis using False by (simp add: words_bit_def)
qed (simp add: words_bit_def)

lemma calcBitsMatchFrom_le:
  assumes "length xs = length ys" and "n \<le> 32 * length xs" and "i + length xs = 4"
  shows "32 * i + n \<le> calcBitsMatchFrom i xs ys \<longleftrightarrow> (\<forall>k < n. words_bit xs k = words_bit ys k)"
  using assms
proof (induction i xs ys arbitrary: n rule: calcBitsMatchFrom.induct)
  case (1 i x xs y ys)
  show ?case
  proof (cases "firstSetBit (x XOR y) 32")
    case None
    then have eq: "bit x k = bit y k" if "k < 32" for k
      using that by (simp add: firstSetBit_None bit_xor_iff)
    have IH: "32 * (i + 1) + (n - 32) \<le> calcBitsMatchFrom (i + 1) xs ys \<longleftrightarrow>
        (\<forall>k < n - 32. words_bit xs k = words_bit ys k)"
      using 1 None by auto
    have le: "32 * (i + 1) \<le> calcBitsMatchFrom (i + 1) xs ys"
      using "1.IH"[OF None, of 0] "1.prems" by simp
    have "(\<forall>k < n. words_bit (x # xs) k = words_bit (y # ys) k) \<longleftrightarrow>
        (\<forall>k < n - 32. words_bit xs k = words_bit ys k)"
    proof
      assume *: "\<forall>k < n. words_bit (x # xs) k = words_bit (y # ys) k"
      show "\<forall>k < n - 32. words_bit xs k = words_bit ys k"
      proof (intro allI impI)
        fix k assume "k < n - 32"
        then have "words_bit (x # xs) (k + 32) = words_bit (y # ys) (k + 32)" using * by simp
        then show "words_bit xs k = words_bit ys k" by (simp add: words_bit_Cons)
      qed
    qed (auto simp: words_bit_Cons eq)
    then show ?thesis using IH le None by (auto simp: not_le)
  next
    case (Some k)
    then have k: "k < 32" "bit x (31 - k) \<noteq> bit y (31 - k)"
      using firstSetBit_Some[of 32 "x XOR y" k] by (auto simp: bit_xor_iff)
    have before: "bit x (31 - j) = bit y (31 - j)" if "j < k" for j
      using Some firstSetBit_Some[of 32 "x XOR y" k] that k by (simp add: bit_xor_iff)
    have "n \<le> k \<longleftrightarrow> (\<forall>j < n. words_bit (x # xs) j = words_bit (y # ys) j)"
    proof
      assume "n \<le> k"
      then show "\<forall>j < n. words_bit (x # xs) j = words_bit (y # ys) j"
        using k before by (auto simp: words_bit_Cons)
    next
      assume "\<forall>j < n. words_bit (x # xs) j = words_bit (y # ys) j"
      then show "n \<le> k" using k by (auto simp: words_bit_Cons not_less[symmetric])
    qed
    then show ?thesis using Some by simp
  qed
qed auto

lemma calcBitsMatch_le:
  assumes "n \<le> 128"
  shows "n \<le> calcBitsMatch a b \<longleftrightarrow> (\<forall>i < n. addr_bit a i = addr_bit b i)"
  using calcBitsMatchFrom_le[of "toArray a" "toArray b" n 0] assms
  by (simp add: calcBitsMatch_def addr_bit_def words_bit_def) (simp add: toArray_def)

lemma isNetwork6_bits:
  assumes "m_prefix_length a \<le> 128"
  shows "isNetwork6 a b \<longleftrightarrow>
    (\<forall>i < (if m_prefix_length a = 0 then 128 else m_prefix_length a). addr_bit (m_addr a) i = addr_bit b i)"
  using assms by (simp add: isNetwork6_def calcBitsMatch_le)


section \<open>Shifts\<close>

lemma bit_halves:
  "bit (fst (toLongArray a)) i \<longleftrightarrow> (if i < 32 then bit (low a) i else i < 64 \<and> bit (normal a) (i - 32))"
  "bit (snd (toLongArray a)) i \<longleftrightarrow> (if i < 32 then bit (high a) i else i < 64 \<and> bit (extreme a) (i - 32))"
proof -
  have or: "push_bit 32 (ucast x) + ucast y = (push_bit 32 (ucast x) OR ucast y :: 64 word)" for x y :: uint32
    by (rule disjunctive_add_eq_or) (auto simp: bit_eq_iff bit_simps dest: bit_imp_le_length)
  show "bit (fst (toLongArray a)) i \<longleftrightarrow> (if i < 32 then bit (low a) i else i < 64 \<and> bit (normal a) (i - 32))"
    "bit (snd (toLongArray a)) i \<longleftrightarrow> (if i < 32 then bit (high a) i else i < 64 \<and> bit (extreme a) (i - 32))"
    by (auto simp: toLongArray_def or bit_simps dest: bit_imp_le_length)
qed

lemma bit_low_mask: "bit (0xFFFFFFFF :: 64 word) n \<longleftrightarrow> n < 32"
proof -
  have "(0xFFFFFFFF :: 64 word) = mask 32" by (simp add: mask_eq_exp_minus_1)
  then show ?thesis by (simp only: bit_mask_iff) auto
qed

lemma fromLongArray_words:
  "i < 32 \<Longrightarrow> bit (extreme (fromLongArray (lo, hi))) i = bit hi (32 + i)"
  "i < 32 \<Longrightarrow> bit (high (fromLongArray (lo, hi))) i = bit hi i"
  "i < 32 \<Longrightarrow> bit (normal (fromLongArray (lo, hi))) i = bit lo (32 + i)"
  "i < 32 \<Longrightarrow> bit (low (fromLongArray (lo, hi))) i = bit lo i"
  by (auto simp: fromLongArray_def bit_simps bit_low_mask simp del: bit_numeral_word_iff)

lemma addr_bit_halves:
  assumes "i < 64"
  shows "addr_bit a i = bit (snd (toLongArray a)) (63 - i)"
    and "addr_bit a (64 + i) = bit (fst (toLongArray a)) (63 - i)"
    and "addr_bit (fromLongArray (lo, hi)) i = bit hi (63 - i)"
    and "addr_bit (fromLongArray (lo, hi)) (64 + i) = bit lo (63 - i)"
proof -
  have "addr_bit a i = bit (snd (toLongArray a)) (63 - i) \<and>
        addr_bit a (64 + i) = bit (fst (toLongArray a)) (63 - i) \<and>
        addr_bit (fromLongArray (lo, hi)) i = bit hi (63 - i) \<and>
        addr_bit (fromLongArray (lo, hi)) (64 + i) = bit lo (63 - i)"
  proof (cases "i < 32")
    case True
    then have "63 - i = 32 + (31 - i)" "\<not> 63 - i < 32" "63 - i < 64" by auto
    then show ?thesis using True by (simp add: bit_halves fromLongArray_words)
  next
    case False
    define j where "j = i - 32"
    have j: "i = 32 + j" "j < 32" using False assms by (auto simp: j_def)
    have "64 + i = 96 + j" "63 - i = 31 - j" "31 - j < 32" using j by auto
    then show ?thesis using j by (simp add: bit_halves fromLongArray_words)
  qed
  then show "addr_bit a i = bit (snd (toLongArray a)) (63 - i)"
    and "addr_bit a (64 + i) = bit (fst (toLongArray a)) (63 - i)"
    and "addr_bit (fromLongArray (lo, hi)) i = bit hi (63 - i)"
    and "addr_bit (fromLongArray (lo, hi)) (64 + i) = bit lo (63 - i)" by blast+
qed

lemma less_128_halves:
  assumes "i < (128 :: nat)"
  obtains (hi) "i < 64" | (lo) j where "i = 64 + j" "j < 64"
  using assms that(2)[of "i - 64"] that(1) by fastforce

lemma shiftLeft_bits:
  assumes "n < 128" and "i < 128"
  shows "addr_bit (shiftLeft a n) i \<longleftrightarrow> i + n < 128 \<and> addr_bit a (i + n)"
proof -
  obtain lo hi where a: "toLongArray a = (lo, hi)" by fastforce
  have bits: "addr_bit a i = bit hi (63 - i)" "addr_bit a (64 + i) = bit lo (63 - i)" if "i < 64" for i
    using addr_bit_halves(1,2)[OF that, of a] a by auto
  consider "n = 0" | "0 < n" "n < 64" | "n = 64" | m where "n = 64 + m" "0 < m" "m < 64"
    using assms by (metis add.commute less_128_halves not_gr_zero add_cancel_right_right)
  then show ?thesis
  proof cases
    case 1 then show ?thesis using assms by (simp add: shiftLeft_def)
  next
    case 2
    then have eq: "shiftLeft a n = fromLongArray (push_bit n lo, push_bit n hi OR drop_bit (64 - n) lo)"
      by (simp add: shiftLeft_def a Let_def)
    show ?thesis using assms(2)
    proof (cases rule: less_128_halves)
      case hi
      show ?thesis
      proof (cases "i + n < 64")
        case True
        then show ?thesis using hi 2 bits(1)[of "i + n"]
          by (simp add: eq addr_bit_halves(3,4) bit_simps) (auto dest: bit_imp_le_length)
      next
        case False
        then have "i + n = 64 + (i + n - 64)" "i + n - 64 < 64" using hi 2 by auto
        then have "addr_bit a (i + n) = bit lo (63 - (i + n - 64))" using bits(2) by metis
        moreover have "\<not> n \<le> 63 - i" "64 - n + (63 - i) = 63 - (i + n - 64)" using hi 2 False by auto
        ultimately show ?thesis using hi 2
          by (simp add: eq addr_bit_halves(3,4) bit_simps)
      qed
    next
      case (lo j)
      then have "addr_bit (shiftLeft a n) i \<longleftrightarrow> bit (push_bit n lo) (63 - j)"
        by (simp add: eq addr_bit_halves(3,4))
      also have "\<dots> \<longleftrightarrow> j + n < 64 \<and> bit lo (63 - (j + n))" using lo by (auto simp: bit_simps)
      also have "\<dots> \<longleftrightarrow> i + n < 128 \<and> addr_bit a (i + n)"
        using lo bits(2)[of "j + n"] by (auto simp: add.assoc)
      finally show ?thesis .
    qed
  next
    case 3
    then have eq: "shiftLeft a n = fromLongArray (0, lo)" by (simp add: shiftLeft_def a)
    show ?thesis using assms(2)
    proof (cases rule: less_128_halves)
      case hi
      then have "addr_bit (shiftLeft a n) i \<longleftrightarrow> bit lo (63 - i)" by (simp add: eq addr_bit_halves(3,4))
      also have "\<dots> \<longleftrightarrow> addr_bit a (64 + i)" using bits(2)[OF hi] by simp
      finally show ?thesis using hi 3 by (simp add: add.commute)
    next
      case (lo j)
      then have "\<not> addr_bit (shiftLeft a n) i" by (simp add: eq addr_bit_halves(3,4))
      then show ?thesis using lo 3 by simp
    qed
  next
    case (4 m)
    then have eq: "shiftLeft a n = fromLongArray (0, push_bit m lo)" by (simp add: shiftLeft_def a)
    show ?thesis using assms(2)
    proof (cases rule: less_128_halves)
      case hi
      then have "addr_bit (shiftLeft a n) i \<longleftrightarrow> bit (push_bit m lo) (63 - i)"
        by (simp add: eq addr_bit_halves(3,4))
      also have "\<dots> \<longleftrightarrow> i + m < 64 \<and> bit lo (63 - (i + m))" using hi by (auto simp: bit_simps)
      also have "\<dots> \<longleftrightarrow> i + n < 128 \<and> addr_bit a (i + n)"
        using 4 bits(2)[of "i + m"] by (auto simp: add.left_commute)
      finally show ?thesis .
    next
      case (lo j)
      then have "\<not> addr_bit (shiftLeft a n) i" by (simp add: eq addr_bit_halves(3,4))
      then show ?thesis using lo 4 by simp
    qed
  qed
qed

lemma bit_shift_mask: "bit (push_bit n 1 - 1 :: 64 word) i \<longleftrightarrow> i < n \<and> i < 64"
proof -
  have "(push_bit n 1 - 1 :: 64 word) = mask n" by (simp add: mask_eq_exp_minus_1)
  then show ?thesis by (simp only: bit_mask_iff) auto
qed

lemma shiftRight_bits:
  assumes "n < 128" and "shiftRight a n = Some b" and "i < 128"
  shows "addr_bit b i \<longleftrightarrow> n \<le> i \<and> addr_bit a (i - n)"
proof -
  obtain lo hi where a: "toLongArray a = (lo, hi)" by fastforce
  have bits: "addr_bit a i = bit hi (63 - i)" "addr_bit a (64 + i) = bit lo (63 - i)" if "i < 64" for i
    using addr_bit_halves(1,2)[OF that, of a] a by auto
  consider "n = 0" | "0 < n" "n < 31" | "n = 64" | m where "n = 64 + m" "0 < m" "m < 64"
  proof (cases "n < 64")
    case True
    then show thesis using assms(2) that(1,2) by (auto simp: shiftRight_def a split: if_splits)
  next
    case False
    then show thesis using that(3) that(4)[of "n - 64"] assms(1) by fastforce
  qed
  then show ?thesis
  proof cases
    case 1 then show ?thesis using assms by (simp add: shiftRight_def)
  next
    case 2
    then have b: "b = fromLongArray (drop_bit n lo OR push_bit (64 - n) (hi AND (push_bit n 1 - 1)), drop_bit n hi)"
      using assms(2) by (auto simp: shiftRight_def a Let_def)
    show ?thesis using assms(3)
    proof (cases rule: less_128_halves)
      case hi
      then have "addr_bit b i \<longleftrightarrow> bit hi (n + (63 - i))"
        by (simp add: b addr_bit_halves(3,4) bit_simps)
      also have "\<dots> \<longleftrightarrow> n \<le> i \<and> bit hi (63 - (i - n))"
      proof (cases "n \<le> i")
        case True
        then have "n + (63 - i) = 63 - (i - n)" using hi by simp
        then show ?thesis using True by simp
      next
        case False
        then show ?thesis using hi by (auto dest: bit_imp_le_length)
      qed
      finally show ?thesis using hi bits(1)[of "i - n"] by auto
    next
      case (lo j)
      then have "addr_bit b i \<longleftrightarrow> bit lo (n + (63 - j)) \<or>
          (64 - n \<le> 63 - j \<and> bit hi (63 - j - (64 - n)))"
        using 2 by (auto simp: b addr_bit_halves(3,4) bit_simps bit_shift_mask simp del: push_bit_of_1)
      also have "\<dots> \<longleftrightarrow> addr_bit a (i - n)"
      proof (cases "n \<le> j")
        case True
        then have "i - n = 64 + (j - n)" "n + (63 - j) = 63 - (j - n)" "\<not> 64 - n \<le> 63 - j"
          using lo 2 by auto
        then show ?thesis using lo bits(2)[of "j - n"] by simp
      next
        case False
        then have "i - n < 64" "63 - j - (64 - n) = 63 - (i - n)" "64 - n \<le> 63 - j" "64 \<le> n + (63 - j)"
          using lo 2 by auto
        then show ?thesis using bits(1)[of "i - n"] by (auto dest: bit_imp_le_length)
      qed
      finally show ?thesis using lo 2 by simp
    qed
  next
    case 3
    then have b: "b = fromLongArray (hi, 0)" using assms(2) by (simp add: shiftRight_def a)
    show ?thesis using assms(3)
      by (cases rule: less_128_halves) (auto simp: b 3 addr_bit_halves(3,4) bits)
  next
    case (4 m)
    then have b: "b = fromLongArray (drop_bit m hi, 0)"
      using assms(2) by (simp add: shiftRight_def a)
    show ?thesis using assms(3)
    proof (cases rule: less_128_halves)
      case (lo j)
      then have "addr_bit b i \<longleftrightarrow> bit hi (m + (63 - j))"
        by (simp add: b addr_bit_halves(3,4) bit_simps)
      also have "\<dots> \<longleftrightarrow> m \<le> j \<and> bit hi (63 - (j - m))"
      proof (cases "m \<le> j")
        case True
        then have "m + (63 - j) = 63 - (j - m)" using lo by simp
        then show ?thesis using True by simp
      next
        case False
        then show ?thesis using lo by (auto dest: bit_imp_le_length)
      qed
      finally show ?thesis using lo 4 bits(1)[of "j - m"] by auto
    qed (use 4 in \<open>simp add: b addr_bit_halves(3,4)\<close>)
  qed
qed

section \<open>Truncation, scopes and the solicited node address\<close>

lemma higherNbBits_bits:
  assumes "higherNbBits a n = Some p" and "n \<le> 128" and "i < 128"
  shows "addr_bit p i \<longleftrightarrow> i < n \<and> addr_bit a i"
proof -
  consider "n = 0" | "n = 128" | "0 < n" "n < 128" using assms(2) by linarith
  then show ?thesis
  proof cases
    case 1
    then have "p = IPv6_ADDR_UNSPECIFIED" using assms(1) by (simp add: higherNbBits_def)
    then show ?thesis using 1 assms(3) by (auto simp: IPv6_ADDR_UNSPECIFIED_def elim!: less_128_cases)
  next
    case 2
    then show ?thesis using assms by (simp add: higherNbBits_def IPv6_ADDR_BITLENGTH_def)
  next
    case 3
    let ?w = "\<lambda>k. if k < n div 32 then toArray a ! k
      else if k = n div 32 then push_bit (32 - n mod 32) (drop_bit (32 - n mod 32) (toArray a ! k)) else 0"
    have m: "n mod 32 \<noteq> 0" and p: "p = Ipv6Addr (?w 0) (?w 1) (?w 2) (?w 3)"
      using assms(1) 3 by (auto simp: higherNbBits_def IPv6_ADDR_BITLENGTH_def Let_def split: if_splits)
    have w: "toArray p ! k = ?w k" if "k < 4" for k
    proof -
      have "k = 0 \<or> k = 1 \<or> k = 2 \<or> k = 3" using that by auto
      then show ?thesis by (auto simp: p toArray_def numeral_3_eq_3)
    qed
    let ?k = "i div 32"
    have k: "?k < 4" using assms(3) by simp
    have "addr_bit p i \<longleftrightarrow> bit (?w ?k) (31 - i mod 32)" using w[OF k] by (simp add: addr_bit_def)
    also have "\<dots> \<longleftrightarrow> i < n \<and> bit (toArray a ! ?k) (31 - i mod 32)"
    proof -
      consider "?k < n div 32" | "?k = n div 32" | "n div 32 < ?k" by linarith
      then show ?thesis
      proof cases
        case 1
        then have "i < n" by (metis div_le_mono linorder_not_less)
        then show ?thesis using 1 by simp
      next
        case 2
        have i: "i = 32 * ?k + i mod 32" and n: "n = 32 * ?k + n mod 32"
          using 2 by (metis mult_div_mod_eq)+
        then have "i < n \<longleftrightarrow> i mod 32 < n mod 32" by linarith
        moreover have "32 - n mod 32 \<le> 31 - i mod 32 \<longleftrightarrow> i mod 32 < n mod 32"
          using m by (auto simp: not_less)
        moreover have "31 - i mod 32 < 32" by simp
        ultimately show ?thesis using 2 m by (auto simp: bit_simps)
      next
        case 3
        then have "\<not> i < n" by (metis div_le_mono less_imp_le_nat linorder_not_less)
        then show ?thesis using 3 by simp
      qed
    qed
    finally show ?thesis by (simp add: addr_bit_def)
  qed
qed

lemma higherNbBits_defined:
  "n \<le> 128 \<Longrightarrow> higherNbBits a n = None \<longleftrightarrow> n \<in> {32, 64, 96}"
proof -
  assume n: "n \<le> 128"
  have "n mod 32 = 0 \<and> n \<noteq> 0 \<and> n \<noteq> 128 \<longleftrightarrow> n \<in> {32, 64, 96}" using n by (simp, presburger)
  then show ?thesis by (auto simp: higherNbBits_def IPv6_ADDR_BITLENGTH_def Let_def)
qed

lemma global_multicast_is_link:
  assumes "extreme a AND 0xFFFF0000 = 0xFF0E0000"
  shows "isMulticast6 a" and "ipv6_addr_scope a = Scope_Link"
proof -
  have "extreme a AND 0xFF000000 = (extreme a AND 0xFFFF0000) AND 0xFF000000"
    "extreme a AND 0xFF020000 = (extreme a AND 0xFFFF0000) AND 0xFF020000"
    by (simp_all add: and.assoc)
  then have "extreme a AND 0xFF000000 = 0xFF000000" "extreme a AND 0xFF020000 = 0xFF020000"
    unfolding assms by simp_all
  then show "isMulticast6 a" "ipv6_addr_scope a = Scope_Link"
    by (simp_all add: ipv6_addr_scope_def isMulticast6_def IPv6_ADDR_MULTICAST_PREFIX_def
        IPv6_ADDR_MULT_LINK_PREFIX_def)
qed


section \<open>Reading and printing\<close>

lemma digitVal_digitChar: "d < 16 \<Longrightarrow> digitVal (digitChar d) = d"
  by (auto simp: digitVal_def digitChar_def Let_def)

lemma digitsVal_snoc: "digitsVal base (s @ [c]) = base * digitsVal base s + digitVal c"
  by (simp add: digitsVal_def)

lemma number_str_digits:
  assumes "1 < base" and "base \<le> 16"
  shows "number_str base n \<noteq> [] \<and> (\<forall>c \<in> set (number_str base n). digitVal c < base) \<and>
    digitsVal base (number_str base n) = n"
  using assms
proof (induction base n rule: number_str.induct)
  case (1 base n)
  show ?case
  proof (cases "n < base")
    case True
    then show ?thesis using "1.prems"
      by (subst (1 2 3) number_str.simps) (simp add: digitVal_digitChar digitsVal_def)
  next
    case False
    then have IH: "number_str base (n div base) \<noteq> [] \<and>
        (\<forall>c \<in> set (number_str base (n div base)). digitVal c < base) \<and>
        digitsVal base (number_str base (n div base)) = n div base"
      using 1 by auto
    have eq: "number_str base n = number_str base (n div base) @ [digitChar (n mod base)]"
      by (subst number_str.simps) (use False "1.prems" in simp)
    have "n mod base < base" using "1.prems" by simp
    then have "n mod base < 16" using "1.prems"(2) by linarith
    then have d: "digitVal (digitChar (n mod base)) = n mod base" by (rule digitVal_digitChar)
    show ?thesis unfolding eq using IH d \<open>n mod base < base\<close> by (simp add: digitsVal_snoc)
  qed
qed

lemma isSpace_not_digit: "isSpace c \<Longrightarrow> digitVal c = 16"
  by (auto simp: isSpace_def digitVal_def Let_def)

lemma dropWhile_isSpace_number:
  assumes "1 < base" and "base \<le> 16"
  shows "dropWhile isSpace (number_str base n @ r) = number_str base n @ r"
proof -
  obtain c s where cs: "number_str base n = c # s" using number_str_digits[OF assms] by (cases "number_str base n") auto
  then have "\<not> isSpace c" using number_str_digits[OF assms, of n] isSpace_not_digit[of c] assms by auto
  then show ?thesis by (simp add: cs)
qed

lemma readUnsigned_number:
  assumes "1 < base" and "base \<le> 16" and "n < 2 ^ 32" and "r = [] \<or> base \<le> digitVal (hd r)"
    and "\<not> is_fail st" and "\<not> is_eof st" and "is_text st = number_str base n @ r"
  shows "readUnsigned base old st = (n, st\<lparr>is_text := r, is_eof := (r = [])\<rparr>)"
proof -
  note num = number_str_digits[OF assms(1,2), of n]
  have r: "takeWhile (\<lambda>c. digitVal c < base) r = []" "dropWhile (\<lambda>c. digitVal c < base) r = r"
    using assms(4) by (cases r; simp)+
  have "takeWhile (\<lambda>c. digitVal c < base) (number_str base n @ r) = number_str base n"
    "dropWhile (\<lambda>c. digitVal c < base) (number_str base n @ r) = r"
    using num r by (simp_all add: takeWhile_append2 dropWhile_append2)
  then show ?thesis using num assms
    by (simp add: readUnsigned_def dropWhile_isSpace_number Let_def)
qed

lemma readChar_next:
  "\<not> is_fail st \<Longrightarrow> \<not> is_eof st \<Longrightarrow> is_text st = c # r \<Longrightarrow> \<not> isSpace c \<Longrightarrow>
     readChar old st = (c, st\<lparr>is_text := r\<rparr>)"
  by (simp add: readChar_def)

lemma separators:
  "digitVal CHR '':'' = 16" "digitVal CHR ''/'' = 16" "\<not> isSpace CHR '':''" "\<not> isSpace CHR ''/''"
  by (simp_all add: digitVal_def isSpace_def)

fun groups_str :: "nat list \<Rightarrow> string" where
  "groups_str [] = []"
| "groups_str [n] = number_str 16 n"
| "groups_str (n # m # ns) = number_str 16 n @ CHR '':'' # groups_str (m # ns)"

lemma readOctals_groups:
  assumes "ns \<noteq> []" and "\<forall>n \<in> set ns. n < 2 ^ 32" and "\<not> is_fail st" and "\<not> is_eof st"
    and "is_text st = groups_str ns"
  shows "readOctals (length ns) sep st = ns"
  using assms
proof (induction ns arbitrary: sep st rule: groups_str.induct)
  case (2 n)
  then show ?case using readUnsigned_number[of 16 n "[]" st 0] by simp
next
  case (3 n m ns)
  have "readUnsigned 16 0 st = (n, st\<lparr>is_text := CHR '':'' # groups_str (m # ns), is_eof := False\<rparr>)"
    using readUnsigned_number[of 16 n "CHR '':'' # groups_str (m # ns)" st 0] 3 by (simp add: separators)
  moreover have "is_eof (st\<lparr>is_text := CHR '':'' # groups_str (m # ns), is_eof := False\<rparr>) = False" by simp
  ultimately show ?case using 3 by (simp add: readChar_next separators)
qed simp

lemma readOctalsAndPrefix_groups:
  assumes "ns \<noteq> []" and "\<forall>n \<in> set ns. n < 2 ^ 32" and "\<not> is_fail st" and "\<not> is_eof st"
    and "is_text st = groups_str ns @ ''/'' @ number_str 10 len" and "len < 2 ^ 32"
  shows "readOctalsAndPrefix (length ns) sep old st = (ns, len)"
  using assms
proof (induction ns arbitrary: sep st rule: groups_str.induct)
  case (2 n)
  have "readUnsigned 16 0 st = (n, st\<lparr>is_text := CHR ''/'' # number_str 10 len, is_eof := False\<rparr>)"
    using readUnsigned_number[of 16 n "CHR ''/'' # number_str 10 len" st 0] 2 by (simp add: separators)
  moreover have "readUnsigned 10 old (st\<lparr>is_eof := False, is_text := number_str 10 len\<rparr>) =
      (len, st\<lparr>is_text := [], is_eof := True\<rparr>)"
    using readUnsigned_number[of 10 len "[]" "st\<lparr>is_eof := False, is_text := number_str 10 len\<rparr>" old] 2 by simp
  ultimately show ?case using 2 by (simp add: readChar_next separators)
next
  case (3 n m ns)
  let ?r = "CHR '':'' # groups_str (m # ns) @ ''/'' @ number_str 10 len"
  have "readUnsigned 16 0 st = (n, st\<lparr>is_text := ?r, is_eof := False\<rparr>)"
    using readUnsigned_number[of 16 n ?r st 0] 3 by (simp add: separators)
  then show ?case using 3 by (simp add: readChar_next separators)
qed simp

definition octals_of :: "ipv6_addr \<Rightarrow> nat list" where
  "octals_of a = concat (map (\<lambda>w. [unat (drop_bit 16 w), unat (w AND 0xFFFF)]) (toArray a))"

lemma ipv6_addr_str_groups: "ipv6_addr_str a = groups_str (octals_of a)"
  by (simp add: ipv6_addr_str_def word_str_def octals_of_def toArray_def)

lemma word_halves: "push_bit 16 (drop_bit 16 w) + (w AND 0xFFFF) = (w :: uint32)"
proof -
  have mask: "(0xFFFF :: uint32) = mask 16" by (simp add: mask_eq_exp_minus_1)
  have "push_bit 16 (drop_bit 16 w) + (w AND mask 16) = push_bit 16 (drop_bit 16 w) OR (w AND mask 16)"
    by (rule disjunctive_add_eq_or) (auto simp: bit_eq_iff bit_simps)
  also have "\<dots> = w" by (rule bit_word_eqI) (auto simp: bit_simps)
  finally show ?thesis by (simp only: mask)
qed

lemma addr_of_octals_of [simp]: "addr_of_octals (octals_of a) = a"
  by (cases a) (simp add: addr_of_octals_def octals_of_def toArray_def word_halves)

lemma octals_of_bounds: "length (octals_of a) = 8" "\<forall>n \<in> set (octals_of a). n < 2 ^ 32"
proof -
  show "length (octals_of a) = 8" by (simp add: octals_of_def toArray_def)
  have "unat (w :: uint32) < 2 ^ LENGTH(32)" for w by (rule unsigned_less)
  then show "\<forall>n \<in> set (octals_of a). n < 2 ^ 32" by (auto simp: octals_of_def)
qed

lemma c_ipv6_addr_str: "c_ipv6_addr (ipv6_addr_str a) = a"
proof -
  have "octals_of a \<noteq> []" using octals_of_bounds(1)[of a] by auto
  then have "readOctals (length (octals_of a)) (char_of (0 :: nat)) (stringstream (groups_str (octals_of a))) = octals_of a"
    by (intro readOctals_groups octals_of_bounds) (simp_all add: stringstream_def)
  then show ?thesis by (simp add: c_ipv6_addr_def ipv6_addr_str_groups octals_of_bounds)
qed

lemma parseIPv6Address_str:
  assumes "m_prefix_length a < 2 ^ 32"
  shows "parseIPv6Address (address_str a) = new_IPv6Address (m_addr a) (m_prefix_length a)"
proof -
  let ?ns = "octals_of (m_addr a)"
  have "?ns \<noteq> []" using octals_of_bounds(1)[of "m_addr a"] by auto
  then have "readOctalsAndPrefix (length ?ns) (char_of (0 :: nat)) 0 (stringstream (address_str a)) =
      (?ns, m_prefix_length a)"
    by (intro readOctalsAndPrefix_groups octals_of_bounds)
      (use assms in \<open>simp_all add: stringstream_def address_str_def ipv6_addr_str_groups\<close>)
  then show ?thesis by (simp add: parseIPv6Address_def octals_of_bounds)
qed

section \<open>Properties\<close>

text \<open>
  C32: Text round trip. What \<open>operator<<\<close> prints for an address, \<open>c_ipv6_addr\<close> reads back as
  the same address; what \<open>address()\<close> prints, the address with its prefix length, the
  constructor of \<open>IPv6Address\<close> reads back, but a length of 0 comes back as 128 unless the
  address is unspecified.
\<close>

theorem ipv6_text_roundtrip:
  assumes "m_prefix_length a < 2 ^ 32"
  shows "c_ipv6_addr (ipv6_addr_str x) = x \<and>
    m_addr (parseIPv6Address (address_str a)) = m_addr a \<and>
    m_prefix_length (parseIPv6Address (address_str a)) =
      (if m_prefix_length a = 0 \<and> m_addr a \<noteq> IPv6_ADDR_UNSPECIFIED then 128 else m_prefix_length a)"
  using assms by (simp add: c_ipv6_addr_str parseIPv6Address_str new_IPv6Address_def IPv6_ADDR_BITLENGTH_def)

lemma ipv6_text_roundtrip_witness:
  "c_ipv6_addr (ipv6_addr_str (Ipv6Addr 0x20010db8 0 0 1)) = Ipv6Addr 0x20010db8 0 0 1 \<and>
   m_prefix_length (parseIPv6Address (address_str (new_IPv6Address (Ipv6Addr 0x20010db8 0 0 1) 64))) = 64"
  using ipv6_text_roundtrip[of "new_IPv6Address (Ipv6Addr 0x20010db8 0 0 1) 64" "Ipv6Addr 0x20010db8 0 0 1"]
  by (simp add: new_IPv6Address_def)

text \<open>
  Truncation to a prefix. \<open>higherNbBits\<close> keeps the first bits and clears the others,
  except for the lengths 32, 64 and 96, for which it shifts a word by its width, which is
  undefined; 64 is the length of nearly every prefix.
\<close>

theorem ipv6_truncation:
  assumes "n \<le> 128"
  shows "(higherNbBits a n = None \<longleftrightarrow> n \<in> {32, 64, 96}) \<and>
    (\<forall>p. higherNbBits a n = Some p \<longrightarrow> (\<forall>i < 128. addr_bit p i \<longleftrightarrow> i < n \<and> addr_bit a i))"
  using assms higherNbBits_defined higherNbBits_bits by auto

lemma ipv6_truncation_witness:
  "higherNbBits (Ipv6Addr 0x20010db8 1 2 3) 64 = None \<and>
   higherNbBits (Ipv6Addr 0x20010db8 1 2 3) 60 = Some (Ipv6Addr 0x20010db8 0 0 0) \<and>
   \<not> addr_bit (Ipv6Addr 0x20010db8 0 0 0) 63"
proof -
  have "higherNbBits (Ipv6Addr 0x20010db8 1 2 3) 60 = Some (Ipv6Addr 0x20010db8 0 0 0)"
    by (simp add: higherNbBits_def IPv6_ADDR_BITLENGTH_def toArray_def)
  then show ?thesis
    using ipv6_truncation[of 64 "Ipv6Addr 0x20010db8 1 2 3"]
      ipv6_truncation[of 60 "Ipv6Addr 0x20010db8 1 2 3"] by simp
qed

end
