(* ===== verification/IPv6_CDS.thy ===== *)
theory IPv6_CDS
  imports IPv6_Address
begin

text \<open>
  The conceptual data structures of IPv6 neighbour discovery: the entries of
  \<open>Network/ICMPv6/NDEntry.h\<close> and \<open>NDEntry.cc\<close>, and the prefix list, the router list, the
  neighbour cache and the destination cache (\<open>IPrefixList\<close>, \<open>IRouterList\<close>,
  \<open>INeighbourCache\<close>, \<open>IDestinationCache\<close> in \<open>Network/ICMPv6/\<close>), which \<open>Network/IPv6/IPv6CDS.cc\<close>
  puts together. Neighbour entries are objects: the neighbour cache or the router list holds the
  one \<open>shared_ptr\<close> to an entry, every destination entry a \<open>weak_ptr\<close>. \<open>objs\<close> is the store of the
  entries that are alive, by identity; a \<open>weak_ptr\<close> is an optional identity, and \<open>lock\<close> reads
  the store, so that a pointer to a destroyed entry is null. New entries get identities that were
  never used before. A router entry is a neighbour entry with its \<open>router_part\<close>.
\<close>

section \<open>Entries\<close>

definition VALID_LIFETIME_DEFAULT :: uint32 where "VALID_LIFETIME_DEFAULT = 2592000"
definition VALID_PREFLIFETIME_DEFAULT :: uint32 where "VALID_PREFLIFETIME_DEFAULT = 605800"

record PrefixEntry =
  pe_prefix :: IPv6Address
  advValidLifetime :: uint32
  pe_realtime :: bool
  advOnLink :: bool
  advPrefLifetime :: uint32
  advAutoFlag :: bool
  advRtrAddr :: bool

definition new_PrefixEntry :: "IPv6Address \<Rightarrow> uint32 \<Rightarrow> PrefixEntry" where
  "new_PrefixEntry addr lifetime =
     \<lparr>pe_prefix = copy_IPv6Address addr, advValidLifetime = lifetime, pe_realtime = False,
      advOnLink = True, advPrefLifetime = VALID_PREFLIFETIME_DEFAULT, advAutoFlag = True,
      advRtrAddr = False\<rparr>"

definition PrefixEntry_of :: "ipv6_addr \<Rightarrow> nat \<Rightarrow> uint32 \<Rightarrow> PrefixEntry" where
  "PrefixEntry_of pref prefixLength lifetime =
     (new_PrefixEntry (addr128 pref) lifetime)
       \<lparr>pe_prefix := (addr128 pref)\<lparr>m_prefix_length := prefixLength\<rparr>\<rparr>"

text \<open>The prefix information option of a router advertisement.\<close>

record NDOptPrefix =
  opt_prefix :: ipv6_addr
  opt_prefixLen :: nat
  opt_validLifetime :: uint32
  opt_onLink :: bool
  opt_preferredLifetime :: uint32
  opt_autoConf :: bool
  opt_rtrAddr :: bool

definition PrefixEntry_of_opt :: "NDOptPrefix \<Rightarrow> PrefixEntry" where
  "PrefixEntry_of_opt opt =
     \<lparr>pe_prefix = new_IPv6Address (opt_prefix opt) (opt_prefixLen opt),
      advValidLifetime = opt_validLifetime opt, pe_realtime = False, advOnLink = opt_onLink opt,
      advPrefLifetime = opt_preferredLifetime opt, advAutoFlag = opt_autoConf opt,
      advRtrAddr = opt_rtrAddr opt\<rparr>"

definition PrefixEntry_eq :: "PrefixEntry \<Rightarrow> PrefixEntry \<Rightarrow> bool" where
  "PrefixEntry_eq p rhs \<longleftrightarrow>
     m_prefix_length (pe_prefix p) = m_prefix_length (pe_prefix rhs) \<and>
     m_addr (pe_prefix p) = m_addr (pe_prefix rhs)"

definition setPrefix :: "IPv6Address \<Rightarrow> bool \<Rightarrow> PrefixEntry \<Rightarrow> PrefixEntry option" where
  "setPrefix pref trunc p =
     (let a = assign_IPv6Address (pe_prefix p) pref
      in map_option (\<lambda>a. p\<lparr>pe_prefix := a\<rparr>) (if trunc then truncate6 a else Some a))"

datatype ReachabilityState = INCOMPLETE | REACHABLE | STALE | DELAY | PROBE

record RouterPart =
  lastRAReceived :: simtime
  invalidTime :: uint32

record NeighbourEntry =
  unicastAddr :: ipv6_addr
  linkLayerAddr :: string
  interfaceNo :: nat
  isRouter :: bool
  ne_state :: ReachabilityState
  router_part :: "RouterPart option"

definition new_NeighbourEntry :: "ipv6_addr \<Rightarrow> nat \<Rightarrow> string option \<Rightarrow> ReachabilityState \<Rightarrow> NeighbourEntry" where
  "new_NeighbourEntry addr ifaceNo destLinkAddr st =
     \<lparr>unicastAddr = addr, linkLayerAddr = (case destLinkAddr of Some a \<Rightarrow> a | None \<Rightarrow> ''''),
      interfaceNo = ifaceNo, isRouter = False, ne_state = st, router_part = None\<rparr>"

text \<open>What the code reads of the three messages, with the datagram they came in.\<close>

record NgbrSol =
  ns_src :: ipv6_addr
  ns_inputPort :: nat
  ns_targetAddr :: ipv6_addr
  ns_srcLLAddr :: string

record NgbrAd =
  na_src :: ipv6_addr
  na_inputPort :: nat
  na_targetLLAddr :: string
  na_isRouter :: bool
  na_solicited :: bool
  na_override :: bool

record Redirect =
  rd_inputPort :: nat
  rd_targetAddr :: ipv6_addr
  rd_targetLLAddr :: string

definition NeighbourEntry_of_ns :: "NgbrSol \<Rightarrow> NeighbourEntry" where
  "NeighbourEntry_of_ns ns =
     \<lparr>unicastAddr = ns_src ns, linkLayerAddr = ns_srcLLAddr ns, interfaceNo = ns_inputPort ns,
      isRouter = False, ne_state = STALE, router_part = None\<rparr>"

definition NeighbourEntry_of_redirect :: "Redirect \<Rightarrow> NeighbourEntry" where
  "NeighbourEntry_of_redirect r =
     \<lparr>unicastAddr = rd_targetAddr r, linkLayerAddr = rd_targetLLAddr r, interfaceNo = rd_inputPort r,
      isRouter = False, ne_state = (if rd_targetLLAddr r \<noteq> '''' then STALE else INCOMPLETE),
      router_part = None\<rparr>"

text \<open>\<open>NeighbourEntry::update\<close> with an advertisement; the flag is \<open>sendPending\<close>.\<close>

definition updateRouterFlag :: "NgbrAd \<Rightarrow> NeighbourEntry \<Rightarrow> NeighbourEntry" where
  "updateRouterFlag na ne =
     (if na_isRouter na \<and> na_isRouter na \<noteq> isRouter ne then ne\<lparr>isRouter := True\<rparr>
      else if \<not> na_isRouter na \<and> na_isRouter na \<noteq> isRouter ne then ne\<lparr>isRouter := False\<rparr>
      else ne)"

definition update_na :: "NgbrAd \<Rightarrow> NeighbourEntry \<Rightarrow> bool \<times> NeighbourEntry" where
  "update_na na ne =
     (if ne_state ne = INCOMPLETE then
        if na_targetLLAddr na = '''' then (False, ne)
        else
          let ne = ne\<lparr>linkLayerAddr := na_targetLLAddr na\<rparr>;
              ne = ne\<lparr>ne_state := (if na_solicited na then REACHABLE else STALE)\<rparr>
          in (True, updateRouterFlag na ne)
      else if \<not> na_override na \<and> na_targetLLAddr na \<noteq> '''' \<and> na_targetLLAddr na \<noteq> linkLayerAddr ne then
        (False, if ne_state ne = REACHABLE then ne\<lparr>ne_state := STALE\<rparr> else ne)
      else if na_override na \<or> (\<not> na_override na \<and> na_targetLLAddr na = linkLayerAddr ne)
          \<or> na_targetLLAddr na = '''' then
        let updatedAddr = (na_targetLLAddr na \<noteq> '''' \<and> na_targetLLAddr na \<noteq> linkLayerAddr ne);
            ne = (if updatedAddr then ne\<lparr>linkLayerAddr := na_targetLLAddr na\<rparr> else ne);
            ne = (if na_solicited na then ne\<lparr>ne_state := REACHABLE\<rparr>
                  else if updatedAddr then ne\<lparr>ne_state := STALE\<rparr> else ne)
        in (ne_state ne = REACHABLE, updateRouterFlag na ne)
      else (False, updateRouterFlag na ne))"

definition update_ns :: "NgbrSol \<Rightarrow> NeighbourEntry \<Rightarrow> NeighbourEntry" where
  "update_ns ns ne =
     (if linkLayerAddr ne \<noteq> ns_srcLLAddr ns then ne\<lparr>linkLayerAddr := ns_srcLLAddr ns, ne_state := STALE\<rparr>
      else ne)"

definition update_redirect :: "Redirect \<Rightarrow> NeighbourEntry \<Rightarrow> NeighbourEntry" where
  "update_redirect r ne =
     (if rd_targetLLAddr r \<noteq> '''' \<and> linkLayerAddr ne \<noteq> rd_targetLLAddr r
      then ne\<lparr>linkLayerAddr := rd_targetLLAddr r, ne_state := STALE\<rparr> else ne)"

definition new_RouterEntry :: "ipv6_addr \<Rightarrow> nat \<Rightarrow> string option \<Rightarrow> uint32 \<Rightarrow> NeighbourEntry" where
  "new_RouterEntry addr ifaceNo linkAddr lifetime =
     (new_NeighbourEntry addr ifaceNo linkAddr STALE)
       \<lparr>isRouter := True, router_part := Some \<lparr>lastRAReceived = 0, invalidTime = lifetime\<rparr>\<rparr>"

text \<open>This constructor leaves \<open>lastRAReceived\<close> uninitialised: its value is a parameter.\<close>

definition RouterEntry_of_redirect :: "simtime \<Rightarrow> Redirect \<Rightarrow> NeighbourEntry" where
  "RouterEntry_of_redirect uninit r =
     (NeighbourEntry_of_redirect r)
       \<lparr>isRouter := True,
        router_part := Some \<lparr>lastRAReceived = uninit, invalidTime = VALID_LIFETIME_INFINITY\<rparr>\<rparr>"

definition setInvalidTmr :: "uint32 \<Rightarrow> NeighbourEntry \<Rightarrow> NeighbourEntry" where
  "setInvalidTmr newLifetime re =
     re\<lparr>router_part := map_option (\<lambda>p. p\<lparr>invalidTime := newLifetime\<rparr>) (router_part re)\<rparr>"

section \<open>The data structures\<close>

text \<open>
  The keys of the prefix list and of the destination cache are \<open>IPv6Address\<close> objects ordered by
  \<open>operator<\<close>, which reads the length and the address; the other members of a key are never
  read.
\<close>

datatype AddrKey = AddrKey (key_len: nat) (key_addr: ipv6_addr)

instantiation AddrKey :: linorder
begin

definition less_AddrKey :: "AddrKey \<Rightarrow> AddrKey \<Rightarrow> bool" where
  "a < b \<longleftrightarrow> (if key_len a \<noteq> key_len b then \<not> key_len a < key_len b else key_addr a < key_addr b)"

definition less_eq_AddrKey :: "AddrKey \<Rightarrow> AddrKey \<Rightarrow> bool" where
  "a \<le> b \<longleftrightarrow> a < b \<or> a = (b :: AddrKey)"

instance
proof
  fix x y z :: AddrKey
  show "x < y \<longleftrightarrow> x \<le> y \<and> \<not> y \<le> x"
    by (cases x; cases y) (auto simp: less_eq_AddrKey_def less_AddrKey_def split: if_splits)
  show "x \<le> x" by (simp add: less_eq_AddrKey_def)
  show "x \<le> y \<Longrightarrow> y \<le> z \<Longrightarrow> x \<le> z"
    by (cases x; cases y; cases z) (auto simp: less_eq_AddrKey_def less_AddrKey_def split: if_splits)
  show "x \<le> y \<Longrightarrow> y \<le> x \<Longrightarrow> x = y"
    by (cases x; cases y) (auto simp: less_eq_AddrKey_def less_AddrKey_def split: if_splits)
  show "x \<le> y \<or> y \<le> x"
    by (cases x; cases y) (auto simp: less_eq_AddrKey_def less_AddrKey_def split: if_splits)
qed

end

definition key_of :: "IPv6Address \<Rightarrow> AddrKey" where
  "key_of a = AddrKey (m_prefix_length a) (m_addr a)"

definition key_isNetwork :: "AddrKey \<Rightarrow> ipv6_addr \<Rightarrow> bool" where
  "key_isNetwork k = isNetwork6 ((addr128 (key_addr k))\<lparr>m_prefix_length := key_len k\<rparr>)"

type_synonym ref = nat
type_synonym weak_ptr = "ref option"

record DestinationEntry =
  de_neighbour :: weak_ptr
  pathMTU :: nat

definition new_DestinationEntry :: "weak_ptr \<Rightarrow> DestinationEntry" where
  "new_DestinationEntry ngbr = \<lparr>de_neighbour = ngbr, pathMTU = 0\<rparr>"

record CDS =
  prefixList :: "(AddrKey, PrefixEntry \<times> nat) std_map"
  routers :: "ref list"
  neighbourCache :: "(ipv6_addr, ref) std_map"
  destCache :: "(AddrKey, DestinationEntry) std_map"
  objs :: "ref \<Rightarrow> NeighbourEntry option"
  nextRef :: ref

definition new_CDS :: CDS where
  "new_CDS = \<lparr>prefixList = [], routers = [], neighbourCache = [], destCache = [],
     objs = (\<lambda>_. None), nextRef = 0\<rparr>"

definition lock :: "CDS \<Rightarrow> weak_ptr \<Rightarrow> NeighbourEntry option" where
  "lock c w = Option.bind w (objs c)"

definition upd_obj :: "ref \<Rightarrow> (NeighbourEntry \<Rightarrow> NeighbourEntry) \<Rightarrow> CDS \<Rightarrow> CDS" where
  "upd_obj r f c = c\<lparr>objs := (objs c)(r := map_option f (objs c r))\<rparr>"

definition alloc :: "NeighbourEntry \<Rightarrow> CDS \<Rightarrow> ref \<times> CDS" where
  "alloc ne c = (nextRef c, c\<lparr>objs := (objs c)(nextRef c \<mapsto> ne), nextRef := nextRef c + 1\<rparr>)"

text \<open>The last \<open>shared_ptr\<close> to an entry is gone.\<close>

definition release :: "ref \<Rightarrow> CDS \<Rightarrow> CDS" where
  "release r c = c\<lparr>objs := (objs c)(r := None)\<rparr>"

subsection \<open>\<open>IPrefixList\<close>\<close>

definition getPrefixEntry :: "AddrKey \<Rightarrow> CDS \<Rightarrow> PrefixEntry option" where
  "getPrefixEntry k c = map_option fst (map_of (prefixList c) k)"

definition insertPrefixEntry :: "PrefixEntry \<Rightarrow> nat \<Rightarrow> CDS \<Rightarrow> CDS" where
  "insertPrefixEntry pe ifIndex c =
     c\<lparr>prefixList := map_put (key_of (pe_prefix pe)) (pe, ifIndex) (prefixList c)\<rparr>"

definition removePrefixEntry :: "PrefixEntry \<Rightarrow> CDS \<Rightarrow> CDS result" where
  "removePrefixEntry pref c =
     ASSERT (map_of (prefixList c) (key_of (pe_prefix pref)) \<noteq> None) ''IPrefixList::removePrefixEntry''
       (Inr (c\<lparr>prefixList := map_erase (key_of (pe_prefix pref)) (prefixList c)\<rparr>))"

definition removePrefix :: "ipv6_prefix \<Rightarrow> CDS \<Rightarrow> bool \<times> CDS" where
  "removePrefix pref c =
     (let k = key_of (IPv6Address_of_prefix pref)
      in (map_of (prefixList c) k \<noteq> None, c\<lparr>prefixList := map_erase k (prefixList c)\<rparr>))"

definition getPrefixesByIndex :: "nat \<Rightarrow> CDS \<Rightarrow> PrefixEntry list" where
  "getPrefixesByIndex ifIndex c = map (fst \<circ> snd) (filter (\<lambda>(_, _, i). i = ifIndex) (prefixList c))"

text \<open>The loops over a table that stop at the first key the address belongs to.\<close>

fun firstNetwork :: "(AddrKey, 'v) std_map \<Rightarrow> ipv6_addr \<Rightarrow> (AddrKey \<times> 'v) option" where
  "firstNetwork [] dest = None"
| "firstNetwork ((k, v) # xs) dest = (if key_isNetwork k dest then Some (k, v) else firstNetwork xs dest)"

definition lookupAddress :: "ipv6_addr \<Rightarrow> CDS \<Rightarrow> nat option" where
  "lookupAddress dest c = map_option (\<lambda>(_, _, ifIndex). ifIndex) (firstNetwork (prefixList c) dest)"

subsection \<open>\<open>IRouterList\<close>\<close>

definition hasAddr :: "CDS \<Rightarrow> ipv6_addr \<Rightarrow> ref \<Rightarrow> bool" where
  "hasAddr c addr r \<longleftrightarrow> map_option unicastAddr (objs c r) = Some addr"

definition router :: "ipv6_addr \<Rightarrow> CDS \<Rightarrow> weak_ptr" where
  "router addr c = List.find (hasAddr c addr) (routers c)"

definition rl_insertRouterEntry :: "NeighbourEntry \<Rightarrow> bool \<Rightarrow> CDS \<Rightarrow> ref \<times> CDS" where
  "rl_insertRouterEntry re setDefault c =
     (case alloc re c of (r, c) \<Rightarrow>
        (r, c\<lparr>routers := (if \<not> setDefault then routers c @ [r] else r # routers c)\<rparr>))"

definition removeRouterEntry :: "ipv6_addr \<Rightarrow> CDS \<Rightarrow> CDS" where
  "removeRouterEntry addr c =
     (case List.find (hasAddr c addr) (routers c) of
        None \<Rightarrow> c
      | Some r \<Rightarrow> release r (c\<lparr>routers := remove1 r (routers c)\<rparr>))"

definition defaultRouter :: "CDS \<Rightarrow> weak_ptr" where
  "defaultRouter c = (case routers c of [] \<Rightarrow> None | r # _ \<Rightarrow> Some r)"

definition setDefaultRouter :: "weak_ptr \<Rightarrow> CDS \<Rightarrow> CDS result" where
  "setDefaultRouter re c =
     (case re of
        Some r \<Rightarrow>
          ASSERT (r \<in> set (routers c)) ''IRouterList::setDefaultRouter''
            (Inr (c\<lparr>routers := r # removeAll r (routers c)\<rparr>))
      | None \<Rightarrow> Inl (AssertFailed ''IRouterList::setDefaultRouter''))"

subsection \<open>\<open>INeighbourCache\<close>\<close>

definition nc_insertNeighbourEntry :: "NeighbourEntry \<Rightarrow> CDS \<Rightarrow> ref \<times> CDS" where
  "nc_insertNeighbourEntry entry c =
     (case alloc entry c of (r, c) \<Rightarrow>
        let old = map_of (neighbourCache c) (unicastAddr entry);
            c = c\<lparr>neighbourCache := map_put (unicastAddr entry) r (neighbourCache c)\<rparr>
        in (r, case old of None \<Rightarrow> c | Some r' \<Rightarrow> release r' c))"

definition findNeighbourAndRemoveEntry :: "ipv6_addr \<Rightarrow> CDS \<Rightarrow> bool \<times> CDS" where
  "findNeighbourAndRemoveEntry addr c =
     (case map_of (neighbourCache c) addr of
        None \<Rightarrow> (False, c)
      | Some r \<Rightarrow> (True, release r (c\<lparr>neighbourCache := map_erase addr (neighbourCache c)\<rparr>)))"

definition nc_removeNeighbourEntry :: "ipv6_addr \<Rightarrow> CDS \<Rightarrow> CDS result" where
  "nc_removeNeighbourEntry addr c =
     (case findNeighbourAndRemoveEntry addr c of (found, c) \<Rightarrow>
        ASSERT found ''INeighbourCache::removeNeighbourEntry'' (Inr c))"

subsection \<open>\<open>IDestinationCache\<close>\<close>

definition findDestEntry :: "ipv6_addr \<Rightarrow> CDS \<Rightarrow> DestinationEntry option" where
  "findDestEntry addr c = map_of (destCache c) (key_of (addr128 addr))"

definition dc_neighbour :: "ipv6_addr \<Rightarrow> CDS \<Rightarrow> weak_ptr" where
  "dc_neighbour addr c = (case findDestEntry addr c of Some de \<Rightarrow> de_neighbour de | None \<Rightarrow> None)"

definition lookupDestination :: "ipv6_addr \<Rightarrow> CDS \<Rightarrow> weak_ptr" where
  "lookupDestination addr c =
     (case findDestEntry addr c of
        Some de \<Rightarrow> de_neighbour de
      | None \<Rightarrow>
          (case firstNetwork (destCache c) addr of
             None \<Rightarrow> None
           | Some (k, de) \<Rightarrow> if key_addr k = IPv6_ADDR_UNSPECIFIED then None else de_neighbour de))"

text \<open>Assignment to \<open>operator[]\<close>, and to the neighbour of the entry it creates or finds.\<close>

definition setDestEntry :: "AddrKey \<Rightarrow> DestinationEntry \<Rightarrow> CDS \<Rightarrow> CDS" where
  "setDestEntry k de c = c\<lparr>destCache := map_put k de (destCache c)\<rparr>"

definition setDestNeighbour :: "AddrKey \<Rightarrow> weak_ptr \<Rightarrow> CDS \<Rightarrow> CDS" where
  "setDestNeighbour k ngbr c =
     (let de = (case map_of (destCache c) k of Some de \<Rightarrow> de | None \<Rightarrow> new_DestinationEntry None)
      in setDestEntry k (de\<lparr>de_neighbour := ngbr\<rparr>) c)"

definition removeDestEntry :: "ipv6_addr \<Rightarrow> CDS \<Rightarrow> bool \<times> CDS" where
  "removeDestEntry addr c =
     (case findDestEntry addr c of
        None \<Rightarrow> (False, c)
      | Some _ \<Rightarrow> (True, c\<lparr>destCache := map_erase (key_of (addr128 addr)) (destCache c)\<rparr>))"

text \<open>Both loops erase the entries whose neighbour is gone along with the ones asked for.\<close>

definition removeDestEntries :: "(NeighbourEntry \<Rightarrow> bool) \<Rightarrow> CDS \<Rightarrow> int \<times> CDS" where
  "removeDestEntries P c =
     (let gone = (\<lambda>(_, de). case lock c (de_neighbour de) of None \<Rightarrow> True | Some ne \<Rightarrow> P ne)
      in (int (length (filter gone (destCache c))),
          c\<lparr>destCache := filter (\<lambda>e. \<not> gone e) (destCache c)\<rparr>))"

definition removeDestEntryByNeighbour :: "ipv6_addr \<Rightarrow> CDS \<Rightarrow> int \<times> CDS" where
  "removeDestEntryByNeighbour addr = removeDestEntries (\<lambda>ne. unicastAddr ne = addr)"

definition removeDestEntryByTunnel :: "nat \<Rightarrow> CDS \<Rightarrow> int \<times> CDS" where
  "removeDestEntryByTunnel vifIndex = removeDestEntries (\<lambda>ne. interfaceNo ne = vifIndex)"

text \<open>
  \<open>for_each\<close> works on a copy of the function object, so the count that is returned is the 0
  the object was made with.
\<close>

definition updateDestEntryByNeighbour :: "ipv6_addr \<Rightarrow> ipv6_addr \<Rightarrow> CDS \<Rightarrow> (int \<times> CDS) result" where
  "updateDestEntryByNeighbour addr ngbr c =
     ASSERT (addr \<noteq> ngbr) ''IDestinationCache::updateDestEntryByNeighbour''
       (let ne = dc_neighbour ngbr c in
        ASSERT (lock c ne \<noteq> None) ''IDestinationCache::updateDestEntryByNeighbour''
          (Inr (0, c\<lparr>destCache := map (\<lambda>(k, de).
             (k, if map_option unicastAddr (lock c (de_neighbour de)) = Some addr
                 then de\<lparr>de_neighbour := ne\<rparr> else de)) (destCache c)\<rparr>)))"

subsection \<open>\<open>IPv6CDS\<close>\<close>

definition insertNeighbourEntry :: "NeighbourEntry \<Rightarrow> CDS \<Rightarrow> ref \<times> CDS" where
  "insertNeighbourEntry entry c =
     (case nc_insertNeighbourEntry entry c of (r, c) \<Rightarrow>
        (r, setDestNeighbour (key_of (addr128 (unicastAddr entry))) (Some r) c))"

definition removeNeighbourEntry :: "ipv6_addr \<Rightarrow> CDS \<Rightarrow> CDS result" where
  "removeNeighbourEntry addr c =
     (case removeDestEntry addr c of (found, c) \<Rightarrow>
        if found then nc_removeNeighbourEntry addr c else Inr c)"

definition removeDestinationEntry :: "ipv6_addr \<Rightarrow> CDS \<Rightarrow> CDS" where
  "removeDestinationEntry addr c =
     (case removeDestEntry addr c of (found, c) \<Rightarrow>
        if found then snd (findNeighbourAndRemoveEntry addr c) else c)"

definition insertRouterEntry :: "NeighbourEntry \<Rightarrow> bool \<Rightarrow> CDS \<Rightarrow> (ref \<times> CDS) result" where
  "insertRouterEntry re setDefault c =
     (case rl_insertRouterEntry re setDefault c of (r, c) \<Rightarrow>
        emap (\<lambda>c. (r, setDestEntry (key_of (addr128 (unicastAddr re))) (new_DestinationEntry (Some r)) c))
          (removeNeighbourEntry (unicastAddr re) c))"

definition latestRAReceived :: "CDS \<Rightarrow> simtime" where
  "latestRAReceived c =
     foldl (\<lambda>latest r. case Option.bind (objs c r) router_part of
        Some p \<Rightarrow> if latest < lastRAReceived p then lastRAReceived p else latest
      | None \<Rightarrow> latest) 0 (routers c)"


section \<open>Neighbour entries\<close>

text \<open>An entry that is not incomplete has a link layer address.\<close>

definition ne_ok :: "NeighbourEntry \<Rightarrow> bool" where
  "ne_ok ne \<longleftrightarrow> ne_state ne \<noteq> INCOMPLETE \<longrightarrow> linkLayerAddr ne \<noteq> ''''"

lemma updateRouterFlag_sel [simp]:
  "ne_state (updateRouterFlag na ne) = ne_state ne"
  "linkLayerAddr (updateRouterFlag na ne) = linkLayerAddr ne"
  "unicastAddr (updateRouterFlag na ne) = unicastAddr ne"
  "interfaceNo (updateRouterFlag na ne) = interfaceNo ne"
  "router_part (updateRouterFlag na ne) = router_part ne"
  "isRouter (updateRouterFlag na ne) = na_isRouter na"
  by (auto simp: updateRouterFlag_def)

lemma update_na_addr [simp]: "unicastAddr (snd (update_na na ne)) = unicastAddr ne"
  by (simp add: update_na_def Let_def)

lemma update_ns_addr [simp]: "unicastAddr (update_ns ns ne) = unicastAddr ne"
  by (simp add: update_ns_def)

lemma update_redirect_addr [simp]: "unicastAddr (update_redirect r ne) = unicastAddr ne"
  by (simp add: update_redirect_def)

section \<open>Tables ordered by prefix length\<close>

text \<open>
  A table whose keys are ordered by decreasing prefix length, searched from the front: the
  first key that matches has the longest prefix of all that match.
\<close>

locale prefix_order =
  fixes matches :: "'k :: linorder \<Rightarrow> 'a \<Rightarrow> bool"
    and plen :: "'k \<Rightarrow> nat"
  assumes less_len: "k < k' \<Longrightarrow> plen k' \<le> plen k"
begin

definition first_match :: "('k, 'v) std_map \<Rightarrow> 'a \<Rightarrow> ('k \<times> 'v) option" where
  "first_match xs a = List.find (\<lambda>p. matches (fst p) a) xs"

lemma first_match_None: "first_match xs a = None \<longleftrightarrow> (\<forall>p \<in> set xs. \<not> matches (fst p) a)"
  by (auto simp: first_match_def find_None_iff)

lemma first_match_longest:
  "map_ok xs \<Longrightarrow> first_match xs a = Some (k, v) \<Longrightarrow>
     (k, v) \<in> set xs \<and> matches k a \<and> (\<forall>p \<in> set xs. matches (fst p) a \<longrightarrow> plen (fst p) \<le> plen k)"
proof (induction xs)
  case (Cons p xs)
  obtain k' v' where p: "p = (k', v')" by fastforce
  show ?case
  proof (cases "matches k' a")
    case True
    then have "k' = k" "v' = v" using Cons.prems(2) p by (auto simp: first_match_def)
    then show ?thesis using True Cons.prems(1) p less_len by fastforce
  next
    case False
    then have "first_match xs a = Some (k, v)" using Cons.prems(2) p by (simp add: first_match_def)
    then show ?thesis using Cons False p by auto
  qed
qed (simp add: first_match_def)

end

interpretation nd_table: prefix_order key_isNetwork key_len
  by unfold_locales (auto simp: less_AddrKey_def split: if_splits)

lemma firstNetwork_first_match: "firstNetwork xs dest = nd_table.first_match xs dest"
  by (induction xs dest rule: firstNetwork.induct) (auto simp: nd_table.first_match_def)

lemma key_isNetwork_bits:
  "key_len k \<le> 128 \<Longrightarrow> key_isNetwork k a \<longleftrightarrow>
     (\<forall>i < (if key_len k = 0 then 128 else key_len k). addr_bit (key_addr k) i = addr_bit a i)"
  by (simp add: key_isNetwork_def isNetwork6_bits new_IPv6Address_def)

lemmas firstNetwork_None = nd_table.first_match_None [folded firstNetwork_first_match]
lemmas firstNetwork_longest = nd_table.first_match_longest [folded firstNetwork_first_match]

section \<open>The invariant of the data structures\<close>

text \<open>
  The tables are ordered; every entry that is alive has one owner, the neighbour cache under its
  own address or the router list; what a table points to was allocated.
\<close>

definition owners_ok ::
    "ref list \<Rightarrow> (ipv6_addr, ref) std_map \<Rightarrow> (ref \<Rightarrow> NeighbourEntry option) \<Rightarrow> ref \<Rightarrow> bool" where
  "owners_ok rs nc obj next \<longleftrightarrow>
     distinct rs \<and>
     (\<forall>a r. map_of nc a = Some r \<longrightarrow> r \<notin> set rs \<and> map_option unicastAddr (obj r) = Some a) \<and>
     (\<forall>r \<in> set rs. obj r \<noteq> None) \<and>
     (\<forall>r. obj r \<noteq> None \<longrightarrow> r < next \<and> (r \<in> set rs \<or> (\<exists>a. map_of nc a = Some r)))"

definition pointers_ok :: "(AddrKey, DestinationEntry) std_map \<Rightarrow> ref \<Rightarrow> bool" where
  "pointers_ok dc next \<longleftrightarrow>
     (\<forall>k de r. map_of dc k = Some de \<longrightarrow> de_neighbour de = Some r \<longrightarrow> r < next)"

definition cds_ok :: "CDS \<Rightarrow> bool" where
  "cds_ok c \<longleftrightarrow>
     map_ok (prefixList c) \<and> map_ok (neighbourCache c) \<and> map_ok (destCache c) \<and>
     owners_ok (routers c) (neighbourCache c) (objs c) (nextRef c) \<and>
     pointers_ok (destCache c) (nextRef c)"

lemma owners_ok_ncD:
  "owners_ok rs nc obj next \<Longrightarrow> map_of nc a = Some r \<Longrightarrow>
     r \<notin> set rs \<and> (\<exists>ne. obj r = Some ne \<and> unicastAddr ne = a) \<and> r < next"
  unfolding owners_ok_def by fastforce

lemma owners_ok_less: "owners_ok rs nc obj next \<Longrightarrow> obj r \<noteq> None \<Longrightarrow> r < next"
  unfolding owners_ok_def by blast

lemma owners_ok_fresh: "owners_ok rs nc obj next \<Longrightarrow> obj next = None"
  using owners_ok_less by fastforce

lemma owners_ok_nc_inj:
  "owners_ok rs nc obj next \<Longrightarrow> map_of nc a = Some r \<Longrightarrow> map_of nc b = Some r \<Longrightarrow> a = b"
  using owners_ok_ncD[of rs nc obj "next" a r] owners_ok_ncD[of rs nc obj "next" b r] by auto

lemma owners_ok_owned:
  "owners_ok rs nc obj next \<Longrightarrow> obj r \<noteq> None \<Longrightarrow> r \<in> set rs \<or> (\<exists>a. map_of nc a = Some r)"
  unfolding owners_ok_def by blast

lemma owners_ok_insert_router:
  assumes "owners_ok rs nc obj next" and "rs' = rs @ [next] \<or> rs' = next # rs"
  shows "owners_ok rs' nc (obj(next \<mapsto> ne)) (Suc next)"
  using assms owners_ok_fresh[OF assms(1)] unfolding owners_ok_def
  by (auto simp: less_Suc_eq) (metis option.distinct(1))+

lemma owners_ok_remove_router:
  assumes "owners_ok rs nc obj next" and "r \<in> set rs"
  shows "owners_ok (remove1 r rs) nc (obj(r := None)) next"
  using assms unfolding owners_ok_def by (auto simp: set_remove1_eq)

lemma owners_ok_routers_perm:
  "owners_ok rs nc obj next \<Longrightarrow> distinct rs' \<Longrightarrow> set rs' = set rs \<Longrightarrow> owners_ok rs' nc obj next"
  unfolding owners_ok_def by auto

lemma owners_ok_upd:
  assumes "owners_ok rs nc obj next" and "\<And>ne. unicastAddr (f ne) = unicastAddr ne"
  shows "owners_ok rs nc (obj(r := map_option f (obj r))) next"
proof -
  have "map_option unicastAddr ((obj(r := map_option f (obj r))) q) = map_option unicastAddr (obj q)"
    "(obj(r := map_option f (obj r))) q = None \<longleftrightarrow> obj q = None" for q
    using assms(2) by (auto simp: option.map_comp o_def)
  then show ?thesis using assms(1) unfolding owners_ok_def by presburger
qed

lemma owners_ok_erase:
  assumes ok: "owners_ok rs nc obj next" and nc: "map_ok nc" "map_of nc a = Some r"
  shows "owners_ok rs (map_erase a nc) (obj(r := None)) next"
proof -
  have inj: "b = a" if "map_of nc b = Some r" for b using owners_ok_nc_inj[OF ok that nc(2)] .
  have r: "r \<notin> set rs" using owners_ok_ncD[OF ok nc(2)] by blast
  show ?thesis
    unfolding owners_ok_def
  proof (intro conjI allI ballI impI)
    show "distinct rs" using ok by (simp add: owners_ok_def)
  next
    fix b q assume "map_of (map_erase a nc) b = Some q"
    then have *: "map_of nc b = Some q" "b \<noteq> a" using nc(1) by (auto split: if_splits)
    then show "q \<notin> set rs" using owners_ok_ncD[OF ok] by blast
    have "q \<noteq> r" using inj * by blast
    then show "map_option unicastAddr ((obj(r := None)) q) = Some b"
      using owners_ok_ncD[OF ok *(1)] by auto
  next
    fix q assume "q \<in> set rs"
    then have "q \<noteq> r" "obj q \<noteq> None" using r ok unfolding owners_ok_def by blast+
    then show "(obj(r := None)) q \<noteq> None" by simp
  next
    fix q assume q: "(obj(r := None)) q \<noteq> None"
    then have "q \<noteq> r" "obj q \<noteq> None" by (auto split: if_splits)
    then show "q < next" using owners_ok_less[OF ok] by blast
    show "q \<in> set rs \<or> (\<exists>b. map_of (map_erase a nc) b = Some q)"
      using owners_ok_owned[OF ok \<open>obj q \<noteq> None\<close>]
    proof
      assume "\<exists>b. map_of nc b = Some q"
      then obtain b where b: "map_of nc b = Some q" by blast
      then have "b \<noteq> a" using nc(2) \<open>q \<noteq> r\<close> by auto
      then have "map_of (map_erase a nc) b = Some q" using b nc(1) by simp
      then show ?thesis by blast
    qed blast
  qed
qed

lemma owners_ok_insert_nc:
  assumes ok: "owners_ok rs nc obj next" and nc: "map_of nc (unicastAddr ne) = None"
  shows "owners_ok rs (map_put (unicastAddr ne) next nc) (obj(next \<mapsto> ne)) (Suc next)"
proof -
  have fresh: "obj next = None" by (rule owners_ok_fresh[OF ok])
  have "next \<notin> set rs" using ok fresh by (auto simp: owners_ok_def)
  then show ?thesis
    using ok nc fresh unfolding owners_ok_def
    by (auto simp: less_Suc_eq split: if_splits) (metis option.distinct(1))+
qed

lemma pointers_ok_put:
  "pointers_ok dc next \<Longrightarrow> (\<And>r. de_neighbour de = Some r \<Longrightarrow> r < next) \<Longrightarrow> pointers_ok (map_put k de dc) next"
  by (auto simp: pointers_ok_def)

lemma pointers_ok_erase: "map_ok dc \<Longrightarrow> pointers_ok dc next \<Longrightarrow> pointers_ok (map_erase k dc) next"
  by (auto simp: pointers_ok_def)

lemma pointers_ok_filter: "map_ok dc \<Longrightarrow> pointers_ok dc next \<Longrightarrow> pointers_ok (filter P dc) next"
  by (auto simp: pointers_ok_def map_of_filter_ok split: option.splits if_splits)

lemma pointers_ok_Suc: "pointers_ok dc next \<Longrightarrow> pointers_ok dc (Suc next)"
  unfolding pointers_ok_def using less_SucI by blast

lemmas pointers_ok_intros = pointers_ok_put pointers_ok_erase pointers_ok_filter pointers_ok_Suc

lemma cds_ok_new [simp]: "cds_ok new_CDS"
  by (simp add: cds_ok_def new_CDS_def owners_ok_def pointers_ok_def)

lemma insertPrefixEntry_ok: "cds_ok c \<Longrightarrow> cds_ok (insertPrefixEntry pe i c)"
  by (simp add: insertPrefixEntry_def cds_ok_def)

lemma removePrefixEntry_ok: "removePrefixEntry pe c = Inr c' \<Longrightarrow> cds_ok c \<Longrightarrow> cds_ok c'"
  by (auto simp: removePrefixEntry_def ASSERT_eq_Inr cds_ok_def)

lemma removePrefix_ok: "cds_ok c \<Longrightarrow> cds_ok (snd (removePrefix p c))"
  by (simp add: removePrefix_def Let_def cds_ok_def)

lemma upd_obj_ok:
  "cds_ok c \<Longrightarrow> (\<And>ne. unicastAddr (f ne) = unicastAddr ne) \<Longrightarrow> cds_ok (upd_obj r f c)"
  by (simp add: cds_ok_def upd_obj_def owners_ok_upd)

lemma setDestEntry_ok:
  "cds_ok c \<Longrightarrow> (\<And>r. de_neighbour de = Some r \<Longrightarrow> r < nextRef c) \<Longrightarrow> cds_ok (setDestEntry k de c)"
  by (simp add: cds_ok_def setDestEntry_def pointers_ok_put)

lemma setDestNeighbour_ok:
  "cds_ok c \<Longrightarrow> (\<And>r. w = Some r \<Longrightarrow> r < nextRef c) \<Longrightarrow> cds_ok (setDestNeighbour k w c)"
  unfolding setDestNeighbour_def Let_def by (rule setDestEntry_ok) simp_all

lemma removeDestEntries_ok: "cds_ok c \<Longrightarrow> cds_ok (snd (removeDestEntries P c))"
  by (simp add: removeDestEntries_def Let_def cds_ok_def pointers_ok_filter)

lemma removeDestEntry_ok: "cds_ok c \<Longrightarrow> cds_ok (snd (removeDestEntry addr c))"
  by (simp add: removeDestEntry_def cds_ok_def pointers_ok_erase split: option.split)

lemma map_map_snd_keys: "map fst (map (\<lambda>(k, v). (k, f k v)) xs) = map fst xs"
  by (induction xs) auto

lemma map_ok_map_snd [simp]: "map_ok (map (\<lambda>(k, v). (k, f k v)) xs) = map_ok xs"
  by (simp add: map_ok_def map_map_snd_keys del: map_map)

lemma map_of_map_snd: "map_of (map (\<lambda>(k, v). (k, f k v)) xs) k = map_option (f k) (map_of xs k)"
  by (induction xs) auto

lemma dc_neighbour_less: "cds_ok c \<Longrightarrow> dc_neighbour a c = Some r \<Longrightarrow> r < nextRef c"
  by (auto simp: dc_neighbour_def findDestEntry_def cds_ok_def pointers_ok_def split: option.splits)

lemma updateDestEntryByNeighbour_ok:
  assumes "updateDestEntryByNeighbour a n c = Inr (k, c')" and "cds_ok c"
  shows "cds_ok c'"
proof -
  let ?f = "\<lambda>(k :: AddrKey) de. if map_option unicastAddr (lock c (de_neighbour de)) = Some a
    then de\<lparr>de_neighbour := dc_neighbour n c\<rparr> else de"
  have c': "c' = c\<lparr>destCache := map (\<lambda>(k, de). (k, ?f k de)) (destCache c)\<rparr>"
    using assms(1) by (auto simp: updateDestEntryByNeighbour_def ASSERT_eq_Inr Let_def)
  have "pointers_ok (map (\<lambda>(k, de). (k, ?f k de)) (destCache c)) (nextRef c)"
    using assms(2) dc_neighbour_less[OF assms(2), of n]
    unfolding pointers_ok_def map_of_map_snd
    by (auto simp: cds_ok_def pointers_ok_def split: if_splits)
  then show ?thesis using assms(2) map_ok_map_snd[of ?f "destCache c"] by (simp add: c' cds_ok_def)
qed

lemma alloc_eq: "alloc ne c = (nextRef c, c\<lparr>objs := (objs c)(nextRef c \<mapsto> ne), nextRef := Suc (nextRef c)\<rparr>)"
  by (simp add: alloc_def)

lemma rl_insertRouterEntry_ok:
  "rl_insertRouterEntry re d c = (r, c') \<Longrightarrow> cds_ok c \<Longrightarrow> cds_ok c' \<and> r < nextRef c'"
  by (auto simp: rl_insertRouterEntry_def alloc_eq cds_ok_def pointers_ok_Suc
      intro!: owners_ok_insert_router)

lemma removeRouterEntry_ok: "cds_ok c \<Longrightarrow> cds_ok (removeRouterEntry a c)"
  by (auto simp: removeRouterEntry_def cds_ok_def release_def find_Some_iff
      intro!: owners_ok_remove_router split: option.split)

lemma router_mem: "router a c = Some r \<Longrightarrow> r \<in> set (routers c) \<and> hasAddr c a r"
  by (auto simp: router_def find_Some_iff)

lemma router_less: "cds_ok c \<Longrightarrow> router a c = Some r \<Longrightarrow> r < nextRef c"
  using router_mem[of a c r] by (auto simp: cds_ok_def owners_ok_def)

lemma defaultRouter_less: "cds_ok c \<Longrightarrow> defaultRouter c = Some r \<Longrightarrow> r < nextRef c"
  by (auto simp: defaultRouter_def cds_ok_def owners_ok_def split: list.splits)

lemma setDefaultRouter_ok:
  assumes "setDefaultRouter w c = Inr c'" and "cds_ok c"
  shows "cds_ok c'"
proof -
  obtain r where r: "r \<in> set (routers c)" "c' = c\<lparr>routers := r # removeAll r (routers c)\<rparr>"
    using assms(1) by (auto simp: setDefaultRouter_def ASSERT_eq_Inr split: option.splits)
  have ok: "owners_ok (routers c) (neighbourCache c) (objs c) (nextRef c)" using assms(2) by (simp add: cds_ok_def)
  then have "distinct (routers c)" by (simp add: owners_ok_def)
  then have "owners_ok (r # removeAll r (routers c)) (neighbourCache c) (objs c) (nextRef c)"
    using r(1) by (intro owners_ok_routers_perm[OF ok]) (auto simp: distinct_removeAll)
  then show ?thesis using assms(2) by (simp add: r(2) cds_ok_def)
qed

lemma findNeighbourAndRemoveEntry_ok: "cds_ok c \<Longrightarrow> cds_ok (snd (findNeighbourAndRemoveEntry a c))"
  by (auto simp: findNeighbourAndRemoveEntry_def cds_ok_def release_def
      intro!: owners_ok_erase split: option.split)

lemma nc_removeNeighbourEntry_ok: "nc_removeNeighbourEntry a c = Inr c' \<Longrightarrow> cds_ok c \<Longrightarrow> cds_ok c'"
  using findNeighbourAndRemoveEntry_ok[of c a]
  by (auto simp: nc_removeNeighbourEntry_def ASSERT_eq_Inr split: prod.splits)

lemma nc_insertNeighbourEntry_ok:
  assumes "nc_insertNeighbourEntry ne c = (r, c')" and "cds_ok c"
  shows "cds_ok c' \<and> r < nextRef c'"
proof -
  have owners: "owners_ok (routers c) (neighbourCache c) (objs c) (nextRef c)" using assms(2) by (simp add: cds_ok_def)
  have nc: "map_ok (neighbourCache c)" using assms(2) by (simp add: cds_ok_def)
  let ?a = "unicastAddr ne"
  show ?thesis
  proof (cases "map_of (neighbourCache c) ?a")
    case None
    then show ?thesis using assms owners_ok_insert_nc[OF owners None]
      by (auto simp: nc_insertNeighbourEntry_def alloc_eq Let_def cds_ok_def pointers_ok_Suc)
  next
    case (Some q)
    have "owners_ok (routers c) (map_put ?a (nextRef c) (map_erase ?a (neighbourCache c)))
        (((objs c)(q := None))(nextRef c \<mapsto> ne)) (Suc (nextRef c))"
      by (rule owners_ok_insert_nc[OF owners_ok_erase[OF owners nc Some]]) (simp add: nc)
    moreover have "map_put ?a (nextRef c) (map_erase ?a (neighbourCache c)) = map_put ?a (nextRef c) (neighbourCache c)"
      using nc by (rule map_put_erase)
    moreover have "q < nextRef c" using owners_ok_ncD[OF owners Some] by simp
    then have "((objs c)(q := None))(nextRef c \<mapsto> ne) = ((objs c)(nextRef c \<mapsto> ne))(q := None)" by auto
    ultimately show ?thesis using assms Some
      by (auto simp: nc_insertNeighbourEntry_def alloc_eq Let_def cds_ok_def pointers_ok_Suc release_def)
  qed
qed

lemma insertNeighbourEntry_ok:
  assumes "insertNeighbourEntry ne c = (r, c')" and "cds_ok c"
  shows "cds_ok c'"
proof -
  obtain c1 where c1: "nc_insertNeighbourEntry ne c = (r, c1)"
    and c': "c' = setDestNeighbour (key_of (addr128 (unicastAddr ne))) (Some r) c1"
    using assms(1) by (auto simp: insertNeighbourEntry_def split: prod.splits)
  show ?thesis unfolding c'
    using nc_insertNeighbourEntry_ok[OF c1 assms(2)] by (intro setDestNeighbour_ok) auto
qed

lemma removeNeighbourEntry_ok: "removeNeighbourEntry a c = Inr c' \<Longrightarrow> cds_ok c \<Longrightarrow> cds_ok c'"
  using removeDestEntry_ok[of c a]
  by (auto simp: removeNeighbourEntry_def elim: nc_removeNeighbourEntry_ok split: prod.splits if_splits)

lemma removeDestinationEntry_ok: "cds_ok c \<Longrightarrow> cds_ok (removeDestinationEntry a c)"
  using removeDestEntry_ok[of c a]
  by (auto simp: removeDestinationEntry_def findNeighbourAndRemoveEntry_ok split: prod.splits)

lemma nextRef_remove [simp]:
  "nextRef (snd (removeDestEntry a c)) = nextRef c"
  "nextRef (snd (findNeighbourAndRemoveEntry a c)) = nextRef c"
  by (auto simp: removeDestEntry_def findNeighbourAndRemoveEntry_def release_def split: option.split)

lemma removeNeighbourEntry_nextRef:
  assumes "removeNeighbourEntry a c = Inr c'"
  shows "nextRef c' = nextRef c"
proof -
  obtain found c1 where c1: "removeDestEntry a c = (found, c1)" by fastforce
  obtain b c2 where c2: "findNeighbourAndRemoveEntry a c1 = (b, c2)" by fastforce
  have "nextRef c1 = nextRef c" "nextRef c2 = nextRef c1"
    using nextRef_remove(1)[of a c] nextRef_remove(2)[of a c1] c1 c2 by simp_all
  then show ?thesis
    using assms c1 c2
    by (auto simp: removeNeighbourEntry_def nc_removeNeighbourEntry_def ASSERT_eq_Inr split: if_splits)
qed

lemma insertRouterEntry_ok:
  assumes "insertRouterEntry re d c = Inr (r, c')" and "cds_ok c"
  shows "cds_ok c'"
proof -
  obtain c1 c2 where c1: "rl_insertRouterEntry re d c = (r, c1)"
    and c2: "removeNeighbourEntry (unicastAddr re) c1 = Inr c2"
    and c': "c' = setDestEntry (key_of (addr128 (unicastAddr re))) (new_DestinationEntry (Some r)) c2"
    using assms(1) by (auto simp: insertRouterEntry_def emap_eq_Inr split: prod.splits)
  have "cds_ok c1" "r < nextRef c1" using rl_insertRouterEntry_ok[OF c1 assms(2)] by auto
  then have "cds_ok c2" "r < nextRef c2"
    using removeNeighbourEntry_ok[OF c2] removeNeighbourEntry_nextRef[OF c2] by auto
  then show ?thesis unfolding c' by (intro setDestEntry_ok) (auto simp: new_DestinationEntry_def)
qed

section \<open>The operations as a step relation\<close>

text \<open>
  The changes the other modules make: a pointer stored in the destination cache is one that
  \<open>neighbour\<close>, \<open>router\<close> or \<open>defaultRouter\<close> returned, and an entry is changed in place without
  changing its address.
\<close>

inductive cds_step :: "CDS \<Rightarrow> CDS \<Rightarrow> bool" where
  insert_prefix: "cds_step c (insertPrefixEntry pe i c)"
| remove_prefix_entry: "removePrefixEntry pe c = Inr c' \<Longrightarrow> cds_step c c'"
| remove_prefix: "cds_step c (snd (removePrefix p c))"
| insert_neighbour: "insertNeighbourEntry ne c = (r, c') \<Longrightarrow> cds_step c c'"
| remove_neighbour: "removeNeighbourEntry a c = Inr c' \<Longrightarrow> cds_step c c'"
| remove_destination: "cds_step c (removeDestinationEntry a c)"
| insert_router: "insertRouterEntry re d c = Inr (r, c') \<Longrightarrow> cds_step c c'"
| remove_router: "cds_step c (removeRouterEntry a c)"
| set_default: "setDefaultRouter w c = Inr c' \<Longrightarrow> cds_step c c'"
| remove_by_neighbour: "cds_step c (snd (removeDestEntryByNeighbour a c))"
| remove_by_tunnel: "cds_step c (snd (removeDestEntryByTunnel i c))"
| update_by_neighbour: "updateDestEntryByNeighbour a n c = Inr (k, c') \<Longrightarrow> cds_step c c'"
| point_to: "w \<in> {dc_neighbour a c, router a c, defaultRouter c, None} \<Longrightarrow> cds_step c (setDestNeighbour k w c)"
| change_entry: "(\<And>ne. unicastAddr (f ne) = unicastAddr ne) \<Longrightarrow> cds_step c (upd_obj r f c)"

inductive_cases cds_stepE: "cds_step c c'"

lemma cds_step_ok: "cds_step c c' \<Longrightarrow> cds_ok c \<Longrightarrow> cds_ok c'"
proof (induction rule: cds_step.induct)
  case (point_to w a c k)
  then show ?case
    by (intro setDestNeighbour_ok) (auto simp: dc_neighbour_less router_less defaultRouter_less dest: sym)
next
  case (change_entry f c r)
  then show ?case by (intro upd_obj_ok)
qed (auto simp: removeDestEntryByNeighbour_def removeDestEntryByTunnel_def
    intro: insertPrefixEntry_ok removePrefix_ok removeDestinationEntry_ok removeRouterEntry_ok
      removeDestEntries_ok
    elim: removePrefixEntry_ok insertNeighbourEntry_ok removeNeighbourEntry_ok insertRouterEntry_ok
      setDefaultRouter_ok updateDestEntryByNeighbour_ok)

lemma cds_reachable_ok: "cds_step\<^sup>*\<^sup>* new_CDS c \<Longrightarrow> cds_ok c"
  by (induction rule: rtranclp_induct) (auto intro: cds_step_ok)


section \<open>Properties\<close>

text \<open>A prefix covers an address when its bits are the first bits of the address.\<close>

definition covers :: "AddrKey \<Rightarrow> ipv6_addr \<Rightarrow> bool" where
  "covers k a \<longleftrightarrow>
     (\<forall>i < (if key_len k = 0 then 128 else key_len k). addr_bit (key_addr k) i = addr_bit a i)"

lemma key_isNetwork_covers: "key_len k \<le> 128 \<Longrightarrow> key_isNetwork k a \<longleftrightarrow> covers k a"
  by (simp add: key_isNetwork_bits covers_def)

definition lengths_ok :: "(AddrKey, 'v) std_map \<Rightarrow> bool" where
  "lengths_ok xs \<longleftrightarrow> (\<forall>p \<in> set xs. key_len (fst p) \<le> 128)"

text \<open>The entry of a table with the longest prefix that covers an address, if any does.\<close>

definition longest_cover :: "(AddrKey, 'v) std_map \<Rightarrow> ipv6_addr \<Rightarrow> (AddrKey \<times> 'v) option \<Rightarrow> bool" where
  "longest_cover xs a r \<longleftrightarrow>
     (case r of
        None \<Rightarrow> \<forall>k v. map_of xs k = Some v \<longrightarrow> \<not> covers k a
      | Some (k, v) \<Rightarrow> map_of xs k = Some v \<and> covers k a \<and>
          (\<forall>k' v'. map_of xs k' = Some v' \<longrightarrow> covers k' a \<longrightarrow> key_len k' \<le> key_len k))"

lemma firstNetwork_covers:
  assumes "map_ok xs" and "lengths_ok xs"
  shows "longest_cover xs a (firstNetwork xs a)"
proof (cases "firstNetwork xs a")
  case None
  then show ?thesis using assms(2) firstNetwork_None[of xs a]
    by (auto simp: longest_cover_def lengths_ok_def key_isNetwork_covers dest!: map_of_SomeD)
next
  case (Some p)
  obtain k v where p: "p = (k, v)" by fastforce
  have *: "(k, v) \<in> set xs" "key_isNetwork k a"
    "\<And>p. p \<in> set xs \<Longrightarrow> key_isNetwork (fst p) a \<Longrightarrow> key_len (fst p) \<le> key_len k"
    using firstNetwork_longest[OF assms(1), of a k v] Some p by auto
  have "map_of xs k = Some v" using * map_ok_distinct[OF assms(1)] by simp
  moreover have "covers k a" using * assms(2) by (force simp: lengths_ok_def key_isNetwork_covers)
  moreover have "key_len k' \<le> key_len k" if "map_of xs k' = Some v'" "covers k' a" for k' v'
  proof -
    have "(k', v') \<in> set xs" using that(1) by (rule map_of_SomeD)
    then show ?thesis using *(3)[of "(k', v')"] assms(2) that(2)
      by (force simp: lengths_ok_def key_isNetwork_covers)
  qed
  ultimately show ?thesis using Some p by (auto simp: longest_cover_def)
qed

text \<open>
  C18: What the operations on the neighbour discovery tables keep. In every state they lead to
  from the empty one, the tables are ordered, an entry is alive exactly as long as the router
  list or the neighbour cache owns it, never both, the neighbour cache holds an entry under the
  entry's own address, and no table points to an entry that was never allocated.
\<close>

theorem neighbour_discovery_invariant:
  assumes "cds_step\<^sup>*\<^sup>* new_CDS c"
  shows "cds_ok c"
  using assms by (rule cds_reachable_ok)

definition example_router :: NeighbourEntry where
  "example_router = new_RouterEntry (Ipv6Addr 0xFE800000 0 0 1) 0 None 30"

lemma neighbour_discovery_invariant_witness:
  "\<exists>c. map_of (neighbourCache c) (Ipv6Addr 0xFE800000 0 0 2) = Some 0 \<and> cds_ok c"
proof -
  let ?ne = "new_NeighbourEntry (Ipv6Addr 0xFE800000 0 0 2) 0 None INCOMPLETE"
  obtain r c where c: "insertNeighbourEntry ?ne new_CDS = (r, c)" by fastforce
  then have "cds_step\<^sup>*\<^sup>* new_CDS c" by (blast intro: cds_step.insert_neighbour)
  then have "cds_ok c" by (rule neighbour_discovery_invariant)
  moreover have "map_of (neighbourCache c) (Ipv6Addr 0xFE800000 0 0 2) = Some 0"
    using c by (auto simp: insertNeighbourEntry_def nc_insertNeighbourEntry_def alloc_def new_CDS_def
        setDestNeighbour_def setDestEntry_def new_NeighbourEntry_def Let_def)
  ultimately show ?thesis by blast
qed

text \<open>
  On-link lookup and route lookup take the longest prefix. When a table has only prefixes
  of at most 128 bits, \<open>lookupAddress\<close> returns the interface of a prefix that covers the address
  and is the longest to do so, or nothing when none does; \<open>lookupDestination\<close>, for an address
  without an entry of its own, returns the neighbour of such an entry, and nothing when that
  entry is the one of the unspecified address. A prefix of length 0 covers only its own address.
\<close>

theorem lookups_take_longest_prefix:
  assumes "cds_ok c" and "lengths_ok (prefixList c)" and "lengths_ok (destCache c)"
    and "findDestEntry a c = None"
  shows "(\<exists>r. longest_cover (prefixList c) a r \<and> lookupAddress a c = map_option (\<lambda>(k, pe, i). i) r) \<and>
    (\<exists>r. longest_cover (destCache c) a r \<and>
       lookupDestination a c = (case r of None \<Rightarrow> None
         | Some (k, de) \<Rightarrow> if key_addr k = IPv6_ADDR_UNSPECIFIED then None else de_neighbour de))"
proof -
  have ok: "map_ok (prefixList c)" "map_ok (destCache c)" using assms(1) by (auto simp: cds_ok_def)
  show ?thesis
    using firstNetwork_covers[OF ok(1) assms(2), of a] firstNetwork_covers[OF ok(2) assms(3), of a] assms(4)
    by (auto simp: lookupAddress_def lookupDestination_def)
qed

definition example_prefixes :: CDS where
  "example_prefixes =
     insertPrefixEntry (PrefixEntry_of (Ipv6Addr 0x20010db8 0x10000 0 0) 48 100) 1
       (insertPrefixEntry (PrefixEntry_of (Ipv6Addr 0x20010db8 0 0 0) 32 100) 0 new_CDS)"

lemma example_prefixes:
  "cds_ok example_prefixes" "lengths_ok (prefixList example_prefixes)"
  "lengths_ok (destCache example_prefixes)" "findDestEntry a example_prefixes = None"
  by (auto simp: example_prefixes_def insertPrefixEntry_ok)
    (auto simp: lengths_ok_def findDestEntry_def insertPrefixEntry_def new_CDS_def key_of_def
      PrefixEntry_of_def new_PrefixEntry_def less_AddrKey_def)

lemma example_prefixes_lookup: "lookupAddress (Ipv6Addr 0x20010db8 0x10000 0 1) example_prefixes = Some 1"
  by code_simp

lemma lookups_take_longest_prefix_witness:
  "\<exists>k pe. longest_cover (prefixList example_prefixes) (Ipv6Addr 0x20010db8 0x10000 0 1) (Some (k, pe, 1))"
proof -
  obtain r where r: "longest_cover (prefixList example_prefixes) (Ipv6Addr 0x20010db8 0x10000 0 1) r"
    "Some 1 = map_option (\<lambda>(k, pe, i). i) r"
    using lookups_take_longest_prefix[OF example_prefixes, of "Ipv6Addr 0x20010db8 0x10000 0 1"]
    unfolding example_prefixes_lookup by blast
  then show ?thesis by (cases r) auto
qed

text \<open>
  A router that expired cannot come back. The entry of the destination cache for a router
  stays behind when the router is removed from the list, so that inserting the router again, as
  the next advertisement does, finds a destination entry without a neighbour to erase and fails
  an assertion.
\<close>

theorem expired_router_cannot_return:
  assumes "insertRouterEntry re d c = Inr (r, c1)" and "cds_ok c"
    and "findDestEntry (unicastAddr re) c \<noteq> None \<or> map_of (neighbourCache c) (unicastAddr re) = None"
    and "unicastAddr re' = unicastAddr re"
  shows "insertRouterEntry re' d' (removeRouterEntry (unicastAddr re) c1) =
    Inl (AssertFailed ''INeighbourCache::removeNeighbourEntry'')"
proof -
  let ?a = "unicastAddr re"
  obtain c2 c3 where c2: "rl_insertRouterEntry re d c = (r, c2)"
    and c3: "removeNeighbourEntry ?a c2 = Inr c3"
    and c1: "c1 = setDestEntry (key_of (addr128 ?a)) (new_DestinationEntry (Some r)) c3"
    using assms(1) by (auto simp: insertRouterEntry_def emap_eq_Inr split: prod.splits)
  have "cds_ok c2" using rl_insertRouterEntry_ok[OF c2 assms(2)] by blast
  moreover have "destCache c2 = destCache c" "neighbourCache c2 = neighbourCache c"
    using c2 by (auto simp: rl_insertRouterEntry_def alloc_def)
  ultimately have nc: "map_of (neighbourCache c3) ?a = None"
    using c3 assms(3)
    by (auto simp: removeNeighbourEntry_def removeDestEntry_def findDestEntry_def nc_removeNeighbourEntry_def
        findNeighbourAndRemoveEntry_def release_def cds_ok_def ASSERT_eq_Inr split: option.splits if_splits)
  have dc: "findDestEntry ?a (c\<lparr>routers := rs, objs := ob, nextRef := n\<rparr>) = findDestEntry ?a c" for c rs ob n
    by (simp add: findDestEntry_def)
  define c4 where "c4 = snd (rl_insertRouterEntry re' d' (removeRouterEntry ?a c1))"
  have "neighbourCache c4 = neighbourCache c3" "destCache c4 = destCache c1"
    by (auto simp: c4_def c1 rl_insertRouterEntry_def alloc_def removeRouterEntry_def release_def
        setDestEntry_def split: option.splits)
  then have "findDestEntry ?a c4 \<noteq> None" "map_of (neighbourCache c4) ?a = None"
    using nc by (simp_all add: findDestEntry_def c1 setDestEntry_def)
  then have "removeNeighbourEntry ?a c4 = Inl (AssertFailed ''INeighbourCache::removeNeighbourEntry'')"
    by (auto simp: removeNeighbourEntry_def removeDestEntry_def nc_removeNeighbourEntry_def
        findNeighbourAndRemoveEntry_def)
  then show ?thesis
    unfolding c4_def insertRouterEntry_def assms(4)
    by (cases "rl_insertRouterEntry re' d' (removeRouterEntry ?a c1)") simp
qed

lemma expired_router_cannot_return_witness:
  "\<exists>r c. insertRouterEntry example_router False new_CDS = Inr (r, c) \<and>
     insertRouterEntry example_router False (removeRouterEntry (Ipv6Addr 0xFE800000 0 0 1) c) =
       Inl (AssertFailed ''INeighbourCache::removeNeighbourEntry'')"
proof -
  have addr: "unicastAddr example_router = Ipv6Addr 0xFE800000 0 0 1"
    by (simp add: example_router_def new_RouterEntry_def new_NeighbourEntry_def)
  obtain r c where c: "insertRouterEntry example_router False new_CDS = Inr (r, c)"
    by (simp add: insertRouterEntry_def rl_insertRouterEntry_def alloc_def removeNeighbourEntry_def
        removeDestEntry_def findDestEntry_def new_CDS_def)
  then show ?thesis
    using expired_router_cannot_return[OF c cds_ok_new _ refl, of False] addr by (auto simp: new_CDS_def)
qed

text \<open>
  Neighbour advertisements (RFC 2461, 7.2.5). An advertisement keeps the rule that an entry
  that is not incomplete has a link layer address; an incomplete entry stays incomplete exactly
  when the advertisement carries no address; the pending packets are sent only when the entry has
  an address to send them to; without the override flag a cached address is not replaced.
  A solicitation breaks the rule: one without a link layer address erases the cached address and
  leaves the entry in the state \<open>STALE\<close>.
\<close>

theorem neighbour_update_keeps_address:
  assumes "ne_ok ne"
  shows "ne_ok (snd (update_na na ne)) \<and>
    (ne_state (snd (update_na na ne)) = INCOMPLETE \<longleftrightarrow> ne_state ne = INCOMPLETE \<and> na_targetLLAddr na = '''') \<and>
    (fst (update_na na ne) \<longrightarrow> linkLayerAddr (snd (update_na na ne)) \<noteq> '''') \<and>
    (ne_state ne \<noteq> INCOMPLETE \<and> \<not> na_override na \<longrightarrow>
       linkLayerAddr (snd (update_na na ne)) = linkLayerAddr ne) \<and>
    (linkLayerAddr ne \<noteq> '''' \<and> ns_srcLLAddr ns = '''' \<longrightarrow> \<not> ne_ok (update_ns ns ne))"
  using assms by (auto simp: ne_ok_def update_na_def update_ns_def Let_def)

lemma neighbour_update_keeps_address_witness:
  "ne_ok (snd (update_na \<lparr>na_src = IPv6_ADDR_UNSPECIFIED, na_inputPort = 0, na_targetLLAddr = ''a'',
      na_isRouter = False, na_solicited = True, na_override = True\<rparr>
      (new_NeighbourEntry IPv6_ADDR_UNSPECIFIED 0 None INCOMPLETE)))"
proof -
  have "ne_ok (new_NeighbourEntry IPv6_ADDR_UNSPECIFIED 0 None INCOMPLETE)"
    by (simp add: ne_ok_def new_NeighbourEntry_def)
  from neighbour_update_keeps_address[OF this] show ?thesis by blast
qed

end
