(* ===== verification/Expiry_List.thy ===== *)
theory Expiry_List
  imports Prelude "HOL-Library.Multiset"
begin

text \<open>
  A list of entries that expire, with one timer for all of them:
  \<open>Util/ExpiryEntryListSignal.h\<close>, with the \<open>reschedule\<close> and \<open>rescheduleDelay\<close> of
  \<open>Util/cTimerMessage.h\<close>. The container is a vector in heap order; of that order only the front
  is modelled, an entry that expires first (the leftmost of them), since the code reads no other
  position. The entries are pointers: the expiry time of an entry is read through a function that
  is None where the pointer dangles, and reading it there is an error.
\<close>

record 'a ExpiryList =
  el_entries :: "'a list"
  el_started :: bool
  el_sig :: "simtime option"
  el_relative :: bool

definition new_ExpiryList :: "bool \<Rightarrow> 'a ExpiryList" where
  "new_ExpiryList relative =
     \<lparr>el_entries = [], el_started = False, el_sig = None, el_relative = relative\<rparr>"

definition startTimer :: "'a ExpiryList \<Rightarrow> 'a ExpiryList result" where
  "startTimer l = ASSERT (\<not> el_started l) ''startTimer'' (Inr (l\<lparr>el_started := True\<rparr>))"

fun earliest :: "('a \<Rightarrow> simtime) \<Rightarrow> 'a \<Rightarrow> 'a list \<Rightarrow> 'a" where
  "earliest due x [] = x"
| "earliest due x (y # ys) = earliest due (if due y < due x then y else x) ys"

definition make_heap :: "('a \<Rightarrow> simtime) \<Rightarrow> 'a list \<Rightarrow> 'a list" where
  "make_heap due xs = (case xs of [] \<Rightarrow> [] | x # ys \<Rightarrow>
     let m = earliest due x ys in m # remove1 m xs)"

text \<open>Every comparison of the heap reads its entries.\<close>

definition readable :: "('a \<Rightarrow> simtime option) \<Rightarrow> 'a list \<Rightarrow> 'b result \<Rightarrow> 'b result" where
  "readable due xs k = (if \<exists>x \<in> set xs. due x = None then Inl (NullPointer ''expiryTime'') else k)"

definition el_reschedule :: "('a \<Rightarrow> simtime option) \<Rightarrow> simtime \<Rightarrow> 'a ExpiryList \<Rightarrow> 'a ExpiryList result" where
  "el_reschedule due now l =
     (case el_entries l of
        [] \<Rightarrow> Inl (NullPointer ''front() of an empty container'')
      | x # _ \<Rightarrow>
          let t = the (due x); arrival = (if el_relative l then now + t else t)
          in if \<not> el_started l then Inl (NullPointer ''sig'')
             else if arrival < now then Inl (TimerMisuse ''scheduleAt'')
             else Inr (l\<lparr>el_sig := Some arrival\<rparr>))"

definition sortAndReset :: "('a \<Rightarrow> simtime option) \<Rightarrow> simtime \<Rightarrow> 'a ExpiryList \<Rightarrow> 'a ExpiryList result" where
  "sortAndReset due now l =
     readable due (el_entries l)
       (el_reschedule due now
          (l\<lparr>el_entries := make_heap (\<lambda>x. the (due x)) (el_entries l), el_sig := None\<rparr>))"

definition el_remove :: "('a \<Rightarrow> simtime option) \<Rightarrow> simtime \<Rightarrow> 'a \<Rightarrow> 'a ExpiryList \<Rightarrow> 'a ExpiryList result" where
  "el_remove due now p l =
     (if p \<notin> set (el_entries l) then Inr l
      else sortAndReset due now (l\<lparr>el_entries := remove1 p (el_entries l)\<rparr>))"

definition addOrUpdate :: "('a \<Rightarrow> simtime option) \<Rightarrow> simtime \<Rightarrow> 'a \<Rightarrow> 'a ExpiryList \<Rightarrow> 'a ExpiryList result" where
  "addOrUpdate due now p l =
     sortAndReset due now (l\<lparr>el_entries := removeAll p (el_entries l) @ [p]\<rparr>)"

definition el_clear :: "'a ExpiryList \<Rightarrow> 'a ExpiryList" where
  "el_clear l = l\<lparr>el_entries := [], el_sig := None\<rparr>"

text \<open>
  \<open>removeExpiredEntry\<close>, the handler of the timer, in two halves around the callback: the first
  gives the entry the callback is called with, the second drops it and sets the timer for the
  next one.
\<close>

definition expiredEntry :: "('a \<Rightarrow> simtime option) \<Rightarrow> 'a ExpiryList \<Rightarrow> ('a option \<times> 'a ExpiryList) result" where
  "expiredEntry due l =
     (case el_entries l of
        [] \<Rightarrow> Inr (None, l)
      | x # xs \<Rightarrow>
          readable due (el_entries l)
            (Inr (Some x, l\<lparr>el_entries := make_heap (\<lambda>x. the (due x)) xs @ [x]\<rparr>)))"

definition dropExpired :: "('a \<Rightarrow> simtime option) \<Rightarrow> simtime \<Rightarrow> 'a ExpiryList \<Rightarrow> 'a ExpiryList result" where
  "dropExpired due now l =
     (let l = l\<lparr>el_entries := butlast (el_entries l)\<rparr> in
      if el_entries l = [] then Inr l
      else ASSERT (el_sig l = None) ''removeExpiredEntry''
        (if due (hd (el_entries l)) = None then Inl (NullPointer ''expiryTime'')
         else el_reschedule due now l))"

section \<open>The front of the heap and the time of the timer\<close>

lemma earliest_mem: "earliest due x xs \<in> set (x # xs)"
  by (induction xs arbitrary: x) (auto split: if_splits)

lemma earliest_le_start: "due (earliest due x xs) \<le> due x"
proof (induction xs arbitrary: x)
  case (Cons z zs)
  show ?case using Cons[of z] Cons[of x] by auto
qed simp

lemma earliest_le: "y \<in> set (x # xs) \<Longrightarrow> due (earliest due x xs) \<le> due y"
proof (induction xs arbitrary: x)
  case (Cons z zs)
  have "due (earliest due z zs) \<le> due z" "due (earliest due x zs) \<le> due x"
    by (rule earliest_le_start)+
  then show ?case using Cons.IH[of x] Cons.IH[of z] Cons.prems by auto
qed simp

lemma mset_make_heap [simp]: "mset (make_heap due xs) = mset xs"
proof (cases xs)
  case (Cons x ys)
  have "earliest due x ys \<in># mset (x # ys)" using earliest_mem[of due x ys] by simp
  then show ?thesis unfolding Cons make_heap_def Let_def list.case mset.simps mset_remove1
    by (rule insert_DiffM)
qed (simp add: make_heap_def)

lemma set_make_heap [simp]: "set (make_heap due xs) = set xs"
  using mset_make_heap by (rule mset_eq_setD)

lemma length_make_heap [simp]: "length (make_heap due xs) = length xs"
  using mset_make_heap by (rule mset_eq_length)

lemma make_heap_Nil [simp]: "make_heap due [] = []"
  by (simp add: make_heap_def)

lemma make_heap_eq_Nil [simp]: "make_heap due xs = [] \<longleftrightarrow> xs = []"
  using length_make_heap[of due xs] by (metis length_0_conv)

lemma make_heap_front:
  assumes "make_heap due xs = m # r" and "y \<in> set xs"
  shows "due m \<le> due y"
proof (cases xs)
  case (Cons x ys)
  then have "m = earliest due x ys" using assms(1) by (simp add: make_heap_def Let_def)
  then show ?thesis using earliest_le[of y x ys due] assms(2) Cons by simp
qed (use assms in simp)

text \<open>A list is armed when its timer is scheduled exactly as long as it has an entry.\<close>

definition armed :: "'a ExpiryList \<Rightarrow> bool" where
  "armed l \<longleftrightarrow> el_started l \<and> (el_sig l \<noteq> None \<longleftrightarrow> el_entries l \<noteq> [])"

lemma sortAndReset_Inr:
  assumes "sortAndReset due now l = Inr l'"
  shows "set (el_entries l') = set (el_entries l)" and "armed l'" and "el_relative l' = el_relative l"
    and "\<exists>x \<in> set (el_entries l). \<exists>t. due x = Some t \<and>
      el_sig l' = Some (if el_relative l then now + t else t) \<and>
      (\<forall>y \<in> set (el_entries l). t \<le> the (due y))"
proof -
  let ?h = "make_heap (\<lambda>x. the (due x)) (el_entries l)"
  obtain x xs where h: "?h = x # xs" and ok: "\<forall>x \<in> set (el_entries l). due x \<noteq> None"
    and l': "l' = l\<lparr>el_entries := ?h, el_sig := Some (if el_relative l then now + the (due x) else the (due x))\<rparr>"
    and st: "el_started l"
    using assms
    by (auto simp: sortAndReset_def readable_def el_reschedule_def Let_def split: list.splits if_splits)
  show "set (el_entries l') = set (el_entries l)" by (simp add: l')
  show "armed l'" "el_relative l' = el_relative l" using st h by (auto simp: l' armed_def)
  have "x \<in> set (el_entries l)" using h set_make_heap[of "\<lambda>x. the (due x)" "el_entries l"] by auto
  moreover have "\<forall>y \<in> set (el_entries l). the (due x) \<le> the (due y)"
    using make_heap_front[OF h] by blast
  ultimately show "\<exists>x \<in> set (el_entries l). \<exists>t. due x = Some t \<and>
      el_sig l' = Some (if el_relative l then now + t else t) \<and>
      (\<forall>y \<in> set (el_entries l). t \<le> the (due y))"
    using ok by (intro bexI[of _ x] exI[of _ "the (due x)"]) (auto simp: l')
qed

lemma el_remove_last: "el_entries l = [p] \<Longrightarrow> el_remove due now p l = Inl (NullPointer ''front() of an empty container'')"
  by (simp add: el_remove_def sortAndReset_def readable_def el_reschedule_def)


section \<open>Properties\<close>

text \<open>
  Lifetimes start again with every change of the list. The lists of routers and prefixes
  hold relative lifetimes, and the timer is set to the shortest of them from now, however long
  the entries have been waiting: an entry that lives longer than another one added at the same
  time expires only after both lifetimes, one after the other. Removing the only entry of a list
  reads the front of an empty container.
\<close>

theorem lifetimes_start_again:
  assumes "due p = Some t" and "due q = Some u" and "t \<le> u" and "0 \<le> t" and "p \<noteq> q"
    and "el_started l" and "el_relative l" and "el_entries l = []"
  shows "\<exists>l1 l2 l3 l4.
    addOrUpdate due now p l = Inr l1 \<and> el_sig l1 = Some (now + t) \<and>
    addOrUpdate due now q l1 = Inr l2 \<and> el_sig l2 = Some (now + t) \<and>
    expiredEntry due (l2\<lparr>el_sig := None\<rparr>) = Inr (Some p, l3) \<and>
    dropExpired due (now + t) l3 = Inr l4 \<and> el_entries l4 = [q] \<and> el_sig l4 = Some (now + t + u) \<and>
    el_remove due (now + t) q l4 = Inl (NullPointer ''front() of an empty container'')"
proof -
  define l1 where "l1 = l\<lparr>el_entries := [p], el_sig := Some (now + t)\<rparr>"
  define l2 where "l2 = l\<lparr>el_entries := [p, q], el_sig := Some (now + t)\<rparr>"
  define l3 where "l3 = l\<lparr>el_entries := [q, p], el_sig := None\<rparr>"
  define l4 where "l4 = l\<lparr>el_entries := [q], el_sig := Some (now + t + u)\<rparr>"
  note defs = addOrUpdate_def sortAndReset_def readable_def el_reschedule_def make_heap_def Let_def
  have "addOrUpdate due now p l = Inr l1" using assms by (simp add: defs l1_def)
  moreover have "addOrUpdate due now q l1 = Inr l2" using assms by (simp add: defs l1_def l2_def)
  moreover have "expiredEntry due (l2\<lparr>el_sig := None\<rparr>) = Inr (Some p, l3)"
    using assms by (simp add: expiredEntry_def defs l2_def l3_def)
  moreover have "dropExpired due (now + t) l3 = Inr l4"
    using assms by (simp add: dropExpired_def defs l3_def l4_def)
  moreover have "el_remove due (now + t) q l4 = Inl (NullPointer ''front() of an empty container'')"
    by (rule el_remove_last) (simp add: l4_def)
  ultimately show ?thesis by (intro exI[of _ l1] exI[of _ l2] exI[of _ l3] exI[of _ l4]) (simp add: l1_def l2_def l4_def)
qed

lemma lifetimes_start_again_witness:
  "\<exists>l4 :: nat ExpiryList. el_entries l4 = [1] \<and> el_sig l4 = Some 30"
  using lifetimes_start_again[of "\<lambda>n :: nat. Some (if n = 0 then 10 else 20)" 0 10 1 20
      "(new_ExpiryList True)\<lparr>el_started := True\<rparr>" 0]
  by (auto simp: new_ExpiryList_def)

end
