(* ===== verification/IPv6_Routing.thy ===== *)
theory IPv6_Routing
  imports IPv6_CDS Expiry_List
begin

text \<open>
  The IPv6 data of an interface (\<open>Network/IPv6/IPv6InterfaceData.cc\<close>) and the routing table
  module (\<open>Network/IPv6/RoutingTable6.cc\<close>), which holds the neighbour discovery tables, the
  two lists of expiring routers and prefixes, and the timer for the lifetimes of addresses.
  Interfaces are numbered by their port; asking for one that does not exist gives a null pointer,
  whose use is an error. A pointer to a router in the list \<open>rel\<close> is the identity of its entry, a
  pointer to a prefix in \<open>pel\<close> is the key of the entry in the prefix list. That a reallocation of
  a vector clears the update flags of the addresses it copies is not modelled.
\<close>

section \<open>\<open>IPv6InterfaceData\<close>\<close>

record IPv6InterfaceData =
  inetAddrs :: "IPv6Address list"
  tentativeAddrs :: "IPv6Address list"
  curHopLimit :: int
  if_mtu :: nat
  llAddrStr :: string

definition addrIn :: "IPv6Address list \<Rightarrow> ipv6_addr \<Rightarrow> bool" where
  "addrIn addrs addr \<longleftrightarrow> (\<exists>a \<in> set addrs. m_addr a = addr)"

definition if_addrAssigned :: "ipv6_addr \<Rightarrow> IPv6InterfaceData \<Rightarrow> bool" where
  "if_addrAssigned addr ie = addrIn (inetAddrs ie) addr"

definition tentativeAddrAssigned :: "ipv6_addr \<Rightarrow> IPv6InterfaceData \<Rightarrow> bool" where
  "tentativeAddrAssigned addr ie = addrIn (tentativeAddrs ie) addr"

text \<open>
  \<open>addrs.erase(std::remove(begin, end, addr))\<close>: \<open>remove\<close> assigns the addresses it keeps to the
  first slots, and \<open>erase\<close> with one iterator erases one slot, at the end of those kept. When none
  was removed that slot does not exist, which is undefined.
\<close>

definition removeAddrFromArray :: "IPv6Address \<Rightarrow> IPv6Address list \<Rightarrow> IPv6Address list option" where
  "removeAddrFromArray addr addrs =
     (let kept = filter (\<lambda>a. \<not> IPv6Address_eq a addr) addrs;
          m = length kept;
          slots = map2 assign_IPv6Address addrs kept @ drop m addrs
      in if m = length addrs then None
         else Some (take m slots @ map2 assign_IPv6Address (drop m slots) (drop (m + 1) slots)))"

definition undefined_erase :: sim_error where
  "undefined_erase = Exception ''erase(end())''"

definition if_removeAddress :: "IPv6Address \<Rightarrow> IPv6InterfaceData \<Rightarrow> IPv6InterfaceData result" where
  "if_removeAddress addr ie =
     ASSERT (if_addrAssigned (m_addr addr) ie) ''IPv6InterfaceData::removeAddress''
       (case removeAddrFromArray addr (inetAddrs ie) of
          None \<Rightarrow> Inl undefined_erase
        | Some addrs \<Rightarrow> Inr (ie\<lparr>inetAddrs := addrs\<rparr>))"

definition removeTentativeAddress :: "IPv6Address \<Rightarrow> IPv6InterfaceData \<Rightarrow> IPv6InterfaceData result" where
  "removeTentativeAddress addr ie =
     (case removeAddrFromArray addr (tentativeAddrs ie) of
        None \<Rightarrow> Inl undefined_erase
      | Some addrs \<Rightarrow> Inr (ie\<lparr>tentativeAddrs := addrs\<rparr>))"

definition elapseLifetime :: "uint32 \<Rightarrow> IPv6Address \<Rightarrow> IPv6Address" where
  "elapseLifetime seconds a =
     (if m_storedLifetime a = VALID_LIFETIME_INFINITY then a
      else if m_updated a then a\<lparr>m_updated := False\<rparr>
      else a\<lparr>m_storedLifetime :=
               (if m_storedLifetime a < seconds then 0 else m_storedLifetime a - seconds),
             m_preferredLifetime :=
               (if m_preferredLifetime a \<ge> seconds then 0 else m_preferredLifetime a - seconds)\<rparr>)"

definition if_elapseLifetimes :: "uint32 \<Rightarrow> IPv6InterfaceData \<Rightarrow> IPv6InterfaceData" where
  "if_elapseLifetimes seconds ie =
     ie\<lparr>inetAddrs := take 1 (inetAddrs ie) @ map (elapseLifetime seconds) (drop 1 (inetAddrs ie))\<rparr>"

definition if_minValidLifetime :: "IPv6InterfaceData \<Rightarrow> uint32 result" where
  "if_minValidLifetime ie =
     foldl (\<lambda>m a. ebind m (\<lambda>minLifetime.
        ASSERT (m_storedLifetime a > 0) ''IPv6InterfaceData::minValidLifetime''
          (Inr (if m_storedLifetime a \<le> minLifetime then m_storedLifetime a else minLifetime))))
       (Inr VALID_LIFETIME_INFINITY) (drop 1 (inetAddrs ie))"

definition if_matchPrefix :: "ipv6_addr \<Rightarrow> nat \<Rightarrow> bool \<Rightarrow> IPv6InterfaceData \<Rightarrow> IPv6Address" where
  "if_matchPrefix prfx prefixLength tentative ie =
     (case List.find (\<lambda>a. isNetwork6 a prfx)
        (inetAddrs ie @ (if tentative then tentativeAddrs ie else [])) of
        Some a \<Rightarrow> copy_IPv6Address a
      | None \<Rightarrow> addr128 IPv6_ADDR_UNSPECIFIED)"

section \<open>\<open>RoutingTable6\<close>\<close>

text \<open>The timer message of the address lifetimes, with the times it was last sent for.\<close>

record AddrTimer =
  tm_sendingTime :: simtime
  tm_arrivalTime :: simtime
  tm_scheduled :: bool

record RT6 =
  ifaces :: "IPv6InterfaceData list"
  cds :: CDS
  IPForward :: bool
  forwardSitePacket :: bool
  odadSupport :: bool
  multicastGroup :: "ipv6_addr list"
  rel :: "ref ExpiryList"
  pel :: "AddrKey ExpiryList"
  addrExpiryTmr :: "AddrTimer option"

text \<open>Stages 0 and 1 of \<open>initialize\<close>, before the XML configuration is read.\<close>

definition RT6_initialize :: "IPv6InterfaceData list \<Rightarrow> RT6" where
  "RT6_initialize ifs =
     \<lparr>ifaces = ifs, cds = new_CDS, IPForward = False, forwardSitePacket = True,
      odadSupport = False, multicastGroup = [],
      rel = (new_ExpiryList True)\<lparr>el_started := True\<rparr>,
      pel = (new_ExpiryList True)\<lparr>el_started := True\<rparr>, addrExpiryTmr = None\<rparr>"

abbreviation upd_cds :: "(CDS \<Rightarrow> CDS) \<Rightarrow> RT6 \<Rightarrow> RT6" where
  "upd_cds f rt \<equiv> rt\<lparr>cds := f (cds rt)\<rparr>"

definition ifaceAt :: "nat \<Rightarrow> RT6 \<Rightarrow> (IPv6InterfaceData \<Rightarrow> 'a result) \<Rightarrow> 'a result" where
  "ifaceAt i rt k = (if i < length (ifaces rt) then k (ifaces rt ! i) else Inl (NullPointer ''interfaceByPortNo''))"

definition setIface :: "nat \<Rightarrow> IPv6InterfaceData \<Rightarrow> RT6 \<Rightarrow> RT6" where
  "setIface i ie rt = rt\<lparr>ifaces := (ifaces rt)[i := ie]\<rparr>"

definition numInterfaceGates6 :: "RT6 \<Rightarrow> nat" where
  "numInterfaceGates6 rt = length (ifaces rt)"

definition setForwardPackets :: "bool \<Rightarrow> RT6 \<Rightarrow> RT6" where
  "setForwardPackets forward rt = rt\<lparr>IPForward := True\<rparr>"

subsection \<open>Routers and prefixes that expire\<close>

definition routerExpiry :: "RT6 \<Rightarrow> ref \<Rightarrow> simtime option" where
  "routerExpiry rt r =
     map_option (\<lambda>p. real (unat (invalidTime p))) (Option.bind (objs (cds rt) r) router_part)"

definition prefixExpiry :: "RT6 \<Rightarrow> AddrKey \<Rightarrow> simtime option" where
  "prefixExpiry rt k = map_option (\<lambda>pe. real (unat (advValidLifetime pe))) (getPrefixEntry k (cds rt))"

definition rt_insertPrefixEntry :: "simtime \<Rightarrow> PrefixEntry \<Rightarrow> nat \<Rightarrow> RT6 \<Rightarrow> RT6 result" where
  "rt_insertPrefixEntry now pe ifIndex rt =
     (let rt = upd_cds (insertPrefixEntry pe ifIndex) rt in
      if advValidLifetime pe \<noteq> VALID_LIFETIME_INFINITY then
        emap (\<lambda>l. rt\<lparr>pel := l\<rparr>) (addOrUpdate (prefixExpiry rt) now (key_of (pe_prefix pe)) (pel rt))
      else Inr rt)"

definition rt_removePrefixEntry :: "simtime \<Rightarrow> AddrKey \<Rightarrow> RT6 \<Rightarrow> RT6 result" where
  "rt_removePrefixEntry now k rt =
     (case getPrefixEntry k (cds rt) of
        None \<Rightarrow> Inl (AssertFailed ''removePrefixEntry'')
      | Some ppe \<Rightarrow>
          ebind (if advValidLifetime ppe \<noteq> VALID_LIFETIME_INFINITY
                 then emap (\<lambda>l. rt\<lparr>pel := l\<rparr>) (el_remove (prefixExpiry rt) now k (pel rt))
                 else Inr rt)
            (\<lambda>rt. emap (\<lambda>c. rt\<lparr>cds := c\<rparr>) (removePrefixEntry ppe (cds rt))))"

definition rt_insertRouterEntry :: "simtime \<Rightarrow> NeighbourEntry \<Rightarrow> bool \<Rightarrow> RT6 \<Rightarrow> (ref \<times> RT6) result" where
  "rt_insertRouterEntry now re setDefault rt =
     ebind (insertRouterEntry re setDefault (cds rt)) (\<lambda>(r, c).
       let rt = rt\<lparr>cds := c\<rparr> in
       if map_option invalidTime (router_part re) \<noteq> Some VALID_LIFETIME_INFINITY then
         emap (\<lambda>l. (r, rt\<lparr>rel := l\<rparr>)) (addOrUpdate (routerExpiry rt) now r (rel rt))
       else Inr (r, rt))"

definition rt_removeRouterEntry :: "simtime \<Rightarrow> ref \<Rightarrow> RT6 \<Rightarrow> RT6 result" where
  "rt_removeRouterEntry now r rt =
     (case objs (cds rt) r of
        None \<Rightarrow> Inl (NullPointer ''removeRouterEntry'')
      | Some re \<Rightarrow>
          ebind (if map_option invalidTime (router_part re) \<noteq> Some VALID_LIFETIME_INFINITY
                 then emap (\<lambda>l. rt\<lparr>rel := l\<rparr>) (el_remove (routerExpiry rt) now r (rel rt))
                 else Inr rt)
            (\<lambda>rt. Inr (upd_cds (removeRouterEntry (unicastAddr re)) rt)))"

text \<open>The timers of the two lists, with their callbacks \<open>routerTimeout\<close> and \<open>prefixTimeout\<close>.\<close>

definition routerTimeout :: "ref \<Rightarrow> RT6 \<Rightarrow> RT6 result" where
  "routerTimeout r rt =
     (case objs (cds rt) r of
        None \<Rightarrow> Inl (NullPointer ''routerTimeout'')
      | Some re \<Rightarrow> Inr (upd_cds (removeRouterEntry (unicastAddr re)) rt))"

definition prefixTimeout :: "AddrKey \<Rightarrow> RT6 \<Rightarrow> RT6 result" where
  "prefixTimeout k rt =
     (case getPrefixEntry k (cds rt) of
        None \<Rightarrow> Inl (NullPointer ''prefixTimeout'')
      | Some ppe \<Rightarrow> emap (\<lambda>c. rt\<lparr>cds := c\<rparr>) (removePrefixEntry ppe (cds rt)))"

definition routersExpire :: "simtime \<Rightarrow> RT6 \<Rightarrow> RT6 result" where
  "routersExpire now rt =
     ebind (expiredEntry (routerExpiry rt) ((rel rt)\<lparr>el_sig := None\<rparr>)) (\<lambda>(e, l).
       let rt = rt\<lparr>rel := l\<rparr> in
       case e of
         None \<Rightarrow> Inr rt
       | Some r \<Rightarrow>
           ebind (routerTimeout r rt) (\<lambda>rt.
             emap (\<lambda>l. rt\<lparr>rel := l\<rparr>) (dropExpired (routerExpiry rt) now (rel rt))))"

definition prefixesExpire :: "simtime \<Rightarrow> RT6 \<Rightarrow> RT6 result" where
  "prefixesExpire now rt =
     ebind (expiredEntry (prefixExpiry rt) ((pel rt)\<lparr>el_sig := None\<rparr>)) (\<lambda>(e, l).
       let rt = rt\<lparr>pel := l\<rparr> in
       case e of
         None \<Rightarrow> Inr rt
       | Some k \<Rightarrow>
           ebind (prefixTimeout k rt) (\<lambda>rt.
             emap (\<lambda>l. rt\<lparr>pel := l\<rparr>) (dropExpired (prefixExpiry rt) now (pel rt))))"


subsection \<open>Addresses and their lifetimes\<close>

definition rt_removeAddress :: "IPv6Address \<Rightarrow> nat \<Rightarrow> RT6 \<Rightarrow> RT6 result" where
  "rt_removeAddress addr ifIndex rt =
     ifaceAt ifIndex rt (\<lambda>ie. emap (\<lambda>ie. setIface ifIndex ie rt) (if_removeAddress addr ie))"

definition rt_removeAddress_bare :: "ipv6_addr \<Rightarrow> nat \<Rightarrow> RT6 \<Rightarrow> RT6 result" where
  "rt_removeAddress_bare addr ifIndex rt = rt_removeAddress (addr128 addr) ifIndex rt"

definition addrAssigned :: "ipv6_addr \<Rightarrow> nat \<Rightarrow> RT6 \<Rightarrow> bool result" where
  "addrAssigned addr ifIndex rt = ifaceAt ifIndex rt (\<lambda>ie. Inr (if_addrAssigned addr ie))"

definition elapseLifetimes :: "uint32 \<Rightarrow> RT6 \<Rightarrow> RT6" where
  "elapseLifetimes seconds rt = rt\<lparr>ifaces := map (if_elapseLifetimes seconds) (ifaces rt)\<rparr>"

text \<open>The inner loop of \<open>invalidateAddresses\<close>, on one interface.\<close>

lemma removeAddrFromArray_length:
  assumes "removeAddrFromArray addr addrs = Some addrs'"
  shows "length addrs' < length addrs"
proof -
  let ?kept = "filter (\<lambda>a. \<not> IPv6Address_eq a addr) addrs"
  have "length ?kept \<noteq> length addrs" using assms by (auto simp: removeAddrFromArray_def Let_def)
  then have "length ?kept < length addrs" using length_filter_le[of _ addrs] le_neq_implies_less by blast
  then show ?thesis using assms by (auto simp: removeAddrFromArray_def Let_def)
qed

function invalidateFrom :: "nat \<Rightarrow> IPv6InterfaceData \<Rightarrow> IPv6InterfaceData result" where
  "invalidateFrom addrIndex ie =
     (if addrIndex < length (inetAddrs ie) then
        let a = inetAddrs ie ! addrIndex in
        if m_storedLifetime a = 0 then
          (case if_removeAddress a ie of
             Inl e \<Rightarrow> Inl e
           | Inr ie' \<Rightarrow> invalidateFrom (addrIndex + 1) ie')
        else invalidateFrom (addrIndex + 1) ie
      else Inr ie)"
  by pat_completeness auto
termination
proof (relation "measure (\<lambda>(i, ie). length (inetAddrs ie) - i)", goal_cases)
  case (2 i ie a ie')
  have "length (inetAddrs ie') < length (inetAddrs ie)"
    using 2 by (auto simp: if_removeAddress_def ASSERT_eq_Inr split: option.splits
        dest!: removeAddrFromArray_length)
  then show ?case using 2(1) by simp
qed auto

declare invalidateFrom.simps [simp del]

fun invalidateAll :: "IPv6InterfaceData list \<Rightarrow> IPv6InterfaceData list result" where
  "invalidateAll [] = Inr []"
| "invalidateAll (ie # ies) =
     ebind (invalidateFrom 1 ie) (\<lambda>ie. emap (Cons ie) (invalidateAll ies))"

definition invalidateAddresses :: "RT6 \<Rightarrow> RT6 result" where
  "invalidateAddresses rt = emap (\<lambda>ies. rt\<lparr>ifaces := ies\<rparr>) (invalidateAll (ifaces rt))"

definition minValidLifetime :: "RT6 \<Rightarrow> uint32 result" where
  "minValidLifetime rt =
     ebind (foldl (\<lambda>m ie. ebind m (\<lambda>minLifetime.
         ebind (if_minValidLifetime ie) (\<lambda>lifetime.
           ASSERT (lifetime \<noteq> 0) ''RoutingTable6::minValidLifetime''
             (Inr (if lifetime < minLifetime then lifetime else minLifetime)))))
         (Inr VALID_LIFETIME_INFINITY) (ifaces rt))
       (\<lambda>minLifetime. ASSERT (minLifetime \<noteq> 0) ''RoutingTable6::minValidLifetime'' (Inr minLifetime))"

definition tm_elapsedTime :: "simtime \<Rightarrow> AddrTimer \<Rightarrow> simtime result" where
  "tm_elapsedTime now tm =
     (if tm_sendingTime tm \<le> 0 then Inr 0
      else ASSERT (now - tm_sendingTime tm \<ge> 0) ''cTimerMessage::elapsedTime'' (Inr (now - tm_sendingTime tm)))"

definition tm_remainingTime :: "simtime \<Rightarrow> AddrTimer \<Rightarrow> simtime result" where
  "tm_remainingTime now tm =
     (if tm_sendingTime tm \<le> 0 then Inr 0
      else ASSERT (tm_arrivalTime tm - now \<ge> 0) ''cTimerMessage::remainingTime'' (Inr (tm_arrivalTime tm - now)))"

definition sendTimer :: "simtime \<Rightarrow> uint32 \<Rightarrow> AddrTimer" where
  "sendTimer now delay =
     \<lparr>tm_sendingTime = now, tm_arrivalTime = now + real (unat delay), tm_scheduled = True\<rparr>"

text \<open>The conversion of a time to \<open>unsigned int\<close>.\<close>

definition to_seconds :: "simtime \<Rightarrow> uint32" where
  "to_seconds t = word_of_int \<lfloor>t\<rfloor>"

text \<open>\<open>lifetimeExpired\<close> runs when the timer has arrived.\<close>

definition lifetimeExpired :: "simtime \<Rightarrow> RT6 \<Rightarrow> RT6 result" where
  "lifetimeExpired now rt =
     (case addrExpiryTmr rt of
        None \<Rightarrow> Inl (NullPointer ''addrExpiryTmr'')
      | Some tm \<Rightarrow>
          ASSERT (\<not> tm_scheduled tm) ''lifetimeExpired''
            (ebind (tm_elapsedTime now tm) (\<lambda>elapsed.
              ebind (invalidateAddresses (elapseLifetimes (to_seconds elapsed) rt)) (\<lambda>rt.
                ebind (minValidLifetime rt) (\<lambda>minStored.
                  ASSERT (minStored > 0) ''lifetimeExpired''
                    (Inr (rt\<lparr>addrExpiryTmr := Some (sendTimer now minStored)\<rparr>)))))))"

definition rescheduleAddrConfTimer :: "simtime \<Rightarrow> uint32 \<Rightarrow> RT6 \<Rightarrow> RT6 result" where
  "rescheduleAddrConfTimer now minUpdatedLifetime rt =
     (case addrExpiryTmr rt of
        None \<Rightarrow>
          ebind (minValidLifetime rt) (\<lambda>minUpdatedLifetime.
            if minUpdatedLifetime = VALID_LIFETIME_INFINITY then Inr rt
            else Inr (rt\<lparr>addrExpiryTmr := Some (sendTimer now minUpdatedLifetime)\<rparr>))
      | Some tm \<Rightarrow>
          ebind (tm_remainingTime now tm) (\<lambda>remaining.
            if real (unat minUpdatedLifetime) < remaining then
              ebind (tm_elapsedTime now tm) (\<lambda>elapsed.
                let rt = elapseLifetimes (to_seconds elapsed) rt in
                ASSERT (tm_scheduled tm) ''rescheduleAddrConfTimer''
                  (Inr (rt\<lparr>addrExpiryTmr := Some (sendTimer now minUpdatedLifetime)\<rparr>)))
            else
              ebind (minValidLifetime rt) (\<lambda>minValid.
                if real (unat minValid) > remaining then
                  ASSERT (tm_scheduled tm) ''rescheduleAddrConfTimer''
                    (Inr (rt\<lparr>addrExpiryTmr := Some (sendTimer now minValid)\<rparr>))
                else Inr rt)))"

definition assignAddress :: "simtime \<Rightarrow> IPv6Address \<Rightarrow> nat \<Rightarrow> RT6 \<Rightarrow> RT6 result" where
  "assignAddress now addr if_idx rt =
     ASSERT (if_idx < numInterfaceGates6 rt) ''assignAddress''
       (ifaceAt if_idx rt (\<lambda>ie.
          ASSERT (\<not> if_addrAssigned (m_addr addr) ie) ''assignAddress''
            (ebind (if tentativeAddrAssigned (m_addr addr) ie then removeTentativeAddress addr ie else Inr ie)
              (\<lambda>ie.
                let rt = setIface if_idx (ie\<lparr>inetAddrs := inetAddrs ie @ [copy_IPv6Address addr]\<rparr>) rt in
                ASSERT (m_storedLifetime addr \<noteq> 0) ''assignAddress''
                  (if m_storedLifetime addr > 0 \<and> m_storedLifetime addr < VALID_LIFETIME_INFINITY
                   then rescheduleAddrConfTimer now (m_storedLifetime addr) rt
                   else Inr rt)))))"

subsection \<open>Groups and local delivery\<close>

definition joinMulticastGroup :: "ipv6_addr \<Rightarrow> RT6 \<Rightarrow> RT6 result" where
  "joinMulticastGroup addr rt =
     ASSERT (isMulticast6 addr) ''joinMulticastGroup'' (Inr (rt\<lparr>multicastGroup := multicastGroup rt @ [addr]\<rparr>))"

definition leaveMulticastGroup :: "ipv6_addr \<Rightarrow> RT6 \<Rightarrow> RT6 result" where
  "leaveMulticastGroup addr rt =
     ASSERT (isMulticast6 addr) ''leaveMulticastGroup''
       (Inr (rt\<lparr>multicastGroup := remove1 addr (multicastGroup rt)\<rparr>))"

definition localDeliver6 :: "ipv6_addr \<Rightarrow> RT6 \<Rightarrow> bool" where
  "localDeliver6 dest rt =
     (if \<not> isMulticast6 dest then
        (\<exists>ie \<in> set (ifaces rt). if_addrAssigned dest ie \<or> odadSupport rt \<and> tentativeAddrAssigned dest ie)
      else dest \<in> set (multicastGroup rt))"

subsection \<open>Routes\<close>

text \<open>The creation of a router entry in \<open>addRoute\<close>; the result names it by its address.\<close>

definition newRouter :: "simtime \<Rightarrow> nat \<Rightarrow> ipv6_addr \<Rightarrow> RT6 \<Rightarrow> (ipv6_addr \<times> RT6) result" where
  "newRouter now ifIndex nextHop rt =
     emap (\<lambda>(r, rt). (nextHop, rt))
       (rt_insertRouterEntry now
          ((new_RouterEntry nextHop ifIndex (Some '''') VALID_LIFETIME_INFINITY)\<lparr>ne_state := INCOMPLETE\<rparr>)
          False rt)"

definition addRoute :: "simtime \<Rightarrow> nat \<Rightarrow> IPv6Address \<Rightarrow> IPv6Address \<Rightarrow> bool \<Rightarrow> RT6 \<Rightarrow> RT6 result" where
  "addRoute now ifIndex nextHop dest destIsHost rt =
     (if destIsHost \<and> m_addr nextHop = IPv6_ADDR_UNSPECIFIED \<or> IPv6Address_eq nextHop dest then
        if m_prefix_length dest > 0 \<and> m_prefix_length dest < IPv6_ADDR_BITLENGTH then
          rt_insertPrefixEntry now (new_PrefixEntry dest VALID_LIFETIME_INFINITY) ifIndex rt
        else
          Inr (upd_cds (\<lambda>c. snd (insertNeighbourEntry
            (new_NeighbourEntry (m_addr dest) ifIndex None INCOMPLETE) c)) rt)
      else
        let nextHop = (if \<not> destIsHost then dest else nextHop);
            w = dc_neighbour (m_addr nextHop) (cds rt)
        in ebind
          (case lock (cds rt) w of
             Some ne \<Rightarrow>
               if isRouter ne then Inr (unicastAddr ne, rt)
               else
                 ebind (removeNeighbourEntry (unicastAddr ne) (cds rt)) (\<lambda>c.
                   newRouter now ifIndex (m_addr nextHop) (rt\<lparr>cds := c\<rparr>))
           | None \<Rightarrow> newRouter now ifIndex (m_addr nextHop) rt)
          (\<lambda>(raddr, rt).
            if m_addr dest \<noteq> IPv6_ADDR_UNSPECIFIED then
              Inr (upd_cds (\<lambda>c. setDestNeighbour (key_of dest) (router raddr c) c) rt)
            else
              emap (\<lambda>c. rt\<lparr>cds := c\<rparr>) (setDefaultRouter (router raddr (cds rt)) (cds rt))))"

text \<open>
  The conceptual sending algorithm (RFC 2461, 5.2). \<open>AddrResInfo\<close> is the information about the
  next hop; \<open>UINT_MAX\<close> as an interface stands for all of them.
\<close>

record AddrResInfo =
  ai_nextHop :: ipv6_addr
  ai_ifIndex :: nat
  ai_linkLayerAddr :: string
  ai_status :: int

definition new_AddrResInfo :: AddrResInfo where
  "new_AddrResInfo = \<lparr>ai_nextHop = IPv6_ADDR_UNSPECIFIED, ai_ifIndex = 0, ai_linkLayerAddr = '''', ai_status = 0\<rparr>"

definition UINT_MAX :: nat where "UINT_MAX = 2 ^ 32 - 1"

text \<open>The end of the algorithm, once the neighbour \<open>ne\<close> is known.\<close>

definition sendVia :: "NeighbourEntry \<Rightarrow> AddrResInfo \<Rightarrow> AddrResInfo" where
  "sendVia ne info =
     (let info = info\<lparr>ai_nextHop := unicastAddr ne, ai_ifIndex := interfaceNo ne\<rparr> in
      if ne_state ne = INCOMPLETE then info\<lparr>ai_status := -2\<rparr>
      else info\<lparr>ai_linkLayerAddr := linkLayerAddr ne, ai_status := 0\<rparr>)"

definition conceptualSending :: "ipv6_addr \<Rightarrow> AddrResInfo \<Rightarrow> RT6 \<Rightarrow> AddrResInfo \<times> RT6" where
  "conceptualSending dest info rt =
     (let c = cds rt;
          ne = (if IPForward rt then lookupDestination dest c else dc_neighbour dest c)
      in case lock c ne of
           Some n \<Rightarrow> (sendVia n info, rt)
         | None \<Rightarrow>
             (case lookupAddress dest c of
                Some i \<Rightarrow> (info\<lparr>ai_ifIndex := i, ai_nextHop := dest, ai_status := -2\<rparr>, rt)
              | None \<Rightarrow>
                  (case lock c (defaultRouter c) of
                     Some n \<Rightarrow>
                       (sendVia n info, upd_cds (setDestNeighbour (key_of (addr128 dest)) (defaultRouter c)) rt)
                   | None \<Rightarrow>
                       let i = (if numInterfaceGates6 rt > 1 then UINT_MAX else 0) in
                       (info\<lparr>ai_ifIndex := i, ai_nextHop := dest, ai_status := (if i \<noteq> 0 then -1 else -2)\<rparr>, rt))))"

definition determineSrcAddress :: "ipv6_addr \<Rightarrow> nat \<Rightarrow> RT6 \<Rightarrow> ipv6_addr result" where
  "determineSrcAddress dest ifIndex rt =
     ASSERT (dest \<noteq> IPv6_ADDR_UNSPECIFIED) ''determineSrcAddress''
       (let destScope = ipv6_addr_scope dest in
        if ifIndex = UINT_MAX \<and> lock (cds rt) (defaultRouter (cds rt)) = None then
          ifaceAt 0 rt (\<lambda>ie.
            case inetAddrs ie of
              [] \<Rightarrow> ifaceAt ifIndex rt (\<lambda>_.
                 if odadSupport rt then
                   (case tentativeAddrs ie of a # _ \<Rightarrow> Inr (m_addr a) | [] \<Rightarrow> Inr IPv6_ADDR_UNSPECIFIED)
                 else Inr IPv6_ADDR_UNSPECIFIED)
            | a # _ \<Rightarrow> Inr (m_addr a))
        else
          ifaceAt ifIndex rt (\<lambda>ie.
            case List.find (\<lambda>a. scope a = destScope) (inetAddrs ie) of
              Some a \<Rightarrow> Inr (m_addr a)
            | None \<Rightarrow>
                (case (if odadSupport rt then List.find (\<lambda>a. scope a = destScope) (tentativeAddrs ie) else None) of
                   Some a \<Rightarrow> Inr (m_addr a)
                 | None \<Rightarrow>
                     if inetAddrs ie = [] then Inl (Exception ''inetAddrs[-1]'')
                     else Inr (m_addr (last (inetAddrs ie))))))"


section \<open>The invariant of the tables under the operations of the module\<close>

lemma cds_upd_fields [simp]:
  "cds (rt\<lparr>rel := l\<rparr>) = cds rt" "cds (rt\<lparr>pel := m\<rparr>) = cds rt" "cds (setIface i ie rt) = cds rt"
  by (simp_all add: setIface_def)

lemma conceptualSending_ok: "cds_ok (cds rt) \<Longrightarrow> cds_ok (cds (snd (conceptualSending dest info rt)))"
  by (auto simp: conceptualSending_def Let_def defaultRouter_less intro!: setDestNeighbour_ok
      split: option.split)

lemma findDestEntry_set [simp]:
  "findDestEntry a (setDestNeighbour (key_of (addr128 a)) w c) =
     Some ((case findDestEntry a c of Some de \<Rightarrow> de | None \<Rightarrow> new_DestinationEntry None)\<lparr>de_neighbour := w\<rparr>)"
  by (simp add: findDestEntry_def setDestNeighbour_def setDestEntry_def Let_def)

lemma dc_neighbour_set [simp]: "dc_neighbour a (setDestNeighbour (key_of (addr128 a)) w c) = w"
  by (simp add: dc_neighbour_def)

lemma lookupDestination_set [simp]: "lookupDestination a (setDestNeighbour (key_of (addr128 a)) w c) = w"
  by (simp add: lookupDestination_def)

lemma lock_set [simp]: "lock (setDestNeighbour k w c) = lock c"
  by (simp add: fun_eq_iff lock_def setDestNeighbour_def setDestEntry_def Let_def)

lemma conceptualSending_again:
  assumes "conceptualSending dest info rt = (info', rt')"
  shows "conceptualSending dest info rt' = (info', rt')"
proof (cases "lock (cds rt) (if IPForward rt then lookupDestination dest (cds rt) else dc_neighbour dest (cds rt)) = None
    \<and> lookupAddress dest (cds rt) = None \<and> lock (cds rt) (defaultRouter (cds rt)) \<noteq> None")
  case True
  then obtain n where n: "lock (cds rt) (defaultRouter (cds rt)) = Some n" by blast
  then have "info' = sendVia n info"
      "rt' = upd_cds (setDestNeighbour (key_of (addr128 dest)) (defaultRouter (cds rt))) rt"
    using assms True by (auto simp: conceptualSending_def Let_def split: if_splits)
  then show ?thesis using n by (simp add: conceptualSending_def Let_def)
next
  case False
  then have "rt' = rt" using assms by (auto simp: conceptualSending_def Let_def split: option.splits if_splits)
  then show ?thesis using assms by simp
qed

lemma lock_SomeD: "lock c w = Some ne \<Longrightarrow> \<exists>r. w = Some r \<and> objs c r = Some ne"
  by (auto simp: lock_def bind_eq_Some_conv)

lemma objs_set [simp]: "objs (setDestNeighbour k w c) = objs c"
  by (simp add: setDestNeighbour_def setDestEntry_def Let_def)

lemma sendVia_status:
  "ai_status (sendVia n info) = (if ne_state n = INCOMPLETE then -2 else 0)"
  "ai_nextHop (sendVia n info) = unicastAddr n"
  "ai_ifIndex (sendVia n info) = interfaceNo n"
  "ne_state n \<noteq> INCOMPLETE \<Longrightarrow> ai_linkLayerAddr (sendVia n info) = linkLayerAddr n"
  by (auto simp: sendVia_def Let_def)

lemma conceptualSending_cases:
  assumes "conceptualSending dest info rt = (info', rt')" and "cds_ok (cds rt)"
  shows "(\<exists>r ne. objs (cds rt') r = Some ne \<and> info' = sendVia ne info) \<or>
    (ai_status info' \<in> {-2, -1} \<and> ai_nextHop info' = dest \<and>
     (ai_status info' = -1 \<longrightarrow> ai_ifIndex info' = UINT_MAX \<and> routers (cds rt) = []))"
proof (cases "lock (cds rt) (if IPForward rt then lookupDestination dest (cds rt) else dc_neighbour dest (cds rt))")
  case (Some n)
  then show ?thesis using assms(1) by (auto simp: conceptualSending_def Let_def dest!: lock_SomeD)
next
  case None
  show ?thesis
  proof (cases "lookupAddress dest (cds rt)")
    case (Some i)
    then show ?thesis using assms(1) None by (auto simp: conceptualSending_def Let_def)
  next
    case none: None
    show ?thesis
    proof (cases "lock (cds rt) (defaultRouter (cds rt))")
      case (Some n)
      obtain r where "objs (cds rt) r = Some n" using lock_SomeD[OF Some] by blast
      moreover have "info' = sendVia n info \<and> objs (cds rt') = objs (cds rt)"
        using assms(1) None none Some by (auto simp: conceptualSending_def Let_def)
      ultimately show ?thesis by auto
    next
      case no: None
      have "routers (cds rt) = []"
        using no assms(2) by (auto simp: defaultRouter_def lock_def cds_ok_def owners_ok_def split: list.splits)
      then show ?thesis using assms(1) None none no
        by (auto simp: conceptualSending_def Let_def split: if_splits)
    qed
  qed
qed

section \<open>Lifetimes\<close>

lemma if_elapseLifetimes_nth:
  assumes "0 < i" and "i < length (inetAddrs ie)"
  shows "inetAddrs (if_elapseLifetimes s ie) ! i = elapseLifetime s (inetAddrs ie ! i)"
proof -
  obtain a as where "inetAddrs ie = a # as" using assms by (cases "inetAddrs ie") auto
  then show ?thesis using assms by (cases i) (simp_all add: if_elapseLifetimes_def)
qed

lemma length_elapse [simp]: "length (inetAddrs (if_elapseLifetimes s ie)) = length (inetAddrs ie)"
  by (simp add: if_elapseLifetimes_def)

lemma word_wrap: "(a :: uint32) < s \<Longrightarrow> unat (a - s) = 2 ^ 32 - (unat s - unat a)"
  by (simp add: unat_sub_if_size word_size word_less_nat_alt)

text \<open>
  The loop that removes expired addresses, up to the first of two neighbouring addresses that
  have both expired.
\<close>

lemma assign_self [simp]: "assign_IPv6Address a a = a"
  by (simp add: assign_IPv6Address_def)

lemma assign_sel [simp]:
  "m_addr (assign_IPv6Address t a) = m_addr a"
  "m_storedLifetime (assign_IPv6Address t a) = m_storedLifetime a"
  by (simp_all add: assign_IPv6Address_def)

lemma map2_assign_self: "map2 assign_IPv6Address xs xs = xs"
  by (induction xs) auto

text \<open>The slots after the one that was removed.\<close>

fun shiftDown :: "IPv6Address \<Rightarrow> IPv6Address list \<Rightarrow> IPv6Address list" where
  "shiftDown a [] = []"
| "shiftDown a (b # ys) = assign_IPv6Address a b # shiftDown b ys"

lemma map2_assign_shiftDown: "map2 assign_IPv6Address (a # ys) ys = shiftDown a ys"
  by (induction ys arbitrary: a) auto

lemma shiftDown_addr [simp]: "map m_addr (shiftDown a ys) = map m_addr ys"
  by (induction ys arbitrary: a) auto

lemma length_shiftDown [simp]: "length (shiftDown a ys) = length ys"
  by (induction ys arbitrary: a) auto

lemma removeAddrFromArray_unique:
  assumes "\<forall>x \<in> set xs \<union> set ys. m_addr x \<noteq> m_addr a"
  shows "removeAddrFromArray a (xs @ a # ys) = Some (xs @ shiftDown a ys)"
proof -
  have kept: "filter (\<lambda>x. \<not> IPv6Address_eq x a) (xs @ a # ys) = xs @ ys"
    using assms by (auto simp: IPv6Address_eq_def filter_id_conv)
  have "map2 assign_IPv6Address (xs @ a # ys) (xs @ ys) = xs @ shiftDown a ys"
    by (simp only: zip_append map_append map2_assign_self map2_assign_shiftDown)
  then show ?thesis unfolding removeAddrFromArray_def Let_def kept by simp
qed

lemma if_removeAddress_at:
  assumes "distinct (map m_addr (inetAddrs ie))" and "inetAddrs ie = xs @ a # ys"
  shows "if_removeAddress a ie = Inr (ie\<lparr>inetAddrs := xs @ shiftDown a ys\<rparr>)"
proof -
  have "m_addr a \<notin> m_addr ` set xs \<union> m_addr ` set ys" using assms by simp
  then have "\<forall>x \<in> set xs \<union> set ys. m_addr x \<noteq> m_addr a" by (metis UnCI UnE image_eqI)
  then have "removeAddrFromArray a (inetAddrs ie) = Some (xs @ shiftDown a ys)"
    unfolding assms(2) by (rule removeAddrFromArray_unique)
  moreover have "if_addrAssigned (m_addr a) ie" by (simp add: if_addrAssigned_def addrIn_def assms(2))
  ultimately show ?thesis by (simp add: if_removeAddress_def)
qed

lemma distinct_removed:
  "distinct (map m_addr (xs @ a # ys)) \<Longrightarrow> distinct (map m_addr (xs @ shiftDown a ys))"
  unfolding map_append shiftDown_addr by simp

lemma invalidateFrom_at:
  assumes "distinct (map m_addr (inetAddrs ie))" and "inetAddrs ie = xs @ a # ys" and "i = length xs"
  shows "invalidateFrom i ie =
    (if m_storedLifetime a = 0
     then invalidateFrom (i + 1) (ie\<lparr>inetAddrs := xs @ shiftDown a ys\<rparr>)
     else invalidateFrom (i + 1) ie)"
proof -
  have "i < length (inetAddrs ie)" "inetAddrs ie ! i = a" using assms(2,3) by simp_all
  then show ?thesis
    by (subst invalidateFrom.simps) (simp only: Let_def if_True if_removeAddress_at[OF assms(1,2)] sum.case)
qed

lemma invalidateFrom_end: "length (inetAddrs ie) \<le> i \<Longrightarrow> invalidateFrom i ie = Inr ie"
  by (subst invalidateFrom.simps) simp

lemma nth_split: "i < length xs \<Longrightarrow> \<exists>as a bs. xs = as @ a # bs \<and> length as = i"
  by (rule exI[of _ "take i xs"], rule exI[of _ "xs ! i"], rule exI[of _ "drop (Suc i) xs"])
    (simp add: id_take_nth_drop[symmetric])

lemma take_less: "take (i + 1) xs = take (i + 1) ys \<Longrightarrow> take i xs = take i ys"
  by (drule arg_cong[where f = "take i"]) simp

lemma invalidateFrom_keeps:
  assumes "distinct (map m_addr (inetAddrs ie))" and "invalidateFrom i ie = Inr ie'"
  shows "take i (inetAddrs ie') = take i (inetAddrs ie)"
  using assms
proof (induction "length (inetAddrs ie) - i" arbitrary: i ie rule: less_induct)
  case less
  show ?case
  proof (cases "i < length (inetAddrs ie)")
    case False
    then show ?thesis using less.prems(2) by (simp add: invalidateFrom_end)
  next
    case True
    then obtain xs a ys where split: "inetAddrs ie = xs @ a # ys" "length xs = i"
      using nth_split[OF True] by blast
    note at = invalidateFrom_at[OF less.prems(1) split(1) split(2)[symmetric]]
    show ?thesis
    proof (cases "m_storedLifetime a = 0")
      case True
      define ie2 where "ie2 = ie\<lparr>inetAddrs := xs @ shiftDown a ys\<rparr>"
      have zs: "inetAddrs ie2 = xs @ shiftDown a ys" by (simp add: ie2_def)
      have "length (inetAddrs ie2) - (i + 1) < length (inetAddrs ie) - i"
        unfolding zs split(1) using split(2) by simp
      moreover have "distinct (map m_addr (inetAddrs ie2))"
        unfolding zs by (rule distinct_removed) (use less.prems(1) split(1) in simp)
      moreover have "invalidateFrom (i + 1) ie2 = Inr ie'"
        using at less.prems(2) True by (simp add: ie2_def)
      ultimately have "take (i + 1) (inetAddrs ie') = take (i + 1) (inetAddrs ie2)"
        by (rule less.hyps)
      then have "take i (inetAddrs ie') = take i (inetAddrs ie2)" by (rule take_less)
      then show ?thesis using split(2) unfolding zs split(1) by simp
    next
      case False
      have "length (inetAddrs ie) - (i + 1) < length (inetAddrs ie) - i"
        using \<open>i < length (inetAddrs ie)\<close> by simp
      moreover have "invalidateFrom (i + 1) ie = Inr ie'" using at less.prems(2) False by simp
      ultimately have "take (i + 1) (inetAddrs ie') = take (i + 1) (inetAddrs ie)"
        using less.hyps less.prems(1) by blast
      then show ?thesis by (rule take_less)
    qed
  qed
qed

lemma invalidateFrom_skip:
  assumes "distinct (map m_addr (inetAddrs ie))" and "inetAddrs ie = xs @ a # ys"
    and "i \<le> length xs" and "\<forall>x \<in> set (drop i xs). m_storedLifetime x \<noteq> 0"
  shows "invalidateFrom i ie = invalidateFrom (length xs) ie"
  using assms(3,4)
proof (induction "length xs - i" arbitrary: i)
  case (Suc n)
  then have i: "i < length xs" by simp
  then obtain us u vs where xs: "xs = us @ u # vs" "length us = i" using nth_split[OF i] by blast
  have "m_storedLifetime u \<noteq> 0" using Suc.prems(2) xs by simp
  moreover have "inetAddrs ie = us @ u # (vs @ a # ys)" using assms(2) xs by simp
  ultimately have "invalidateFrom i ie = invalidateFrom (Suc i) ie"
    using invalidateFrom_at[OF assms(1), of us u "vs @ a # ys" i] xs(2) by simp
  moreover have "\<forall>x \<in> set (drop (Suc i) xs). m_storedLifetime x \<noteq> 0"
    using Suc.prems(2) xs by simp
  ultimately show ?case using Suc.hyps i by simp
qed simp

text \<open>The second of two neighbouring expired addresses is skipped.\<close>

lemma invalidateFrom_adjacent:
  assumes "distinct (map m_addr (inetAddrs ie))" and "inetAddrs ie = xs @ a # b # ys"
    and "1 \<le> length xs" and "\<forall>x \<in> set (drop 1 xs). m_storedLifetime x \<noteq> 0"
    and "m_storedLifetime a = 0" and "m_storedLifetime b = 0"
    and "invalidateFrom 1 ie = Inr ie'"
  shows "\<exists>x \<in> set (drop 1 (inetAddrs ie')). m_storedLifetime x = 0"
proof -
  let ?zs = "xs @ shiftDown a (b # ys)"
  let ?ie = "ie\<lparr>inetAddrs := ?zs\<rparr>"
  let ?n = "length xs"
  have "invalidateFrom (Suc ?n) ?ie = Inr ie'"
    using invalidateFrom_skip[OF assms(1,2,3,4)] invalidateFrom_at[OF assms(1,2) refl] assms(5,7) by simp
  moreover have "distinct (map m_addr (inetAddrs ?ie))"
    using distinct_removed[of xs a "b # ys"] assms(1,2) by (simp del: map_append)
  ultimately have "take (Suc ?n) (inetAddrs ie') = take (Suc ?n) ?zs"
    using invalidateFrom_keeps[of ?ie "Suc ?n" ie'] by simp
  then have "take (Suc ?n) (inetAddrs ie') = xs @ [assign_IPv6Address a b]" by simp
  then obtain r where "inetAddrs ie' = xs @ assign_IPv6Address a b # r"
    by (metis append_take_drop_id append.assoc append_Cons append_Nil)
  then have "drop 1 (inetAddrs ie') = drop 1 xs @ assign_IPv6Address a b # r" using assms(3) by simp
  then show ?thesis using assms(6) by simp
qed

lemma minValid_fold_Inl:
  "foldl (\<lambda>m a. ebind m (f a)) (Inl e) xs = Inl e"
  by (induction xs) auto

lemma if_minValidLifetime_zero:
  assumes "\<exists>x \<in> set (drop 1 (inetAddrs ie)). m_storedLifetime x = 0"
  shows "\<exists>e. if_minValidLifetime ie = Inl e"
proof -
  let ?f = "\<lambda>a minLifetime. ASSERT (m_storedLifetime a > 0) ''IPv6InterfaceData::minValidLifetime''
          (Inr (if m_storedLifetime a \<le> minLifetime then m_storedLifetime a else minLifetime))"
  have "\<exists>x \<in> set xs. m_storedLifetime x = 0 \<Longrightarrow> \<exists>e. foldl (\<lambda>m a. ebind m (?f a)) acc xs = Inl e" for xs acc
  proof (induction xs arbitrary: acc)
    case (Cons x xs)
    show ?case
    proof (cases "m_storedLifetime x = 0")
      case True
      have "\<exists>e. ebind acc (?f x) = Inl e" using True by (cases acc) auto
      then show ?thesis using minValid_fold_Inl by fastforce
    next
      case False then show ?thesis using Cons by simp
    qed
  qed simp
  from this[OF assms] show ?thesis by (simp add: if_minValidLifetime_def)
qed

lemma minValidLifetime_zero:
  assumes "ie \<in> set (ifaces rt)" and "\<exists>x \<in> set (drop 1 (inetAddrs ie)). m_storedLifetime x = 0"
  shows "\<exists>e. minValidLifetime rt = Inl e"
proof -
  let ?f = "\<lambda>ie minLifetime. ebind (if_minValidLifetime ie) (\<lambda>lifetime.
           ASSERT (lifetime \<noteq> 0) ''RoutingTable6::minValidLifetime''
             (Inr (if lifetime < minLifetime then lifetime else minLifetime)))"
  have "ie \<in> set xs \<Longrightarrow> \<exists>e. foldl (\<lambda>m ie. ebind m (?f ie)) acc xs = Inl e" for xs acc
  proof (induction xs arbitrary: acc)
    case (Cons x xs)
    show ?case
    proof (cases "x = ie")
      case True
      have "\<exists>e. ebind acc (?f x) = Inl e" using if_minValidLifetime_zero[OF assms(2)] True by (cases acc) auto
      then show ?thesis using minValid_fold_Inl by fastforce
    next
      case False then show ?thesis using Cons by simp
    qed
  qed simp
  from this[OF assms(1), of "Inr VALID_LIFETIME_INFINITY"] obtain e
    where "foldl (\<lambda>m ie. ebind m (?f ie)) (Inr VALID_LIFETIME_INFINITY) (ifaces rt) = Inl e" by blast
  then show ?thesis unfolding minValidLifetime_def by simp
qed

lemma invalidateAll_nth:
  "invalidateAll ies = Inr ies' \<Longrightarrow> ie \<in> set ies \<Longrightarrow>
     \<exists>ie'. invalidateFrom 1 ie = Inr ie' \<and> ie' \<in> set ies'"
proof (induction ies arbitrary: ies')
  case (Cons x xs)
  then obtain y ys where "invalidateFrom 1 x = Inr y" "invalidateAll xs = Inr ys" "ies' = y # ys"
    by (auto simp: ebind_eq_Inr emap_eq_Inr)
  then show ?case using Cons by auto
qed simp


section \<open>Properties\<close>

text \<open>
  C19: Conceptual sending. On tables that satisfy their invariant it keeps the invariant, and
  its answer is one of three: the next hop, interface and link layer address of an entry that is
  alive and not incomplete (status 0); a next hop that still has to be resolved (-2), an entry
  that is alive and incomplete or the destination itself; or, only when there is no router at
  all, the destination on all interfaces (-1). Asked again for the same destination, in the state
  it left behind, it gives the same answer and changes nothing.
\<close>

theorem conceptual_sending_is_sound:
  assumes "cds_ok (cds rt)" and "conceptualSending dest info rt = (info', rt')"
  shows "cds_ok (cds rt') \<and>
    (ai_status info' = 0 \<longrightarrow> (\<exists>r ne. objs (cds rt') r = Some ne \<and> ne_state ne \<noteq> INCOMPLETE \<and>
       ai_nextHop info' = unicastAddr ne \<and> ai_ifIndex info' = interfaceNo ne \<and>
       ai_linkLayerAddr info' = linkLayerAddr ne)) \<and>
    (ai_status info' = -2 \<longrightarrow> ai_nextHop info' = dest \<or> (\<exists>r ne. objs (cds rt') r = Some ne \<and>
       ne_state ne = INCOMPLETE \<and> ai_nextHop info' = unicastAddr ne)) \<and>
    (ai_status info' = -1 \<longrightarrow> routers (cds rt) = [] \<and> ai_nextHop info' = dest \<and> ai_ifIndex info' = UINT_MAX) \<and>
    ai_status info' \<in> {0, -1, -2} \<and>
    conceptualSending dest info rt' = (info', rt')"
proof -
  have "cds_ok (cds rt')" using conceptualSending_ok[OF assms(1), of dest info] assms(2) by simp
  moreover note conceptualSending_again[OF assms(2)]
  moreover from conceptualSending_cases[OF assms(2,1)]
  have "(\<exists>r ne. objs (cds rt') r = Some ne \<and> info' = sendVia ne info) \<or>
    (ai_status info' \<in> {-2, -1} \<and> ai_nextHop info' = dest \<and>
     (ai_status info' = -1 \<longrightarrow> ai_ifIndex info' = UINT_MAX \<and> routers (cds rt) = []))" .
  ultimately show ?thesis
  proof (elim disjE exE conjE, goal_cases)
    case (1 r ne)
    then show ?case by (cases "ne_state ne = INCOMPLETE") (auto simp: sendVia_status)
  qed auto
qed

definition example_rt :: RT6 where
  "example_rt = RT6_initialize [\<lparr>inetAddrs = [], tentativeAddrs = [], curHopLimit = 30, if_mtu = 1500, llAddrStr = ''''\<rparr>]"

lemma example_rt_ok: "cds_ok (cds example_rt)"
  by (simp add: example_rt_def RT6_initialize_def)

lemma conceptual_sending_is_sound_witness:
  "\<exists>info' rt'. conceptualSending (Ipv6Addr 0x20010db8 0 0 1) new_AddrResInfo example_rt = (info', rt') \<and>
     ai_status info' \<in> {0, -1, -2}"
proof -
  obtain info' rt' where eq: "conceptualSending (Ipv6Addr 0x20010db8 0 0 1) new_AddrResInfo example_rt = (info', rt')"
    by fastforce
  show ?thesis using conceptual_sending_is_sound[OF example_rt_ok eq] eq by blast
qed

text \<open>
  What passes of an address lifetime. When time passes, the address of every slot but the
  first, unless its valid lifetime is infinite or was just updated, loses that time from its
  valid lifetime, down to 0. The preferred lifetime is treated the wrong way round: as long as it
  is at least the time that passed it drops to 0, and below it the subtraction wraps around to at
  least \<open>2^32 - seconds\<close>, far above the valid lifetime.
\<close>

theorem address_lifetimes_elapse:
  assumes "0 < i" and "i < length (inetAddrs ie)"
    and "m_storedLifetime (inetAddrs ie ! i) \<noteq> VALID_LIFETIME_INFINITY"
    and "\<not> m_updated (inetAddrs ie ! i)"
  shows "unat (m_storedLifetime (inetAddrs (if_elapseLifetimes s ie) ! i)) =
      unat (m_storedLifetime (inetAddrs ie ! i)) - unat s \<and>
    (s \<le> m_preferredLifetime (inetAddrs ie ! i) \<longrightarrow>
       m_preferredLifetime (inetAddrs (if_elapseLifetimes s ie) ! i) = 0) \<and>
    (m_preferredLifetime (inetAddrs ie ! i) < s \<longrightarrow>
       unat (m_preferredLifetime (inetAddrs (if_elapseLifetimes s ie) ! i)) \<ge> 2 ^ 32 - unat s)"
proof -
  have "m_preferredLifetime (inetAddrs ie ! i) < s \<Longrightarrow>
      unat (m_preferredLifetime (inetAddrs ie ! i) - s) \<ge> 2 ^ 32 - unat s"
    by (simp add: word_wrap)
  then show ?thesis using assms
    by (auto simp: if_elapseLifetimes_nth elapseLifetime_def unat_sub_if_size word_size
        word_less_nat_alt word_le_nat_alt not_less)
qed

definition example_iface :: IPv6InterfaceData where
  "example_iface =
     \<lparr>inetAddrs = [new_IPv6Address (Ipv6Addr 0xFE800000 0 0 1) 64,
        (new_IPv6Address (Ipv6Addr 0x20010db8 0 0 1) 64)\<lparr>m_storedLifetime := 100, m_preferredLifetime := 5\<rparr>,
        (new_IPv6Address (Ipv6Addr 0x20010db8 0 0 2) 64)\<lparr>m_storedLifetime := 100, m_preferredLifetime := 5\<rparr>],
      tentativeAddrs = [], curHopLimit = 30, if_mtu = 1500, llAddrStr = ''''\<rparr>"

lemma address_lifetimes_elapse_witness:
  "unat (m_preferredLifetime (inetAddrs (if_elapseLifetimes 10 example_iface) ! 1)) \<ge> 2 ^ 32 - 10"
  using address_lifetimes_elapse[of 1 example_iface 10]
  by (simp add: example_iface_def new_IPv6Address_def VALID_LIFETIME_INFINITY_def)

text \<open>
  Two neighbouring addresses that expire together stop the simulation. The loop that
  removes expired addresses steps over the address that takes the place of one it removed, so
  that, when the lifetime timer fires and the first expired address of an interface is followed
  by another one, an address without lifetime stays and the search for the shortest lifetime
  fails its assertion.
\<close>

theorem adjacent_expired_addresses_abort:
  assumes "addrExpiryTmr rt = Some tm" and "\<not> tm_scheduled tm" and "0 \<le> now - tm_sendingTime tm"
    and "ie \<in> set (ifaces rt)" and "distinct (map m_addr (inetAddrs ie))"
    and "inetAddrs ie = first # xs @ a # b # ys"
    and "elapsed = (if tm_sendingTime tm \<le> 0 then 0 else now - tm_sendingTime tm)"
    and "\<forall>x \<in> set xs. m_storedLifetime (elapseLifetime (to_seconds elapsed) x) \<noteq> 0"
    and "m_storedLifetime (elapseLifetime (to_seconds elapsed) a) = 0"
    and "m_storedLifetime (elapseLifetime (to_seconds elapsed) b) = 0"
  shows "\<exists>e. lifetimeExpired now rt = Inl e"
proof -
  let ?e = "elapseLifetime (to_seconds elapsed)"
  let ?ie = "if_elapseLifetimes (to_seconds elapsed) ie"
  have el: "tm_elapsedTime now tm = Inr elapsed" using assms(3,7) by (auto simp: tm_elapsedTime_def)
  have addrs: "inetAddrs ?ie = (first # map ?e xs) @ ?e a # ?e b # map ?e ys"
    by (simp add: if_elapseLifetimes_def assms(6))
  have addr: "m_addr (?e x) = m_addr x" for x by (simp add: elapseLifetime_def)
  then have "map m_addr (inetAddrs ?ie) = map m_addr (inetAddrs ie)" by (simp add: addrs assms(6))
  then have dist: "distinct (map m_addr (inetAddrs ?ie))" using assms(5) by simp
  have "\<exists>e. ebind (invalidateAddresses (elapseLifetimes (to_seconds elapsed) rt)) minValidLifetime = Inl e"
  proof (cases "invalidateAddresses (elapseLifetimes (to_seconds elapsed) rt)")
    case (Inr rt2)
    then obtain ies where ies: "invalidateAll (map (if_elapseLifetimes (to_seconds elapsed)) (ifaces rt)) = Inr ies"
      and rt2: "ifaces rt2 = ies"
      by (auto simp: invalidateAddresses_def elapseLifetimes_def emap_eq_Inr)
    obtain ie' where ie': "invalidateFrom 1 ?ie = Inr ie'" "ie' \<in> set ies"
      using invalidateAll_nth[OF ies, of ?ie] assms(4) by auto
    have "\<exists>x \<in> set (drop 1 (inetAddrs ie')). m_storedLifetime x = 0"
      by (rule invalidateFrom_adjacent[OF dist addrs _ _ assms(9,10) ie'(1)]) (use assms(8) in auto)
    then show ?thesis using minValidLifetime_zero[of ie' rt2] ie'(2) rt2 Inr by simp
  qed simp
  then show ?thesis using el assms(1,2)
    by (cases "invalidateAddresses (elapseLifetimes (to_seconds elapsed) rt)")
      (auto simp: lifetimeExpired_def)
qed

lemma adjacent_expired_addresses_abort_witness:
  "\<exists>e. lifetimeExpired 101 (example_rt\<lparr>ifaces := [example_iface],
     addrExpiryTmr := Some \<lparr>tm_sendingTime = 1, tm_arrivalTime = 101, tm_scheduled = False\<rparr>\<rparr>) = Inl e"
  by (rule adjacent_expired_addresses_abort[where ie = example_iface and xs = "[]" and elapsed = 100
        and tm = "\<lparr>tm_sendingTime = 1, tm_arrivalTime = 101, tm_scheduled = False\<rparr>"
        and a = "inetAddrs example_iface ! 1" and b = "inetAddrs example_iface ! 2"
        and first = "inetAddrs example_iface ! 0" and ys = "[]"])
    (simp_all add: example_iface_def new_IPv6Address_def elapseLifetime_def to_seconds_def
      VALID_LIFETIME_INFINITY_def)

end
