(* ===== verification/IPv6_Datagram.thy ===== *)
theory IPv6_Datagram
  imports IPv6_Address
begin

text \<open>
  IPv6 datagrams with their extension headers (\<open>Network/IPv6/IPv6Datagram.cc\<close>,
  \<open>HdrExtProc.cc\<close>, \<open>HdrExtRteProc.cc\<close>, \<open>HdrExtDestProc.cc\<close>, \<open>HdrExtFragProc.cc\<close>), and the
  processing of routing headers and of the home address option at the nodes a datagram is
  addressed to. The cached pointers to the routing, fragment and destination headers are
  positions in the list of extension headers. A datagram that is duplicated is a new value:
  what the copy constructors forget is written out in \<open>dup_IPv6Datagram\<close>.
\<close>

section \<open>Types\<close>

definition IPv6_HEADER_OCTETLENGTH :: nat where "IPv6_HEADER_OCTETLENGTH = 40"
definition IPv6_MIN_MTU :: nat where "IPv6_MIN_MTU = 1280"
definition IPv6_ADDRESS_LEN :: nat where "IPv6_ADDRESS_LEN = 16"
definition IPv6_FRAG_HDR_LEN :: nat where "IPv6_FRAG_HDR_LEN = 8"
definition IPv6_RT_HDR_LEN :: nat where "IPv6_RT_HDR_LEN = 8"
definition IPv6_TYPE0_RT_HDR :: uint8 where "IPv6_TYPE0_RT_HDR = 0"
definition IPv6_TYPE2_RT_HDR :: uint8 where "IPv6_TYPE2_RT_HDR = 2"
definition BITS :: nat where "BITS = 8"

datatype IPv6ExtHeader =
  EXTHDR_UNINITIALISED | EXTHDR_HOP | EXTHDR_ROUTING | EXTHDR_FRAGMENT | EXTHDR_DEST | EXTHDR_ESP | EXTHDR_AUTH

fun ext_code :: "IPv6ExtHeader \<Rightarrow> int" where
  "ext_code EXTHDR_UNINITIALISED = -1"
| "ext_code EXTHDR_HOP = 0"
| "ext_code EXTHDR_ROUTING = 43"
| "ext_code EXTHDR_FRAGMENT = 44"
| "ext_code EXTHDR_DEST = 60"
| "ext_code EXTHDR_ESP = 50"
| "ext_code EXTHDR_AUTH = 51"

text \<open>The protocols of the payload the code tells apart.\<close>

definition IP_PROT_IGMP :: int where "IP_PROT_IGMP = 2"
definition IP_PROT_IPv4 :: int where "IP_PROT_IPv4 = 4"
definition IP_PROT_TCP :: int where "IP_PROT_TCP = 6"
definition IPv6_PROT_UDP :: int where "IPv6_PROT_UDP = 17"
definition IP_PROT_IPv6 :: int where "IP_PROT_IPv6 = 41"
definition IPv6_PROT_ICMP :: int where "IPv6_PROT_ICMP = 58"
definition IPv6_PROT_MOB :: int where "IPv6_PROT_MOB = 62"

text \<open>
  A routing header: \<open>ipv6_ext_rt0_hdr\<close> with its array of addresses. The flag tells an object of the
  class \<open>MIPv6RteOpt\<close> from one of its base class.
\<close>

record HdrExtRte =
  rte_mipv6 :: bool
  routing_type :: uint8
  hdr_ext_len :: uint8
  segments_left :: uint8
  rte_addr :: "ipv6_addr list"

text \<open>
  The wrappers of the extension headers; the first member of each is the next header field. The only
  option of a destination header is the home address.
\<close>

datatype HdrExtProc =
    RteProc (nextHeader: int) (rheads: "HdrExtRte list")
  | DestProc (nextHeader: int) (destOpts: "ipv6_addr list")
  | FragProc (nextHeader: int) (frag_id: nat)

record IPv6Header =
  d6_inputPort :: int
  d6_outputPort :: int
  d6_hopLimit :: int
  d6_transportProtocol :: int
  d6_srcAddress :: ipv6_addr
  d6_destAddress :: ipv6_addr
  d6_encapLimit :: int
  d6_length :: nat
  payload_length :: uint16
  next_header :: int
  ext_hdrs :: "HdrExtProc list"
  route_hdr :: "nat option"
  frag_hdr :: "nat option"
  dest_hdr :: "nat option"

text \<open>
  What a datagram carries: a message of an upper layer with its length in bits, a mobility message
  (whether it is a binding update), the binding error this layer makes, or another datagram.
\<close>

datatype 'p ip6_msg =
    NoMsg
  | Upper nat 'p
  | Mobility bool nat 'p
  | BindingError int ipv6_addr
  | Inner IPv6Header "'p ip6_msg"

record 'p IPv6Datagram = IPv6Header +
  d6_payload :: "'p ip6_msg"

text \<open>The length in bits of a binding error is not used by this layer.\<close>

fun msg_length :: "'p ip6_msg \<Rightarrow> nat" where
  "msg_length NoMsg = 0"
| "msg_length (Upper n _) = n"
| "msg_length (Mobility _ n _) = n"
| "msg_length (BindingError _ _) = 0"
| "msg_length (Inner h _) = d6_length h"

definition inner_of :: "'p IPv6Datagram \<Rightarrow> 'p ip6_msg" where
  "inner_of d = Inner (IPv6Header.truncate d) (d6_payload d)"

definition of_inner :: "IPv6Header \<Rightarrow> 'p ip6_msg \<Rightarrow> 'p IPv6Datagram" where
  "of_inner h m = IPv6Header.extend h \<lparr>d6_payload = m\<rparr>"

section \<open>\<open>HdrExtRte\<close>\<close>

definition new_HdrExtRte :: "uint8 \<Rightarrow> HdrExtRte" where
  "new_HdrExtRte rt_type =
     \<lparr>rte_mipv6 = False, routing_type = rt_type, hdr_ext_len = 0, segments_left = 0, rte_addr = []\<rparr>"

definition n_addr :: "HdrExtRte \<Rightarrow> nat" where
  "n_addr h = unat (hdr_ext_len h) div 2"

definition rte_lengthInUnits :: "HdrExtRte \<Rightarrow> nat" where
  "rte_lengthInUnits h = n_addr h * IPv6_ADDRESS_LEN + IPv6_RT_HDR_LEN"

text \<open>Reading an array of addresses past its end is undefined.\<close>

definition rteAt :: "nat \<Rightarrow> HdrExtRte \<Rightarrow> (ipv6_addr \<Rightarrow> 'a result) \<Rightarrow> 'a result" where
  "rteAt i h k = (if i < length (rte_addr h) then k (rte_addr h ! i) else Inl (Exception ''rt0_hdr->addr''))"

definition rte_address :: "nat \<Rightarrow> HdrExtRte \<Rightarrow> ipv6_addr result" where
  "rte_address index h =
     ASSERT (index \<noteq> 0 \<and> index \<le> n_addr h) ''HdrExtRte::address''
       (ASSERT (unat (hdr_ext_len h) mod 2 = 0) ''HdrExtRte::address''
         (rteAt (index - 1) h Inr))"

definition setSegmentsLeft :: "int \<Rightarrow> HdrExtRte \<Rightarrow> HdrExtRte result" where
  "setSegmentsLeft segments h =
     ASSERT (0 < segments \<and> segments < 256) ''HdrExtRte::setSegmentsLeft''
       (Inr (h\<lparr>segments_left := word_of_int segments\<rparr>))"

definition setHdrExtLen :: "int \<Rightarrow> HdrExtRte \<Rightarrow> HdrExtRte result" where
  "setHdrExtLen octetUnits h =
     ASSERT (0 < octetUnits \<and> octetUnits < 256) ''HdrExtRte::setHdrExtLen''
       (Inr (h\<lparr>hdr_ext_len := word_of_int octetUnits\<rparr>))"

definition addAddress :: "ipv6_addr \<Rightarrow> HdrExtRte \<Rightarrow> HdrExtRte result" where
  "addAddress append_addr h =
     ASSERT (routing_type h = IPv6_TYPE0_RT_HDR \<or> routing_type h = IPv6_TYPE2_RT_HDR) ''HdrExtRte::addAddress''
       (if length (rte_addr h) < unat (segments_left h) then Inl (Exception ''rt0_hdr->addr'')
        else
          let addr = take (unat (segments_left h)) (rte_addr h) in
          ebind (setSegmentsLeft (uint (segments_left h) + 1) h) (\<lambda>h.
          ebind (setHdrExtLen (uint (hdr_ext_len h) + 2) h) (\<lambda>h.
            Inr (h\<lparr>rte_addr := addr @ [append_addr]\<rparr>))))"

text \<open>
  The copy constructor makes a fresh \<open>ipv6_ext_rt0_hdr\<close>, whose type is 0, and calls \<open>operator=\<close>,
  which copies everything but the type.
\<close>

definition dup_HdrExtRte :: "HdrExtRte \<Rightarrow> HdrExtRte" where
  "dup_HdrExtRte rhs =
     (if n_addr rhs > 0 then
        \<lparr>rte_mipv6 = rte_mipv6 rhs, routing_type = IPv6_TYPE0_RT_HDR, hdr_ext_len = hdr_ext_len rhs,
         segments_left = segments_left rhs, rte_addr = take (n_addr rhs) (rte_addr rhs)\<rparr>
      else
        \<lparr>rte_mipv6 = rte_mipv6 rhs, routing_type = IPv6_TYPE0_RT_HDR, hdr_ext_len = 0,
         segments_left = 0, rte_addr = []\<rparr>)"

definition new_MIPv6RteOpt :: "ipv6_addr \<Rightarrow> HdrExtRte result" where
  "new_MIPv6RteOpt home_addr = addAddress home_addr ((new_HdrExtRte IPv6_TYPE2_RT_HDR)\<lparr>rte_mipv6 := True\<rparr>)"

section \<open>The wrappers\<close>

fun setNextHeader :: "int \<Rightarrow> HdrExtProc \<Rightarrow> HdrExtProc" where
  "setNextHeader t (RteProc _ rs) = RteProc t rs"
| "setNextHeader t (DestProc _ os) = DestProc t os"
| "setNextHeader t (FragProc _ i) = FragProc t i"

fun ext_type :: "HdrExtProc \<Rightarrow> IPv6ExtHeader" where
  "ext_type (RteProc _ _) = EXTHDR_ROUTING"
| "ext_type (DestProc _ _) = EXTHDR_DEST"
| "ext_type (FragProc _ _) = EXTHDR_FRAGMENT"

fun lengthInUnits :: "HdrExtProc \<Rightarrow> nat" where
  "lengthInUnits (RteProc _ rs) = sum_list (map rte_lengthInUnits rs)"
| "lengthInUnits (DestProc _ _) = IPv6_RT_HDR_LEN + 16"
| "lengthInUnits (FragProc _ _) = IPv6_FRAG_HDR_LEN"

text \<open>\<open>frag_counter\<close> is 0 throughout, as nothing is ever fragmented.\<close>

fun dup_HdrExtProc :: "HdrExtProc \<Rightarrow> HdrExtProc" where
  "dup_HdrExtProc (RteProc nx rs) = RteProc nx (map dup_HdrExtRte rs)"
| "dup_HdrExtProc (DestProc nx os) = DestProc nx os"
| "dup_HdrExtProc (FragProc nx i) = FragProc 0 i"

definition addRoutingHeader :: "HdrExtRte \<Rightarrow> HdrExtRte list \<Rightarrow> bool \<times> HdrExtRte list" where
  "addRoutingHeader rh rs =
     (if \<exists>r \<in> set rs. routing_type r = routing_type rh then (False, rs) else (True, rs @ [rh]))"

text \<open>The position of the first header of a type.\<close>

fun routingHeader :: "uint8 \<Rightarrow> HdrExtRte list \<Rightarrow> nat option" where
  "routingHeader t [] = None"
| "routingHeader t (r # rs) = (if routing_type r = t then Some 0 else map_option Suc (routingHeader t rs))"

definition isSegmentsLeft :: "HdrExtRte list \<Rightarrow> bool" where
  "isSegmentsLeft rs \<longleftrightarrow> (\<exists>r \<in> set rs. segments_left r \<noteq> 0)"

text \<open>All options have the type of the home address option, so there is at most one.\<close>

definition addOption :: "ipv6_addr \<Rightarrow> ipv6_addr list \<Rightarrow> bool \<times> ipv6_addr list" where
  "addOption opt os = (if os \<noteq> [] then (False, os) else (True, os @ [opt]))"

definition getOption :: "ipv6_addr list \<Rightarrow> ipv6_addr option" where
  "getOption os = (case os of [] \<Rightarrow> None | opt # _ \<Rightarrow> Some opt)"

section \<open>\<open>IPv6Datagram\<close>\<close>

definition new_IPv6Datagram :: "ipv6_addr \<Rightarrow> ipv6_addr \<Rightarrow> 'p IPv6Datagram" where
  "new_IPv6Datagram src dest =
     \<lparr>d6_inputPort = -1, d6_outputPort = -1, d6_hopLimit = 0, d6_transportProtocol = 0,
      d6_srcAddress = src, d6_destAddress = dest, d6_encapLimit = 16,
      d6_length = IPv6_HEADER_OCTETLENGTH * BITS, payload_length = 0, next_header = 59, ext_hdrs = [],
      route_hdr = None, frag_hdr = None, dest_hdr = None, d6_payload = NoMsg\<rparr>"

definition dgram_encapsulate :: "'p ip6_msg \<Rightarrow> 'p IPv6Datagram \<Rightarrow> 'p IPv6Datagram" where
  "dgram_encapsulate m d = d\<lparr>d6_payload := m, d6_length := d6_length d + msg_length m\<rparr>"

definition dup_IPv6Datagram :: "'p IPv6Datagram \<Rightarrow> 'p IPv6Datagram" where
  "dup_IPv6Datagram rhs =
     rhs\<lparr>ext_hdrs := map dup_HdrExtProc (ext_hdrs rhs), route_hdr := None, frag_hdr := None, dest_hdr := None\<rparr>"

text \<open>
  \<open>1<<16 - 1\<close> is \<open>1<<15\<close>. \<open>setTotalLength\<close> is not called anywhere.
\<close>

definition totalLength :: "'p IPv6Datagram \<Rightarrow> nat result" where
  "totalLength d =
     ASSERT (IPv6_HEADER_OCTETLENGTH + unat (payload_length d) \<le> 2 ^ (16 - 1)) ''IPv6Datagram::totalLength''
       (Inr (IPv6_HEADER_OCTETLENGTH + unat (payload_length d)))"

definition setTotalLength :: "uint32 \<Rightarrow> 'p IPv6Datagram \<Rightarrow> 'p IPv6Datagram" where
  "setTotalLength len d = d\<lparr>payload_length := ucast (len - of_nat IPv6_HEADER_OCTETLENGTH)\<rparr>"

text \<open>The header after the one at a position, or the first one.\<close>

definition getNextHeader :: "nat option \<Rightarrow> 'p IPv6Datagram \<Rightarrow> nat option" where
  "getNextHeader fromHdrExt d =
     (let i = (case fromHdrExt of None \<Rightarrow> 0 | Some j \<Rightarrow> Suc j) in if i < length (ext_hdrs d) then Some i else None)"

text \<open>\<open>*(++it)\<close> on the last header is undefined.\<close>

fun findNext :: "int \<Rightarrow> nat \<Rightarrow> HdrExtProc list \<Rightarrow> nat option result" where
  "findNext t i [] = Inr None"
| "findNext t i (x # xs) =
     (if nextHeader x = t then (if xs = [] then Inl (Exception ''*end()'') else Inr (Some (Suc i)))
      else findNext t (Suc i) xs)"

definition findHeader :: "IPv6ExtHeader \<Rightarrow> 'p IPv6Datagram \<Rightarrow> nat option result" where
  "findHeader next_hdr d =
     (if next_header d = ext_code next_hdr \<and> ext_hdrs d \<noteq> [] then Inr (Some 0)
      else findNext (ext_code next_hdr) 0 (ext_hdrs d))"

definition appendHdr :: "IPv6ExtHeader \<Rightarrow> HdrExtProc \<Rightarrow> 'p IPv6Datagram \<Rightarrow> nat option \<times> 'p IPv6Datagram" where
  "appendHdr hdr_type proc d =
     (let d = (if ext_hdrs d = [] then d\<lparr>next_header := ext_code hdr_type\<rparr>
               else d\<lparr>ext_hdrs := butlast (ext_hdrs d) @ [setNextHeader (ext_code hdr_type) (last (ext_hdrs d))]\<rparr>)
      in (Some (length (ext_hdrs d)),
          d\<lparr>ext_hdrs := ext_hdrs d @ [proc], d6_length := d6_length d + lengthInUnits proc * BITS\<rparr>))"

definition addExtHdr :: "IPv6ExtHeader \<Rightarrow> 'p IPv6Datagram \<Rightarrow> (nat option \<times> 'p IPv6Datagram) result" where
  "addExtHdr hdr_type d =
     (case hdr_type of
        EXTHDR_HOP \<Rightarrow> Inr (None, d)
      | EXTHDR_DEST \<Rightarrow> Inr (appendHdr hdr_type (DestProc 0 []) d)
      | EXTHDR_ROUTING \<Rightarrow> Inr (appendHdr hdr_type (RteProc 0 []) d)
      | EXTHDR_FRAGMENT \<Rightarrow> Inr (appendHdr hdr_type (FragProc 0 0) d)
      | EXTHDR_ESP \<Rightarrow> Inl (OppError ''Sorry ESP or AUTH ext hdr not supported yet'')
      | EXTHDR_AUTH \<Rightarrow> Inl (OppError ''Sorry ESP or AUTH ext hdr not supported yet'')
      | EXTHDR_UNINITIALISED \<Rightarrow> Inl (OppError ''Unrecoverable error: Unknown ext hdr type''))"

text \<open>Once the pointer is cached, another header is added at every call.\<close>

definition acquireRoutingInterface :: "'p IPv6Datagram \<Rightarrow> (nat option \<times> 'p IPv6Datagram) result" where
  "acquireRoutingInterface d =
     ebind (if route_hdr d = None then findHeader EXTHDR_ROUTING d else Inr None) (\<lambda>found.
       case found of
         Some i \<Rightarrow> Inr (Some i, d\<lparr>route_hdr := Some i\<rparr>)
       | None \<Rightarrow> emap (\<lambda>(p, d). (p, d\<lparr>route_hdr := p\<rparr>)) (addExtHdr EXTHDR_ROUTING d))"

definition acquireFragInterface :: "'p IPv6Datagram \<Rightarrow> (nat option \<times> 'p IPv6Datagram) result" where
  "acquireFragInterface d =
     ebind (if frag_hdr d = None then findHeader EXTHDR_FRAGMENT d else Inr None) (\<lambda>found.
       case found of
         Some i \<Rightarrow> Inr (Some i, d\<lparr>frag_hdr := Some i\<rparr>)
       | None \<Rightarrow> emap (\<lambda>(p, d). (p, d\<lparr>frag_hdr := p\<rparr>)) (addExtHdr EXTHDR_FRAGMENT d))"

definition acquireDestInterface :: "'p IPv6Datagram \<Rightarrow> (nat option \<times> 'p IPv6Datagram) result" where
  "acquireDestInterface d =
     ebind (if dest_hdr d = None then findHeader EXTHDR_DEST d else Inr None) (\<lambda>found.
       case found of
         Some i \<Rightarrow> Inr (Some i, d\<lparr>dest_hdr := Some i\<rparr>)
       | None \<Rightarrow> emap (\<lambda>(p, d). (p, d\<lparr>dest_hdr := p\<rparr>)) (addExtHdr EXTHDR_DEST d))"

text \<open>The length up to a header, which counts the header itself twice.\<close>

definition cumulLengthInUnits :: "nat \<Rightarrow> 'p IPv6Datagram \<Rightarrow> int" where
  "cumulLengthInUnits i d =
     (let lens = map lengthInUnits (ext_hdrs d) in int (sum_list (take (Suc i) lens) + lens ! i))"

end
