(* ===== verification/IPv6_LocalDeliver.thy ===== *)
theory IPv6_LocalDeliver
  imports IPv6_Datagram
begin

text \<open>
  The delivery of datagrams to this node (\<open>Network/IPv6/IPv6LocalDeliver.cc\<close>), with what the
  extension headers do there: routing headers (\<open>HdrExtRte::processHeader\<close>) and the home address
  option (\<open>Network/MIPv6/MIPv6DestOptMessages.cc\<close>, \<open>MIPv6MobilityState.cc\<close>). A computation gives
  the messages it sent, in order, and its result; an error stops it after those messages.
\<close>

section \<open>Computations that send messages\<close>

type_synonym ('o, 'a) sender = "'o list \<times> 'a result"

definition wret :: "'a \<Rightarrow> ('o, 'a) sender" where
  "wret x = ([], Inr x)"

definition wfail :: "sim_error \<Rightarrow> ('o, 'a) sender" where
  "wfail e = ([], Inl e)"

definition wlift :: "'a result \<Rightarrow> ('o, 'a) sender" where
  "wlift r = ([], r)"

definition wbind :: "('o, 'a) sender \<Rightarrow> ('a \<Rightarrow> ('o, 'b) sender) \<Rightarrow> ('o, 'b) sender" where
  "wbind m f =
     (case m of
        (out, Inl e) \<Rightarrow> (out, Inl e)
      | (out, Inr x) \<Rightarrow> (case f x of (out', r) \<Rightarrow> (out @ out', r)))"

definition wsend :: "'o list \<Rightarrow> ('o, 'a) sender \<Rightarrow> ('o, 'a) sender" where
  "wsend out m = (out @ fst m, snd m)"

definition WASSERT :: "bool \<Rightarrow> string \<Rightarrow> ('o, 'a) sender \<Rightarrow> ('o, 'a) sender" where
  "WASSERT b msg k = (if b then k else wfail (AssertFailed msg))"

lemma sender_simps [simp]:
  "wbind (wret x) f = f x" "wbind (wfail e) f = wfail e" "wbind (wlift (Inr x)) f = f x"
  "wbind (wlift (Inl e)) f = wfail e" "wsend [] m = m" "WASSERT True msg k = k"
  "WASSERT False msg k = wfail (AssertFailed msg)"
  "wbind (wsend out m) f = wsend out (wbind m f)"
  by (auto simp: wbind_def wret_def wfail_def wlift_def wsend_def WASSERT_def split: prod.split sum.split)

lemma wbind_eq_Inr:
  "wbind m f = (out, Inr y) \<longleftrightarrow> (\<exists>o1 x o2. m = (o1, Inr x) \<and> f x = (o2, Inr y) \<and> out = o1 @ o2)"
  by (cases m; cases "snd m") (auto simp: wbind_def split: prod.splits)

lemma sender_eqs:
  "wret x = (out, Inr y) \<longleftrightarrow> out = [] \<and> y = x" "wfail e = (out, Inr y) \<longleftrightarrow> False"
  "WASSERT b msg k = (out, Inr y) \<longleftrightarrow> b \<and> k = (out, Inr y)"
  "wsend os k = (out, Inr y) \<longleftrightarrow> (\<exists>o2. k = (o2, Inr y) \<and> out = os @ o2)"
  by (auto simp: wret_def wfail_def WASSERT_def wsend_def prod_eq_iff)

section \<open>The messages\<close>

definition ICMPv6_PACKET_TOO_BIG :: int where "ICMPv6_PACKET_TOO_BIG = 2"
definition ICMPv6_TIME_EXCEEDED :: int where "ICMPv6_TIME_EXCEEDED = 3"
definition ICMPv6_PARAMETER_PROBLEM :: int where "ICMPv6_PARAMETER_PROBLEM = 4"
definition ND_HOP_LIMIT_EXCEEDED :: int where "ND_HOP_LIMIT_EXCEEDED = 0"

record 'p ICMPv6Error =
  icmp_type :: int
  icmp_code :: int
  icmp_optInfo :: int
  icmp_contents :: "'p IPv6Datagram"

definition createICMPv6Message :: "int \<Rightarrow> int \<Rightarrow> 'p IPv6Datagram \<Rightarrow> int \<Rightarrow> 'p ICMPv6Error" where
  "createICMPv6Message t code contents optInfo =
     \<lparr>icmp_type = t, icmp_code = code, icmp_optInfo = optInfo, icmp_contents = contents\<rparr>"

record IPv6ControlInfo =
  c6_protocol :: int
  c6_srcAddr :: ipv6_addr
  c6_destAddr :: ipv6_addr
  c6_timeToLive :: int
  c6_encapLimit :: int

datatype 'p ld_out =
    ErrorOut "'p ICMPv6Error"
  | RoutingOut "'p IPv6Datagram"
  | MobRoutingOut "'p IPv6Datagram"
  | ICMPOut "'p IPv6Datagram"
  | TunnelOut "'p IPv6Datagram"
  | MobilityOut "'p IPv6Datagram"
  | MulticastOut "'p ip6_msg" IPv6ControlInfo
  | TransportOut nat "'p ip6_msg" IPv6ControlInfo

section \<open>Routing headers\<close>

text \<open>
  The datagram holds the header that is processed: the \<open>j\<close>-th routing header in the \<open>i\<close>-th
  extension header. What is sent is a duplicate made after the header was changed.
\<close>

fun upd_rheads :: "nat \<Rightarrow> HdrExtRte \<Rightarrow> HdrExtProc \<Rightarrow> HdrExtProc" where
  "upd_rheads j h (RteProc nx rs) = RteProc nx (rs[j := h])"
| "upd_rheads j h x = x"

definition put_rte :: "nat \<Rightarrow> nat \<Rightarrow> HdrExtRte \<Rightarrow> 'p IPv6Datagram \<Rightarrow> 'p IPv6Datagram" where
  "put_rte i j h d = d\<lparr>ext_hdrs := (ext_hdrs d)[i := upd_rheads j h (ext_hdrs d ! i)]\<rparr>"

text \<open>The result is false when the header has deleted the datagram.\<close>

definition rte_processHeader ::
    "nat \<Rightarrow> nat \<Rightarrow> HdrExtRte \<Rightarrow> int \<Rightarrow> 'p IPv6Datagram \<Rightarrow> ('p ld_out, bool \<times> 'p IPv6Datagram) sender" where
  "rte_processHeader i j h cumulLength pdu =
     WASSERT (\<not> isMulticast6 (d6_destAddress pdu)) ''HdrExtRte::processHeader''
       (if segments_left h = 0 then wret (True, pdu)
        else if odd (unat (hdr_ext_len h)) then
          wsend [ErrorOut (createICMPv6Message ICMPv6_PARAMETER_PROBLEM 0 (dup_IPv6Datagram pdu)
                   (cumulLength - int (rte_lengthInUnits h)))]
            (wret (False, pdu))
        else if unat (segments_left h) > n_addr h then
          wsend [ErrorOut (createICMPv6Message ICMPv6_PARAMETER_PROBLEM 0 (dup_IPv6Datagram pdu) cumulLength)]
            (wret (False, pdu))
        else
          let h = h\<lparr>segments_left := segments_left h - 1\<rparr>;
              index = n_addr h - unat (segments_left h)
          in wbind (wlift (rteAt (index - 1) h Inr)) (\<lambda>swap_addr.
               if isMulticast6 swap_addr \<or> isMulticast6 (d6_destAddress pdu) then wret (False, put_rte i j h pdu)
               else
                 let h = h\<lparr>rte_addr := (rte_addr h)[index - 1 := d6_destAddress pdu]\<rparr>;
                     pdu = (put_rte i j h pdu)\<lparr>d6_destAddress := swap_addr\<rparr>
                 in if d6_hopLimit pdu \<le> 1 then
                      wsend [ErrorOut (createICMPv6Message ICMPv6_TIME_EXCEEDED ND_HOP_LIMIT_EXCEEDED
                               (dup_IPv6Datagram pdu) 0)]
                        (wret (False, pdu))
                    else wsend [RoutingOut (dup_IPv6Datagram pdu)] (wret (True, pdu))))"

text \<open>The class of the header decides which \<open>processHeader\<close> runs.\<close>

definition virtual_processHeader ::
    "nat \<Rightarrow> nat \<Rightarrow> HdrExtRte \<Rightarrow> int \<Rightarrow> 'p IPv6Datagram \<Rightarrow> ('p ld_out, bool \<times> 'p IPv6Datagram) sender" where
  "virtual_processHeader i j h cumulLength pdu =
     (if rte_mipv6 h then
        WASSERT (segments_left h = 1) ''MIPv6RteOpt::processHeader'' (rte_processHeader i j h cumulLength pdu)
      else rte_processHeader i j h cumulLength pdu)"

text \<open>
  \<open>HdrExtRteProc::processHeader\<close>: every routing header with segments left, from position \<open>j\<close>.
  The headers still to come are not changed by the one that is processed.
\<close>

fun rteproc_processHeader ::
    "nat \<Rightarrow> nat \<Rightarrow> HdrExtRte list \<Rightarrow> int \<Rightarrow> 'p IPv6Datagram \<Rightarrow> ('p ld_out, bool \<times> 'p IPv6Datagram) sender" where
  "rteproc_processHeader i j [] cuml pdu = wret (True, pdu)"
| "rteproc_processHeader i j (h # hs) cuml pdu =
     (let cuml = cuml + int (rte_lengthInUnits h) in
      if segments_left h \<noteq> 0 then
        wbind (virtual_processHeader i j h cuml pdu) (\<lambda>(success, pdu).
          if \<not> success then wret (False, pdu) else rteproc_processHeader i (Suc j) hs cuml pdu)
      else rteproc_processHeader i (Suc j) hs cuml pdu)"

section \<open>The home address option\<close>

text \<open>
  What the mobility module of the node knows: the binding cache, from home to care-of addresses,
  \<open>None\<close> on a node without mobility support, and the hop limits of the interfaces.
\<close>

record MobilityRole =
  bindings :: "(ipv6_addr \<Rightarrow> ipv6_addr option) option"
  hopLimits :: "int list"

definition constructDatagram ::
    "ipv6_addr \<Rightarrow> ipv6_addr \<Rightarrow> 'p ip6_msg \<Rightarrow> int \<Rightarrow> MobilityRole \<Rightarrow> 'p IPv6Datagram result" where
  "constructDatagram dest src mhb ifIndex mob =
     (if hopLimits mob = [] then Inl (NullPointer ''interfaceByPortNo'')
      else
        let hoplimit = (if 0 \<le> ifIndex \<and> ifIndex < int (length (hopLimits mob)) then hopLimits mob ! nat ifIndex
                        else hopLimits mob ! 0)
        in Inr ((dgram_encapsulate mhb (new_IPv6Datagram dest src))
                  \<lparr>d6_transportProtocol := IPv6_PROT_MOB, d6_outputPort := ifIndex, d6_hopLimit := hoplimit\<rparr>))"

definition sendBE :: "int \<Rightarrow> MobilityRole \<Rightarrow> 'p IPv6Datagram \<Rightarrow> ('p ld_out, unit) sender" where
  "sendBE status mob dgram =
     wbind (wlift (findHeader EXTHDR_DEST dgram)) (\<lambda>proc.
       let hoa = (case proc of
                    None \<Rightarrow> IPv6_ADDR_UNSPECIFIED
                  | Some i \<Rightarrow> (case getOption (destOpts (ext_hdrs dgram ! i)) of
                                Some a \<Rightarrow> a | None \<Rightarrow> IPv6_ADDR_UNSPECIFIED))
       in if isMulticast6 (d6_srcAddress dgram) then wret ()
          else
            wbind (wlift (constructDatagram (d6_destAddress dgram) (d6_srcAddress dgram)
                     (BindingError status hoa) (d6_inputPort dgram) mob)) (\<lambda>reply.
              wsend [MobRoutingOut reply] (wret ())))"

definition processReceivedHoADestOpt :: "ipv6_addr \<Rightarrow> MobilityRole \<Rightarrow> 'p IPv6Datagram \<Rightarrow> ('p ld_out, bool) sender" where
  "processReceivedHoADestOpt hoa mob dgram =
     (case bindings mob of
        None \<Rightarrow> wfail (NullPointer ''role'')
      | Some bc \<Rightarrow>
          wbind (if d6_transportProtocol dgram = IPv6_PROT_MOB then
                   (case d6_payload dgram of
                      Mobility isBU _ _ \<Rightarrow> wret (\<not> isBU)
                    | BindingError _ _ \<Rightarrow> wret True
                    | _ \<Rightarrow> wfail (Exception ''check_and_cast''))
                 else wret True) (\<lambda>bindingTest.
            if bindingTest \<and> bc hoa \<noteq> Some (d6_srcAddress dgram) then
              wbind (sendBE 1 mob dgram) (\<lambda>_. wret False)
            else wret True))"

text \<open>\<open>MIPv6TLVOptHomeAddress::processOption\<close> for the option of the \<open>i\<close>-th extension header.\<close>

definition processOption ::
    "nat \<Rightarrow> ipv6_addr \<Rightarrow> MobilityRole \<Rightarrow> 'p IPv6Datagram \<Rightarrow> ('p ld_out, bool \<times> 'p IPv6Datagram) sender" where
  "processOption i home_addr mob dgram =
     wbind (processReceivedHoADestOpt home_addr mob dgram) (\<lambda>ok.
       if \<not> ok then wret (False, dgram)
       else if d6_transportProtocol dgram \<noteq> IPv6_PROT_MOB then
         wret (True, dgram
           \<lparr>d6_srcAddress := home_addr,
            ext_hdrs := (ext_hdrs dgram)[i := DestProc (nextHeader (ext_hdrs dgram ! i)) [d6_srcAddress dgram]]\<rparr>)
       else wret (True, dgram))"

text \<open>\<open>HdrExtDestProc::processHeader\<close>; \<open>addOption\<close> keeps at most one option in a header.\<close>

definition dest_processHeader ::
    "nat \<Rightarrow> ipv6_addr list \<Rightarrow> MobilityRole \<Rightarrow> 'p IPv6Datagram \<Rightarrow> ('p ld_out, bool \<times> 'p IPv6Datagram) sender" where
  "dest_processHeader i os mob pdu =
     (case os of [] \<Rightarrow> wret (True, pdu) | home_addr # _ \<Rightarrow> processOption i home_addr mob pdu)"

section \<open>\<open>IPv6LocalDeliver\<close>\<close>

record IPv6LocalDeliver =
  ctrIP6InUnknownProtos :: nat
  ctrIP6InDeliver :: nat

definition LocalDeliver_initialize :: IPv6LocalDeliver where
  "LocalDeliver_initialize = \<lparr>ctrIP6InUnknownProtos = 0, ctrIP6InDeliver = 0\<rparr>"

text \<open>
  The loop of \<open>processDatagram\<close> over the extension headers. A routing header that fails has
  deleted the datagram, which the loop and the caller use again and delete again.
\<close>

fun processHeaders ::
    "nat list \<Rightarrow> bool \<Rightarrow> MobilityRole \<Rightarrow> 'p IPv6Datagram \<Rightarrow> ('p ld_out, bool \<times> 'p IPv6Datagram) sender" where
  "processHeaders [] localdeliver mob d = wret (localdeliver, d)"
| "processHeaders (i # is) localdeliver mob d =
     (case ext_hdrs d ! i of
        DestProc _ os \<Rightarrow>
          wbind (dest_processHeader i os mob d) (\<lambda>(success, d).
            if success then processHeaders is localdeliver mob d else wret (False, d))
      | RteProc _ rs \<Rightarrow>
          if \<not> isSegmentsLeft rs then processHeaders is True mob d
          else
            wbind (rteproc_processHeader i 0 rs (cumulLengthInUnits i d) d) (\<lambda>(success, d).
              if success then processHeaders is False mob d else wfail (Exception ''deleted datagram used''))
      | FragProc _ _ \<Rightarrow> wfail (OppError ''fragmented IPv6 datagram encountered''))"

definition processDatagram :: "MobilityRole \<Rightarrow> 'p IPv6Datagram \<Rightarrow> ('p ld_out, bool \<times> 'p IPv6Datagram) sender" where
  "processDatagram mob d = processHeaders [0..<length (ext_hdrs d)] True mob d"

definition decapsulateDatagram :: "'p IPv6Datagram \<Rightarrow> ('p ip6_msg \<times> IPv6ControlInfo) result" where
  "decapsulateDatagram d =
     (if d6_payload d = NoMsg then Inl (NullPointer ''packet'')
      else Inr (d6_payload d,
        \<lparr>c6_protocol = d6_transportProtocol d, c6_srcAddr = d6_srcAddress d, c6_destAddr = d6_destAddress d,
         c6_timeToLive = 0, c6_encapLimit = 16\<rparr>))"

definition LocalDeliver_handleMessage ::
    "MobilityRole \<Rightarrow> 'p IPv6Datagram \<Rightarrow> IPv6LocalDeliver \<Rightarrow> ('p ld_out, IPv6LocalDeliver) sender" where
  "LocalDeliver_handleMessage mob d ld =
     wbind (processDatagram mob d) (\<lambda>(deliver, d).
       if \<not> deliver then wret ld
       else if d6_transportProtocol d = IPv6_PROT_ICMP then wsend [ICMPOut d] (wret ld)
       else if d6_transportProtocol d = IP_PROT_IPv6 then wsend [TunnelOut d] (wret ld)
       else if d6_transportProtocol d = IPv6_PROT_MOB then wsend [MobilityOut d] (wret ld)
       else
         wbind (wlift (decapsulateDatagram d)) (\<lambda>(msg, ctrl).
           if d6_transportProtocol d = IP_PROT_IGMP then wsend [MulticastOut msg ctrl] (wret ld)
           else if d6_transportProtocol d = IP_PROT_IPv4 then wret ld
           else if d6_transportProtocol d = IP_PROT_TCP then
             wsend [TransportOut 0 msg ctrl] (wret (ld\<lparr>ctrIP6InDeliver := ctrIP6InDeliver ld + 1\<rparr>))
           else if d6_transportProtocol d = IPv6_PROT_UDP then
             wsend [TransportOut 1 msg ctrl] (wret (ld\<lparr>ctrIP6InDeliver := ctrIP6InDeliver ld + 1\<rparr>))
           else wfail (OppError ''invalid protocol code in datagram'')))"

section \<open>Well-formed routing headers\<close>

text \<open>A partial correctness triple for computations that send: of every message, error and result.\<close>

definition sender_post :: "('o \<Rightarrow> bool) \<Rightarrow> (sim_error \<Rightarrow> bool) \<Rightarrow> ('a \<Rightarrow> bool) \<Rightarrow> ('o, 'a) sender \<Rightarrow> bool" where
  "sender_post P E Q m \<longleftrightarrow> (\<forall>out \<in> set (fst m). P out) \<and> (case snd m of Inl e \<Rightarrow> E e | Inr x \<Rightarrow> Q x)"

named_theorems sender_rules

lemma sender_post_simps [sender_rules]:
  "sender_post P E Q (wret x) \<longleftrightarrow> Q x" "sender_post P E Q (wfail e) \<longleftrightarrow> E e"
  "sender_post P E Q (wlift r) \<longleftrightarrow> (case r of Inl e \<Rightarrow> E e | Inr x \<Rightarrow> Q x)"
  "sender_post P E Q (wsend out m) \<longleftrightarrow> (\<forall>o1 \<in> set out. P o1) \<and> sender_post P E Q m"
  "sender_post P E Q (WASSERT b msg m) \<longleftrightarrow> (if b then sender_post P E Q m else E (AssertFailed msg))"
  by (auto simp: sender_post_def wret_def wfail_def wlift_def wsend_def WASSERT_def)

lemma sender_post_bind:
  assumes "sender_post P E R m" "\<And>x. R x \<Longrightarrow> sender_post P E Q (f x)"
  shows "sender_post P E Q (wbind m f)"
proof (cases m)
  case (Pair out r)
  show ?thesis
  proof (cases r)
    case (Inl e)
    then show ?thesis using assms(1) Pair by (simp add: sender_post_def wbind_def)
  next
    case (Inr x)
    have "R x" using Inr assms(1) Pair by (simp add: sender_post_def)
    then have "sender_post P E Q (f x)" by (rule assms(2))
    obtain o2 r2 where "f x = (o2, r2)" by fastforce
    with \<open>sender_post P E Q (f x)\<close> show ?thesis using assms(1) Pair Inr by (auto simp: sender_post_def wbind_def)
  qed
qed

text \<open>
  The length field counts two units for each address of the array, and there are never more
  segments left than addresses.
\<close>

definition rte_ok :: "HdrExtRte \<Rightarrow> bool" where
  "rte_ok h \<longleftrightarrow> unat (hdr_ext_len h) = 2 * length (rte_addr h) \<and> unat (segments_left h) \<le> length (rte_addr h)"

fun ext_ok :: "HdrExtProc \<Rightarrow> bool" where
  "ext_ok (RteProc nx rs) \<longleftrightarrow> list_all rte_ok rs"
| "ext_ok _ \<longleftrightarrow> True"

definition headers_ok :: "'p IPv6Datagram \<Rightarrow> bool" where
  "headers_ok d \<longleftrightarrow> list_all ext_ok (ext_hdrs d)"

lemma rte_ok_n_addr: "rte_ok h \<Longrightarrow> n_addr h = length (rte_addr h)"
  by (simp add: rte_ok_def n_addr_def)

lemma rte_ok_new: "rte_ok (new_HdrExtRte t)"
  by (simp add: rte_ok_def new_HdrExtRte_def)

lemma rte_ok_dup: "rte_ok h \<Longrightarrow> rte_ok (dup_HdrExtRte h)"
  using rte_ok_n_addr[of h] by (auto simp: dup_HdrExtRte_def rte_ok_def)

lemma unat_word_of_int8: "0 \<le> i \<Longrightarrow> i < 256 \<Longrightarrow> unat (word_of_int i :: uint8) = nat i"
  by (simp add: unsigned_of_int take_bit_int_eq_self)

text \<open>The node that builds a header adds addresses while all segments are left.\<close>

lemma rte_ok_addAddress:
  assumes "rte_ok h" "unat (segments_left h) = length (rte_addr h)" "addAddress a h = Inr h'"
  shows "rte_ok h' \<and> unat (segments_left h') = length (rte_addr h') \<and> rte_addr h' = rte_addr h @ [a]"
proof -
  have s: "uint (segments_left h) + 1 < 256" "uint (hdr_ext_len h) + 2 < 256"
    "h' = h\<lparr>segments_left := word_of_int (uint (segments_left h) + 1),
             hdr_ext_len := word_of_int (uint (hdr_ext_len h) + 2), rte_addr := rte_addr h @ [a]\<rparr>"
    using assms by (auto simp: addAddress_def setSegmentsLeft_def setHdrExtLen_def Let_def result_simps split: if_splits)
  have "unat (word_of_int (uint (segments_left h) + 1) :: uint8) = nat (uint (segments_left h) + 1)"
    "unat (word_of_int (uint (hdr_ext_len h) + 2) :: uint8) = nat (uint (hdr_ext_len h) + 2)"
    using s by (intro unat_word_of_int8; simp)+
  then show ?thesis using assms(1,2) s(3) by (simp add: rte_ok_def nat_add_distrib)
qed

lemma ext_ok_dup: "ext_ok x \<Longrightarrow> ext_ok (dup_HdrExtProc x)"
  by (cases x) (auto simp: list_all_iff rte_ok_dup)

lemma headers_ok_dup: "headers_ok d \<Longrightarrow> headers_ok (dup_IPv6Datagram d)"
  by (auto simp: headers_ok_def dup_IPv6Datagram_def list_all_iff ext_ok_dup)

lemma list_all_update: "list_all P xs \<Longrightarrow> P x \<Longrightarrow> list_all P (xs[i := x])"
  by (auto simp: list_all_iff dest: set_update_subset_insert[THEN subsetD])

lemma headers_ok_put:
  assumes "headers_ok d" "rte_ok h" "i < length (ext_hdrs d)"
  shows "headers_ok (put_rte i j h d)"
proof -
  have "ext_ok (ext_hdrs d ! i)" using assms(1,3) by (simp add: headers_ok_def list_all_length)
  then have "ext_ok (upd_rheads j h (ext_hdrs d ! i))"
    using assms(2) by (cases "ext_hdrs d ! i") (auto intro: list_all_update)
  then show ?thesis using assms(1) by (simp add: headers_ok_def put_rte_def list_all_update)
qed

lemma headers_ok_fields [simp]:
  "headers_ok (d\<lparr>d6_destAddress := a\<rparr>) = headers_ok d" "headers_ok (d\<lparr>d6_srcAddress := b\<rparr>) = headers_ok d"
  "headers_ok (put_rte i j h d\<lparr>d6_destAddress := a\<rparr>) = headers_ok (put_rte i j h d)"
  by (simp_all add: headers_ok_def)

fun out_ok :: "'p ld_out \<Rightarrow> bool" where
  "out_ok (ErrorOut err) \<longleftrightarrow> headers_ok (icmp_contents err)"
| "out_ok (RoutingOut d) \<longleftrightarrow> headers_ok d"
| "out_ok (MobRoutingOut d) \<longleftrightarrow> headers_ok d"
| "out_ok (ICMPOut d) \<longleftrightarrow> headers_ok d"
| "out_ok (TunnelOut d) \<longleftrightarrow> headers_ok d"
| "out_ok (MobilityOut d) \<longleftrightarrow> headers_ok d"
| "out_ok _ \<longleftrightarrow> True"

text \<open>Everything but a read past the end of an address array.\<close>

definition in_array :: "sim_error \<Rightarrow> bool" where
  "in_array e \<longleftrightarrow> e \<noteq> Exception ''rt0_hdr->addr''"

lemma in_array_simps [simp]:
  "in_array (AssertFailed m)" "in_array (OppError m)" "in_array (NullPointer m)"
  "in_array (Exception m) \<longleftrightarrow> m \<noteq> ''rt0_hdr->addr''"
  by (simp_all add: in_array_def)

abbreviation rte_post :: "('a \<Rightarrow> bool) \<Rightarrow> ('p ld_out, 'a) sender \<Rightarrow> bool" where
  "rte_post \<equiv> sender_post out_ok in_array"

lemma rteAt_current:
  assumes "rte_ok h" "segments_left h \<noteq> 0"
  shows "\<exists>a. rteAt (n_addr h - Suc (unat (segments_left h - 1))) (h\<lparr>segments_left := segments_left h - 1\<rparr>) Inr = Inr a"
proof -
  have "unat (segments_left h - 1) = unat (segments_left h) - 1" using assms(2) by (rule unat_minus_one)
  moreover have "0 < unat (segments_left h)" using assms(2) by (simp add: unat_gt_0)
  moreover have "unat (segments_left h) \<le> length (rte_addr h)" using assms(1) by (simp add: rte_ok_def)
  ultimately have "n_addr h - Suc (unat (segments_left h - 1)) < length (rte_addr h)"
    using rte_ok_n_addr[OF assms(1)] by simp
  then show ?thesis by (simp add: rteAt_def)
qed

lemma n_addr_segments: "n_addr (h\<lparr>segments_left := x\<rparr>) = n_addr h"
  by (simp add: n_addr_def)

lemma rte_processHeader_post:
  assumes "headers_ok d" "rte_ok h" "i < length (ext_hdrs d)"
  shows "rte_post (\<lambda>(_, d'). headers_ok d' \<and> length (ext_hdrs d') = length (ext_hdrs d)) (rte_processHeader i j h cuml d)"
proof (cases "segments_left h = 0")
  case True
  then show ?thesis using assms(1) by (simp add: rte_processHeader_def sender_rules in_array_def)
next
  case False
  let ?h = "h\<lparr>segments_left := segments_left h - 1\<rparr>"
  obtain a where a: "rteAt (n_addr h - Suc (unat (segments_left h - 1))) ?h Inr = Inr a"
    using rteAt_current[OF assms(2) False] by blast
  have "unat (segments_left h - 1) \<le> unat (segments_left h)" using unat_minus_one[OF False] by simp
  then have ok: "rte_ok ?h" "rte_ok (?h\<lparr>rte_addr := (rte_addr h)[x := b]\<rparr>)" for x b
    using assms(2) by (auto simp: rte_ok_def)
  then have put: "headers_ok (put_rte i j ?h d)" "headers_ok (put_rte i j (?h\<lparr>rte_addr := (rte_addr h)[x := b]\<rparr>) d)"
    for x b using headers_ok_put[OF assms(1) _ assms(3)] by blast+
  have len: "length (ext_hdrs (put_rte i j x d)) = length (ext_hdrs d)" for x by (simp add: put_rte_def)
  show ?thesis
    using False a put len assms(1)
    by (simp add: rte_processHeader_def Let_def sender_rules in_array_def createICMPv6Message_def headers_ok_dup
        n_addr_segments)
qed

abbreviation headers_post :: "nat \<Rightarrow> bool \<times> 'p IPv6Datagram \<Rightarrow> bool" where
  "headers_post n \<equiv> (\<lambda>(_, d). headers_ok d \<and> length (ext_hdrs d) = n)"

lemma virtual_processHeader_post:
  assumes "headers_ok d" "rte_ok h" "i < length (ext_hdrs d)"
  shows "rte_post (headers_post (length (ext_hdrs d))) (virtual_processHeader i j h cuml d)"
  using rte_processHeader_post[OF assms] by (simp add: virtual_processHeader_def sender_rules in_array_def)

lemma rteproc_processHeader_post:
  fixes d :: "'p IPv6Datagram"
  assumes "headers_ok d" "list_all rte_ok hs" "i < n" "length (ext_hdrs d) = n"
  shows "rte_post (headers_post n) (rteproc_processHeader i j hs cuml d)"
  using assms
proof (induction hs arbitrary: j cuml d)
  case (Cons h hs)
  have h: "rte_ok h" "list_all rte_ok hs" using Cons.prems(2) by simp_all
  have step: "rte_post (headers_post n) (virtual_processHeader i j h cuml' d)" for cuml'
    using virtual_processHeader_post[OF Cons.prems(1) h(1)] Cons.prems(3,4) by simp
  have rest: "rte_post (headers_post n) (rteproc_processHeader i (Suc j) hs cuml' d')"
    if "headers_ok d'" "length (ext_hdrs d') = n" for cuml' and d' :: "'p IPv6Datagram"
    using Cons.IH[OF that(1) h(2) Cons.prems(3) that(2)] .
  show ?case
    using Cons.prems rest
    by (auto simp: Let_def sender_rules intro!: sender_post_bind[OF step])
qed (simp add: sender_rules)

lemma constructDatagram_headers: "constructDatagram dest src m i mob = Inr d \<Longrightarrow> headers_ok d"
  by (auto simp: constructDatagram_def headers_ok_def dgram_encapsulate_def new_IPv6Datagram_def Let_def split: if_splits)

lemma findNext_in_array: "findNext t i xs = Inl e \<Longrightarrow> in_array e"
  by (induction xs arbitrary: i) (auto simp: in_array_def split: if_splits)

lemma findHeader_in_array: "findHeader t d = Inl e \<Longrightarrow> in_array e"
  by (auto simp: findHeader_def findNext_in_array split: if_splits)

lemma constructDatagram_in_array: "constructDatagram dest src m i mob = Inl e \<Longrightarrow> in_array e"
  by (auto simp: constructDatagram_def in_array_def Let_def split: if_splits)

lemma wlift_post:
  "(\<And>e. r = Inl e \<Longrightarrow> in_array e) \<Longrightarrow> (\<And>x. r = Inr x \<Longrightarrow> R x) \<Longrightarrow> rte_post R (wlift r)"
  by (cases r) (simp_all add: sender_rules)

lemma sendBE_post: "rte_post (\<lambda>_. True) (sendBE status mob d)"
proof -
  have find: "rte_post (\<lambda>_. True) (wlift (findHeader EXTHDR_DEST d))"
    by (rule wlift_post) (auto intro: findHeader_in_array)
  have make: "rte_post headers_ok (wlift (constructDatagram dest src m i mob))" for dest src m i
    by (rule wlift_post) (auto intro: constructDatagram_in_array constructDatagram_headers)
  show ?thesis
    unfolding sendBE_def Let_def
    by (rule sender_post_bind[OF find]) (auto simp: sender_rules intro!: sender_post_bind[OF make])
qed

lemma processReceivedHoADestOpt_post: "rte_post (\<lambda>_. True) (processReceivedHoADestOpt hoa mob d)"
proof (cases "bindings mob")
  case None
  then show ?thesis by (simp add: processReceivedHoADestOpt_def sender_rules in_array_def)
next
  case (Some bc)
  have "rte_post (\<lambda>_. True) (if d6_transportProtocol d = IPv6_PROT_MOB then
      (case d6_payload d of Mobility isBU _ _ \<Rightarrow> wret (\<not> isBU) | BindingError _ _ \<Rightarrow> wret True
       | _ \<Rightarrow> wfail (Exception ''check_and_cast'')) else wret True)"
    by (auto simp: sender_rules in_array_def split: ip6_msg.split)
  then show ?thesis
    unfolding processReceivedHoADestOpt_def Some option.case
    by (rule sender_post_bind) (auto simp: sender_rules intro!: sender_post_bind[OF sendBE_post])
qed

lemma dest_processHeader_post:
  assumes "headers_ok d" "i < length (ext_hdrs d)"
  shows "rte_post (headers_post (length (ext_hdrs d))) (dest_processHeader i os mob d)"
proof -
  have "headers_ok (d\<lparr>d6_srcAddress := a, ext_hdrs := (ext_hdrs d)[i := DestProc nx [b]]\<rparr>)" for a b nx
    using assms(1) by (simp add: headers_ok_def list_all_update)
  then have "rte_post (headers_post (length (ext_hdrs d))) (processOption i a mob d)" for a
    unfolding processOption_def
    by (rule_tac sender_post_bind[OF processReceivedHoADestOpt_post]) (simp add: sender_rules assms(1))
  then show ?thesis using assms(1) by (simp add: dest_processHeader_def sender_rules split: list.split)
qed

lemma processHeaders_post:
  fixes d :: "'p IPv6Datagram"
  assumes "headers_ok d" "\<forall>i \<in> set is. i < n" "length (ext_hdrs d) = n"
  shows "rte_post (headers_post n) (processHeaders is loc mob d)"
  using assms
proof (induction "is" arbitrary: loc d)
  case (Cons i "is")
  have i: "i < length (ext_hdrs d)" "\<forall>i \<in> set is. i < n" using Cons.prems by simp_all
  have rest: "rte_post (headers_post n) (processHeaders is loc' mob d')"
    if "headers_ok d'" "length (ext_hdrs d') = n" for loc' and d' :: "'p IPv6Datagram" using Cons.IH that i(2) by blast
  show ?case
  proof (cases "ext_hdrs d ! i")
    case (RteProc nx rs)
    have rs: "list_all rte_ok rs" using Cons.prems(1) i(1) RteProc by (force simp: headers_ok_def list_all_length)
    have step: "rte_post (headers_post n) (rteproc_processHeader i 0 rs cuml d)" for cuml
      using rteproc_processHeader_post[OF Cons.prems(1) rs] i(1) Cons.prems(3) by simp
    show ?thesis using RteProc rest Cons.prems(1,3)
      by (auto simp: sender_rules intro!: sender_post_bind[OF step])
  next
    case (DestProc nx os)
    have step: "rte_post (headers_post n) (dest_processHeader i os mob d)"
      using dest_processHeader_post[OF Cons.prems(1) i(1)] Cons.prems(3) by simp
    show ?thesis using DestProc rest
      by (auto simp: sender_rules intro!: sender_post_bind[OF step])
  next
    case (FragProc nx j)
    then show ?thesis by (simp add: sender_rules in_array_def)
  qed
qed (simp add: sender_rules)

text \<open>
  C22: Routing headers stay well formed. Delivering a datagram whose routing headers are well
  formed, their length field counting the addresses and no more segments left than addresses, never
  reads past the end of an address array, and the headers of every datagram that is sent on, given
  to another module or quoted in an error message are well formed again, in the duplicates too.
\<close>

theorem routing_headers_stay_well_formed:
  assumes "headers_ok d" "LocalDeliver_handleMessage mob d ld = (outs, r)"
  shows "(\<forall>out \<in> set outs. out_ok out) \<and> r \<noteq> Inl (Exception ''rt0_hdr->addr'')"
proof -
  have p: "rte_post (headers_post (length (ext_hdrs d))) (processDatagram mob d)"
    unfolding processDatagram_def by (rule processHeaders_post) (use assms(1) in auto)
  have "rte_post (\<lambda>_. True) (LocalDeliver_handleMessage mob d ld)"
    unfolding LocalDeliver_handleMessage_def
    by (rule sender_post_bind[OF p])
      (auto simp: sender_rules in_array_def decapsulateDatagram_def split: if_splits
        intro!: sender_post_bind[where R = "\<lambda>_. True"])
  then show ?thesis using assms(2) by (cases r) (auto simp: sender_post_def in_array_def)
qed

lemma routing_headers_stay_well_formed_witness:
  "\<exists>h. new_MIPv6RteOpt (Ipv6Addr 1 2 3 4) = Inr h \<and>
     snd (LocalDeliver_handleMessage \<lparr>bindings = None, hopLimits = []\<rparr>
       ((new_IPv6Datagram (Ipv6Addr 1 0 0 1) (Ipv6Addr 1 0 0 2) :: nat IPv6Datagram)\<lparr>ext_hdrs := [RteProc 59 [h]]\<rparr>)
       LocalDeliver_initialize) \<noteq> Inl (Exception ''rt0_hdr->addr'')"
proof -
  obtain h where h: "new_MIPv6RteOpt (Ipv6Addr 1 2 3 4) = Inr h"
    by (simp add: new_MIPv6RteOpt_def addAddress_def new_HdrExtRte_def setSegmentsLeft_def setHdrExtLen_def)
  have n: "rte_ok ((new_HdrExtRte IPv6_TYPE2_RT_HDR)\<lparr>rte_mipv6 := True\<rparr>)" by (simp add: rte_ok_def new_HdrExtRte_def)
  have "rte_ok h" using rte_ok_addAddress[OF n _ h[unfolded new_MIPv6RteOpt_def]] by (simp add: new_HdrExtRte_def)
  then have "headers_ok ((new_IPv6Datagram (Ipv6Addr 1 0 0 1) (Ipv6Addr 1 0 0 2) :: nat IPv6Datagram)
      \<lparr>ext_hdrs := [RteProc 59 [h]]\<rparr>)" by (simp add: headers_ok_def)
  from routing_headers_stay_well_formed[OF this surjective_pairing] h show ?thesis by blast
qed

end
