(* ===== verification/IPv6_Send.thy ===== *)
theory IPv6_Send
  imports IPv6_Routing IPv6_LocalDeliver
begin

text \<open>
  The modules of the IPv6 layer around the routing decision: \<open>IPv6Send.cc\<close>, which wraps the
  messages of the upper layers, with its source routes; \<open>IPv6InputQueue.cc\<close> and
  \<open>IPv6PreRouting.cc\<close>, which bring in the datagrams of the interfaces; \<open>IPv6Multicast.cc\<close>,
  \<open>IPv6Fragmentation.cc\<close> and \<open>IPv6Output.cc\<close> (all in \<open>Network/IPv6/\<close>), which take datagrams to
  the interfaces. A datagram with the result of a routing decision as its control information
  is a pair. Nodes with Mobile IPv6 support are not modelled in \<open>IPv6Send\<close>.
\<close>

type_synonym 'p routed = "'p IPv6Datagram \<times> AddrResInfo option"

section \<open>\<open>IPv6Send\<close>\<close>

record IPv6Send =
  ctrIP6OutNoRoutes :: nat
  ctrIP6OutRequests :: nat
  routes :: "(ipv6_addr, ipv6_addr list) std_map"

text \<open>A source route in the configuration: the next hops and the final destination.\<close>

definition parseSourceRoutes :: "(ipv6_addr list \<times> ipv6_addr) list \<Rightarrow> IPv6Send \<Rightarrow> IPv6Send" where
  "parseSourceRoutes entries s =
     s\<lparr>routes := foldl (\<lambda>m (nextHops, finalDestination).
                   map_put finalDestination (nextHops @ [finalDestination]) m) (routes s) entries\<rparr>"

definition Send_initialize :: "(ipv6_addr list \<times> ipv6_addr) list \<Rightarrow> IPv6Send" where
  "Send_initialize entries =
     parseSourceRoutes entries \<lparr>ctrIP6OutNoRoutes = 0, ctrIP6OutRequests = 0, routes = []\<rparr>"

fun addAddresses :: "ipv6_addr list \<Rightarrow> HdrExtRte \<Rightarrow> HdrExtRte result" where
  "addAddresses [] h = Inr h"
| "addAddresses (a # as) h = ebind (addAddress a h) (addAddresses as)"

text \<open>The routing header of type 0 of the wrapper at a position, made when there is none.\<close>

definition type0Header :: "nat option \<Rightarrow> 'p IPv6Datagram \<Rightarrow> (nat \<times> nat \<times> 'p IPv6Datagram) result" where
  "type0Header proc d =
     (case proc of
        None \<Rightarrow> Inl (NullPointer ''proc'')
      | Some i \<Rightarrow>
          (case ext_hdrs d ! i of
             RteProc nx rs \<Rightarrow>
               (case routingHeader IPv6_TYPE0_RT_HDR rs of
                  Some j \<Rightarrow> Inr (i, j, d)
                | None \<Rightarrow>
                    Inr (i, length rs, d\<lparr>ext_hdrs := (ext_hdrs d)
                      [i := RteProc nx (snd (addRoutingHeader (new_HdrExtRte IPv6_TYPE0_RT_HDR) rs))]\<rparr>))
           | _ \<Rightarrow> Inl (Exception ''polymorphic_downcast'')))"

definition insertSourceRoute :: "'p IPv6Datagram \<Rightarrow> IPv6Send \<Rightarrow> (bool \<times> 'p IPv6Datagram) result" where
  "insertSourceRoute d s =
     (case map_of (routes s) (d6_destAddress d) of
        None \<Rightarrow> Inr (False, d)
      | Some route \<Rightarrow>
          ebind (findHeader EXTHDR_ROUTING d) (\<lambda>found.
            if found \<noteq> None then Inr (False, d)
            else
              ebind (acquireRoutingInterface d) (\<lambda>(proc, d).
              ebind (type0Header proc d) (\<lambda>(i, j, d).
              ebind (addAddresses (drop 1 route) (rheads (ext_hdrs d ! i) ! j)) (\<lambda>rt0.
                let d = put_rte i j rt0 d in
                ASSERT (route \<noteq> [] \<and> d6_destAddress d = last route) ''IPv6Send::insertSourceRoute''
                  (Inr (True, d\<lparr>d6_destAddress := hd route\<rparr>)))))))"

text \<open>
  The test for an interface that is ready: \<open>None\<close> when the message is dropped. Without an
  interface the node's support of optimistic addresses makes it use a null pointer.
\<close>

definition firstIfaceReady :: "RT6 \<Rightarrow> bool result" where
  "firstIfaceReady rt =
     (case ifaces rt of
        [] \<Rightarrow> if odadSupport rt then Inl (NullPointer ''interfaceByPortNo'') else Inr False
      | ie # _ \<Rightarrow> Inr (\<not> (inetAddrs ie = [] \<and> odadSupport rt \<and> tentativeAddrs ie = [])))"

definition srcAddrExists :: "ipv6_addr \<Rightarrow> RT6 \<Rightarrow> bool" where
  "srcAddrExists src rt \<longleftrightarrow>
     (\<exists>ie \<in> set (ifaces rt). if_addrAssigned src ie \<or> odadSupport rt \<and> tentativeAddrAssigned src ie)"

definition encapsulatePacket ::
    "'p ip6_msg \<Rightarrow> IPv6ControlInfo \<Rightarrow> RT6 \<Rightarrow> IPv6Send \<Rightarrow> ('p IPv6Datagram option \<times> IPv6Send) result" where
  "encapsulatePacket msg ctrl rt s =
     ebind (firstIfaceReady rt) (\<lambda>ready.
       if \<not> ready then Inr (None, s)
       else
         ASSERT (c6_destAddr ctrl \<noteq> IPv6_ADDR_UNSPECIFIED) ''IPv6Send::encapsulatePacket''
           (let d = (dgram_encapsulate msg (new_IPv6Datagram IPv6_ADDR_UNSPECIFIED IPv6_ADDR_UNSPECIFIED))
                      \<lparr>d6_transportProtocol := c6_protocol ctrl, d6_destAddress := c6_destAddr ctrl\<rparr>
            in if c6_srcAddr ctrl \<noteq> IPv6_ADDR_UNSPECIFIED \<and> \<not> srcAddrExists (c6_srcAddr ctrl) rt then Inr (None, s)
               else
                 let d = d\<lparr>d6_srcAddress := c6_srcAddr ctrl, d6_inputPort := -1\<rparr>;
                     d = (if c6_timeToLive ctrl > 0 then d\<lparr>d6_hopLimit := c6_timeToLive ctrl\<rparr> else d);
                     d = d\<lparr>d6_encapLimit := c6_encapLimit ctrl\<rparr>
                 in Inr (Some d, s\<lparr>ctrIP6OutRequests := ctrIP6OutRequests s + 1\<rparr>)))"

text \<open>
  The part of \<open>endService\<close> that chooses the next hop and the source address, for a datagram
  that is not for this node; \<open>None\<close> when no source address is found.
\<close>

definition routeOutgoing ::
    "'p IPv6Datagram \<Rightarrow> RT6 \<Rightarrow> IPv6Send \<Rightarrow> ('p routed option \<times> RT6 \<times> IPv6Send) result" where
  "routeOutgoing d rt s =
     ebind (insertSourceRoute d s) (\<lambda>(_, d).
       case conceptualSending (d6_destAddress d) new_AddrResInfo rt of (info, rt) \<Rightarrow>
         ebind (if d6_srcAddress d = IPv6_ADDR_UNSPECIFIED then
                  emap (\<lambda>src. d\<lparr>d6_srcAddress := src\<rparr>) (determineSrcAddress (d6_destAddress d) (ai_ifIndex info) rt)
                else Inr d) (\<lambda>d.
           if d6_srcAddress d = IPv6_ADDR_UNSPECIFIED then
             Inr (None, rt, s\<lparr>ctrIP6OutNoRoutes := ctrIP6OutNoRoutes s + 1\<rparr>)
           else Inr (Some (d, Some info), rt, s)))"

text \<open>The result says what is sent on \<open>routingOut\<close>.\<close>

definition Send_endService ::
    "'p ip6_msg \<Rightarrow> IPv6ControlInfo \<Rightarrow> RT6 \<Rightarrow> IPv6Send \<Rightarrow> ('p routed option \<times> RT6 \<times> IPv6Send) result" where
  "Send_endService msg ctrl rt s =
     ebind (encapsulatePacket msg ctrl rt s) (\<lambda>(datagram, s).
       case datagram of
         None \<Rightarrow> Inr (None, rt, s)
       | Some d \<Rightarrow>
           if \<not> localDeliver6 (d6_destAddress d) rt then routeOutgoing d rt s
           else Inr (Some (d, None), rt, s))"

section \<open>\<open>IPv6InputQueue\<close> and \<open>IPv6PreRouting\<close>\<close>

definition InputQueue_endService :: "nat \<Rightarrow> 'p IPv6Datagram \<Rightarrow> 'p IPv6Datagram" where
  "InputQueue_endService gateIndex d = d\<lparr>d6_inputPort := int gateIndex\<rparr>"

definition PreRouting_endService :: "'p IPv6Datagram \<Rightarrow> nat \<Rightarrow> 'p IPv6Datagram \<times> nat" where
  "PreRouting_endService d ctrIP6InReceive = (d, ctrIP6InReceive + 1)"

section \<open>\<open>IPv6Multicast\<close>\<close>

definition multicastLLAddr :: "ipv6_addr \<Rightarrow> string result" where
  "multicastLLAddr addr =
     ASSERT (addr_and addr IPv6_ADDR_MULTICAST_PREFIX = IPv6_ADDR_MULTICAST_PREFIX) ''IPv6Multicast::multicastLLAddr''
       (Inr ''FF:FF:FF:FF:FF:FF'')"

definition dupAndSendPacket :: "'p IPv6Datagram \<Rightarrow> nat \<Rightarrow> RT6 \<Rightarrow> ('p routed, unit) sender" where
  "dupAndSendPacket datagram ifIndex rt =
     wbind (let copy = dup_IPv6Datagram datagram in
            if d6_srcAddress copy = IPv6_ADDR_UNSPECIFIED then
              wlift (emap (\<lambda>src. copy\<lparr>d6_srcAddress := src\<rparr>) (determineSrcAddress (d6_destAddress datagram) ifIndex rt))
            else wret copy) (\<lambda>copy.
       if d6_srcAddress copy = IPv6_ADDR_UNSPECIFIED then wret ()
       else
         wbind (wlift (multicastLLAddr (d6_destAddress copy))) (\<lambda>ll.
           wsend [(copy, Some (new_AddrResInfo\<lparr>ai_nextHop := d6_destAddress copy, ai_ifIndex := ifIndex,
                     ai_linkLayerAddr := ll\<rparr>))] (wret ())))"

fun sendOnIfaces :: "nat list \<Rightarrow> bool \<Rightarrow> 'p IPv6Datagram \<Rightarrow> RT6 \<Rightarrow> ('p routed, unit) sender" where
  "sendOnIfaces [] ifaceSpecified d rt = wret ()"
| "sendOnIfaces (ifIndex # is) ifaceSpecified d rt =
     (if int ifIndex = d6_inputPort d then sendOnIfaces is ifaceSpecified d rt
      else if ifaceSpecified then
        (if if_addrAssigned (d6_srcAddress d) (ifaces rt ! ifIndex) then dupAndSendPacket d ifIndex rt
         else sendOnIfaces is ifaceSpecified d rt)
      else wbind (dupAndSendPacket d ifIndex rt) (\<lambda>_. sendOnIfaces is ifaceSpecified d rt))"

definition Multicast_endService :: "'p IPv6Datagram \<Rightarrow> RT6 \<Rightarrow> nat \<Rightarrow> ('p routed, nat) sender" where
  "Multicast_endService d rt ctrIP6InMcastPkts =
     WASSERT (isMulticast6 (d6_destAddress d)) ''IPv6Multicast::endService''
       (let ifaceSpecified = (d6_srcAddress d \<noteq> IPv6_ADDR_UNSPECIFIED \<and> d6_inputPort d \<noteq> -1) in
        wbind (sendOnIfaces [0..<numInterfaceGates6 rt] ifaceSpecified d rt) (\<lambda>_.
          wret (if ifaceSpecified then ctrIP6InMcastPkts + 1 else ctrIP6InMcastPkts)))"

section \<open>\<open>IPv6Fragmentation\<close>\<close>

definition DEFAULT_ROUTER_HOPLIMIT :: int where "DEFAULT_ROUTER_HOPLIMIT = 64"

record IPv6Fragmentation =
  numOfPorts :: nat
  ctrIP6InTooBig :: nat
  ctrIP6FragCreates :: nat
  ctrIP6FragFails :: nat
  ctrIP6FragOKs :: nat

datatype 'p frag_out =
    FragError "'p ICMPv6Error"
  | OutputOut nat "'p IPv6Datagram" string

definition Fragmentation_initialize :: "nat \<Rightarrow> IPv6Fragmentation" where
  "Fragmentation_initialize ports =
     \<lparr>numOfPorts = ports, ctrIP6InTooBig = 0, ctrIP6FragCreates = 0, ctrIP6FragFails = 0, ctrIP6FragOKs = 0\<rparr>"

definition sendOutput :: "'p IPv6Datagram \<Rightarrow> AddrResInfo \<Rightarrow> IPv6Fragmentation \<Rightarrow> ('p frag_out, unit) sender" where
  "sendOutput d info fr =
     (if ai_ifIndex info \<ge> numOfPorts fr then wfail (OppError ''illegal output port'')
      else wsend [OutputOut (ai_ifIndex info) d (ai_linkLayerAddr info)] (wret ()))"

definition initHopLimit :: "'p IPv6Datagram \<Rightarrow> IPv6InterfaceData \<Rightarrow> RT6 \<Rightarrow> 'p IPv6Datagram" where
  "initHopLimit d ie rt =
     (if d6_inputPort d = -1 \<and> d6_hopLimit d = 0 then
        d\<lparr>d6_hopLimit := (if \<not> IPForward rt then curHopLimit ie else DEFAULT_ROUTER_HOPLIMIT)\<rparr>
      else d)"

definition Fragmentation_endService ::
    "'p IPv6Datagram \<Rightarrow> AddrResInfo \<Rightarrow> RT6 \<Rightarrow> IPv6Fragmentation \<Rightarrow> ('p frag_out, IPv6Fragmentation) sender" where
  "Fragmentation_endService d info rt fr =
     wbind (wlift (ifaceAt (ai_ifIndex info) rt Inr)) (\<lambda>ie.
       WASSERT (if_mtu ie \<ge> IPv6_MIN_MTU) ''IPv6Fragmentation::endService''
         (let d = initHopLimit d ie rt in
          wbind (wlift (totalLength d)) (\<lambda>total.
            if total \<le> if_mtu ie then wbind (sendOutput d info fr) (\<lambda>_. wret fr)
            else if d6_inputPort d \<noteq> -1 \<or> d6_transportProtocol d = IPv6_PROT_ICMP then
              WASSERT (d6_transportProtocol d \<noteq> IPv6_PROT_ICMP) ''IPv6Fragmentation::endService''
                (wsend [FragError (createICMPv6Message ICMPv6_PACKET_TOO_BIG 0 (dup_IPv6Datagram d) (int (if_mtu ie)))]
                  (wret (if d6_inputPort d \<noteq> -1 then fr\<lparr>ctrIP6InTooBig := ctrIP6InTooBig fr + 1\<rparr> else fr)))
            else wfail (OppError ''fragmentation not implemented''))))"

section \<open>\<open>IPv6Output\<close>\<close>

record IPv6Output =
  ctrIP6OutForwDatagrams :: nat
  ctrIP6OutMcastPkts :: nat
  ctrOutPackets :: nat
  ctrOutOctets :: nat

text \<open>The gate a datagram arrived on; one that comes from fragmentation has its link address.\<close>

datatype output_gate = MobilityIn | AddrReslnIn | NeighbourDiscoveryIn | FromFragmentation "string option"

definition Output_initialize :: IPv6Output where
  "Output_initialize = \<lparr>ctrIP6OutForwDatagrams = 0, ctrIP6OutMcastPkts = 0, ctrOutPackets = 0, ctrOutOctets = 0\<rparr>"

definition Output_endService ::
    "output_gate \<Rightarrow> 'p IPv6Datagram \<Rightarrow> RT6 \<Rightarrow> IPv6Output \<Rightarrow> (('p IPv6Datagram \<times> string) \<times> IPv6Output) result" where
  "Output_endService gate d rt out =
     ebind (case gate of
              MobilityIn \<Rightarrow>
                (case lock (cds rt) (defaultRouter (cds rt)) of
                   None \<Rightarrow> Inl (AssertFailed ''IPv6Output::endService'')
                 | Some re \<Rightarrow> Inr (linkLayerAddr re))
            | AddrReslnIn \<Rightarrow> multicastLLAddr (d6_destAddress d)
            | NeighbourDiscoveryIn \<Rightarrow> multicastLLAddr (d6_destAddress d)
            | FromFragmentation info \<Rightarrow>
                (case info of None \<Rightarrow> Inl (AssertFailed ''IPv6Output::endService'') | Some ll \<Rightarrow> Inr ll)) (\<lambda>ll.
       Inr ((d, ll),
         out\<lparr>ctrIP6OutForwDatagrams := ctrIP6OutForwDatagrams out + (if d6_inputPort d \<noteq> -1 then 1 else 0),
             ctrOutPackets := ctrOutPackets out + 1,
             ctrOutOctets := ctrOutOctets out + d6_length d div 8,
             ctrIP6OutMcastPkts := ctrIP6OutMcastPkts out + (if isMulticast6 (d6_destAddress d) then 1 else 0)\<rparr>))"

section \<open>Source routes\<close>

lemma unat_uint8 [simp]: "n < 256 \<Longrightarrow> unat (of_nat n :: uint8) = n"
  by (simp add: unsigned_of_nat take_bit_nat_eq_self_iff)

lemma uint_uint8 [simp]: "n < 256 \<Longrightarrow> uint (of_nat n :: uint8) = int n"
  by (metis int_ops(1) uint_nat unat_uint8)

lemma twice_uint8 [simp]:
  assumes "n < 128"
  shows "unat (2 * of_nat n :: uint8) = 2 * n" "uint (2 * of_nat n :: uint8) = 2 * int n"
proof -
  have "(2 * of_nat n :: uint8) = of_nat (2 * n)" by simp
  then show "unat (2 * of_nat n :: uint8) = 2 * n" "uint (2 * of_nat n :: uint8) = 2 * int n"
    using assms unat_uint8[of "2 * n"] uint_uint8[of "2 * n"] by simp_all
qed

text \<open>A routing header being built: \<open>as\<close> are its addresses.\<close>

definition rte_with :: "ipv6_addr list \<Rightarrow> HdrExtRte" where
  "rte_with as =
     (new_HdrExtRte IPv6_TYPE0_RT_HDR)
       \<lparr>segments_left := of_nat (length as), hdr_ext_len := of_nat (2 * length as), rte_addr := as\<rparr>"

lemma new_is_rte_with: "new_HdrExtRte IPv6_TYPE0_RT_HDR = rte_with []"
  by (simp add: rte_with_def new_HdrExtRte_def)

lemma addAddress_rte_with:
  "length as < 127 \<Longrightarrow> addAddress a (rte_with as) = Inr (rte_with (as @ [a]))"
  by (simp add: addAddress_def rte_with_def new_HdrExtRte_def setSegmentsLeft_def setHdrExtLen_def ASSERT_def)

lemma addAddress_full:
  "length as = 127 \<Longrightarrow> addAddress a (rte_with as) = Inl (AssertFailed ''HdrExtRte::setHdrExtLen'')"
  by (simp add: addAddress_def rte_with_def new_HdrExtRte_def setSegmentsLeft_def setHdrExtLen_def ASSERT_def)


lemma addAddresses_full:
  "length as \<le> 127 \<Longrightarrow> length as + length bs > 127 \<Longrightarrow>
    addAddresses bs (rte_with as) = Inl (AssertFailed ''HdrExtRte::setHdrExtLen'')"
proof (induction bs arbitrary: as)
  case (Cons b bs)
  then show ?case by (cases "length as = 127") (simp_all add: addAddress_full addAddress_rte_with)
qed simp


text \<open>The routing header of a source route when the datagram is on its way to hop \<open>k\<close>.\<close>

definition at_hop :: "ipv6_addr list \<Rightarrow> nat \<Rightarrow> HdrExtRte" where
  "at_hop route k =
     (rte_with (take k route @ drop (Suc k) route))\<lparr>segments_left := of_nat (length route - 1 - k)\<rparr>"


lemma hop_nth: "Suc k < length xs \<Longrightarrow> (take k xs @ drop (Suc k) xs) ! k = xs ! Suc k"
  by (simp add: nth_append)


lemma uint8_minus_1:
  assumes "0 < n" "n < 256"
  shows "(of_nat n :: uint8) - 1 = of_nat (n - 1)"
  using assms by (simp add: of_nat_diff)

lemma at_hop_fields:
  assumes "Suc k < length route" "length route \<le> 128"
  shows "n_addr (at_hop route k) = length route - 1" "unat (segments_left (at_hop route k)) = length route - 1 - k"
    "segments_left (at_hop route k) \<noteq> 0" "even (unat (hdr_ext_len (at_hop route k)))" "\<not> rte_mipv6 (at_hop route k)"
    "segments_left (at_hop route k) - 1 = of_nat (length route - 1 - Suc k)"
proof -
  have s: "segments_left (at_hop route k) = of_nat (length route - 1 - k)" by (simp add: at_hop_def)
  have e: "hdr_ext_len (at_hop route k) = 2 * of_nat (length route - 1)"
  proof -
    have "length (take k route @ drop (Suc k) route) = length route - 1" using assms(1) by simp
    then show ?thesis by (simp add: at_hop_def rte_with_def)
  qed
  have "length route - 1 < 128" using assms(2) by simp
  note t = twice_uint8(1)[OF this]
  show "n_addr (at_hop route k) = length route - 1" unfolding n_addr_def e t by simp
  show "even (unat (hdr_ext_len (at_hop route k)))" unfolding e t by simp
  show u: "unat (segments_left (at_hop route k)) = length route - 1 - k"
    unfolding s using assms by (intro unat_uint8) simp
  show "segments_left (at_hop route k) \<noteq> 0" using u assms by auto
  show "\<not> rte_mipv6 (at_hop route k)" by (simp add: at_hop_def rte_with_def new_HdrExtRte_def)
  have "of_nat (length route - 1 - k) - 1 = (of_nat (length route - 1 - k - 1) :: uint8)"
    using assms by (intro uint8_minus_1) auto
  then show "segments_left (at_hop route k) - 1 = of_nat (length route - 1 - Suc k)" by (simp add: s)
qed


lemma n_addr_upd [simp]:
  "n_addr (h\<lparr>segments_left := x\<rparr>) = n_addr h" "n_addr (h\<lparr>rte_addr := y\<rparr>) = n_addr h"
  by (simp_all add: n_addr_def)











definition example_route :: "ipv6_addr list" where
  "example_route = [Ipv6Addr 0x20010db8 1 0 1, Ipv6Addr 0x20010db8 2 0 1, Ipv6Addr 0x20010db8 3 0 1]"

definition example_routed :: "nat IPv6Datagram" where
  "example_routed = new_IPv6Datagram (Ipv6Addr 0x20010db8 0 0 1) (last example_route)"


text \<open>More addresses do not fit into the eight bits of the length field.\<close>

lemma long_source_route_aborts:
  assumes "map_of (routes s) (d6_destAddress d) = Some route" "length route > 128" "ext_hdrs d = []" "route_hdr d = None"
  shows "insertSourceRoute d s = Inl (AssertFailed ''HdrExtRte::setHdrExtLen'')"
proof -
  have "addAddresses (drop 1 route) (rte_with []) = Inl (AssertFailed ''HdrExtRte::setHdrExtLen'')"
    using assms(2) by (intro addAddresses_full) simp_all
  then show ?thesis
    using assms(1,3,4)
    by (simp add: insertSourceRoute_def findHeader_def acquireRoutingInterface_def addExtHdr_def appendHdr_def
        type0Header_def addRoutingHeader_def new_is_rte_with put_rte_def)
qed

section \<open>Errors\<close>

text \<open>
  A source-routed datagram whose hop limit runs out at a node of its route stops the
  simulation: the header sends the time exceeded message and deletes the datagram, which the loop
  over the extension headers goes on to read and \<open>handleMessage\<close> deletes a second time.
\<close>

theorem expired_source_route_uses_deleted_datagram:
  assumes "Suc k < length route" "length route \<le> 128" "\<forall>a \<in> set route. \<not> isMulticast6 a"
    and "ext_hdrs d = [RteProc nx [at_hop route k]]" "d6_destAddress d = route ! k" "d6_hopLimit d \<le> 1"
  shows "\<exists>err. LocalDeliver_handleMessage mob d ld = ([ErrorOut err], Inl (Exception ''deleted datagram used'')) \<and>
    icmp_type err = ICMPv6_TIME_EXCEEDED \<and> d6_srcAddress (icmp_contents err) = d6_srcAddress d"
proof -
  let ?h = "at_hop route k"
  note f = at_hop_fields[OF assms(1,2)]
  have nth: "rte_addr ?h ! k = route ! Suc k" using hop_nth[OF assms(1)] by (simp add: at_hop_def rte_with_def)
  have m: "\<not> isMulticast6 (route ! k)" "\<not> isMulticast6 (route ! Suc k)" using assms(1,3) by auto
  have len: "k < length (rte_addr ?h)" using assms(1) by (simp add: at_hop_def rte_with_def)
  have u: "unat (segments_left ?h - 1) = length route - 1 - Suc k"
    unfolding f(6) using assms(2) by (intro unat_uint8) simp
  have ix: "n_addr ?h - unat (segments_left ?h - 1) - 1 = k" unfolding u f(1) using assms(1) by simp
  have le: "\<not> unat (segments_left ?h) > n_addr ?h" using f(1,2) by simp
  have "\<exists>err pdu. rte_processHeader 0 0 ?h cuml d = ([ErrorOut err], Inr (False, pdu)) \<and>
      icmp_type err = ICMPv6_TIME_EXCEEDED \<and> d6_srcAddress (icmp_contents err) = d6_srcAddress d" for cuml
    unfolding rte_processHeader_def Let_def using f(3,4) le ix nth len m assms(5,6)
    by (simp add: rteAt_def wsend_def wret_def put_rte_def createICMPv6Message_def dup_IPv6Datagram_def)
  then obtain err pdu where e: "rte_processHeader 0 0 ?h (cumulLengthInUnits 0 d + int (rte_lengthInUnits ?h)) d
      = ([ErrorOut err], Inr (False, pdu))" "icmp_type err = ICMPv6_TIME_EXCEEDED"
      "d6_srcAddress (icmp_contents err) = d6_srcAddress d" by blast
  then have "rteproc_processHeader 0 0 [?h] (cumulLengthInUnits 0 d) d = ([ErrorOut err], Inr (False, pdu))"
    using f by (simp add: Let_def virtual_processHeader_def wbind_def wret_def)
  then have "processDatagram mob d = ([ErrorOut err], Inl (Exception ''deleted datagram used''))"
    using f(3) assms(4) by (simp add: processDatagram_def isSegmentsLeft_def wbind_def wfail_def)
  then show ?thesis using e by (simp add: LocalDeliver_handleMessage_def wbind_def)
qed

lemma expired_source_route_uses_deleted_datagram_witness:
  "\<exists>out. LocalDeliver_handleMessage \<lparr>bindings = None, hopLimits = []\<rparr>
     (example_routed\<lparr>ext_hdrs := [RteProc 0 [at_hop example_route 0]], d6_destAddress := hd example_route,
        d6_hopLimit := 1\<rparr>) LocalDeliver_initialize = (out, Inl (Exception ''deleted datagram used'')) \<and> length out = 1"
proof -
  let ?d = "example_routed\<lparr>ext_hdrs := [RteProc 0 [at_hop example_route 0]], d6_destAddress := hd example_route,
        d6_hopLimit := 1\<rparr>"
  have "\<exists>err. LocalDeliver_handleMessage \<lparr>bindings = None, hopLimits = []\<rparr> ?d LocalDeliver_initialize =
      ([ErrorOut err], Inl (Exception ''deleted datagram used'')) \<and>
    icmp_type err = ICMPv6_TIME_EXCEEDED \<and> d6_srcAddress (icmp_contents err) = d6_srcAddress ?d"
    by (rule expired_source_route_uses_deleted_datagram[where route = example_route and k = 0 and nx = 0])
      (simp_all add: example_route_def isMulticast6_def addr_and_def IPv6_ADDR_MULTICAST_PREFIX_def)
  then show ?thesis by fastforce
qed

text \<open>A duplicate of a type 2 routing header is found only as one of type 0.\<close>

lemma duplicate_forgets_type:
  assumes "new_MIPv6RteOpt home_addr = Inr h"
  shows "routingHeader IPv6_TYPE2_RT_HDR [h] = Some 0" "routingHeader IPv6_TYPE2_RT_HDR [dup_HdrExtRte h] = None"
    "routingHeader IPv6_TYPE0_RT_HDR [dup_HdrExtRte h] = Some 0"
  using assms
  by (auto simp: new_MIPv6RteOpt_def addAddress_def new_HdrExtRte_def IPv6_TYPE0_RT_HDR_def IPv6_TYPE2_RT_HDR_def
      dup_HdrExtRte_def n_addr_def setSegmentsLeft_def setHdrExtLen_def Let_def)

section \<open>Fragmentation\<close>

text \<open>No operation sets the payload length.\<close>

lemma encapsulate_payload_length [simp]:
  "payload_length (new_IPv6Datagram src dest) = 0" "payload_length (dgram_encapsulate m d) = payload_length d"
  "payload_length (dup_IPv6Datagram d) = payload_length d" "payload_length (put_rte i j h d) = payload_length d"
  by (simp_all add: new_IPv6Datagram_def dgram_encapsulate_def dup_IPv6Datagram_def put_rte_def)

lemma encapsulatePacket_payload_length:
  "encapsulatePacket msg ctrl rt s = Inr (Some d, s') \<Longrightarrow> payload_length d = 0"
  by (auto simp: encapsulatePacket_def Let_def split: if_splits)

lemma addExtHdr_payload_length:
  "addExtHdr t d = Inr (p, d') \<Longrightarrow> payload_length d' = payload_length d"
  by (auto simp: addExtHdr_def appendHdr_def Let_def split: IPv6ExtHeader.splits if_splits)

lemma insertSourceRoute_payload_length:
  "insertSourceRoute d s = Inr (b, d') \<Longrightarrow> payload_length d' = payload_length d"
  by (fastforce simp: insertSourceRoute_def acquireRoutingInterface_def type0Header_def Let_def result_simps
      dest: addExtHdr_payload_length split: option.splits HdrExtProc.splits if_splits)

lemma totalLength_eq: "payload_length d = 0 \<Longrightarrow> totalLength d = Inr IPv6_HEADER_OCTETLENGTH"
  by (simp add: totalLength_def IPv6_HEADER_OCTETLENGTH_def)

lemma initHopLimit_fields [simp]:
  "payload_length (initHopLimit d ie rt) = payload_length d" "d6_length (initHopLimit d ie rt) = d6_length d"
  by (simp_all add: initHopLimit_def)

text \<open>
  C30: A datagram is never too big for an interface. Nothing sets the payload length of a
  datagram, so the size the fragmentation module compares with the MTU is that of the header alone:
  whatever the length of what \<open>IPv6Send\<close> wrapped, the datagram goes out on its interface, nothing is
  fragmented and no packet too big message is sent.
\<close>

theorem nothing_is_too_big:
  assumes "encapsulatePacket msg ctrl rt0 s = Inr (Some d0, s')" "insertSourceRoute d0 s' = Inr (b, d)"
    and "ai_ifIndex info < length (ifaces rt)" "ai_ifIndex info < numOfPorts fr"
    and "if_mtu (ifaces rt ! ai_ifIndex info) \<ge> IPv6_MIN_MTU"
  shows "\<exists>d'. Fragmentation_endService d info rt fr = ([OutputOut (ai_ifIndex info) d' (ai_linkLayerAddr info)], Inr fr) \<and>
    d6_length d' = d6_length d"
proof -
  let ?d = "initHopLimit d (ifaces rt ! ai_ifIndex info) rt"
  have "payload_length d = 0"
    using assms(1,2) encapsulatePacket_payload_length insertSourceRoute_payload_length by metis
  then have "totalLength ?d = Inr IPv6_HEADER_OCTETLENGTH" by (simp add: totalLength_eq)
  then have "Fragmentation_endService d info rt fr = wsend [OutputOut (ai_ifIndex info) ?d (ai_linkLayerAddr info)] (wret fr)"
    using assms(3-5)
    by (simp add: Fragmentation_endService_def ifaceAt_def Let_def sendOutput_def IPv6_HEADER_OCTETLENGTH_def
        IPv6_MIN_MTU_def)
  then show ?thesis by (simp add: wsend_def wret_def)
qed

definition example_host :: RT6 where
  "example_host = RT6_initialize [\<lparr>inetAddrs = [addr128 (Ipv6Addr 0x20010db8 0 0 1)], tentativeAddrs = [],
     curHopLimit = 64, if_mtu = 1500, llAddrStr = ''''\<rparr>]"

definition example_ctrl :: IPv6ControlInfo where
  "example_ctrl = \<lparr>c6_protocol = IPv6_PROT_UDP, c6_srcAddr = IPv6_ADDR_UNSPECIFIED,
     c6_destAddr = Ipv6Addr 0x20010db8 3 0 1, c6_timeToLive = 0, c6_encapLimit = 16\<rparr>"

lemma nothing_is_too_big_witness:
  "\<exists>d d' :: nat IPv6Datagram. d6_length d \<ge> 8 * 60000 \<and>
     Fragmentation_endService d new_AddrResInfo example_host (Fragmentation_initialize 1) =
       ([OutputOut 0 d' ''''], Inr (Fragmentation_initialize 1)) \<and> d6_length d' = d6_length d"
proof -
  let ?s = "Send_initialize []"
  let ?msg = "Upper (8 * 60000) (0 :: nat)"
  obtain d0 s' where d0: "encapsulatePacket ?msg example_ctrl example_host ?s = Inr (Some d0, s')"
    "d6_length d0 = 8 * 60000 + 320" "routes s' = []"
    by (simp add: encapsulatePacket_def firstIfaceReady_def example_host_def RT6_initialize_def example_ctrl_def
        IPv6_ADDR_UNSPECIFIED_def dgram_encapsulate_def new_IPv6Datagram_def Let_def IPv6_HEADER_OCTETLENGTH_def BITS_def
        Send_initialize_def parseSourceRoutes_def)
  have r: "insertSourceRoute d0 s' = Inr (False, d0)" using d0(3) by (simp add: insertSourceRoute_def)
  have "\<exists>d'. Fragmentation_endService d0 new_AddrResInfo example_host (Fragmentation_initialize 1) =
      ([OutputOut (ai_ifIndex new_AddrResInfo) d' (ai_linkLayerAddr new_AddrResInfo)], Inr (Fragmentation_initialize 1)) \<and>
      d6_length d' = d6_length d0"
    by (rule nothing_is_too_big[OF d0(1) r])
      (simp_all add: new_AddrResInfo_def example_host_def RT6_initialize_def Fragmentation_initialize_def IPv6_MIN_MTU_def)
  moreover have "d6_length d0 \<ge> 8 * 60000" using d0(2) by simp
  ultimately show ?thesis by (auto simp: new_AddrResInfo_def)
qed

section \<open>Multicast\<close>

lemma sendOnIfaces_foreign:
  assumes "\<forall>i \<in> set is. i < length (ifaces rt) \<and> \<not> if_addrAssigned (d6_srcAddress d) (ifaces rt ! i)"
  shows "sendOnIfaces is True d rt = wret ()"
  using assms by (induction "is") auto

text \<open>
  A multicast datagram that came in on an interface goes out on at most one other interface,
  and only on one that has the source of the datagram as its own address: the test that is meant
  for datagrams of this node has the input port the wrong way round, so what came from another
  node is never forwarded.
\<close>

theorem received_multicast_is_not_forwarded:
  assumes "isMulticast6 (d6_destAddress d)" "d6_inputPort d \<noteq> -1" "d6_srcAddress d \<noteq> IPv6_ADDR_UNSPECIFIED"
    and "\<forall>ie \<in> set (ifaces rt). \<not> if_addrAssigned (d6_srcAddress d) ie"
  shows "Multicast_endService d rt n = ([], Inr (n + 1))"
proof -
  have "sendOnIfaces [0..<numInterfaceGates6 rt] True d rt = wret ()"
    using assms(4) by (intro sendOnIfaces_foreign) (auto simp: numInterfaceGates6_def)
  then have "Multicast_endService d rt n = wret (n + 1)" using assms(1-3) by (simp add: Multicast_endService_def Let_def)
  then show ?thesis by (simp add: wret_def)
qed

lemma received_multicast_is_not_forwarded_witness:
  "Multicast_endService ((new_IPv6Datagram (Ipv6Addr 0x20010db8 9 0 9) (Ipv6Addr 0xff0e0000 0 0 1) :: nat IPv6Datagram)
     \<lparr>d6_inputPort := 0\<rparr>) (RT6_initialize (ifaces example_host @ ifaces example_host)) 0 = ([], Inr 1)"
proof -
  let ?d = "(new_IPv6Datagram (Ipv6Addr 0x20010db8 9 0 9) (Ipv6Addr 0xff0e0000 0 0 1) :: nat IPv6Datagram)\<lparr>d6_inputPort := 0\<rparr>"
  have "Multicast_endService ?d (RT6_initialize (ifaces example_host @ ifaces example_host)) 0 = ([], Inr (0 + 1))"
    by (rule received_multicast_is_not_forwarded)
      (simp_all add: new_IPv6Datagram_def isMulticast6_def IPv6_ADDR_MULTICAST_PREFIX_def IPv6_ADDR_UNSPECIFIED_def
        RT6_initialize_def example_host_def if_addrAssigned_def addrIn_def new_IPv6Address_def)
  then show ?thesis by simp
qed

end
