(* ===== verification/IPv6_Forwarding.thy ===== *)
theory IPv6_Forwarding
  imports IPv6_Send
begin

text \<open>
  The routing decision of the IPv6 layer (\<open>Network/IPv6/IPv6Forward.cc\<close>), with the redirects a
  router sends (\<open>NDStateRouter::sendRedirect\<close> in \<open>Network/ICMPv6/NDStateRouter.cc\<close>). A datagram
  comes from the interfaces with its input port, or from this node with input port -1 and
  maybe the routing decision \<open>IPv6Send\<close> has made. The build has ingress filtering on; the
  tests of a mobile node for its care-of address are not modelled, nor is the counter of ICMP
  messages of the routing table.
\<close>

definition IMPL_INPUT_PORT_LOCAL_PACKET :: int where "IMPL_INPUT_PORT_LOCAL_PACKET = -1"
definition NDHOPLIMIT :: int where "NDHOPLIMIT = 255"

text \<open>An \<open>unsigned int\<close> stored in a field of type \<open>int\<close>.\<close>

definition int_of_uint :: "nat \<Rightarrow> int" where
  "int_of_uint n = sint (word_of_int (int n) :: uint32)"

text \<open>A redirect: the target and the destination with the datagram that caused it, and where it goes.\<close>

record 'p RedirectMsg =
  rm_srcAddress :: ipv6_addr
  rm_destAddress :: ipv6_addr
  rm_hopLimit :: int
  rm_destination :: ipv6_addr
  rm_target :: ipv6_addr
  rm_targetLLAddr :: string
  rm_contents :: "'p IPv6Datagram"
  rm_outputMod :: nat
  rm_linkLayerDest :: string

datatype 'p fwd_out =
    LocalOut "'p IPv6Datagram"
  | TunnelEntry "'p IPv6Datagram"
  | FwdErrorOut "'p ICMPv6Error"
  | MulticastModOut "'p routed"
  | PendingQueueOut "'p IPv6Datagram" AddrResInfo
  | FragmentationOut "'p IPv6Datagram" AddrResInfo
  | RedirectOut "'p RedirectMsg"

record IPv6Forward =
  fwd_rt :: RT6
  ctrIP6InAddrErrors :: nat
  ctrIcmp6OutRedirect :: nat

section \<open>Datagrams received for another node\<close>

definition notForwarded :: "'p IPv6Datagram \<Rightarrow> RT6 \<Rightarrow> bool" where
  "notForwarded d rt \<longleftrightarrow>
     \<not> IPForward rt \<or> d6_hopLimit d \<ge> 255 \<or>
     ipv6_addr_scope (d6_srcAddress d) = Scope_Link \<or>
     ipv6_addr_scope (d6_destAddress d) = Scope_Link \<or>
     ipv6_addr_scope (d6_srcAddress d) = Scope_Node \<or>
     ipv6_addr_scope (d6_destAddress d) = Scope_Node \<or>
     isMulticast6 (d6_srcAddress d) \<or>
     \<not> forwardSitePacket rt \<and>
       (ipv6_addr_scope (d6_destAddress d) = Scope_Site \<or> ipv6_addr_scope (d6_srcAddress d) = Scope_Site)"

definition processReceived ::
    "'p IPv6Datagram \<Rightarrow> IPv6Forward \<Rightarrow> ('p fwd_out, bool \<times> 'p IPv6Datagram \<times> IPv6Forward) sender" where
  "processReceived d fw =
     (if notForwarded d (fwd_rt fw) then wret (False, d, fw\<lparr>ctrIP6InAddrErrors := ctrIP6InAddrErrors fw + 1\<rparr>)
      else
        let d = d\<lparr>d6_hopLimit := to_short (d6_hopLimit d - 1)\<rparr> in
        if d6_hopLimit d = 0 then
          wsend [FwdErrorOut (createICMPv6Message ICMPv6_TIME_EXCEEDED ND_HOP_LIMIT_EXCEEDED (dup_IPv6Datagram d) 0)]
            (wret (False, d, fw))
        else wret (True, d, fw))"

section \<open>Redirects\<close>

text \<open>
  The redirect owns the datagram that caused it, so the datagram is gone when the redirect is
  deleted. Without a link address for the target the code makes a string from a null pointer.
  The result is \<open>redirected\<close>.
\<close>

definition redirectTarget :: "ipv6_addr \<Rightarrow> ipv6_addr \<Rightarrow> CDS \<Rightarrow> string result" where
  "redirectTarget nextHop dest c =
     (case lock c (dc_neighbour nextHop c) of
        None \<Rightarrow> Inl (Exception ''std::string(0)'')
      | Some redirNE \<Rightarrow>
          if linkLayerAddr redirNE = '''' then Inl (Exception ''std::string(0)'')
          else
            ASSERT (if isRouter redirNE then addr_and nextHop IPv6_ADDR_LINK_LOCAL_PREFIX = IPv6_ADDR_LINK_LOCAL_PREFIX
                    else nextHop = dest) ''NDStateRouter::sendRedirect''
              (Inr (linkLayerAddr redirNE)))"

definition sendRedirect ::
    "'p IPv6Datagram \<Rightarrow> ipv6_addr \<Rightarrow> IPv6Forward \<Rightarrow> ('p fwd_out, bool \<times> IPv6Forward) sender" where
  "sendRedirect d nextHop fw =
     (let ifIndex = nat (d6_inputPort d); c = cds (fwd_rt fw) in
      case lock c (dc_neighbour (d6_srcAddress d) c) of
        None \<Rightarrow> wret (False, fw)
      | Some ne \<Rightarrow>
          if interfaceNo ne = ifIndex \<and> \<not> isMulticast6 (d6_destAddress d) \<and>
             (addr_and nextHop IPv6_ADDR_LINK_LOCAL_PREFIX = IPv6_ADDR_LINK_LOCAL_PREFIX \<or> d6_destAddress d = nextHop)
          then
            wbind (wlift (ifaceAt ifIndex (fwd_rt fw) (\<lambda>ie.
              case inetAddrs ie of [] \<Rightarrow> Inl (Exception ''inetAddrs[0]'') | a # _ \<Rightarrow> Inr (m_addr a)))) (\<lambda>src.
            wbind (wlift (redirectTarget nextHop (d6_destAddress d) c)) (\<lambda>targetLL.
              if linkLayerAddr ne = '''' then wret (False, fw)
              else
                wsend [RedirectOut \<lparr>rm_srcAddress = src, rm_destAddress = d6_srcAddress d, rm_hopLimit = NDHOPLIMIT,
                         rm_destination = d6_destAddress d, rm_target = nextHop, rm_targetLLAddr = targetLL,
                         rm_contents = d, rm_outputMod = ifIndex, rm_linkLayerDest = linkLayerAddr ne\<rparr>]
                  (wret (True, fw\<lparr>ctrIcmp6OutRedirect := ctrIcmp6OutRedirect fw + 1\<rparr>))))
          else wret (False, fw))"

section \<open>\<open>endService\<close>\<close>

text \<open>The delivery to this node; the flag says that the datagram needs nothing more.\<close>

definition deliverLocal :: "'p IPv6Datagram \<Rightarrow> RT6 \<Rightarrow> ('p fwd_out, bool) sender" where
  "deliverLocal d rt =
     (if \<not> localDeliver6 (d6_destAddress d) rt then wret False
      else
        wbind (if d6_srcAddress d = IPv6_ADDR_UNSPECIFIED \<and> d6_inputPort d = -1 then
                 wlift (ifaceAt 0 rt (\<lambda>ie.
                   case inetAddrs ie of
                     [] \<Rightarrow> Inl (Exception ''inetAddrs[0]'')
                   | a # _ \<Rightarrow> Inr ((dup_IPv6Datagram d)\<lparr>d6_srcAddress := m_addr a\<rparr>)))
               else wret (dup_IPv6Datagram d)) (\<lambda>copy.
          wsend [LocalOut copy] (wret (\<not> isMulticast6 (d6_destAddress d)))))"

text \<open>A received datagram whose destination entry leads to a tunnel.\<close>

definition enterTunnel :: "'p IPv6Datagram \<Rightarrow> RT6 \<Rightarrow> ('p fwd_out, bool) sender" where
  "enterTunnel d rt =
     (if d6_inputPort d = IMPL_INPUT_PORT_LOCAL_PACKET then wret False
      else
        (case findDestEntry (d6_destAddress d) (cds rt) of
           None \<Rightarrow> wret False
         | Some de \<Rightarrow>
             (case lock (cds rt) (de_neighbour de) of
                None \<Rightarrow> wret False
              | Some ne \<Rightarrow>
                  if ne_state ne \<noteq> INCOMPLETE \<and> interfaceNo ne > numInterfaceGates6 rt then
                    wsend [TunnelEntry ((dup_IPv6Datagram d)\<lparr>d6_outputPort := int_of_uint (interfaceNo ne)\<rparr>)]
                      (wret (\<not> isMulticast6 (d6_destAddress d)))
                  else wret False)))"

definition odadTentativeSrc :: "ipv6_addr \<Rightarrow> RT6 \<Rightarrow> bool" where
  "odadTentativeSrc src rt \<longleftrightarrow>
     odadSupport rt \<and> src \<noteq> IPv6_ADDR_UNSPECIFIED \<and> (\<exists>ie \<in> set (ifaces rt). tentativeAddrAssigned src ie)"

text \<open>
  The end of \<open>endService\<close>, once the next hop is known. When no redirect was sent the pointer
  that is sent to the fragmentation module is null, because the datagram was released.
\<close>

definition sendResolved :: "'p IPv6Datagram \<Rightarrow> AddrResInfo \<Rightarrow> IPv6Forward \<Rightarrow> ('p fwd_out, IPv6Forward) sender" where
  "sendResolved d info fw =
     (let rt = fwd_rt fw in
      if ai_ifIndex info > numInterfaceGates6 rt then
        wsend [TunnelEntry (d\<lparr>d6_outputPort := int_of_uint (ai_ifIndex info)\<rparr>)] (wret fw)
      else
        WASSERT (d6_srcAddress d \<noteq> IPv6_ADDR_UNSPECIFIED \<and> \<not> isMulticast6 (d6_srcAddress d)) ''IPv6Forward::endService''
          (let d = d\<lparr>d6_outputPort := int_of_uint (ai_ifIndex info)\<rparr> in
           if IPForward rt \<and> d6_inputPort d \<noteq> IMPL_INPUT_PORT_LOCAL_PACKET \<and>
              int (ai_ifIndex info) = d6_inputPort d \<and> d6_destAddress d = ai_nextHop info then
             wbind (sendRedirect d (ai_nextHop info) fw) (\<lambda>(redirected, fw).
               if redirected then wret fw else wfail (OppError ''send(): message pointer is NULL''))
           else wsend [FragmentationOut d info] (wret fw)))"

definition routeDatagram ::
    "'p IPv6Datagram \<Rightarrow> AddrResInfo option \<Rightarrow> IPv6Forward \<Rightarrow> ('p fwd_out, IPv6Forward) sender" where
  "routeDatagram d ctrl fw =
     (if isMulticast6 (d6_destAddress d) then wsend [MulticastModOut (d, ctrl)] (wret fw)
      else
        (case (case ctrl of
                 None \<Rightarrow> conceptualSending (d6_destAddress d) new_AddrResInfo (fwd_rt fw)
               | Some info \<Rightarrow> (info, fwd_rt fw)) of (info, rt) \<Rightarrow>
           let fw = fw\<lparr>fwd_rt := rt\<rparr> in
           if ai_status info = -1 \<or> ai_status info = -2 then
             (if odadTentativeSrc (d6_srcAddress d) rt then wret fw
              else wsend [PendingQueueOut d info] (wret fw))
           else sendResolved d info fw))"

definition Forward_endService ::
    "'p IPv6Datagram \<Rightarrow> AddrResInfo option \<Rightarrow> IPv6Forward \<Rightarrow> ('p fwd_out, IPv6Forward) sender" where
  "Forward_endService d ctrl fw =
     WASSERT (d6_inputPort d < int (numInterfaceGates6 (fwd_rt fw))) ''IPv6Forward::endService''
       (wbind (deliverLocal d (fwd_rt fw)) (\<lambda>finished.
          if finished then wret fw
          else
            wbind (enterTunnel d (fwd_rt fw)) (\<lambda>finished.
              if finished then wret fw
              else if d6_inputPort d \<noteq> IMPL_INPUT_PORT_LOCAL_PACKET then
                wbind (processReceived d fw) (\<lambda>(accepted, d, fw).
                  if \<not> accepted then wret fw else routeDatagram d ctrl fw)
              else routeDatagram d ctrl fw)))"

section \<open>What a router passes on\<close>

text \<open>The datagram that leaves the node in a message for another module.\<close>

fun passedOn :: "'p fwd_out \<Rightarrow> 'p IPv6Datagram option" where
  "passedOn (MulticastModOut m) = Some (fst m)"
| "passedOn (PendingQueueOut d info) = Some d"
| "passedOn (FragmentationOut d info) = Some d"
| "passedOn (RedirectOut r) = Some (rm_contents r)"
| "passedOn out = None"

text \<open>A received datagram may be passed on as \<open>x\<close>.\<close>

definition may_pass :: "'p IPv6Datagram \<Rightarrow> RT6 \<Rightarrow> 'p IPv6Datagram \<Rightarrow> bool" where
  "may_pass d rt x \<longleftrightarrow>
     IPForward rt \<and> d6_hopLimit d < 255 \<and> d6_hopLimit x = to_short (d6_hopLimit d - 1) \<and> d6_hopLimit x \<noteq> 0 \<and>
     d6_srcAddress x = d6_srcAddress d \<and> d6_destAddress x = d6_destAddress d \<and> d6_payload x = d6_payload d \<and>
     ipv6_addr_scope (d6_srcAddress d) \<notin> {Scope_Link, Scope_Node} \<and>
     ipv6_addr_scope (d6_destAddress d) \<notin> {Scope_Link, Scope_Node} \<and> \<not> isMulticast6 (d6_srcAddress d)"

definition passes_only :: "('p IPv6Datagram \<Rightarrow> bool) \<Rightarrow> ('p fwd_out, 'a) sender \<Rightarrow> bool" where
  "passes_only P m \<longleftrightarrow> (\<forall>out \<in> set (fst m). \<forall>x. passedOn out = Some x \<longrightarrow> P x)"

lemma passes_only_simps [simp]:
  "passes_only P (wret x)" "passes_only P (wfail e)" "passes_only P (wlift r)"
  "passes_only P (wsend out m) \<longleftrightarrow> (\<forall>o1 \<in> set out. \<forall>x. passedOn o1 = Some x \<longrightarrow> P x) \<and> passes_only P m"
  by (auto simp: passes_only_def wret_def wfail_def wlift_def wsend_def)

lemma passes_only_WASSERT: "passes_only P m \<Longrightarrow> passes_only P (WASSERT b msg m)"
  by (simp add: WASSERT_def)

lemma passes_only_bind:
  assumes "passes_only P m" "\<And>out x. m = (out, Inr x) \<Longrightarrow> passes_only P (f x)"
  shows "passes_only P (wbind m f)"
proof (cases m)
  case (Pair out r)
  show ?thesis
  proof (cases r)
    case (Inl e)
    then show ?thesis using assms(1) Pair by (simp add: wbind_def passes_only_def)
  next
    case (Inr x)
    then have "passes_only P (f x)" using assms(2) Pair by blast
    then show ?thesis using assms(1) Pair Inr by (auto simp: wbind_def passes_only_def split: prod.split)
  qed
qed

lemma deliverLocal_passes: "passes_only P (deliverLocal d rt)"
  by (auto simp: deliverLocal_def intro!: passes_only_bind)

lemma enterTunnel_passes: "passes_only P (enterTunnel d rt)"
  by (simp add: enterTunnel_def split: option.split)

lemma sendRedirect_passes: "P d \<Longrightarrow> passes_only P (sendRedirect d nextHop fw)"
  by (auto simp: sendRedirect_def Let_def split: option.split intro!: passes_only_bind)

lemma may_pass_outputPort: "may_pass d rt (x\<lparr>d6_outputPort := p\<rparr>) \<longleftrightarrow> may_pass d rt x"
  by (simp add: may_pass_def)

lemma sendResolved_passes:
  assumes "may_pass d0 rt0 d"
  shows "passes_only (may_pass d0 rt0) (sendResolved d info fw)"
  using assms
  by (auto simp: sendResolved_def Let_def may_pass_outputPort split: if_splits
      intro!: passes_only_WASSERT passes_only_bind sendRedirect_passes)

lemma routeDatagram_passes:
  assumes "may_pass d0 rt0 d"
  shows "passes_only (may_pass d0 rt0) (routeDatagram d ctrl fw)"
  using assms sendResolved_passes[OF assms] by (simp add: routeDatagram_def Let_def split: prod.split)

lemma processReceived_accepts:
  assumes "processReceived d fw = (out, Inr (True, d', fw'))"
  shows "may_pass d (fwd_rt fw) d'"
  using assms by (auto simp: processReceived_def notForwarded_def Let_def may_pass_def sender_eqs split: if_splits)

lemma processReceived_passes: "passes_only P (processReceived d fw)"
  by (simp add: processReceived_def Let_def)

text \<open>
  C20: What a node passes on of the datagrams it receives. Whatever the forwarding module hands to
  the multicast module, to the queue for address resolution, to fragmentation or back to its sender
  in a redirect for a datagram that came in on an interface, the node is a router, the hop limit
  was below 255 (neighbour discovery stays on its link) and is lowered by one to something other
  than 0, source, destination and payload are unchanged, neither address is confined to a link or a
  node and the source is not a multicast address.
\<close>

theorem forwarding_respects_scopes:
  assumes "d6_inputPort d \<noteq> -1" "Forward_endService d ctrl fw = (outs, r)" "out \<in> set outs" "passedOn out = Some x"
  shows "IPForward (fwd_rt fw) \<and> d6_hopLimit d < 255 \<and> d6_hopLimit x = to_short (d6_hopLimit d - 1) \<and> d6_hopLimit x \<noteq> 0 \<and>
    d6_srcAddress x = d6_srcAddress d \<and> d6_destAddress x = d6_destAddress d \<and> d6_payload x = d6_payload d \<and>
    ipv6_addr_scope (d6_srcAddress d) \<notin> {Scope_Link, Scope_Node} \<and>
    ipv6_addr_scope (d6_destAddress d) \<notin> {Scope_Link, Scope_Node} \<and> \<not> isMulticast6 (d6_srcAddress d)"
proof -
  let ?P = "may_pass d (fwd_rt fw)"
  have received: "passes_only ?P (wbind (processReceived d fw) (\<lambda>(accepted, d, fw).
      if \<not> accepted then wret fw else routeDatagram d ctrl fw))"
  proof (rule passes_only_bind[OF processReceived_passes])
    fix out y assume y: "processReceived d fw = (out, Inr y)"
    obtain a d' fw' where "y = (a, d', fw')" by (cases y) auto
    then show "passes_only ?P (case y of (accepted, d, fw) \<Rightarrow> if \<not> accepted then wret fw else routeDatagram d ctrl fw)"
      using y processReceived_accepts[of d fw out d' fw'] routeDatagram_passes by (cases a) auto
  qed
  have "passes_only ?P (Forward_endService d ctrl fw)"
    unfolding Forward_endService_def using assms(1) received
    by (auto simp: IMPL_INPUT_PORT_LOCAL_PACKET_def
        intro!: passes_only_WASSERT passes_only_bind deliverLocal_passes enterTunnel_passes)
  then have "may_pass d (fwd_rt fw) x" using assms(2-4) by (auto simp: passes_only_def)
  then show ?thesis by (simp add: may_pass_def)
qed

definition example_forward :: IPv6Forward where
  "example_forward = \<lparr>fwd_rt = example_host\<lparr>IPForward := True\<rparr>, ctrIP6InAddrErrors = 0, ctrIcmp6OutRedirect = 0\<rparr>"

definition example_transit :: "nat IPv6Datagram" where
  "example_transit = (new_IPv6Datagram (Ipv6Addr 0x20010db8 9 0 9) (Ipv6Addr 0x20010db8 8 0 8))
     \<lparr>d6_inputPort := 0, d6_hopLimit := 64\<rparr>"

lemma example_transit_forwarded:
  "\<exists>info fw. Forward_endService example_transit None example_forward =
     ([PendingQueueOut (example_transit\<lparr>d6_hopLimit := 63\<rparr>) info], Inr fw)"
proof -
  have "\<not> localDeliver6 (d6_destAddress example_transit) (fwd_rt example_forward)"
    by (simp add: localDeliver6_def example_transit_def new_IPv6Datagram_def isMulticast6_def
        IPv6_ADDR_MULTICAST_PREFIX_def example_forward_def example_host_def RT6_initialize_def if_addrAssigned_def
        tentativeAddrAssigned_def addrIn_def new_IPv6Address_def)
  then have l: "deliverLocal example_transit (fwd_rt example_forward) = wret False" by (simp add: deliverLocal_def)
  have t: "enterTunnel example_transit (fwd_rt example_forward) = wret False"
    by (simp add: enterTunnel_def findDestEntry_def example_forward_def example_host_def RT6_initialize_def new_CDS_def)
  have p: "processReceived example_transit example_forward = wret (True, example_transit\<lparr>d6_hopLimit := 63\<rparr>, example_forward)"
    by (simp add: processReceived_def notForwarded_def example_transit_def new_IPv6Datagram_def ipv6_addr_scope_def
        addr_and_def isMulticast6_def Let_def to_short_def example_forward_def example_host_def RT6_initialize_def
        IPv6_ADDR_MULTICAST_PREFIX_def IPv6_ADDR_LINK_LOCAL_PREFIX_def IPv6_ADDR_SITE_LOCAL_PREFIX_def
        IPv6_ADDR_UNSPECIFIED_def LOOPBACK_ADDRESS_def IPv6_ADDR_GLOBAL_PREFIX_def)
  have port: "d6_inputPort example_transit < int (numInterfaceGates6 (fwd_rt example_forward))"
    "d6_inputPort example_transit \<noteq> IMPL_INPUT_PORT_LOCAL_PACKET"
    by (simp_all add: example_transit_def numInterfaceGates6_def example_forward_def example_host_def RT6_initialize_def
        IMPL_INPUT_PORT_LOCAL_PACKET_def)
  have "Forward_endService example_transit None example_forward =
      routeDatagram (example_transit\<lparr>d6_hopLimit := 63\<rparr>) None example_forward"
    unfolding Forward_endService_def using port by (simp add: l t p)
  moreover have "\<exists>info fw. routeDatagram (example_transit\<lparr>d6_hopLimit := 63\<rparr>) None example_forward =
      wsend [PendingQueueOut (example_transit\<lparr>d6_hopLimit := 63\<rparr>) info] (wret fw)"
    by (simp add: example_transit_def new_IPv6Datagram_def numInterfaceGates6_def
        example_forward_def example_host_def RT6_initialize_def routeDatagram_def
        isMulticast6_def IPv6_ADDR_MULTICAST_PREFIX_def conceptualSending_def lookupDestination_def findDestEntry_def
        new_CDS_def lookupAddress_def defaultRouter_def lock_def Let_def odadTentativeSrc_def) blast
  ultimately show ?thesis by (auto simp: wsend_def wret_def)
qed

lemma forwarding_respects_scopes_witness:
  "\<exists>info fw x. fst (Forward_endService example_transit None example_forward) = [PendingQueueOut x info] \<and>
     d6_hopLimit x = 63 \<and> d6_destAddress x = Ipv6Addr 0x20010db8 8 0 8 \<and> IPForward (fwd_rt example_forward)"
proof -
  obtain info fw where eq: "Forward_endService example_transit None example_forward =
     ([PendingQueueOut (example_transit\<lparr>d6_hopLimit := 63\<rparr>) info], Inr fw)" using example_transit_forwarded by blast
  have "d6_inputPort example_transit \<noteq> -1" by (simp add: example_transit_def)
  from forwarding_respects_scopes[OF this eq, of "PendingQueueOut (example_transit\<lparr>d6_hopLimit := 63\<rparr>) info"]
  have "IPForward (fwd_rt example_forward)" by simp
  then show ?thesis using eq by (simp add: example_transit_def new_IPv6Datagram_def)
qed

section \<open>Datagrams that leave by the interface they came in on\<close>




end
