(* ===== verification/IPv6_Tunnel.thy ===== *)
theory IPv6_Tunnel
  imports IPv6_Forwarding
begin

text \<open>
  Tunnels of datagrams in datagrams (\<open>Network/IPv6/IPv6Encapsulation.cc\<close>). A tunnel is a virtual
  interface: its index is above those of the real ones, and destination entries lead to it through
  the neighbour entry the tunnel owns. Indices are handed out downwards. The callbacks of Mobile
  IPv6 and the buffering of packets at a home agent are not modelled.
\<close>

section \<open>The tunnels\<close>

record Tunnel =
  t_entry :: ipv6_addr
  t_exit :: ipv6_addr
  t_ifIndex :: nat
  tunnelMTU :: nat
  t_ne :: "ref option"
  forOnePkt :: bool

definition new_Tunnel :: "ipv6_addr \<Rightarrow> ipv6_addr \<Rightarrow> nat \<Rightarrow> bool \<Rightarrow> Tunnel" where
  "new_Tunnel src dest oifIndex onePkt =
     \<lparr>t_entry = src, t_exit = dest, t_ifIndex = oifIndex, tunnelMTU = IPv6_MIN_MTU - 20, t_ne = None,
      forOnePkt = onePkt\<rparr>"

record IPv6Encapsulation =
  tunnels :: "(nat, Tunnel) std_map"
  vIfIndexTop :: nat
  tunHopLimit :: int
  enc_delay :: simtime

definition Encapsulation_initialize :: "simtime \<Rightarrow> nat \<Rightarrow> IPv6Encapsulation" where
  "Encapsulation_initialize procDelay numInterfaces =
     \<lparr>tunnels = [], vIfIndexTop = UINT_MAX - numInterfaces - 1, tunHopLimit = 0, enc_delay = procDelay\<rparr>"

text \<open>A tunnel that goes takes the neighbour entry it owns with it.\<close>

definition releaseTunnel :: "Tunnel option \<Rightarrow> CDS \<Rightarrow> CDS" where
  "releaseTunnel tun c = (case Option.bind tun t_ne of None \<Rightarrow> c | Some r \<Rightarrow> release r c)"

definition firstTunnel :: "(Tunnel \<Rightarrow> bool) \<Rightarrow> IPv6Encapsulation \<Rightarrow> nat" where
  "firstTunnel P e = (case List.find (\<lambda>(_, tun). P tun) (tunnels e) of Some (v, _) \<Rightarrow> v | None \<Rightarrow> 0)"

definition findTunnel :: "ipv6_addr \<Rightarrow> ipv6_addr \<Rightarrow> IPv6Encapsulation \<Rightarrow> nat result" where
  "findTunnel src dest e =
     (if src = IPv6_ADDR_UNSPECIFIED then Inr (firstTunnel (\<lambda>tun. t_exit tun = dest) e)
      else
        ASSERT (src \<noteq> dest) ''IPv6Encapsulation::findTunnel''
          (if dest = IPv6_ADDR_UNSPECIFIED then Inr (firstTunnel (\<lambda>tun. t_entry tun = src) e)
           else Inr (firstTunnel (\<lambda>tun. t_entry tun = src \<and> t_exit tun = dest) e)))"

definition tunnelKey :: "AddrKey \<Rightarrow> nat \<Rightarrow> IPv6Encapsulation \<Rightarrow> RT6 \<Rightarrow> bool \<times> IPv6Encapsulation \<times> RT6" where
  "tunnelKey k vIfIndex e rt =
     (case map_of (tunnels e) vIfIndex of
        None \<Rightarrow> (False, e, rt)
      | Some tun \<Rightarrow>
          (case t_ne tun of
             Some r \<Rightarrow> (True, e, upd_cds (setDestNeighbour k (Some r)) rt)
           | None \<Rightarrow>
               (case alloc (new_NeighbourEntry (t_entry tun) vIfIndex None REACHABLE) (cds rt) of (r, c) \<Rightarrow>
                  (True, e\<lparr>tunnels := map_put vIfIndex (tun\<lparr>t_ne := Some r\<rparr>) (tunnels e)\<rparr>,
                   rt\<lparr>cds := setDestNeighbour k (Some r) c\<rparr>))))"

definition tunnelDestination :: "ipv6_addr \<Rightarrow> nat \<Rightarrow> IPv6Encapsulation \<Rightarrow> RT6 \<Rightarrow> bool \<times> IPv6Encapsulation \<times> RT6" where
  "tunnelDestination dest = tunnelKey (key_of (addr128 dest))"

definition tunnelDestinationPrefix :: "IPv6Address \<Rightarrow> nat \<Rightarrow> IPv6Encapsulation \<Rightarrow> RT6 \<Rightarrow> bool \<times> IPv6Encapsulation \<times> RT6" where
  "tunnelDestinationPrefix dest = tunnelKey (key_of dest)"

definition createTunnel ::
    "ipv6_addr \<Rightarrow> ipv6_addr \<Rightarrow> nat \<Rightarrow> ipv6_addr \<Rightarrow> bool \<Rightarrow> IPv6Encapsulation \<Rightarrow> RT6
      \<Rightarrow> (nat \<times> IPv6Encapsulation \<times> RT6) result" where
  "createTunnel src dest ifIndex destTrigger onePkt e rt =
     ebind (findTunnel src dest e) (\<lambda>found.
       ASSERT (found = 0) ''IPv6Encapsulation::createTunnel''
         (if localDeliver6 src rt \<and> localDeliver6 dest rt then Inr (0, e, rt)
          else
            let v = vIfIndexTop e;
                rt = upd_cds (releaseTunnel (map_of (tunnels e) v)) rt;
                e = e\<lparr>tunnels := map_put v (new_Tunnel src dest ifIndex onePkt) (tunnels e)\<rparr>
            in case (if destTrigger \<noteq> IPv6_ADDR_UNSPECIFIED then tunnelDestination destTrigger v e rt
                     else (True, e, rt)) of
                 (_, e, rt) \<Rightarrow> Inr (v, e\<lparr>vIfIndexTop := (if v = 0 then 2 ^ 64 - 1 else v - 1)\<rparr>, rt)))"

text \<open>\<open>tunnels.erase\<close> and the destination entries that led to the tunnel.\<close>

definition eraseTunnel :: "nat \<Rightarrow> IPv6Encapsulation \<Rightarrow> RT6 \<Rightarrow> IPv6Encapsulation \<times> RT6" where
  "eraseTunnel vIfIndex e rt =
     (e\<lparr>tunnels := map_erase vIfIndex (tunnels e)\<rparr>,
      upd_cds (\<lambda>c. snd (removeDestEntryByTunnel vIfIndex (releaseTunnel (map_of (tunnels e) vIfIndex) c))) rt)"

definition destroyTunnel ::
    "ipv6_addr \<Rightarrow> ipv6_addr \<Rightarrow> IPv6Encapsulation \<Rightarrow> RT6 \<Rightarrow> (bool \<times> IPv6Encapsulation \<times> RT6) result" where
  "destroyTunnel src dest e rt =
     emap (\<lambda>vIfIndex. if vIfIndex = 0 then (False, e, rt) else (True, eraseTunnel vIfIndex e rt))
       (findTunnel src dest e)"

definition destroyTunnelByIndex :: "nat \<Rightarrow> IPv6Encapsulation \<Rightarrow> RT6 \<Rightarrow> bool \<times> IPv6Encapsulation \<times> RT6" where
  "destroyTunnelByIndex vIfIndex e rt =
     (if map_of (tunnels e) vIfIndex = None then (False, e, rt) else (True, eraseTunnel vIfIndex e rt))"

section \<open>Datagrams that enter and leave a tunnel\<close>

text \<open>What is sent, with the delay.\<close>

datatype 'p enc_out =
    EncapsulatedSendOut simtime "'p ip6_msg" IPv6ControlInfo
  | DecapsulatedPreRoutingOut simtime "'p IPv6Datagram"

definition uint_of_int :: "int \<Rightarrow> nat" where
  "uint_of_int i = unat (word_of_int i :: uint32)"

text \<open>The hop limit of the original datagram, for datagrams of this node.\<close>

definition originHopLimit :: "RT6 \<Rightarrow> 'p IPv6Datagram \<Rightarrow> 'p IPv6Datagram result" where
  "originHopLimit rt d =
     (if d6_inputPort d = IMPL_INPUT_PORT_LOCAL_PACKET then
        emap (\<lambda>h. d\<lparr>d6_hopLimit := to_short (h - 1)\<rparr>)
          (if d6_hopLimit d = 0 then
             (if \<not> IPForward rt then ifaceAt 0 rt (\<lambda>ie. Inr (curHopLimit ie)) else Inr DEFAULT_ROUTER_HOPLIMIT)
           else Inr (d6_hopLimit d))
      else Inr d)"

definition tunnelTimeToLive :: "Tunnel \<Rightarrow> IPv6Encapsulation \<Rightarrow> RT6 \<Rightarrow> int result" where
  "tunnelTimeToLive tun e rt =
     (if IPForward rt \<and> tunHopLimit e = 0 then Inr DEFAULT_ROUTER_HOPLIMIT
      else if tunHopLimit e \<noteq> 0 then Inr (tunHopLimit e)
      else ifaceAt (t_ifIndex tun) rt (\<lambda>ie. Inr (curHopLimit ie)))"

text \<open>The gates \<open>encapsulateRoutingIn\<close>, \<open>mobilityIn\<close> and \<open>encapsulatedSendIn\<close>.\<close>

definition enc_encapsulate ::
    "'p IPv6Datagram \<Rightarrow> IPv6Encapsulation \<Rightarrow> RT6 \<Rightarrow> ('p enc_out, IPv6Encapsulation \<times> RT6) sender" where
  "enc_encapsulate d e rt =
     (if d6_encapLimit d = 0 then wret (e, rt)
      else
        (case map_of (tunnels e) (uint_of_int (d6_outputPort d)) of
           None \<Rightarrow> wret (e, rt)
         | Some tun \<Rightarrow>
             if t_entry tun = d6_srcAddress d \<and> t_exit tun = d6_destAddress d then wret (e, rt)
             else
               WASSERT (d6_srcAddress d \<noteq> IPv6_ADDR_UNSPECIFIED \<and> d6_destAddress d \<noteq> IPv6_ADDR_UNSPECIFIED)
                 ''IPv6Encapsulation::handleMessage''
               (WASSERT (t_entry tun \<noteq> IPv6_ADDR_UNSPECIFIED \<and> t_exit tun \<noteq> IPv6_ADDR_UNSPECIFIED)
                 ''IPv6Encapsulation::handleMessage''
               (wbind (wlift (originHopLimit rt d)) (\<lambda>d.
                wbind (wlift (tunnelTimeToLive tun e rt)) (\<lambda>ttl.
                  wsend [EncapsulatedSendOut (enc_delay e) (inner_of d)
                    \<lparr>c6_protocol = IP_PROT_IPv6, c6_srcAddr = t_entry tun, c6_destAddr = t_exit tun,
                     c6_timeToLive = ttl, c6_encapLimit = to_short (d6_encapLimit d - 1)\<rparr>]
                    (if forOnePkt tun then
                       wbind (wlift (destroyTunnel (t_entry tun) (t_exit tun) e rt)) (\<lambda>(_, e, rt). wret (e, rt))
                     else wret (e, rt))))))))"

text \<open>The gate \<open>decapsulateLocalDeliverIn\<close>.\<close>

definition enc_decapsulate :: "'p IPv6Datagram \<Rightarrow> IPv6Encapsulation \<Rightarrow> ('p enc_out, unit) sender" where
  "enc_decapsulate tunDgram e =
     WASSERT (d6_transportProtocol tunDgram = IP_PROT_IPv6) ''IPv6Encapsulation::handleMessage''
       (case d6_payload tunDgram of
          Inner h m \<Rightarrow>
            let orig = of_inner h m;
                orig = (if d6_inputPort tunDgram > IMPL_INPUT_PORT_LOCAL_PACKET
                        then orig\<lparr>d6_outputPort := d6_inputPort tunDgram\<rparr> else orig)
            in wsend [DecapsulatedPreRoutingOut (enc_delay e / 2)
                 (orig\<lparr>d6_inputPort := IMPL_INPUT_PORT_LOCAL_PACKET\<rparr>)] (wret ())
        | _ \<Rightarrow> wfail (Exception ''check_and_cast''))"

section \<open>The tunnel table\<close>

text \<open>
  Indices are handed out downwards, no two tunnels have the same end points, and the neighbour
  entry of a tunnel leads to its index.
\<close>

definition owns_ne :: "CDS \<Rightarrow> nat \<times> Tunnel \<Rightarrow> bool" where
  "owns_ne c p \<longleftrightarrow> (\<forall>r. t_ne (snd p) = Some r \<longrightarrow> r < nextRef c \<and>
     objs c r = Some (new_NeighbourEntry (t_entry (snd p)) (fst p) None REACHABLE))"

definition tunnels_ok :: "IPv6Encapsulation \<Rightarrow> CDS \<Rightarrow> bool" where
  "tunnels_ok e c \<longleftrightarrow>
     map_ok (tunnels e) \<and> (\<forall>p \<in> set (tunnels e). vIfIndexTop e < fst p) \<and>
     (\<forall>p \<in> set (tunnels e). \<forall>q \<in> set (tunnels e). t_entry (snd p) = t_entry (snd q) \<longrightarrow>
        t_exit (snd p) = t_exit (snd q) \<longrightarrow> fst p = fst q) \<and>
     (\<forall>p \<in> set (tunnels e). owns_ne c p)"

lemma owns_ne_set [simp]: "owns_ne (setDestNeighbour k w c) = owns_ne c"
  by (simp add: owns_ne_def fun_eq_iff setDestNeighbour_def setDestEntry_def Let_def)

lemma owns_ne_remove [simp]: "owns_ne (snd (removeDestEntryByTunnel v c)) = owns_ne c"
  by (simp add: owns_ne_def fun_eq_iff removeDestEntryByTunnel_def removeDestEntries_def Let_def)

lemma owns_ne_alloc: "owns_ne c p \<Longrightarrow> owns_ne (snd (alloc ne c)) p"
  by (auto simp: owns_ne_def alloc_def)

text \<open>Two tunnels never own the same entry.\<close>

lemma owns_ne_release:
  assumes "owns_ne c p" "owns_ne c q" "fst p \<noteq> fst q"
  shows "owns_ne (releaseTunnel (Some (snd q)) c) p"
  using assms by (auto simp: owns_ne_def releaseTunnel_def release_def new_NeighbourEntry_def split: option.split)

lemma tunnels_okD:
  assumes "tunnels_ok e c"
  shows "map_ok (tunnels e)" "p \<in> set (tunnels e) \<Longrightarrow> vIfIndexTop e < fst p"
    "p \<in> set (tunnels e) \<Longrightarrow> q \<in> set (tunnels e) \<Longrightarrow> t_entry (snd p) = t_entry (snd q) \<Longrightarrow>
       t_exit (snd p) = t_exit (snd q) \<Longrightarrow> fst p = fst q"
    "p \<in> set (tunnels e) \<Longrightarrow> owns_ne c p"
  using assms unfolding tunnels_ok_def by blast+

lemma tunnels_okI:
  assumes "map_ok (tunnels e)" "\<And>p. p \<in> set (tunnels e) \<Longrightarrow> vIfIndexTop e < fst p"
    and "\<And>p q. p \<in> set (tunnels e) \<Longrightarrow> q \<in> set (tunnels e) \<Longrightarrow> t_entry (snd p) = t_entry (snd q) \<Longrightarrow>
       t_exit (snd p) = t_exit (snd q) \<Longrightarrow> fst p = fst q"
    and "\<And>p. p \<in> set (tunnels e) \<Longrightarrow> owns_ne c p"
  shows "tunnels_ok e c"
  using assms unfolding tunnels_ok_def by blast

lemma tunnels_ok_initialize: "tunnels_ok (Encapsulation_initialize procDelay n) c"
  by (simp add: tunnels_ok_def Encapsulation_initialize_def)

lemma firstTunnel_0:
  assumes "tunnels_ok e c" "firstTunnel P e = 0" "p \<in> set (tunnels e)"
  shows "\<not> P (snd p)"
proof
  assume P: "P (snd p)"
  then have "List.find (\<lambda>(_, tun). P tun) (tunnels e) \<noteq> None"
    using assms(3) by (cases p) (auto simp: find_None_iff)
  then obtain v tun where f: "List.find (\<lambda>(_, tun). P tun) (tunnels e) = Some (v, tun)" by auto
  then have "(v, tun) \<in> set (tunnels e)" by (force simp: find_Some_iff in_set_conv_nth)
  from tunnels_okD(2)[OF assms(1) this] have "0 < v" by simp
  then show False using assms(2) f by (simp add: firstTunnel_def)
qed

lemma findTunnel_0:
  assumes "tunnels_ok e c" "findTunnel src dest e = Inr 0" "p \<in> set (tunnels e)"
  shows "\<not> (t_entry (snd p) = src \<and> t_exit (snd p) = dest)"
  using assms firstTunnel_0[OF assms(1) _ assms(3)]
  by (auto simp: findTunnel_def ASSERT_eq_Inr split: if_splits)

lemma map_of_in: "map_ok xs \<Longrightarrow> map_of xs k = Some v \<longleftrightarrow> (k, v) \<in> set xs"
proof (induction xs)
  case (Cons x xs)
  obtain k' v' where x: "x = (k', v')" by fastforce
  show ?case
  proof (cases "k = k'")
    case True
    have "(k, v) \<notin> set xs" using Cons.prems True x by (force simp: image_iff)
    then show ?thesis using True x by auto
  next
    case False
    then show ?thesis using Cons x by auto
  qed
qed simp

lemma map_put_in:
  assumes "map_ok xs"
  shows "p \<in> set (map_put k v xs) \<longleftrightarrow> p = (k, v) \<or> p \<in> set xs \<and> fst p \<noteq> k"
proof (cases p)
  case (Pair k' v')
  have "p \<in> set (map_put k v xs) \<longleftrightarrow> map_of (map_put k v xs) k' = Some v'"
    using map_of_in[of "map_put k v xs" k' v'] assms Pair by simp
  also have "\<dots> \<longleftrightarrow> p = (k, v) \<or> p \<in> set xs \<and> fst p \<noteq> k"
    using map_of_in[OF assms, of k' v'] Pair by auto
  finally show ?thesis .
qed

lemma map_erase_in:
  assumes "map_ok xs"
  shows "p \<in> set (map_erase k xs) \<longleftrightarrow> p \<in> set xs \<and> fst p \<noteq> k"
  using assms
proof (induction xs)
  case (Cons x xs)
  obtain k' v' where "x = (k', v')" by fastforce
  then show ?case using Cons by (auto simp: image_iff)
qed simp

section \<open>Every operation keeps it\<close>

text \<open>A tunnel is put at its old place with a neighbour entry, or as a new one.\<close>

lemma put_tunnel_ok:
  assumes ok: "tunnels_ok e c0"
    and c: "\<And>p. p \<in> set (tunnels e) \<Longrightarrow> fst p \<noteq> v \<Longrightarrow> owns_ne c p" "owns_ne c (v, tun)" "vtop < v" "vtop \<le> vIfIndexTop e"
    and unique: "\<And>p. p \<in> set (tunnels e) \<Longrightarrow> t_entry (snd p) = t_entry tun \<Longrightarrow> t_exit (snd p) = t_exit tun \<Longrightarrow> fst p = v"
  shows "tunnels_ok (e\<lparr>tunnels := map_put v tun (tunnels e), vIfIndexTop := vtop\<rparr>) c"
proof (rule tunnels_okI)
  note D = tunnels_okD[OF ok]
  have mem: "p \<in> set (map_put v tun (tunnels e)) \<longleftrightarrow> p = (v, tun) \<or> p \<in> set (tunnels e) \<and> fst p \<noteq> v" for p
    by (rule map_put_in[OF D(1)])
  let ?e = "e\<lparr>tunnels := map_put v tun (tunnels e), vIfIndexTop := vtop\<rparr>"
  show "map_ok (tunnels ?e)" using D(1) by simp
  fix p assume p: "p \<in> set (tunnels ?e)"
  then have p': "p = (v, tun) \<or> p \<in> set (tunnels e) \<and> fst p \<noteq> v" using mem by simp
  show "vIfIndexTop ?e < fst p" using p' D(2)[of p] c(3,4) by auto
  show "owns_ne c p" using p' c(1,2) by blast
  fix q assume q: "q \<in> set (tunnels ?e)" and eq: "t_entry (snd p) = t_entry (snd q)" "t_exit (snd p) = t_exit (snd q)"
  have q': "q = (v, tun) \<or> q \<in> set (tunnels e) \<and> fst q \<noteq> v" using q mem by simp
  show "fst p = fst q"
    using p' q'
  proof (elim disjE conjE)
    assume "p = (v, tun)" "q = (v, tun)" then show ?thesis by simp
  next
    assume "p = (v, tun)" "q \<in> set (tunnels e)" then show ?thesis using unique[of q] eq by simp
  next
    assume "p \<in> set (tunnels e)" "q = (v, tun)" then show ?thesis using unique[of p] eq by simp
  next
    assume "p \<in> set (tunnels e)" "q \<in> set (tunnels e)" then show ?thesis using D(3)[of p q] eq by simp
  qed
qed

lemma tunnels_ok_set: "tunnels_ok e c \<Longrightarrow> tunnels_ok e (setDestNeighbour k w c)"
  unfolding tunnels_ok_def owns_ne_set .

lemma tunnels_ok_cong:
  "tunnels e' = tunnels e \<Longrightarrow> vIfIndexTop e' = vIfIndexTop e \<Longrightarrow> tunnels_ok e' c = tunnels_ok e c"
  by (simp add: tunnels_ok_def)

lemma tunnelKey_ok:
  assumes "tunnels_ok e (cds rt)" "tunnelKey k v e rt = (b, e', rt')"
  shows "tunnels_ok e' (cds rt')"
proof (cases "map_of (tunnels e) v")
  case None
  then show ?thesis using assms by (simp add: tunnelKey_def)
next
  case (Some tun)
  note D = tunnels_okD[OF assms(1)]
  have mem: "(v, tun) \<in> set (tunnels e)" using Some map_of_in[OF D(1)] by blast
  show ?thesis
  proof (cases "t_ne tun")
    case (Some r)
    then have "e' = e" "rt' = upd_cds (setDestNeighbour k (Some r)) rt"
      using assms(2) \<open>map_of (tunnels e) v = Some tun\<close> by (simp_all add: tunnelKey_def)
    then show ?thesis using assms(1) by (simp add: tunnels_ok_set)
  next
    case None
    let ?ne = "new_NeighbourEntry (t_entry tun) v None REACHABLE"
    let ?tun = "tun\<lparr>t_ne := Some (nextRef (cds rt))\<rparr>"
    obtain c where c: "alloc ?ne (cds rt) = (nextRef (cds rt), c)" by (simp add: alloc_def)
    have "tunnelKey k v e rt = (True, e\<lparr>tunnels := map_put v ?tun (tunnels e)\<rparr>,
        rt\<lparr>cds := setDestNeighbour k (Some (nextRef (cds rt))) c\<rparr>)"
      by (simp add: tunnelKey_def Some None c)
    then have e': "e' = e\<lparr>tunnels := map_put v ?tun (tunnels e)\<rparr>"
      "cds rt' = setDestNeighbour k (Some (nextRef (cds rt))) c"
      using assms(2) by simp_all
    have "tunnels_ok (e\<lparr>tunnels := map_put v ?tun (tunnels e), vIfIndexTop := vIfIndexTop e\<rparr>) c"
    proof (rule put_tunnel_ok[OF assms(1)])
      show "owns_ne c p" if "p \<in> set (tunnels e)" for p
        using owns_ne_alloc[OF D(4)[OF that], of ?ne] unfolding c by simp
      have "c = snd (alloc ?ne (cds rt))" by (simp add: c)
      then show "owns_ne c (v, ?tun)" by (simp add: owns_ne_def alloc_def)
      show "vIfIndexTop e < v" using D(2)[OF mem] by simp
      show "fst p = v" if "p \<in> set (tunnels e)" "t_entry (snd p) = t_entry ?tun" "t_exit (snd p) = t_exit ?tun" for p
        using D(3)[OF that(1) mem] that(2,3) by simp
    qed simp
    then have "tunnels_ok e' c" using tunnels_ok_cong[of e' "e\<lparr>tunnels := map_put v ?tun (tunnels e),
        vIfIndexTop := vIfIndexTop e\<rparr>" c] by (simp add: e'(1))
    then show ?thesis unfolding e'(2) by (rule tunnels_ok_set)
  qed
qed

lemma tunnelKey_top:
  assumes "tunnelKey k v e rt = (b, e', rt')"
  shows "tunnelKey k v (e\<lparr>vIfIndexTop := x\<rparr>) rt = (b, e'\<lparr>vIfIndexTop := x\<rparr>, rt')"
  using assms by (auto simp: tunnelKey_def split: option.splits prod.splits)

lemma createTunnel_ok:
  assumes "tunnels_ok e (cds rt)" "createTunnel src dest i trig one e rt = Inr (v, e', rt')" "0 < vIfIndexTop e"
  shows "tunnels_ok e' (cds rt')"
proof (cases "localDeliver6 src rt \<and> localDeliver6 dest rt")
  case True
  then show ?thesis using assms(1,2) by (simp add: createTunnel_def result_simps)
next
  case False
  note D = tunnels_okD[OF assms(1)]
  let ?top = "vIfIndexTop e" and ?tun = "new_Tunnel src dest i one"
  let ?e1 = "e\<lparr>tunnels := map_put ?top ?tun (tunnels e)\<rparr>"
  let ?e2 = "e\<lparr>tunnels := map_put ?top ?tun (tunnels e), vIfIndexTop := ?top - 1\<rparr>"
  have find: "findTunnel src dest e = Inr 0" using assms(2) by (auto simp: createTunnel_def)
  have "map_of (tunnels e) ?top = None"
  proof (rule ccontr)
    assume "map_of (tunnels e) ?top \<noteq> None"
    then obtain t where "(?top, t) \<in> set (tunnels e)" using map_of_in[OF D(1)] by blast
    from D(2)[OF this] show False by simp
  qed
  then have rel: "releaseTunnel (map_of (tunnels e) ?top) (cds rt) = cds rt" by (simp add: releaseTunnel_def)
  have low: "tunnels_ok ?e2 (cds rt)"
  proof (rule put_tunnel_ok[OF assms(1)])
    show "owns_ne (cds rt) (?top, ?tun)" by (simp add: owns_ne_def new_Tunnel_def)
    show "fst p = ?top" if "p \<in> set (tunnels e)" "t_entry (snd p) = t_entry ?tun" "t_exit (snd p) = t_exit ?tun" for p
      using findTunnel_0[OF assms(1) find that(1)] that(2,3) by (simp add: new_Tunnel_def)
  qed (use D(4) assms(3) in auto)
  show ?thesis
  proof (cases "trig = IPv6_ADDR_UNSPECIFIED")
    case True
    have "createTunnel src dest i trig one e rt = Inr (?top, ?e2, rt)"
      using assms(3) False find rel True by (simp add: createTunnel_def Let_def)
    then show ?thesis using low assms(2) by simp
  next
    case trig: False
    obtain b e3 rt3 where t: "tunnelKey (key_of (addr128 trig)) ?top ?e1 rt = (b, e3, rt3)" by (metis prod_cases3)
    have "createTunnel src dest i trig one e rt = Inr (?top, e3\<lparr>vIfIndexTop := ?top - 1\<rparr>, rt3)"
      using assms(3) False find rel trig t by (simp add: createTunnel_def Let_def tunnelDestination_def)
    then have "e' = e3\<lparr>vIfIndexTop := ?top - 1\<rparr>" "rt' = rt3" using assms(2) by simp_all
    then have "tunnelKey (key_of (addr128 trig)) ?top ?e2 rt = (b, e', rt')"
      using tunnelKey_top[OF t, of "?top - 1"] by simp
    from tunnelKey_ok[OF low this] show ?thesis .
  qed
qed

lemma eraseTunnel_ok:
  assumes "tunnels_ok e (cds rt)" "eraseTunnel v e rt = (e', rt')"
  shows "tunnels_ok e' (cds rt')"
proof -
  have ok: "map_ok (tunnels e)" using assms(1) by (simp add: tunnels_ok_def)
  let ?c = "releaseTunnel (map_of (tunnels e) v) (cds rt)"
  have own: "owns_ne ?c p" if p: "p \<in> set (tunnels e)" "fst p \<noteq> v" for p
  proof (cases "map_of (tunnels e) v")
    case None
    then show ?thesis using tunnels_okD(4)[OF assms(1) p(1)] by (simp add: releaseTunnel_def)
  next
    case (Some tun)
    then have "(v, tun) \<in> set (tunnels e)" using map_of_in[OF ok] by blast
    then have "owns_ne (cds rt) (v, tun)" "owns_ne (cds rt) p" using tunnels_okD(4)[OF assms(1)] p by blast+
    then show ?thesis using owns_ne_release[of "cds rt" p "(v, tun)"] p Some by simp
  qed
  have mem: "p \<in> set (map_erase v (tunnels e)) \<longleftrightarrow> p \<in> set (tunnels e) \<and> fst p \<noteq> v" for p
    by (rule map_erase_in[OF ok])
  have e': "e' = e\<lparr>tunnels := map_erase v (tunnels e)\<rparr>" "cds rt' = snd (removeDestEntryByTunnel v ?c)"
    using assms(2) by (auto simp: eraseTunnel_def)
  note D = tunnels_okD[OF assms(1)]
  show ?thesis
  proof (rule tunnels_okI)
    show "map_ok (tunnels e')" using ok e'(1) by simp
    fix p assume "p \<in> set (tunnels e')"
    then have p: "p \<in> set (tunnels e)" "fst p \<noteq> v" using mem e'(1) by simp_all
    show "vIfIndexTop e' < fst p" using D(2)[OF p(1)] e'(1) by simp
    show "owns_ne (cds rt') p" using own[OF p] e'(2) by simp
    fix q assume "q \<in> set (tunnels e')" "t_entry (snd p) = t_entry (snd q)" "t_exit (snd p) = t_exit (snd q)"
    then show "fst p = fst q" using D(3)[OF p(1), of q] mem e'(1) by simp
  qed
qed

lemma destroyTunnel_ok:
  assumes "tunnels_ok e (cds rt)" "destroyTunnel src dest e rt = Inr (b, e', rt')"
  shows "tunnels_ok e' (cds rt')"
proof -
  obtain v where "findTunnel src dest e = Inr v"
      "(b, e', rt') = (if v = 0 then (False, e, rt) else (True, eraseTunnel v e rt))"
    using assms(2) unfolding destroyTunnel_def emap_eq_Inr by blast
  then have "e' = e \<and> rt' = rt \<or> eraseTunnel v e rt = (e', rt')" by (cases "v = 0") auto
  then show ?thesis using assms(1) eraseTunnel_ok by blast
qed

lemma enc_encapsulate_state:
  assumes "enc_encapsulate d e rt = (outs, Inr (e', rt'))"
  shows "(e' = e \<and> rt' = rt) \<or> (\<exists>src dest b. destroyTunnel src dest e rt = Inr (b, e', rt'))"
proof -
  have bind: "(wbind (wlift r) f = (os, Inr y)) = (\<exists>x. r = Inr x \<and> f x = (os, Inr y))"
    for r :: "'z result" and f :: "'z \<Rightarrow> ('p enc_out, IPv6Encapsulation \<times> RT6) sender" and os y
    by (cases r) (simp_all add: wfail_def)
  show ?thesis using assms
    by (auto simp: enc_encapsulate_def sender_eqs bind split: if_splits option.splits prod.splits)
qed

text \<open>The operations on the tunnels of a node, one after the other; fewer than \<open>2^32\<close> are created. What a datagram carries makes no difference.\<close>

inductive tunnel_step :: "IPv6Encapsulation \<times> RT6 \<Rightarrow> IPv6Encapsulation \<times> RT6 \<Rightarrow> bool" where
  create: "createTunnel src dest i trig one e rt = Inr (v, e', rt') \<Longrightarrow> 0 < vIfIndexTop e \<Longrightarrow>
    tunnel_step (e, rt) (e', rt')"
| trigger: "tunnelDestination dest v e rt = (b, e', rt') \<Longrightarrow> tunnel_step (e, rt) (e', rt')"
| trigger_prefix: "tunnelDestinationPrefix pref v e rt = (b, e', rt') \<Longrightarrow> tunnel_step (e, rt) (e', rt')"
| destroy: "destroyTunnel src dest e rt = Inr (b, e', rt') \<Longrightarrow> tunnel_step (e, rt) (e', rt')"
| destroy_index: "destroyTunnelByIndex v e rt = (b, e', rt') \<Longrightarrow> tunnel_step (e, rt) (e', rt')"
| use: "enc_encapsulate (d :: nat IPv6Datagram) e rt = (outs, Inr (e', rt')) \<Longrightarrow> tunnel_step (e, rt) (e', rt')"

lemma tunnel_step_ok:
  assumes "tunnel_step s s'" "tunnels_ok (fst s) (cds (snd s))"
  shows "tunnels_ok (fst s') (cds (snd s'))"
  using assms
proof (induction rule: tunnel_step.induct)
  case (create src dest i trig one e rt v e' rt')
  then show ?case using createTunnel_ok by simp
next
  case (trigger dest v e rt b e' rt')
  then show ?case using tunnelKey_ok by (simp add: tunnelDestination_def)
next
  case (trigger_prefix pref v e rt b e' rt')
  then show ?case using tunnelKey_ok by (simp add: tunnelDestinationPrefix_def)
next
  case (destroy src dest e rt b e' rt')
  then show ?case using destroyTunnel_ok by simp
next
  case (destroy_index v e rt b e' rt')
  then show ?case using eraseTunnel_ok[of e rt v e' rt'] by (auto simp: destroyTunnelByIndex_def split: if_splits)
next
  case (use d e rt outs e' rt')
  then show ?case using enc_encapsulate_state[OF use.hyps] destroyTunnel_ok by (elim disjE exE) simp_all
qed

text \<open>
  C27: The tunnels of a node keep apart. After any sequence of operations on the tunnels of a node
  that started without any, the index of every tunnel is above the one the next tunnel will get,
  no two tunnels have the same entry and exit, and the neighbour entry a tunnel owns exists, is
  reachable and leads to the index of that tunnel and of no other.
\<close>

theorem tunnels_keep_apart:
  assumes "tunnel_step\<^sup>*\<^sup>* (Encapsulation_initialize procDelay n, rt0) (e, rt)"
    and "(v, tun) \<in> set (tunnels e)" "(w, tun') \<in> set (tunnels e)"
  shows "vIfIndexTop e < v \<and>
    (t_entry tun = t_entry tun' \<and> t_exit tun = t_exit tun' \<longrightarrow> v = w) \<and>
    (\<forall>r. t_ne tun = Some r \<longrightarrow> (\<exists>ne. objs (cds rt) r = Some ne \<and> ne_state ne = REACHABLE \<and> interfaceNo ne = v) \<and>
       (t_ne tun' = Some r \<longrightarrow> v = w))"
proof -
  have "tunnels_ok (fst (e, rt)) (cds (snd (e, rt)))"
    using assms(1) by (induction rule: rtranclp_induct) (use tunnels_ok_initialize tunnel_step_ok in auto)
  then have ok: "tunnels_ok e (cds rt)" by simp
  note D = tunnels_okD[OF ok]
  have "owns_ne (cds rt) (v, tun)" "owns_ne (cds rt) (w, tun')" using D(4) assms(2,3) by blast+
  then have "(\<forall>r. t_ne tun = Some r \<longrightarrow> (\<exists>ne. objs (cds rt) r = Some ne \<and> ne_state ne = REACHABLE \<and> interfaceNo ne = v) \<and>
       (t_ne tun' = Some r \<longrightarrow> v = w))" by (auto simp: owns_ne_def new_NeighbourEntry_def)
  then show ?thesis using D(2)[OF assms(2)] D(3)[OF assms(2,3)] by simp
qed

text \<open>When a tunnel is gone no destination leads to it.\<close>

lemma erased_tunnel_unreachable:
  assumes "eraseTunnel v e rt = (e', rt')" "(k, de) \<in> set (destCache (cds rt'))"
  shows "\<exists>ne. lock (cds rt') (de_neighbour de) = Some ne \<and> interfaceNo ne \<noteq> v"
  using assms
  by (auto simp: eraseTunnel_def removeDestEntryByTunnel_def removeDestEntries_def Let_def lock_def
      split: option.splits if_splits)

section \<open>Through a tunnel\<close>

lemma of_inner_inner_of: "of_inner (IPv6Header.truncate d) (d6_payload d) = d"
  by (simp add: of_inner_def IPv6Header.truncate_def IPv6Header.extend_def)

lemma originHopLimit_fields:
  assumes "originHopLimit rt d = Inr d'"
  shows "d' = d\<lparr>d6_hopLimit := d6_hopLimit d'\<rparr>"
  using assms by (auto simp: originHopLimit_def emap_eq_Inr split: if_splits)

lemma fst_wbind_wlift: "fst (wbind (wlift r) (\<lambda>(_, e, rt). ([], Inr (e, rt)))) = []"
  by (cases r) (auto simp: wfail_def)

lemma enc_encapsulate_out:
  assumes "enc_encapsulate d e rt = (outs, r)" "EncapsulatedSendOut t msg ctrl \<in> set outs"
  shows "\<exists>tun h. map_of (tunnels e) (uint_of_int (d6_outputPort d)) = Some tun \<and>
    msg = inner_of (d\<lparr>d6_hopLimit := h\<rparr>) \<and>
    c6_protocol ctrl = IP_PROT_IPv6 \<and> c6_srcAddr ctrl = t_entry tun \<and>
    c6_destAddr ctrl = t_exit tun \<and> c6_encapLimit ctrl = to_short (d6_encapLimit d - 1) \<and> d6_encapLimit d \<noteq> 0"
proof (cases "map_of (tunnels e) (uint_of_int (d6_outputPort d))")
  case None
  then show ?thesis using assms by (auto simp: enc_encapsulate_def wret_def split: if_splits)
next
  case (Some tun)
  show ?thesis
  proof (cases "originHopLimit rt d")
    case (Inl err)
    then show ?thesis using assms Some by (auto simp: enc_encapsulate_def wret_def wfail_def WASSERT_def split: if_splits)
  next
    case (Inr d')
    obtain h where d': "d' = d\<lparr>d6_hopLimit := h\<rparr>" using originHopLimit_fields[OF Inr] by blast
    show ?thesis using assms Some Inr d'
      by (cases "tunnelTimeToLive tun e rt")
        (auto simp: enc_encapsulate_def wret_def wfail_def WASSERT_def wsend_def fst_wbind_wlift split: if_splits)
  qed
qed

text \<open>
  C28: A tunnel gives back what was put in. When a datagram enters a tunnel, is wrapped by
  \<open>IPv6Send\<close>, and a datagram with that content and no extension headers is delivered at some node,
  that node takes the original datagram out of it: its addresses, protocol, extension headers and
  payload are those that went in; it looks like a datagram of the node itself, and remembers the
  interface the tunnel came in by as its output port.
\<close>

theorem tunnel_roundtrip:
  assumes "enc_encapsulate d e rt = (outs, r)" "EncapsulatedSendOut t msg ctrl \<in> set outs"
    and "encapsulatePacket msg ctrl rt s = Inr (Some outer, s')"
    and "d6_payload arrived = d6_payload outer" "d6_transportProtocol arrived = d6_transportProtocol outer"
    and "ext_hdrs arrived = []"
  shows "LocalDeliver_handleMessage mob arrived ld = ([TunnelOut arrived], Inr ld) \<and>
    (\<exists>x. enc_decapsulate arrived e2 = ([DecapsulatedPreRoutingOut (enc_delay e2 / 2) x], Inr ()) \<and>
      d6_srcAddress x = d6_srcAddress d \<and> d6_destAddress x = d6_destAddress d \<and>
      d6_transportProtocol x = d6_transportProtocol d \<and> ext_hdrs x = ext_hdrs d \<and> d6_payload x = d6_payload d \<and>
      d6_inputPort x = -1 \<and> (d6_inputPort arrived \<ge> 0 \<longrightarrow> d6_outputPort x = d6_inputPort arrived))"
proof -
  obtain tun h where m: "msg = inner_of (d\<lparr>d6_hopLimit := h\<rparr>)" "c6_protocol ctrl = IP_PROT_IPv6"
    using enc_encapsulate_out[OF assms(1,2)] by blast
  have "d6_payload outer = msg" "d6_transportProtocol outer = c6_protocol ctrl"
    using assms(3) by (auto simp: encapsulatePacket_def dgram_encapsulate_def Let_def split: if_splits)
  then have a: "d6_payload arrived = inner_of (d\<lparr>d6_hopLimit := h\<rparr>)" "d6_transportProtocol arrived = IP_PROT_IPv6"
    using assms(4,5) m by simp_all
  have "processDatagram mob arrived = ([], Inr (True, arrived))" using assms(6) by (simp add: processDatagram_def wret_def)
  then have "LocalDeliver_handleMessage mob arrived ld = ([TunnelOut arrived], Inr ld)"
    using a(2) by (simp add: LocalDeliver_handleMessage_def wbind_def wsend_def wret_def IP_PROT_IPv6_def IPv6_PROT_ICMP_def)
  moreover have "of_inner (IPv6Header.truncate (d\<lparr>d6_hopLimit := h\<rparr>)) (d6_payload d) = d\<lparr>d6_hopLimit := h\<rparr>"
    using of_inner_inner_of[of "d\<lparr>d6_hopLimit := h\<rparr>"] by simp
  ultimately show ?thesis
    using a by (simp add: enc_decapsulate_def inner_of_def wsend_def wret_def Let_def IMPL_INPUT_PORT_LOCAL_PACKET_def)
qed





section \<open>A datagram finds the tunnel\<close>

lemma int_uint_roundtrip: "v < 2 ^ 32 \<Longrightarrow> uint_of_int (int_of_uint v) = v"
  by (simp add: uint_of_int_def int_of_uint_def unsigned_of_nat take_bit_nat_eq_self_iff)

lemma createTunnel_trigger:
  assumes "tunnels_ok e (cds rt)" "createTunnel src dest i trig one e rt = Inr (v, e', rt')"
    and "trig \<noteq> IPv6_ADDR_UNSPECIFIED" "0 < v"
  shows "\<exists>r. map_of (tunnels e') v = Some ((new_Tunnel src dest i one)\<lparr>t_ne := Some r\<rparr>) \<and>
    lock (cds rt') (dc_neighbour trig (cds rt')) = Some (new_NeighbourEntry src v None REACHABLE) \<and>
    ifaces rt' = ifaces rt \<and> IPForward rt' = IPForward rt \<and> multicastGroup rt' = multicastGroup rt \<and>
    odadSupport rt' = odadSupport rt \<and> \<not> (localDeliver6 src rt \<and> localDeliver6 dest rt)"
proof -
  note D = tunnels_okD[OF assms(1)]
  have find: "findTunnel src dest e = Inr 0" using assms(2) by (auto simp: createTunnel_def)
  have local: "\<not> (localDeliver6 src rt \<and> localDeliver6 dest rt)" using assms(2,4) find by (auto simp: createTunnel_def)
  have v: "v = vIfIndexTop e"
    using assms(2) find local by (auto simp: createTunnel_def Let_def split: prod.splits)
  have "map_of (tunnels e) v = None"
  proof (rule ccontr)
    assume "map_of (tunnels e) v \<noteq> None"
    then obtain t where "(v, t) \<in> set (tunnels e)" using map_of_in[OF D(1)] by blast
    from D(2)[OF this] show False using v by simp
  qed
  then have rel: "releaseTunnel (map_of (tunnels e) v) (cds rt) = cds rt" by (simp add: releaseTunnel_def)
  let ?tun = "new_Tunnel src dest i one" and ?r = "nextRef (cds rt)"
  let ?e1 = "e\<lparr>tunnels := map_put v ?tun (tunnels e)\<rparr>"
  obtain c where c: "alloc (new_NeighbourEntry src v None REACHABLE) (cds rt) = (?r, c)" by (simp add: alloc_def)
  let ?c = "setDestNeighbour (key_of (addr128 trig)) (Some ?r) c"
  have "tunnelDestination trig v ?e1 rt =
      (True, ?e1\<lparr>tunnels := map_put v (?tun\<lparr>t_ne := Some ?r\<rparr>) (tunnels ?e1)\<rparr>, rt\<lparr>cds := ?c\<rparr>)"
    by (simp add: tunnelDestination_def tunnelKey_def new_Tunnel_def c)
  then have "createTunnel src dest i trig one e rt =
      Inr (v, ?e1\<lparr>tunnels := map_put v (?tun\<lparr>t_ne := Some ?r\<rparr>) (tunnels ?e1), vIfIndexTop := v - 1\<rparr>, rt\<lparr>cds := ?c\<rparr>)"
    using assms(3,4) find local rel v by (simp add: createTunnel_def Let_def)
  then have res: "e' = ?e1\<lparr>tunnels := map_put v (?tun\<lparr>t_ne := Some ?r\<rparr>) (tunnels ?e1), vIfIndexTop := v - 1\<rparr>"
    "rt' = rt\<lparr>cds := ?c\<rparr>" using assms(2) by simp_all
  have "c = snd (alloc (new_NeighbourEntry src v None REACHABLE) (cds rt))" by (simp add: c)
  then have "objs c ?r = Some (new_NeighbourEntry src v None REACHABLE)" by (simp add: alloc_def)
  then have "lock ?c (dc_neighbour trig ?c) = Some (new_NeighbourEntry src v None REACHABLE)"
    by (simp add: lock_def)
  then show ?thesis using res local by (intro exI[of _ ?r]) simp
qed

text \<open>
  A new tunnel catches the datagrams it was made for. After \<open>createTunnel\<close> with a destination
  to trigger on, a unicast datagram for that destination that comes in on an interface, and that is
  not for the node itself, goes to the tunnel, unchanged but for its output port and whatever the
  duplicate forgets of its routing headers. There it is wrapped with the end points of the tunnel
  as addresses, unless its encapsulation limit is used up or its own addresses are those end
  points.
\<close>

theorem new_tunnel_catches_its_destination:
  assumes "tunnels_ok e (cds (fwd_rt fw))"
    and "createTunnel src dest i trig one e (fwd_rt fw) = Inr (v, e', rt')" "trig \<noteq> IPv6_ADDR_UNSPECIFIED"
    and "numInterfaceGates6 (fwd_rt fw) < v" "v < 2 ^ 32"
    and "d6_destAddress d = trig" "\<not> isMulticast6 trig" "\<not> localDeliver6 trig (fwd_rt fw)"
    and "d6_inputPort d \<noteq> -1" "d6_inputPort d < int (numInterfaceGates6 (fwd_rt fw))"
    and "d6_encapLimit d \<noteq> 0" "d6_srcAddress d \<noteq> IPv6_ADDR_UNSPECIFIED" "dest \<noteq> trig"
    and "src \<noteq> IPv6_ADDR_UNSPECIFIED" "dest \<noteq> IPv6_ADDR_UNSPECIFIED" "IPForward (fwd_rt fw)" "tunHopLimit e' = 0"
  shows "\<exists>d' ctrl t. Forward_endService d info (fw\<lparr>fwd_rt := rt'\<rparr>) = ([TunnelEntry d'], Inr (fw\<lparr>fwd_rt := rt'\<rparr>)) \<and>
    d' = (dup_IPv6Datagram d)\<lparr>d6_outputPort := int_of_uint v\<rparr> \<and>
    fst (enc_encapsulate d' e' rt') = [EncapsulatedSendOut t (inner_of d') ctrl] \<and>
    c6_srcAddr ctrl = src \<and> c6_destAddr ctrl = dest"
proof -
  obtain r where m: "map_of (tunnels e') v = Some ((new_Tunnel src dest i one)\<lparr>t_ne := Some r\<rparr>)"
    "lock (cds rt') (dc_neighbour trig (cds rt')) = Some (new_NeighbourEntry src v None REACHABLE)"
    "ifaces rt' = ifaces (fwd_rt fw)" "IPForward rt' = IPForward (fwd_rt fw)"
    "multicastGroup rt' = multicastGroup (fwd_rt fw)" "odadSupport rt' = odadSupport (fwd_rt fw)"
    using createTunnel_trigger[OF assms(1,2,3)] assms(4) by auto
  have nl: "\<not> localDeliver6 trig rt'" using assms(8) m(3,5,6) by (auto simp: localDeliver6_def)
  let ?d = "(dup_IPv6Datagram d)\<lparr>d6_outputPort := int_of_uint v\<rparr>"
  obtain de where de: "findDestEntry trig (cds rt') = Some de" "lock (cds rt') (de_neighbour de) =
      Some (new_NeighbourEntry src v None REACHABLE)"
    using m(2) by (auto simp: dc_neighbour_def lock_def split: option.splits)
  have gates: "numInterfaceGates6 rt' = numInterfaceGates6 (fwd_rt fw)" using m(3) by (simp add: numInterfaceGates6_def)
  have "enterTunnel d rt' = wsend [TunnelEntry ?d] (wret True)"
    using de assms(4,6,7,9) gates
    by (simp add: enterTunnel_def new_NeighbourEntry_def IMPL_INPUT_PORT_LOCAL_PACKET_def)
  then have "Forward_endService d info (fw\<lparr>fwd_rt := rt'\<rparr>) = wsend [TunnelEntry ?d] (wret (fw\<lparr>fwd_rt := rt'\<rparr>))"
    using nl assms(6,10) gates by (simp add: Forward_endService_def deliverLocal_def)
  then have f: "Forward_endService d info (fw\<lparr>fwd_rt := rt'\<rparr>) = ([TunnelEntry ?d], Inr (fw\<lparr>fwd_rt := rt'\<rparr>))"
    by (simp add: wsend_def wret_def)
  have o: "originHopLimit rt' ?d = Inr ?d"
    using assms(9) by (simp add: originHopLimit_def dup_IPv6Datagram_def IMPL_INPUT_PORT_LOCAL_PACKET_def)
  have t: "tunnelTimeToLive tun e' rt' = Inr DEFAULT_ROUTER_HOPLIMIT" for tun
    using assms(16,17) m(4) by (simp add: tunnelTimeToLive_def)
  have port: "uint_of_int (d6_outputPort ?d) = v" using int_uint_roundtrip[OF assms(5)] by simp
  have "\<exists>t ctrl. fst (enc_encapsulate ?d e' rt') = [EncapsulatedSendOut t (inner_of ?d) ctrl] \<and>
      c6_srcAddr ctrl = src \<and> c6_destAddr ctrl = dest"
    unfolding enc_encapsulate_def port m(1) o option.case
    using assms(3,6,11-15)
    by (simp add: t new_Tunnel_def dup_IPv6Datagram_def wsend_def fst_wbind_wlift wret_def)
  then show ?thesis using f by blast
qed

section \<open>An example\<close>

definition example_tunnel_entry :: ipv6_addr where "example_tunnel_entry = Ipv6Addr 0x20010db8 0 0 1"
definition example_tunnel_exit :: ipv6_addr where "example_tunnel_exit = Ipv6Addr 0x20010db8 0 0 2"

definition example_encap :: IPv6Encapsulation where
  "example_encap = Encapsulation_initialize 0 2"

lemma example_top: "vIfIndexTop example_encap = 4294967292"
  by (simp add: example_encap_def Encapsulation_initialize_def UINT_MAX_def)

lemma example_create:
  "\<exists>e' rt'. createTunnel example_tunnel_entry example_tunnel_exit 0 (d6_destAddress example_transit) False
     example_encap (fwd_rt example_forward) = Inr (4294967292, e', rt') \<and> tunHopLimit e' = 0"
proof -
  have find: "findTunnel example_tunnel_entry example_tunnel_exit example_encap = Inr 0"
    by (simp add: findTunnel_def firstTunnel_def example_encap_def Encapsulation_initialize_def
        example_tunnel_entry_def example_tunnel_exit_def IPv6_ADDR_UNSPECIFIED_def)
  have local: "\<not> localDeliver6 example_tunnel_exit (fwd_rt example_forward)"
    by (simp add: localDeliver6_def example_tunnel_exit_def isMulticast6_def IPv6_ADDR_MULTICAST_PREFIX_def
        example_forward_def example_host_def RT6_initialize_def if_addrAssigned_def tentativeAddrAssigned_def addrIn_def
        new_IPv6Address_def)
  have keep: "tunHopLimit e2 = tunHopLimit e1" if "tunnelDestination x y e1 r1 = (b, e2, r2)" for x y e1 r1 b e2 r2
    using that by (auto simp: tunnelDestination_def tunnelKey_def split: option.splits prod.splits)
  show ?thesis
    using find local keep
    by (auto simp: createTunnel_def Let_def example_top split: prod.split)
      (auto simp: example_encap_def Encapsulation_initialize_def)
qed

lemma example_addresses:
  "d6_destAddress example_transit = Ipv6Addr 0x20010db8 8 0 8" "d6_srcAddress example_transit = Ipv6Addr 0x20010db8 9 0 9"
  "d6_inputPort example_transit = 0" "d6_encapLimit example_transit = 16" "numInterfaceGates6 (fwd_rt example_forward) = 1"
  "IPForward (fwd_rt example_forward)"
  by (simp_all add: example_transit_def new_IPv6Datagram_def numInterfaceGates6_def example_forward_def example_host_def
      RT6_initialize_def)

lemma new_tunnel_catches_its_destination_witness:
  "\<exists>fw d'. fst (Forward_endService example_transit None fw) = [TunnelEntry d'] \<and> d6_outputPort d' = int_of_uint 4294967292"
proof -
  obtain e' rt' where c: "createTunnel example_tunnel_entry example_tunnel_exit 0 (d6_destAddress example_transit) False
     example_encap (fwd_rt example_forward) = Inr (4294967292, e', rt')" "tunHopLimit e' = 0" using example_create by blast
  have ok: "tunnels_ok example_encap (cds (fwd_rt example_forward))"
    unfolding example_encap_def by (rule tunnels_ok_initialize)
  have nl: "\<not> localDeliver6 (d6_destAddress example_transit) (fwd_rt example_forward)"
    by (simp add: localDeliver6_def example_addresses isMulticast6_def IPv6_ADDR_MULTICAST_PREFIX_def
        example_forward_def example_host_def RT6_initialize_def if_addrAssigned_def tentativeAddrAssigned_def addrIn_def
        new_IPv6Address_def)
  have "\<exists>d' ctrl t. Forward_endService example_transit None (example_forward\<lparr>fwd_rt := rt'\<rparr>) =
      ([TunnelEntry d'], Inr (example_forward\<lparr>fwd_rt := rt'\<rparr>)) \<and>
    d' = (dup_IPv6Datagram example_transit)\<lparr>d6_outputPort := int_of_uint 4294967292\<rparr> \<and>
    fst (enc_encapsulate d' e' rt') = [EncapsulatedSendOut t (inner_of d') ctrl] \<and>
    c6_srcAddr ctrl = example_tunnel_entry \<and> c6_destAddr ctrl = example_tunnel_exit"
    by (rule new_tunnel_catches_its_destination[OF ok c(1)])
      (use nl c(2) in \<open>simp_all add: example_addresses isMulticast6_def IPv6_ADDR_MULTICAST_PREFIX_def
        IPv6_ADDR_UNSPECIFIED_def example_tunnel_entry_def example_tunnel_exit_def\<close>)
  then obtain d' where d': "Forward_endService example_transit None (example_forward\<lparr>fwd_rt := rt'\<rparr>) =
      ([TunnelEntry d'], Inr (example_forward\<lparr>fwd_rt := rt'\<rparr>))"
    "d' = (dup_IPv6Datagram example_transit)\<lparr>d6_outputPort := int_of_uint 4294967292\<rparr>" by blast
  show ?thesis
    by (rule exI[of _ "example_forward\<lparr>fwd_rt := rt'\<rparr>"], rule exI[of _ d']) (simp add: d'(1), simp add: d'(2))
qed

lemma tunnels_keep_apart_witness:
  "\<exists>e rt tun. (4294967292, tun) \<in> set (tunnels e) \<and> vIfIndexTop e < 4294967292 \<and>
     tunnel_step\<^sup>*\<^sup>* (example_encap, fwd_rt example_forward) (e, rt)"
proof -
  let ?rt = "fwd_rt example_forward"
  obtain e' rt' where c: "createTunnel example_tunnel_entry example_tunnel_exit 0 (d6_destAddress example_transit) False
     example_encap ?rt = Inr (4294967292, e', rt')" using example_create by blast
  have ok: "tunnels_ok example_encap (cds ?rt)" unfolding example_encap_def by (rule tunnels_ok_initialize)
  have "d6_destAddress example_transit \<noteq> IPv6_ADDR_UNSPECIFIED" by (simp add: example_addresses IPv6_ADDR_UNSPECIFIED_def)
  then obtain tun where "map_of (tunnels e') 4294967292 = Some tun" using createTunnel_trigger[OF ok c] by auto
  then have mem: "(4294967292, tun) \<in> set (tunnels e')" by (rule map_of_SomeD)
  have "tunnel_step (example_encap, ?rt) (e', rt')" using c by (rule tunnel_step.create) (simp add: example_top)
  then have steps: "tunnel_step\<^sup>*\<^sup>* (example_encap, ?rt) (e', rt')" by blast
  from tunnels_keep_apart[OF steps[unfolded example_encap_def] mem mem] steps mem show ?thesis by blast
qed

text \<open>A tunnel that was set up by hand.\<close>

definition example_encap1 :: IPv6Encapsulation where
  "example_encap1 = example_encap\<lparr>tunnels := [(7, new_Tunnel example_tunnel_entry example_tunnel_exit 0 False)]\<rparr>"

definition example_tunnelled :: "nat IPv6Datagram" where
  "example_tunnelled = example_transit\<lparr>d6_outputPort := 7, d6_payload := Upper 80 42\<rparr>"

definition example_outer_ctrl :: IPv6ControlInfo where
  "example_outer_ctrl = \<lparr>c6_protocol = IP_PROT_IPv6, c6_srcAddr = example_tunnel_entry, c6_destAddr = example_tunnel_exit,
     c6_timeToLive = 64, c6_encapLimit = 15\<rparr>"

lemma example_encapsulated:
  "enc_encapsulate example_tunnelled example_encap1 (fwd_rt example_forward) =
     ([EncapsulatedSendOut 0 (inner_of example_tunnelled) example_outer_ctrl], Inr (example_encap1, fwd_rt example_forward))"
  by (simp add: enc_encapsulate_def example_tunnelled_def example_addresses example_encap1_def uint_of_int_def
      new_Tunnel_def example_tunnel_entry_def example_tunnel_exit_def IPv6_ADDR_UNSPECIFIED_def originHopLimit_def
      IMPL_INPUT_PORT_LOCAL_PACKET_def tunnelTimeToLive_def example_encap_def Encapsulation_initialize_def
      DEFAULT_ROUTER_HOPLIMIT_def to_short_def wsend_def wret_def example_outer_ctrl_def)

lemma example_wrapped:
  "\<exists>outer s'. encapsulatePacket (inner_of example_tunnelled) example_outer_ctrl (fwd_rt example_forward)
     (Send_initialize []) = Inr (Some outer, s') \<and> d6_encapLimit outer = 15"
  by (simp add: encapsulatePacket_def firstIfaceReady_def example_forward_def example_host_def RT6_initialize_def
      example_outer_ctrl_def example_tunnel_entry_def example_tunnel_exit_def IPv6_ADDR_UNSPECIFIED_def srcAddrExists_def
      if_addrAssigned_def addrIn_def new_IPv6Address_def Let_def)

lemma tunnel_roundtrip_witness:
  "\<exists>(outer :: nat IPv6Datagram) x. enc_decapsulate outer example_encap = ([DecapsulatedPreRoutingOut 0 x], Inr ()) \<and>
     d6_payload x = Upper 80 42 \<and> d6_destAddress x = Ipv6Addr 0x20010db8 8 0 8"
proof -
  obtain outer s' where w: "encapsulatePacket (inner_of example_tunnelled) example_outer_ctrl (fwd_rt example_forward)
     (Send_initialize []) = Inr (Some outer, s')" using example_wrapped by blast
  then have "ext_hdrs outer = []"
    by (auto simp: encapsulatePacket_def dgram_encapsulate_def new_IPv6Datagram_def Let_def split: if_splits)
  from tunnel_roundtrip[OF example_encapsulated _ w refl refl this, of 0 "\<lparr>bindings = None, hopLimits = []\<rparr>"
      LocalDeliver_initialize example_encap]
  show ?thesis by (auto simp: example_encap_def Encapsulation_initialize_def example_tunnelled_def example_addresses)
qed


end
