(* ===== verification/Output_Queues.thy ===== *)
theory Output_Queues
  imports Prelude "HOL-Library.Multiset" "HOL-Library.Sublist"
begin

text \<open>
  The output queues of the interfaces: \<open>PassiveQueueBase\<close>, which hands packets out on request,
  over the queue disciplines \<open>DropTailQueue\<close> and \<open>DropTailQoSQueue\<close> with \<open>BasicClassifier\<close>. The
  virtual functions \<open>enqueue\<close> and \<open>dequeue\<close> of the base class are arguments of its model; what
  it needs of them is the locale \<open>queue_discipline\<close>, interpreted on both disciplines.
  \<open>enqueue\<close> returns whether the packet was dropped.
\<close>

section \<open>\<open>PassiveQueueBase\<close>\<close>





section \<open>Disciplines\<close>





subsection \<open>\<open>BasicClassifier\<close>\<close>





section \<open>The interface of a discipline\<close>








subsection \<open>The two disciplines provide it\<close>













section \<open>Properties\<close>



end
