(* ===== verification/MAC_Address.thy ===== *)
theory MAC_Address
  imports IPv6_Address "HOL-Library.List_Lexorder"
begin

text \<open>
  The class \<open>MACAddress\<close> of \<open>src/NetworkInterfaces/Contract\<close>: six bytes, compared with \<open>memcmp\<close>,
  which is the lexicographic order of unsigned bytes, and their text form.
\<close>

datatype MACAddress = MACAddress uint8 uint8 uint8 uint8 uint8 uint8

primrec mac_bytes :: "MACAddress \<Rightarrow> uint8 list" where
  "mac_bytes (MACAddress a b c d e f) = [a, b, c, d, e, f]"

lemma mac_bytes_inj: "mac_bytes a = mac_bytes b \<longleftrightarrow> a = b"
  by (cases a; cases b) simp

instantiation MACAddress :: linorder
begin

definition less_MACAddress :: "MACAddress \<Rightarrow> MACAddress \<Rightarrow> bool" where
  "a < b \<longleftrightarrow> mac_bytes a < mac_bytes b"

definition less_eq_MACAddress :: "MACAddress \<Rightarrow> MACAddress \<Rightarrow> bool" where
  "a \<le> b \<longleftrightarrow> mac_bytes a \<le> mac_bytes b"

instance
  by standard (auto simp: less_MACAddress_def less_eq_MACAddress_def less_le mac_bytes_inj)

end

definition new_MACAddress :: MACAddress where
  "new_MACAddress = MACAddress 0 0 0 0 0 0"

definition setBroadcast :: MACAddress where
  "setBroadcast = MACAddress 0xff 0xff 0xff 0xff 0xff 0xff"

definition isBroadcast :: "MACAddress \<Rightarrow> bool" where
  "isBroadcast m \<longleftrightarrow>
     (case m of MACAddress a b c d e f \<Rightarrow> a AND b AND c AND d AND e AND f) = 0xff"

definition mac_isMulticast :: "MACAddress \<Rightarrow> bool" where
  "mac_isMulticast m \<longleftrightarrow> hd (mac_bytes m) AND 0x80 \<noteq> 0"

definition mac_isEmpty :: "MACAddress \<Rightarrow> bool" where
  "mac_isEmpty m \<longleftrightarrow> (\<forall>b \<in> set (mac_bytes m). b = 0)"

definition mac_equals :: "MACAddress \<Rightarrow> MACAddress \<Rightarrow> bool" where
  "mac_equals a b \<longleftrightarrow> mac_bytes a = mac_bytes b"

definition compareTo :: "MACAddress \<Rightarrow> MACAddress \<Rightarrow> int" where
  "compareTo a b = (if mac_bytes a < mac_bytes b then -1 else if mac_bytes a = mac_bytes b then 0 else 1)"

definition getAddressByte :: "nat \<Rightarrow> MACAddress \<Rightarrow> uint8 result" where
  "getAddressByte k m =
     (if k \<ge> 6 then Inl (Exception ''Array of size 6 indexed'') else Inr (mac_bytes m ! k))"

definition mac_of_bytes :: "uint8 list \<Rightarrow> MACAddress" where
  "mac_of_bytes bs = MACAddress (bs ! 0) (bs ! 1) (bs ! 2) (bs ! 3) (bs ! 4) (bs ! 5)"

definition setAddressByte :: "nat \<Rightarrow> uint8 \<Rightarrow> MACAddress \<Rightarrow> MACAddress result" where
  "setAddressByte k addrbyte m =
     (if k \<ge> 6 then Inl (Exception ''Array of size 6 indexed'')
      else Inr (mac_of_bytes ((mac_bytes m)[k := addrbyte])))"

section \<open>Text form\<close>

text \<open>
  \<open>hextobin\<close>: pairs of hexadecimal digits, with everything else skipped; once the text ends the
  remaining bytes are zero. The second component counts the bytes that were converted.
\<close>

definition isxdigit :: "char \<Rightarrow> bool" where
  "isxdigit c \<longleftrightarrow> digitVal c < 16"

fun hextobin :: "nat \<Rightarrow> string \<Rightarrow> uint8 list \<times> nat" where
  "hextobin 0 s = ([], 0)"
| "hextobin (Suc n) s =
     (case dropWhile (\<lambda>c. \<not> isxdigit c) s of
        [] \<Rightarrow> (0 # fst (hextobin n []), snd (hextobin n []))
      | c # s \<Rightarrow>
          (case dropWhile (\<lambda>c. \<not> isxdigit c) s of
             [] \<Rightarrow> (0 # fst (hextobin n []), snd (hextobin n []))
           | c' # s \<Rightarrow>
               (let d = push_bit 4 (of_nat (digitVal c)) + of_nat (digitVal c') in
                (d # fst (hextobin n s), snd (hextobin n s) + 1))))"

definition mac_setAddress :: "string option \<Rightarrow> MACAddress result" where
  "mac_setAddress hexstr =
     (case hexstr of
        None \<Rightarrow> Inl (Exception ''MACAddress::setAddress: got null pointer'')
      | Some s \<Rightarrow>
          (case hextobin 6 s of (bs, k) \<Rightarrow>
             if k \<noteq> 6 then Inl (Exception ''MACAddress::setAddress: hex string too short'')
             else Inr (mac_of_bytes bs)))"

definition hexDigit :: "nat \<Rightarrow> char" where
  "hexDigit d = char_of (if d < 10 then 48 + d else 55 + d)"

definition byte_str :: "uint8 \<Rightarrow> string" where
  "byte_str b = [hexDigit (unat b div 16), hexDigit (unat b mod 16), CHR ''-'']"

definition mac_str :: "MACAddress \<Rightarrow> string" where
  "mac_str m = butlast (concat (map byte_str (mac_bytes m)))"

lemma digitVal_hexDigit: "d < 16 \<Longrightarrow> digitVal (hexDigit d) = d"
  by (auto simp: digitVal_def hexDigit_def Let_def)

lemma isxdigit_hexDigit: "d < 16 \<Longrightarrow> isxdigit (hexDigit d)"
  by (simp add: isxdigit_def digitVal_hexDigit)

lemma hextobin_skip: "\<not> isxdigit c \<Longrightarrow> hextobin n (c # s) = hextobin n s"
  by (cases n) simp_all

lemma byte_halves: "push_bit 4 (of_nat (unat b div 16)) + of_nat (unat b mod 16) = (b :: uint8)"
proof -
  have "of_nat (unat b div 16 * 16 + unat b mod 16) = (of_nat (unat b) :: uint8)"
    by (simp only: div_mult_mod_eq)
  moreover have "of_nat (unat b) = b" by simp
  ultimately show ?thesis by (simp only: of_nat_add of_nat_mult push_bit_eq_mult) (simp add: mult.commute)
qed

lemma hextobin_byte:
  "hextobin (Suc n) (hexDigit (unat b div 16) # hexDigit (unat b mod 16) # s) =
     (b # fst (hextobin n s), snd (hextobin n s) + 1)"
proof -
  have "unat b div 16 < 16" using unsigned_less[of b, where ?'a = nat] by simp
  then show ?thesis by (simp add: isxdigit_hexDigit digitVal_hexDigit Let_def byte_halves)
qed

lemma hextobin_byte_str: "hextobin (Suc n) (byte_str b @ s) = (b # fst (hextobin n s), snd (hextobin n s) + 1)"
proof -
  have "hextobin n (CHR ''-'' # s) = hextobin n s"
    by (rule hextobin_skip) (simp add: isxdigit_def digitVal_def)
  then show ?thesis unfolding byte_str_def append.simps by (simp only: hextobin_byte)
qed

lemma hextobin_bytes:
  "bs \<noteq> [] \<Longrightarrow> hextobin (length bs) (butlast (concat (map byte_str bs))) = (bs, length bs)"
proof (induction bs)
  case (Cons b bs)
  show ?case
  proof (cases "bs = []")
    case True
    have "butlast (byte_str b) = [hexDigit (unat b div 16), hexDigit (unat b mod 16)]"
      by (simp add: byte_str_def)
    then show ?thesis using True hextobin_byte[of 0 b "[]"] by simp
  next
    case False
    then have "concat (map byte_str bs) \<noteq> []" by (cases bs) (simp_all add: byte_str_def)
    then have "butlast (concat (map byte_str (b # bs))) = byte_str b @ butlast (concat (map byte_str bs))"
      by (simp add: butlast_append del: concat_eq_Nil_conv)
    then show ?thesis using Cons.IH[OF False] hextobin_byte_str[of "length bs" b] by simp
  qed
qed simp

lemma hextobin_str: "hextobin 6 (mac_str m) = (mac_bytes m, 6)"
proof -
  have "length (mac_bytes m) = 6" and "mac_bytes m \<noteq> []" by (cases m; simp)+
  then show ?thesis using hextobin_bytes[of "mac_bytes m"] by (simp add: mac_str_def)
qed

lemma mac_text_roundtrip: "mac_setAddress (Some (mac_str m)) = Inr m"
  by (cases m) (simp add: mac_setAddress_def hextobin_str mac_of_bytes_def)

end
