(* ===== verification/Ether_Switch.thy ===== *)
theory Ether_Switch
  imports MAC_Address
begin

text \<open>
  The Ethernet switch of \<open>src/NetworkInterfaces/EtherSwitch\<close>: the address table that
  \<open>MACRelayUnitBase\<close> learns, and the two relay units over it, \<open>MACRelayUnitNP\<close> with some
  processors and one shared queue and \<open>MACRelayUnitPP\<close> with a queue and a processor for each
  port. Sent frames are a list of pairs of a port and a frame; \<open>'m\<close> is the payload.
\<close>

record 'm EtherFrame =
  fr_src :: MACAddress
  fr_dest :: MACAddress
  fr_length :: int
  fr_data :: 'm

datatype 'm relay_out = SendFrame int "'m EtherFrame" | SendPause int int

section \<open>The address table\<close>

record AddressEntry =
  portno :: int
  insertionTime :: simtime

record RelayBase =
  numPorts :: int
  addressTableSize :: int
  agingTime :: simtime
  addresstable :: "(MACAddress, AddressEntry) std_map"
  seqNum :: int

definition removeAgedEntriesFromTable :: "simtime \<Rightarrow> RelayBase \<Rightarrow> RelayBase" where
  "removeAgedEntriesFromTable now b =
     b\<lparr>addresstable := filter (\<lambda>(k, e). \<not> insertionTime e + agingTime b \<le> now) (addresstable b)\<rparr>"

text \<open>The loop that looks for the entry with the smallest insertion time, the first of them.\<close>

fun findOldest :: "MACAddress option \<Rightarrow> simtime \<Rightarrow> (MACAddress, AddressEntry) std_map \<Rightarrow> MACAddress option" where
  "findOldest oldest oldestInsertTime [] = oldest"
| "findOldest oldest oldestInsertTime ((k, e) # es) =
     (if insertionTime e < oldestInsertTime then findOldest (Some k) (insertionTime e) es
      else findOldest oldest oldestInsertTime es)"

definition removeOldestTableEntry :: "simtime \<Rightarrow> RelayBase \<Rightarrow> RelayBase" where
  "removeOldestTableEntry now b =
     (case findOldest None (now + 1) (addresstable b) of
        None \<Rightarrow> b
      | Some k \<Rightarrow> b\<lparr>addresstable := map_erase k (addresstable b)\<rparr>)"

definition tableFull :: "RelayBase \<Rightarrow> bool" where
  "tableFull b \<longleftrightarrow> int (length (addresstable b)) = addressTableSize b"

definition updateTableWithAddress :: "simtime \<Rightarrow> MACAddress \<Rightarrow> int \<Rightarrow> RelayBase \<Rightarrow> RelayBase" where
  "updateTableWithAddress now address port b =
     (let b = (if map_of (addresstable b) address = None \<and> addressTableSize b \<noteq> 0 \<and> tableFull b then
                 let b = removeAgedEntriesFromTable now b in
                 if tableFull b then removeOldestTableEntry now b else b
               else b)
      in b\<lparr>addresstable := map_put address \<lparr>portno = port, insertionTime = now\<rparr> (addresstable b)\<rparr>)"

definition getPortForAddress :: "simtime \<Rightarrow> MACAddress \<Rightarrow> RelayBase \<Rightarrow> int \<times> RelayBase" where
  "getPortForAddress now address b =
     (case map_of (addresstable b) address of
        None \<Rightarrow> (-1, b)
      | Some e \<Rightarrow>
          if insertionTime e + agingTime b \<le> now
          then (-1, b\<lparr>addresstable := map_erase address (addresstable b)\<rparr>)
          else (portno e, b))"

definition broadcastFrame :: "'m EtherFrame \<Rightarrow> int \<Rightarrow> RelayBase \<Rightarrow> 'm relay_out list" where
  "broadcastFrame frame inputport b =
     map (\<lambda>i. SendFrame i frame) (filter (\<lambda>i. i \<noteq> inputport) [0..numPorts b - 1])"

definition handleAndDispatchFrame ::
    "simtime \<Rightarrow> 'm EtherFrame \<Rightarrow> int \<Rightarrow> RelayBase \<Rightarrow> 'm relay_out list \<times> RelayBase" where
  "handleAndDispatchFrame now frame inputport b =
     (let b = updateTableWithAddress now (fr_src frame) inputport b in
      if isBroadcast (fr_dest frame) then (broadcastFrame frame inputport b, b)
      else
        (case getPortForAddress now (fr_dest frame) b of (outputport, b) \<Rightarrow>
           if inputport = outputport then ([], b)
           else if outputport \<ge> 0 then ([SendFrame outputport frame], b)
           else (broadcastFrame frame inputport b, b)))"

subsection \<open>Initialisation\<close>

text \<open>
  \<open>atoi\<close>, and \<open>strtok\<close> on a line of the file. A line that starts with \<open>#\<close> or has no token is
  skipped; \<open>None\<close> stands for a file that cannot be opened.
\<close>

definition atoi :: "string \<Rightarrow> int" where
  "atoi s =
     (let s = dropWhile isSpace s;
          neg = (case s of c # _ \<Rightarrow> c = CHR ''-'' | [] \<Rightarrow> False);
          s = (case s of c # t \<Rightarrow> if c = CHR ''-'' \<or> c = CHR ''+'' then t else s | [] \<Rightarrow> s);
          n = int (digitsVal 10 (takeWhile (\<lambda>c. digitVal c < 10) s))
      in if neg then - n else n)"

definition isDelim :: "char \<Rightarrow> bool" where
  "isDelim c \<longleftrightarrow> c = CHR '' '' \<or> c = CHR 0x09"

definition strtok :: "string \<Rightarrow> string option \<times> string" where
  "strtok s =
     (case dropWhile isDelim s of
        [] \<Rightarrow> (None, [])
      | t \<Rightarrow> (Some (takeWhile (\<lambda>c. \<not> isDelim c) t), dropWhile (\<lambda>c. \<not> isDelim c) t))"

fun readLines :: "string list \<Rightarrow> RelayBase \<Rightarrow> RelayBase result" where
  "readLines [] b = Inr b"
| "readLines (line # ls) b =
     (if line \<noteq> [] \<and> hd line = CHR ''#'' then readLines ls b
      else
        (case strtok line of (hexaddress, rest) \<Rightarrow>
           (case hexaddress of
              None \<Rightarrow> readLines ls b
            | Some h \<Rightarrow>
                (case fst (strtok rest) of
                   None \<Rightarrow> Inl (OppError ''line invalid in address table file'')
                 | Some p \<Rightarrow>
                     ebind (mac_setAddress (Some h)) (\<lambda>a.
                       readLines ls (b\<lparr>addresstable :=
                         map_put a \<lparr>portno = atoi p, insertionTime = 0\<rparr> (addresstable b)\<rparr>))))))"

definition readAddressTable :: "string list option \<Rightarrow> RelayBase \<Rightarrow> RelayBase result" where
  "readAddressTable file b =
     (case file of
        None \<Rightarrow> Inl (OppError ''cannot open address table file'')
      | Some ls \<Rightarrow> readLines ls b)"

text \<open>
  The module parameters are arguments; \<open>file\<close> is \<open>None\<close> when no file is named.
\<close>

definition RelayBase_initialize ::
    "int \<Rightarrow> int \<Rightarrow> int \<Rightarrow> simtime \<Rightarrow> string list option option \<Rightarrow> RelayBase result" where
  "RelayBase_initialize outPorts inPorts tableSize aging file =
     (if inPorts \<noteq> outPorts
      then Inl (OppError ''the sizes of the lowerLayerIn[] and lowerLayerOut[] gate vectors must be the same'')
      else
        let b = \<lparr>numPorts = outPorts, addressTableSize = (if tableSize \<ge> 0 then tableSize else 0),
                 agingTime = (if aging > 0 then aging else 10), addresstable = [], seqNum = 0\<rparr>
        in case file of None \<Rightarrow> Inr b | Some f \<Rightarrow> readAddressTable f b)"

section \<open>\<open>MACRelayUnitNP\<close>\<close>

text \<open>
  \<open>endProcEvents\<close> has for each processor the frame it works on, with the port the frame came
  from and the time it is finished; \<open>None\<close> for an idle processor. A PAUSE frame is sent on a
  port with its number of units.
\<close>

record RelayParams =
  processingTime :: simtime
  bufferSize :: int
  highWatermark :: int
  pauseUnits :: int




text \<open>The length of a frame in the buffer, in bytes.\<close>

definition frameBytes :: "'m EtherFrame \<Rightarrow> int" where
  "frameBytes frame = fr_length frame div 8"

definition sendPauses :: "RelayParams \<Rightarrow> RelayBase \<Rightarrow> 'm relay_out list \<times> RelayBase" where
  "sendPauses pr b =
     (map (\<lambda>i. SendPause i (pauseUnits pr)) [0..numPorts b - 1],
      b\<lparr>seqNum := seqNum b + max 0 (numPorts b)\<rparr>)"





section \<open>\<open>MACRelayUnitPP\<close>\<close>






section \<open>What the switch learns\<close>

text \<open>A table without duplicates, not larger than its bound, with no entry from the future.\<close>

definition no_future :: "simtime \<Rightarrow> (MACAddress, AddressEntry) std_map \<Rightarrow> bool" where
  "no_future now es \<longleftrightarrow> (\<forall>x \<in> set es. insertionTime (snd x) \<le> now)"

lemma no_future_put [simp]:
  "no_future now es \<Longrightarrow> no_future now (map_put k \<lparr>portno = p, insertionTime = now\<rparr> es)"
  using set_map_put by (fastforce simp: no_future_def)

lemma no_future_erase [simp]: "no_future now es \<Longrightarrow> no_future now (map_erase k es)"
  by (auto simp: no_future_def dest: map_erase_mem)

lemma no_future_filter [simp]: "no_future now es \<Longrightarrow> no_future now (filter P es)"
  by (simp add: no_future_def)


definition table_ok :: "simtime \<Rightarrow> RelayBase \<Rightarrow> bool" where
  "table_ok now b \<longleftrightarrow> map_ok (addresstable b) \<and> addressTableSize b \<ge> 0 \<and> agingTime b > 0 \<and>
     (addressTableSize b \<noteq> 0 \<longrightarrow> int (length (addresstable b)) \<le> addressTableSize b) \<and>
     no_future now (addresstable b)"


lemma findOldest_None: "findOldest oldest t es = None \<Longrightarrow> oldest = None \<and> (\<forall>(k, e) \<in> set es. t \<le> insertionTime e)"
  by (induction oldest t es rule: findOldest.induct) (auto split: if_splits)

lemma findOldest_Some: "findOldest oldest t es = Some k \<Longrightarrow> oldest = Some k \<or> k \<in> fst ` set es"
  by (induction oldest t es rule: findOldest.induct) (auto split: if_splits)

lemma table_ok_filter:
  assumes "table_ok now b"
  shows "table_ok now (removeAgedEntriesFromTable now b)"
proof -
  have "length (filter P (addresstable b)) \<le> length (addresstable b)" for P by simp
  then have "int (length (filter P (addresstable b))) \<le> int (length (addresstable b))" for P by simp
  then have "int (length (addresstable b)) \<le> n \<Longrightarrow> int (length (filter P (addresstable b))) \<le> n" for P n
    by (rule order_trans)
  then show ?thesis using assms by (simp add: table_ok_def removeAgedEntriesFromTable_def)
qed

lemma removeOldest_room:
  assumes "table_ok now b" and "tableFull b" and "addressTableSize b \<noteq> 0"
  shows "table_ok now (removeOldestTableEntry now b) \<and> \<not> tableFull (removeOldestTableEntry now b)"
proof (cases "findOldest None (now + 1) (addresstable b)")
  case None
  have "addresstable b \<noteq> []" using assms by (auto simp: tableFull_def)
  then obtain k e where "(k, e) \<in> set (addresstable b)" by (cases "addresstable b") auto
  then have "insertionTime e \<le> now \<and> now + 1 \<le> insertionTime e"
    using findOldest_None[OF None] assms(1) by (fastforce simp: table_ok_def no_future_def)
  then have False by linarith
  then show ?thesis ..
next
  case (Some k)
  then have "map_of (addresstable b) k \<noteq> None" using findOldest_Some[OF Some] by (auto simp: map_of_eq_None_iff)
  moreover have "addresstable b \<noteq> []" using assms by (auto simp: tableFull_def)
  ultimately have "length (map_erase k (addresstable b)) < length (addresstable b)"
    by (auto simp: length_map_erase)
  then show ?thesis using Some assms
    by (auto simp: removeOldestTableEntry_def table_ok_def tableFull_def)
qed

lemma update_fields [simp]:
  "numPorts (updateTableWithAddress now a p b) = numPorts b"
  "addressTableSize (updateTableWithAddress now a p b) = addressTableSize b"
  "agingTime (updateTableWithAddress now a p b) = agingTime b"
  by (auto simp: updateTableWithAddress_def removeAgedEntriesFromTable_def removeOldestTableEntry_def Let_def
      split: option.splits)

lemma put_ok:
  assumes "table_ok now b"
    and "addressTableSize b = 0 \<or> \<not> tableFull b \<or> map_of (addresstable b) a \<noteq> None"
  shows "table_ok now (b\<lparr>addresstable := map_put a \<lparr>portno = p, insertionTime = now\<rparr> (addresstable b)\<rparr>)"
  using assms by (auto simp: table_ok_def tableFull_def length_map_put)

lemma update_ok:
  assumes "table_ok now b"
  shows "table_ok now (updateTableWithAddress now a p b)"
proof -
  let ?c = "removeAgedEntriesFromTable now b"
  have size: "addressTableSize ?c = addressTableSize b" by (simp add: removeAgedEntriesFromTable_def)
  note c = table_ok_filter[OF assms]
  show ?thesis
    using put_ok[OF assms, of a p] put_ok[OF c, of a p] removeOldest_room[OF c] put_ok[of now "removeOldestTableEntry now ?c" a p] size
    by (simp add: updateTableWithAddress_def Let_def)
qed

text \<open>After a frame its source is in the table.\<close>

lemma update_lookup:
  "map_of (addresstable (updateTableWithAddress now a p b)) a = Some \<lparr>portno = p, insertionTime = now\<rparr>"
  by (simp add: updateTableWithAddress_def Let_def)

lemma update_lookup_other:
  assumes "a' \<noteq> a" and "addressTableSize b = 0 \<or> \<not> tableFull b \<or> map_of (addresstable b) a \<noteq> None"
  shows "map_of (addresstable (updateTableWithAddress now a p b)) a' = map_of (addresstable b) a'"
  using assms by (auto simp: updateTableWithAddress_def Let_def)

lemma getPort_ok:
  assumes "getPortForAddress now a b = (p, b')" and "table_ok now b"
  shows "table_ok now b' \<and> numPorts b' = numPorts b \<and> addressTableSize b' = addressTableSize b \<and> agingTime b' = agingTime b"
proof -
  have "length (map_erase a (addresstable b)) \<le> length (addresstable b)" by (simp add: length_map_erase)
  then show ?thesis using assms
    by (auto simp: getPortForAddress_def table_ok_def split: option.splits if_splits)
qed

lemma dispatch_ok:
  assumes "handleAndDispatchFrame now f p b = (out, b')" and "table_ok now b"
  shows "table_ok now b' \<and> numPorts b' = numPorts b \<and> addressTableSize b' = addressTableSize b \<and> agingTime b' = agingTime b"
  using assms(1) update_ok[OF assms(2), of "fr_src f" p]
  by (auto simp: handleAndDispatchFrame_def Let_def dest!: getPort_ok split: if_splits prod.splits)

text \<open>A frame leaves on other ports than its own, and as it came.\<close>

lemma dispatch_out:
  assumes "handleAndDispatchFrame now f p b = (out, b')"
  shows "\<forall>x \<in> set out. \<exists>i. x = SendFrame i f \<and> i \<noteq> p"
  using assms by (auto simp: handleAndDispatchFrame_def broadcastFrame_def Let_def split: if_splits prod.splits)

lemma getPort_keeps:
  assumes "getPortForAddress now d b = (p, b')" and "map_of (addresstable b) a = Some e"
    and "now < insertionTime e + agingTime b" and "map_ok (addresstable b)"
  shows "map_of (addresstable b') a = Some e"
  using assms by (auto simp: getPortForAddress_def split: option.splits if_splits)

lemma dispatch_learns:
  assumes "handleAndDispatchFrame now f p b = (out, b')" and "table_ok now b"
  shows "map_of (addresstable b') (fr_src f) = Some \<lparr>portno = p, insertionTime = now\<rparr>"
proof -
  let ?c = "updateTableWithAddress now (fr_src f) p b"
  have c: "map_ok (addresstable ?c)" "agingTime ?c > 0" using update_ok[OF assms(2)] by (auto simp: table_ok_def)
  show ?thesis
  proof (cases "isBroadcast (fr_dest f)")
    case True
    then show ?thesis using assms(1) update_lookup by (auto simp: handleAndDispatchFrame_def Let_def)
  next
    case False
    obtain q d where d: "getPortForAddress now (fr_dest f) ?c = (q, d)" by fastforce
    then have "b' = d" using assms(1) False by (auto simp: handleAndDispatchFrame_def Let_def split: if_splits)
    then show ?thesis using getPort_keeps[OF d update_lookup _ c(1)] c(2) by simp
  qed
qed

text \<open>
  The switch learns. A frame never leaves on the port it came from, and leaves unchanged. A
  frame for an address from which the switch got a frame less than the ageing time ago goes to
  the port of that frame and to no other, or nowhere when it came from that port; it is enough
  that the table has room for its sender. A frame whose destination is not in the table goes to
  all other ports.
\<close>

theorem switch_learns_addresses:
  assumes "table_ok t b" and "handleAndDispatchFrame t f p b = (out, b1)"
    and "handleAndDispatchFrame t' g q b1 = (out', b2)"
    and "fr_dest g = fr_src f" and "fr_src g \<noteq> fr_src f" and "\<not> isBroadcast (fr_src f)" and "0 \<le> p"
    and "t \<le> t'" and "t' < t + agingTime b"
    and "addressTableSize b = 0 \<or> \<not> tableFull b1 \<or> map_of (addresstable b1) (fr_src g) \<noteq> None"
    and "map_of (addresstable b) (fr_dest f) = None" and "fr_dest f \<noteq> fr_src f"
  shows "out' = (if p = q then [] else [SendFrame p g]) \<and>
    (\<forall>x \<in> set out. \<exists>i. x = SendFrame i f \<and> i \<noteq> p) \<and>
    (addressTableSize b = 0 \<or> \<not> tableFull b \<longrightarrow>
       out = map (\<lambda>i. SendFrame i f) (filter (\<lambda>i. i \<noteq> p) [0..numPorts b - 1]))"
proof -
  have b1: "agingTime b1 = agingTime b" "addressTableSize b1 = addressTableSize b"
    using dispatch_ok[OF assms(2,1)] by auto
  let ?c = "updateTableWithAddress t' (fr_src g) q b1"
  have look: "map_of (addresstable ?c) (fr_dest g) = Some \<lparr>portno = p, insertionTime = t\<rparr>"
    using update_lookup_other[of "fr_src f" "fr_src g" b1 t' q] assms(4,5,10) b1 dispatch_learns[OF assms(2,1)] by simp
  then have "getPortForAddress t' (fr_dest g) ?c = (p, ?c)"
    using assms(9) b1 by (simp add: getPortForAddress_def)
  then have "out' = (if p = q then [] else [SendFrame p g])"
    using assms(3,4,6,7) by (auto simp: handleAndDispatchFrame_def Let_def split: if_splits)
  moreover have "out = map (\<lambda>i. SendFrame i f) (filter (\<lambda>i. i \<noteq> p) [0..numPorts b - 1])"
    if "addressTableSize b = 0 \<or> \<not> tableFull b"
  proof -
    have "map_of (addresstable (updateTableWithAddress t (fr_src f) p b)) (fr_dest f) = None"
      using update_lookup_other[OF assms(12), of b t p] assms(11) that by auto
    then show ?thesis using assms(2,7)
      by (auto simp: handleAndDispatchFrame_def broadcastFrame_def getPortForAddress_def Let_def split: if_splits)
  qed
  ultimately show ?thesis using dispatch_out[OF assms(2)] by blast
qed

lemma switch_learns_addresses_witness:
  "\<exists>b2. handleAndDispatchFrame 5
     \<lparr>fr_src = MACAddress 0 0 0 0 0 2, fr_dest = MACAddress 0 0 0 0 0 1, fr_length = 512, fr_data = ()\<rparr> 2
     (snd (handleAndDispatchFrame 1
       \<lparr>fr_src = MACAddress 0 0 0 0 0 1, fr_dest = MACAddress 0 0 0 0 0 2, fr_length = 512, fr_data = ()\<rparr> 0
       \<lparr>numPorts = 3, addressTableSize = 0, agingTime = 120, addresstable = [], seqNum = 0\<rparr>)) =
     ([SendFrame 0 \<lparr>fr_src = MACAddress 0 0 0 0 0 2, fr_dest = MACAddress 0 0 0 0 0 1, fr_length = 512, fr_data = ()\<rparr>], b2)"
  (is "\<exists>b2. handleAndDispatchFrame 5 ?g 2 (snd (handleAndDispatchFrame 1 ?f 0 ?b)) = (_, b2)")
proof -
  obtain out b1 where f: "handleAndDispatchFrame 1 ?f 0 ?b = (out, b1)" by fastforce
  obtain out' b2 where g: "handleAndDispatchFrame 5 ?g 2 b1 = (out', b2)" by fastforce
  have "table_ok 1 ?b" by (simp add: table_ok_def no_future_def)
  from switch_learns_addresses[OF this f g] have "out' = [SendFrame 0 ?g]"
    by (simp add: isBroadcast_def)
  then show ?thesis using f g by simp
qed

section \<open>Buffers\<close>






definition bytesOf :: "'m EtherFrame list \<Rightarrow> int" where
  "bytesOf fs = sum_list (map frameBytes fs)"

lemma bytesOf_simps [simp]:
  "bytesOf [] = 0" "bytesOf (f # fs) = frameBytes f + bytesOf fs" "bytesOf (fs @ gs) = bytesOf fs + bytesOf gs"
  by (simp_all add: bytesOf_def)













lemma sendPauses_ok: "table_ok now b \<Longrightarrow> table_ok now (snd (sendPauses pr b))"
  by (simp add: sendPauses_def table_ok_def)
















end
