(* ===== verification/Ether_MAC.thy ===== *)
theory Ether_MAC
  imports MAC_Address
begin

text \<open>
  The CSMA/CD MAC, \<open>src/NetworkInterfaces/Ethernet/EtherMAC.cc\<close>. The handlers work on the state of
  the module; what the module sends, on the network or to the upper layer, and its requests to
  the queue module are appended to \<open>maclog\<close>. The six timers of the module are a map from their
  kind to the time they are due; to schedule one that is scheduled already is an error of the
  simulation kernel. \<open>txQueue\<close> lists the frames in the order they will be transmitted.
\<close>

section \<open>Messages and state\<close>

datatype MacMsgKind = ETH_FRAME | ETH_PAUSE (pauseTime: int) | JAM_SIGNAL

record 'm MacMsg =
  mm_kind :: MacMsgKind
  mm_src :: MACAddress
  mm_dest :: MACAddress
  mm_length :: int
  mm_bitError :: bool
  mm_sendingTime :: simtime
  mm_data :: "'m option"

datatype 'm mac_out = PhysOut "'m MacMsg" | UpperOut "'m MacMsg" | AutoconfOut bool real | RequestPacket

datatype MacTimer = ENDIFG | ENDRECEPTION | ENDBACKOFF | ENDTRANSMISSION | ENDJAMMING | ENDPAUSE

datatype MacTxState =
    TX_IDLE_STATE | WAIT_IFG_STATE | TRANSMITTING_STATE | JAMMING_STATE | BACKOFF_STATE | PAUSE_STATE

datatype MacRxState = RX_IDLE_STATE | RECEIVING_STATE | RX_COLLISION_STATE

record MacStats =
  totalCollisionTime :: simtime
  totalSuccessfulRxTxTime :: simtime
  channelBusySince :: simtime
  numFramesSent :: int
  numFramesReceivedOK :: int
  numBytesSent :: int
  numBytesReceivedOK :: int
  numFramesFromHL :: int
  numDroppedBitError :: int
  numDroppedNotForUs :: int
  numFramesPassedToHL :: int
  numPauseFramesRcvd :: int
  numPauseFramesSent :: int
  numCollisions :: int
  numBackoffs :: int

record 'm EtherMAC =
  mac_disabled :: bool
  myaddress :: MACAddress
  promiscuous :: bool
  duplexMode :: bool
  carrierExtension :: bool
  frameBursting :: bool
  txQueueLimit :: int
  txrate :: real
  bitTime :: real
  slotTime :: real
  interFrameGap :: real
  jamDuration :: real
  shortestFrameDuration :: real
  autoconfigInProgress :: bool
  lowestTxrateSuggested :: real
  duplexVetoed :: bool
  transmitState :: MacTxState
  receiveState :: MacRxState
  framesSentInBurst :: int
  bytesSentInBurst :: int
  backoffs :: int
  numConcurrentTransmissions :: int
  pauseUnitsRequested :: int
  txQueue :: "'m MacMsg list"
  queueModule :: bool
  frameBeingReceived :: "'m MacMsg option"
  mac_timers :: "MacTimer \<Rightarrow> simtime option"
  mac_stats :: MacStats
  maclog :: "'m mac_out list"

definition GIGABIT_MAX_BURST_BYTES :: int where "GIGABIT_MAX_BURST_BYTES = 8192"
definition MAX_ETHERNET_FRAME :: int where "MAX_ETHERNET_FRAME = 1518"
definition MIN_ETHERNET_FRAME :: int where "MIN_ETHERNET_FRAME = 64"
definition GIGABIT_MIN_FRAME_WITH_EXT :: int where "GIGABIT_MIN_FRAME_WITH_EXT = 512"
definition INTERFRAME_GAP_BITS :: real where "INTERFRAME_GAP_BITS = 96"
definition ETHERNET_TXRATE :: real where "ETHERNET_TXRATE = 10000000"
definition FAST_ETHERNET_TXRATE :: real where "FAST_ETHERNET_TXRATE = 100000000"
definition GIGABIT_ETHERNET_TXRATE :: real where "GIGABIT_ETHERNET_TXRATE = 1000000000"
definition MAX_ATTEMPTS :: int where "MAX_ATTEMPTS = 16"
definition BACKOFF_RANGE_LIMIT :: int where "BACKOFF_RANGE_LIMIT = 10"
definition JAM_SIGNAL_BYTES :: int where "JAM_SIGNAL_BYTES = 4"
definition PREAMBLE_BYTES :: int where "PREAMBLE_BYTES = 7"
definition SFD_BYTES :: int where "SFD_BYTES = 1"
definition PAUSE_BITTIME :: real where "PAUSE_BITTIME = 512"

section \<open>Primitives\<close>

definition mac_scheduleAt :: "MacTimer \<Rightarrow> simtime \<Rightarrow> 'm EtherMAC \<Rightarrow> 'm EtherMAC result" where
  "mac_scheduleAt tm due m =
     (if mac_timers m tm \<noteq> None then Inl (TimerMisuse ''scheduleAt(): message already scheduled'')
      else Inr (m\<lparr>mac_timers := (mac_timers m)(tm := Some due)\<rparr>))"

definition mac_cancelEvent :: "MacTimer \<Rightarrow> 'm EtherMAC \<Rightarrow> 'm EtherMAC" where
  "mac_cancelEvent tm m = m\<lparr>mac_timers := (mac_timers m)(tm := None)\<rparr>"

definition mac_send :: "'m mac_out \<Rightarrow> 'm EtherMAC \<Rightarrow> 'm EtherMAC" where
  "mac_send out m = m\<lparr>maclog := maclog m @ [out]\<rparr>"

definition upd_stats :: "(MacStats \<Rightarrow> MacStats) \<Rightarrow> 'm EtherMAC \<Rightarrow> 'm EtherMAC" where
  "upd_stats f m = m\<lparr>mac_stats := f (mac_stats m)\<rparr>"

definition countCollision :: "'m EtherMAC \<Rightarrow> 'm EtherMAC" where
  "countCollision = upd_stats (\<lambda>s. s\<lparr>numCollisions := numCollisions s + 1\<rparr>)"

definition scheduleEndIFGPeriod :: "simtime \<Rightarrow> 'm EtherMAC \<Rightarrow> 'm EtherMAC result" where
  "scheduleEndIFGPeriod now m =
     emap (\<lambda>m. m\<lparr>transmitState := WAIT_IFG_STATE\<rparr>) (mac_scheduleAt ENDIFG (now + interFrameGap m) m)"

definition scheduleEndTxPeriod :: "simtime \<Rightarrow> 'm MacMsg \<Rightarrow> 'm EtherMAC \<Rightarrow> 'm EtherMAC result" where
  "scheduleEndTxPeriod now frame m =
     emap (\<lambda>m. m\<lparr>transmitState := TRANSMITTING_STATE\<rparr>)
       (mac_scheduleAt ENDTRANSMISSION (now + of_int (mm_length frame) * bitTime m) m)"

definition scheduleEndRxPeriod :: "simtime \<Rightarrow> 'm MacMsg \<Rightarrow> 'm EtherMAC \<Rightarrow> 'm EtherMAC result" where
  "scheduleEndRxPeriod now frame m =
     emap (\<lambda>m. m\<lparr>receiveState := RECEIVING_STATE\<rparr>)
       (mac_scheduleAt ENDRECEPTION (now + of_int (mm_length frame) * bitTime m) m)"

definition scheduleEndPausePeriod :: "simtime \<Rightarrow> int \<Rightarrow> 'm EtherMAC \<Rightarrow> 'm EtherMAC result" where
  "scheduleEndPausePeriod now units m =
     emap (\<lambda>m. m\<lparr>transmitState := PAUSE_STATE\<rparr>)
       (mac_scheduleAt ENDPAUSE (now + of_int units * PAUSE_BITTIME * bitTime m) m)"

definition jamSignal :: "simtime \<Rightarrow> 'm MacMsg" where
  "jamSignal now =
     \<lparr>mm_kind = JAM_SIGNAL, mm_src = new_MACAddress, mm_dest = new_MACAddress,
      mm_length = 8 * JAM_SIGNAL_BYTES, mm_bitError = False, mm_sendingTime = now, mm_data = None\<rparr>"

definition sendJamSignal :: "simtime \<Rightarrow> 'm EtherMAC \<Rightarrow> 'm EtherMAC result" where
  "sendJamSignal now m =
     emap (\<lambda>m. m\<lparr>transmitState := JAMMING_STATE\<rparr>)
       (mac_scheduleAt ENDJAMMING (now + jamDuration m) (mac_send (PhysOut (jamSignal now)) m))"

definition beginSendFrames :: "simtime \<Rightarrow> 'm EtherMAC \<Rightarrow> 'm EtherMAC result" where
  "beginSendFrames now m =
     (if txQueue m \<noteq> [] then scheduleEndIFGPeriod now m
      else
        let m = m\<lparr>transmitState := TX_IDLE_STATE\<rparr>
        in Inr (if queueModule m then mac_send RequestPacket m else m))"

section \<open>Reception\<close>

definition processReceivedDataFrame :: "'m MacMsg \<Rightarrow> 'm EtherMAC \<Rightarrow> 'm EtherMAC" where
  "processReceivedDataFrame frame m =
     (if mm_bitError frame then upd_stats (\<lambda>s. s\<lparr>numDroppedBitError := numDroppedBitError s + 1\<rparr>) m
      else
        let frame = frame\<lparr>mm_length := mm_length frame - 8 * PREAMBLE_BYTES - 8 * SFD_BYTES\<rparr>;
            m = upd_stats (\<lambda>s. s\<lparr>numFramesReceivedOK := numFramesReceivedOK s + 1,
                  numBytesReceivedOK := numBytesReceivedOK s + mm_length frame div 8\<rparr>) m
        in if \<not> promiscuous m \<and> \<not> isBroadcast (mm_dest frame) \<and> \<not> mac_equals (mm_dest frame) (myaddress m)
           then upd_stats (\<lambda>s. s\<lparr>numDroppedNotForUs := numDroppedNotForUs s + 1\<rparr>) m
           else mac_send (UpperOut frame)
                  (upd_stats (\<lambda>s. s\<lparr>numFramesPassedToHL := numFramesPassedToHL s + 1\<rparr>) m))"

definition processPauseCommand :: "simtime \<Rightarrow> int \<Rightarrow> 'm EtherMAC \<Rightarrow> 'm EtherMAC result" where
  "processPauseCommand now units m =
     (if transmitState m = TX_IDLE_STATE then
        if units > 0 then scheduleEndPausePeriod now units m else Inr m
      else if transmitState m = PAUSE_STATE then
        let m = mac_cancelEvent ENDPAUSE m in
        if units > 0 then scheduleEndPausePeriod now units m else Inr m
      else Inr (m\<lparr>pauseUnitsRequested := units\<rparr>))"

definition frameReceptionComplete :: "simtime \<Rightarrow> 'm MacMsg option \<Rightarrow> 'm EtherMAC \<Rightarrow> 'm EtherMAC result" where
  "frameReceptionComplete now frame m =
     (case frame of
        None \<Rightarrow> Inl (NullPointer ''frame'')
      | Some f \<Rightarrow>
          (case mm_kind f of
             ETH_FRAME \<Rightarrow> Inr (processReceivedDataFrame f m)
           | ETH_PAUSE units \<Rightarrow>
               processPauseCommand now units
                 (upd_stats (\<lambda>s. s\<lparr>numPauseFramesRcvd := numPauseFramesRcvd s + 1\<rparr>) m)
           | JAM_SIGNAL \<Rightarrow> Inl (OppError ''Invalid message kind'')))"

text \<open>The end of a reception that collided with another one.\<close>

definition abortReception :: "'m EtherMAC \<Rightarrow> 'm EtherMAC" where
  "abortReception m =
     (let m = (if receiveState m = RECEIVING_STATE
               then countCollision (m\<lparr>frameBeingReceived := None\<rparr>) else m)
      in m\<lparr>receiveState := RX_COLLISION_STATE\<rparr>)"

definition overlappingReceptions :: "simtime \<Rightarrow> 'm MacMsg \<Rightarrow> 'm EtherMAC \<Rightarrow> 'm EtherMAC result" where
  "overlappingReceptions endRxTime msg m =
     emap abortReception
       (if mm_kind msg = JAM_SIGNAL then
          if numConcurrentTransmissions m \<le> 0
          then Inl (OppError ''numConcurrentTransmissions on jam arrival (stray jam?)'')
          else
            let m = m\<lparr>numConcurrentTransmissions := numConcurrentTransmissions m - 1\<rparr> in
            if numConcurrentTransmissions m = 0
            then mac_scheduleAt ENDRECEPTION endRxTime (mac_cancelEvent ENDRECEPTION m)
            else Inr m
        else
          let m = m\<lparr>numConcurrentTransmissions := numConcurrentTransmissions m + 1\<rparr> in
          (case mac_timers m ENDRECEPTION of
             None \<Rightarrow> Inl (TimerMisuse ''arrivalTime of endRxMsg'')
           | Some t \<Rightarrow>
               if t < endRxTime
               then mac_scheduleAt ENDRECEPTION endRxTime (mac_cancelEvent ENDRECEPTION m)
               else Inr m))"

definition processMsgFromNetwork :: "simtime \<Rightarrow> 'm MacMsg \<Rightarrow> 'm EtherMAC \<Rightarrow> 'm EtherMAC result" where
  "processMsgFromNetwork now msg m =
     (if \<not> duplexMode m \<and> now - mm_sendingTime msg \<ge> shortestFrameDuration m
      then Inl (OppError ''very long frame propagation time detected'')
      else
        let endRxTime = now + of_int (mm_length msg) * bitTime m in
        if \<not> duplexMode m \<and> transmitState m = TRANSMITTING_STATE then
          if mm_kind msg = JAM_SIGNAL then Inl (OppError ''Stray jam signal arrived while transmitting'')
          else
            ebind (sendJamSignal now (mac_cancelEvent ENDTRANSMISSION m)) (\<lambda>m.
              let m = m\<lparr>receiveState := RX_COLLISION_STATE,
                        numConcurrentTransmissions := numConcurrentTransmissions m + 1\<rparr>;
                  endJamTime = now + jamDuration m
              in emap countCollision
                   (mac_scheduleAt ENDRECEPTION (if endRxTime < endJamTime then endJamTime else endRxTime) m))
        else if receiveState m = RX_IDLE_STATE then
          if mm_kind msg = JAM_SIGNAL then Inl (OppError ''Stray jam signal arrived'')
          else
            let m = m\<lparr>numConcurrentTransmissions := numConcurrentTransmissions m + 1\<rparr> in
            if frameBeingReceived m \<noteq> None then Inl (OppError ''frameBeingReceived!=0 in RX_IDLE_STATE'')
            else
              emap (upd_stats (\<lambda>s. s\<lparr>channelBusySince := now\<rparr>))
                (scheduleEndRxPeriod now msg (m\<lparr>frameBeingReceived := Some msg\<rparr>))
        else if receiveState m = RECEIVING_STATE \<and> mm_kind msg \<noteq> JAM_SIGNAL \<and>
            (case mac_timers m ENDRECEPTION of None \<Rightarrow> False | Some t \<Rightarrow> t - now < bitTime m) then
          ebind (frameReceptionComplete now (frameBeingReceived m)
                   ((mac_cancelEvent ENDRECEPTION m)\<lparr>frameBeingReceived := None\<rparr>)) (\<lambda>m.
            scheduleEndRxPeriod now msg (m\<lparr>frameBeingReceived := Some msg\<rparr>))
        else overlappingReceptions endRxTime msg m)"

definition handleEndRxPeriod :: "simtime \<Rightarrow> 'm EtherMAC \<Rightarrow> 'm EtherMAC result" where
  "handleEndRxPeriod now m =
     (let dt = now - channelBusySince (mac_stats m) in
      ebind (if receiveState m = RECEIVING_STATE then
               emap (upd_stats (\<lambda>s. s\<lparr>totalSuccessfulRxTxTime := totalSuccessfulRxTxTime s + dt\<rparr>))
                 (frameReceptionComplete now (frameBeingReceived m) (m\<lparr>frameBeingReceived := None\<rparr>))
             else Inr (upd_stats (\<lambda>s. s\<lparr>totalCollisionTime := totalCollisionTime s + dt\<rparr>) m))
        (\<lambda>m. let m = m\<lparr>receiveState := RX_IDLE_STATE, numConcurrentTransmissions := 0\<rparr> in
             if transmitState m = TX_IDLE_STATE \<and> txQueue m \<noteq> [] then scheduleEndIFGPeriod now m
             else Inr m))"

section \<open>Transmission\<close>

definition startFrameTransmission :: "simtime \<Rightarrow> 'm EtherMAC \<Rightarrow> 'm EtherMAC result" where
  "startFrameTransmission now m =
     (case txQueue m of
        [] \<Rightarrow> Inl (NullPointer ''origFrame'')
      | origFrame # _ \<Rightarrow>
          let frame = origFrame\<lparr>mm_length := mm_length origFrame + 8 * PREAMBLE_BYTES + 8 * SFD_BYTES,
                                mm_sendingTime := now\<rparr>;
              m = mac_send (PhysOut frame) m;
              m = (if frameBursting m
                   then m\<lparr>bytesSentInBurst := mm_length frame div 8, framesSentInBurst := framesSentInBurst m + 1\<rparr>
                   else m)
          in if \<not> duplexMode m \<and> receiveState m \<noteq> RX_IDLE_STATE then
               emap abortReception (sendJamSignal now m)
             else
               emap (\<lambda>m. if \<not> duplexMode m then upd_stats (\<lambda>s. s\<lparr>channelBusySince := now\<rparr>) m else m)
                 (scheduleEndTxPeriod now frame m))"

definition handleEndIFGPeriod :: "simtime \<Rightarrow> 'm EtherMAC \<Rightarrow> 'm EtherMAC result" where
  "handleEndIFGPeriod now m =
     (if transmitState m \<noteq> WAIT_IFG_STATE then Inl (OppError ''Not in WAIT_IFG_STATE at the end of IFG period'')
      else case txQueue m of
        [] \<Rightarrow> Inl (OppError ''End of IFG and no frame to transmit'')
      | frame # q \<Rightarrow>
          let m = (if carrierExtension m \<and> mm_length frame < 8 * GIGABIT_MIN_FRAME_WITH_EXT
                   then m\<lparr>txQueue := frame\<lparr>mm_length := 8 * GIGABIT_MIN_FRAME_WITH_EXT\<rparr> # q\<rparr> else m);
              m = (if frameBursting m then m\<lparr>framesSentInBurst := 0, bytesSentInBurst := 0\<rparr> else m)
          in startFrameTransmission now m)"

definition handleEndTxPeriod :: "simtime \<Rightarrow> 'm EtherMAC \<Rightarrow> 'm EtherMAC result" where
  "handleEndTxPeriod now m =
     (if transmitState m \<noteq> TRANSMITTING_STATE \<or> (\<not> duplexMode m \<and> receiveState m \<noteq> RX_IDLE_STATE)
      then Inl (OppError ''End of transmission, and incorrect state detected'')
      else case txQueue m of
        [] \<Rightarrow> Inl (OppError ''Frame under transmission cannot be found'')
      | frame # q \<Rightarrow>
          let m = upd_stats (\<lambda>s. s\<lparr>numFramesSent := numFramesSent s + 1,
                    numBytesSent := numBytesSent s + mm_length frame div 8,
                    numPauseFramesSent := numPauseFramesSent s +
                      (case mm_kind frame of ETH_PAUSE _ \<Rightarrow> 1 | _ \<Rightarrow> 0),
                    totalSuccessfulRxTxTime := totalSuccessfulRxTxTime s +
                      (if duplexMode m then 0 else now - channelBusySince s)\<rparr>)
                  (m\<lparr>txQueue := q, backoffs := 0\<rparr>)
          in if pauseUnitsRequested m > 0 then
               emap (\<lambda>m. m\<lparr>pauseUnitsRequested := 0\<rparr>) (scheduleEndPausePeriod now (pauseUnitsRequested m) m)
             else if frameBursting m \<and> txQueue m \<noteq> [] \<and> bytesSentInBurst m < GIGABIT_MAX_BURST_BYTES
             then startFrameTransmission now m
             else beginSendFrames now m)"

text \<open>\<open>intuniform\<close> is the random number generator of the kernel.\<close>

definition handleRetransmission :: "(int \<Rightarrow> int \<Rightarrow> int) \<Rightarrow> simtime \<Rightarrow> 'm EtherMAC \<Rightarrow> 'm EtherMAC result" where
  "handleRetransmission intuniform now m =
     (let m = m\<lparr>backoffs := backoffs m + 1\<rparr> in
      if backoffs m > MAX_ATTEMPTS then
        (case txQueue m of
           [] \<Rightarrow> Inl (OppError ''pop: queue empty'')
         | _ # q \<Rightarrow> Inr (m\<lparr>txQueue := q, transmitState := TX_IDLE_STATE, backoffs := 0\<rparr>))
      else
        let backoffrange = (if backoffs m \<ge> BACKOFF_RANGE_LIMIT then 1024 else 2 ^ nat (backoffs m));
            slotNumber = intuniform 0 (backoffrange - 1);
            backofftime = of_int slotNumber * slotTime m
        in emap (\<lambda>m. upd_stats (\<lambda>s. s\<lparr>numBackoffs := numBackoffs s + 1\<rparr>) (m\<lparr>transmitState := BACKOFF_STATE\<rparr>))
             (mac_scheduleAt ENDBACKOFF (now + backofftime) m))"

definition handleEndBackoffPeriod :: "simtime \<Rightarrow> 'm EtherMAC \<Rightarrow> 'm EtherMAC result" where
  "handleEndBackoffPeriod now m =
     (if transmitState m \<noteq> BACKOFF_STATE then Inl (OppError ''At end of BACKOFF not in BACKOFF_STATE!'')
      else if txQueue m = [] then Inl (OppError ''At end of BACKOFF and buffer empty!'')
      else if receiveState m = RX_IDLE_STATE then scheduleEndIFGPeriod now m
      else Inr (m\<lparr>transmitState := TX_IDLE_STATE\<rparr>))"

definition handleEndJammingPeriod :: "(int \<Rightarrow> int \<Rightarrow> int) \<Rightarrow> simtime \<Rightarrow> 'm EtherMAC \<Rightarrow> 'm EtherMAC result" where
  "handleEndJammingPeriod intuniform now m =
     (if transmitState m \<noteq> JAMMING_STATE then Inl (OppError ''At end of JAMMING not in JAMMING_STATE!'')
      else handleRetransmission intuniform now m)"

definition handleEndPausePeriod :: "simtime \<Rightarrow> 'm EtherMAC \<Rightarrow> 'm EtherMAC result" where
  "handleEndPausePeriod now m =
     (if transmitState m \<noteq> PAUSE_STATE then Inl (OppError ''At end of PAUSE not in PAUSE_STATE!'')
      else beginSendFrames now m)"

text \<open>The frame enters the queue: a PAUSE frame right behind the frame that may be on the wire.\<close>

definition enqueueFrame :: "'m MacMsg \<Rightarrow> 'm EtherMAC \<Rightarrow> 'm EtherMAC result" where
  "enqueueFrame frame m =
     (if mm_kind frame = ETH_FRAME then
        let m = upd_stats (\<lambda>s. s\<lparr>numFramesFromHL := numFramesFromHL s + 1\<rparr>) m in
        if txQueueLimit m \<noteq> 0 \<and> int (length (txQueue m)) > txQueueLimit m
        then Inl (OppError ''txQueue length exceeds limit'')
        else
          let frame = (if mac_isEmpty (mm_src frame) then frame\<lparr>mm_src := myaddress m\<rparr> else frame)
          in Inr (m\<lparr>txQueue := txQueue m @ [frame]\<rparr>)
      else
        Inr (case txQueue m of
               [] \<Rightarrow> m\<lparr>txQueue := [frame]\<rparr>
             | f # q \<Rightarrow> m\<lparr>txQueue := f # frame # q\<rparr>))"

definition processFrameFromUpperLayer :: "simtime \<Rightarrow> 'm MacMsg \<Rightarrow> 'm EtherMAC \<Rightarrow> 'm EtherMAC result" where
  "processFrameFromUpperLayer now frame m =
     (if mm_kind frame = JAM_SIGNAL then Inl (OppError ''message with unexpected message kind arrived from higher layer'')
      else if mac_equals (mm_dest frame) (myaddress m)
      then Inl (OppError ''logic error: frame from higher layer has local MAC address as dest'')
      else if mm_length frame > 8 * MAX_ETHERNET_FRAME
      then Inl (OppError ''packet from higher layer exceeds maximum Ethernet frame size'')
      else
        ebind (enqueueFrame frame m) (\<lambda>m.
          if \<not> autoconfigInProgress m \<and> (duplexMode m \<or> receiveState m = RX_IDLE_STATE) \<and>
             transmitState m = TX_IDLE_STATE
          then scheduleEndIFGPeriod now m else Inr m))"

section \<open>Configuration\<close>

definition calculateParameters :: "'m EtherMAC \<Rightarrow> 'm EtherMAC result" where
  "calculateParameters m =
     (if mac_disabled m then
        Inr (m\<lparr>bitTime := 0, slotTime := 0, interFrameGap := 0, jamDuration := 0, shortestFrameDuration := 0,
               carrierExtension := False, frameBursting := False\<rparr>)
      else if txrate m \<noteq> ETHERNET_TXRATE \<and> txrate m \<noteq> FAST_ETHERNET_TXRATE \<and> txrate m \<noteq> GIGABIT_ETHERNET_TXRATE
      then Inl (OppError ''nonstandard txrate'')
      else
        let ext = (txrate m = GIGABIT_ETHERNET_TXRATE \<and> \<not> duplexMode m) in
        Inr (m\<lparr>bitTime := 1 / txrate m, carrierExtension := ext,
               frameBursting := (txrate m = GIGABIT_ETHERNET_TXRATE),
               slotTime := (if txrate m = ETHERNET_TXRATE \<or> txrate m = FAST_ETHERNET_TXRATE
                            then 512 / ETHERNET_TXRATE else 4096 / GIGABIT_ETHERNET_TXRATE),
               interFrameGap := INTERFRAME_GAP_BITS / txrate m,
               jamDuration := 8 * of_int JAM_SIGNAL_BYTES * (1 / txrate m),
               shortestFrameDuration := of_int (if ext then GIGABIT_MIN_FRAME_WITH_EXT else MIN_ETHERNET_FRAME)\<rparr>))"

text \<open>The module parameters \<open>txrate\<close> and \<open>duplexEnabled\<close> are arguments.\<close>

definition startAutoconfig :: "real \<Rightarrow> bool \<Rightarrow> 'm EtherMAC \<Rightarrow> 'm EtherMAC" where
  "startAutoconfig initialTxrate duplexEnabled m =
     (let m = m\<lparr>autoconfigInProgress := True, lowestTxrateSuggested := 0, duplexVetoed := False,
                txrate := 0, duplexMode := duplexEnabled\<rparr>
      in if \<not> duplexEnabled \<or> initialTxrate > 0
         then mac_send (AutoconfOut (\<not> duplexEnabled) (if initialTxrate > 0 then initialTxrate else 0)) m
         else m)"

text \<open>What reaches the module during autoconfiguration and after it.\<close>

datatype 'm mac_event =
    FromUpper "'m MacMsg"
  | FromNetwork "'m MacMsg"
  | Autoconf bool real
  | EndAutoconfig
  | MacTimeout MacTimer

definition endAutoconfig :: "real \<Rightarrow> bool \<Rightarrow> simtime \<Rightarrow> 'm EtherMAC \<Rightarrow> 'm EtherMAC result" where
  "endAutoconfig initialTxrate duplexEnabled now m =
     (let lo = lowestTxrateSuggested m;
          rate = (if initialTxrate = 0 \<and> lo = 0 then 100000000
                  else if initialTxrate = 0 then lo
                  else if lo = 0 then initialTxrate
                  else if lo < initialTxrate then lo else initialTxrate)
      in ebind (calculateParameters (m\<lparr>autoconfigInProgress := False, txrate := rate,
                   duplexMode := (duplexEnabled \<and> \<not> duplexVetoed m)\<rparr>))
           (\<lambda>m. if txQueue m \<noteq> [] then scheduleEndIFGPeriod now m else Inr m))"

definition handleAutoconfigMessage ::
    "real \<Rightarrow> bool \<Rightarrow> simtime \<Rightarrow> 'm mac_event \<Rightarrow> 'm EtherMAC \<Rightarrow> 'm EtherMAC result" where
  "handleAutoconfigMessage initialTxrate duplexEnabled now msg m =
     (case msg of
        FromUpper frame \<Rightarrow> processFrameFromUpperLayer now frame m
      | FromNetwork _ \<Rightarrow> Inl (Exception ''check_and_cast: EtherAutoconfig'')
      | Autoconf halfDuplex acTxrate \<Rightarrow>
          Inr (m\<lparr>lowestTxrateSuggested :=
                   (if acTxrate > 0 \<and> (acTxrate < lowestTxrateSuggested m \<or> lowestTxrateSuggested m = 0)
                    then acTxrate else lowestTxrateSuggested m),
                 duplexVetoed := (duplexVetoed m \<or> halfDuplex)\<rparr>)
      | _ \<Rightarrow> endAutoconfig initialTxrate duplexEnabled now m)"

definition mac_handleMessage ::
    "(int \<Rightarrow> int \<Rightarrow> int) \<Rightarrow> real \<Rightarrow> bool \<Rightarrow> simtime \<Rightarrow> 'm mac_event \<Rightarrow> 'm EtherMAC \<Rightarrow> 'm EtherMAC result" where
  "mac_handleMessage intuniform initialTxrate duplexEnabled now msg m =
     (if mac_disabled m then Inr m
      else if autoconfigInProgress m then handleAutoconfigMessage initialTxrate duplexEnabled now msg m
      else if \<not> duplexMode m \<and> transmitState m = TRANSMITTING_STATE \<and> receiveState m \<noteq> RX_IDLE_STATE
      then Inl (OppError ''Inconsistent state -- transmitting and receiving at the same time'')
      else
        (case msg of
           FromUpper frame \<Rightarrow> processFrameFromUpperLayer now frame m
         | FromNetwork msg \<Rightarrow> processMsgFromNetwork now msg m
         | Autoconf _ _ \<Rightarrow> Inl (OppError ''message with unexpected message kind arrived from network'')
         | EndAutoconfig \<Rightarrow> Inl (OppError ''self-message with unexpected message kind'')
         | MacTimeout tm \<Rightarrow>
             let m = mac_cancelEvent tm m in
             (case tm of
                ENDIFG \<Rightarrow> handleEndIFGPeriod now m
              | ENDTRANSMISSION \<Rightarrow> handleEndTxPeriod now m
              | ENDRECEPTION \<Rightarrow> handleEndRxPeriod now m
              | ENDBACKOFF \<Rightarrow> handleEndBackoffPeriod now m
              | ENDJAMMING \<Rightarrow> handleEndJammingPeriod intuniform now m
              | ENDPAUSE \<Rightarrow> handleEndPausePeriod now m)))"

definition new_MacStats :: MacStats where
  "new_MacStats =
     \<lparr>totalCollisionTime = 0, totalSuccessfulRxTxTime = 0, channelBusySince = 0, numFramesSent = 0,
      numFramesReceivedOK = 0, numBytesSent = 0, numBytesReceivedOK = 0, numFramesFromHL = 0,
      numDroppedBitError = 0, numDroppedNotForUs = 0, numFramesPassedToHL = 0, numPauseFramesRcvd = 0,
      numPauseFramesSent = 0, numCollisions = 0, numBackoffs = 0\<rparr>"

text \<open>
  \<open>autoAddressCtr\<close> is the static counter of automatic addresses; \<open>isConnected\<close> says whether the
  gate \<open>physOut\<close> leads to a network. The check of the channels' data rates is left out.
\<close>

definition autoAddress :: "uint32 \<Rightarrow> MACAddress" where
  "autoAddress ctr = MACAddress 0x0A 0xAA (ucast (drop_bit 24 ctr AND 0xff)) (ucast (drop_bit 16 ctr AND 0xff))
     (ucast (drop_bit 8 ctr AND 0xff)) (ucast (ctr AND 0xff))"

definition mac_initialize ::
    "string \<Rightarrow> bool \<Rightarrow> int \<Rightarrow> bool \<Rightarrow> bool \<Rightarrow> real \<Rightarrow> bool \<Rightarrow> uint32 \<Rightarrow> ('m EtherMAC \<times> uint32) result" where
  "mac_initialize addrstr prom limit queue isConnected initialTxrate duplexEnabled autoAddressCtr =
     (let ctr = (if addrstr = ''auto'' then autoAddressCtr + 1 else autoAddressCtr) in
      ebind (if addrstr = ''auto'' then Inr (autoAddress ctr) else mac_setAddress (Some addrstr)) (\<lambda>a.
        let m = \<lparr>mac_disabled = \<not> isConnected, myaddress = a, promiscuous = prom, duplexMode = duplexEnabled,
              carrierExtension = False, frameBursting = False, txQueueLimit = limit, txrate = initialTxrate,
              bitTime = 0, slotTime = 0, interFrameGap = 0, jamDuration = 0, shortestFrameDuration = 0,
              autoconfigInProgress = False, lowestTxrateSuggested = 0, duplexVetoed = False,
              transmitState = TX_IDLE_STATE, receiveState = RX_IDLE_STATE, framesSentInBurst = 0,
              bytesSentInBurst = 0, backoffs = 0, numConcurrentTransmissions = 0, pauseUnitsRequested = 0,
              txQueue = [], queueModule = queue, frameBeingReceived = None, mac_timers = (\<lambda>_. None),
              mac_stats = new_MacStats, maclog = []\<rparr>
        in ebind (if isConnected then Inr (startAutoconfig initialTxrate duplexEnabled m) else calculateParameters m)
             (\<lambda>m. Inr (if queueModule m then mac_send RequestPacket m else m, ctr))))"


section \<open>The invariant of the module\<close>

text \<open>
  Each state of the transmitter and of the receiver has its own timer running, and no other.
  \<open>tx_quiet\<close>: the timers of the transmitter are stopped, as they are between two of its states.
\<close>

definition rx_ok :: "'m EtherMAC \<Rightarrow> bool" where
  "rx_ok m \<longleftrightarrow>
     (mac_timers m ENDRECEPTION \<noteq> None) = (receiveState m \<noteq> RX_IDLE_STATE) \<and>
     (frameBeingReceived m \<noteq> None) = (receiveState m = RECEIVING_STATE) \<and>
     (case frameBeingReceived m of None \<Rightarrow> True | Some f \<Rightarrow> mm_kind f \<noteq> JAM_SIGNAL)"

definition tx_quiet :: "'m EtherMAC \<Rightarrow> bool" where
  "tx_quiet m \<longleftrightarrow>
     mac_timers m ENDIFG = None \<and> mac_timers m ENDTRANSMISSION = None \<and> mac_timers m ENDJAMMING = None \<and>
     mac_timers m ENDBACKOFF = None \<and> mac_timers m ENDPAUSE = None"

definition tx_ok :: "'m EtherMAC \<Rightarrow> bool" where
  "tx_ok m \<longleftrightarrow>
     (mac_timers m ENDIFG \<noteq> None) = (transmitState m = WAIT_IFG_STATE) \<and>
     (mac_timers m ENDTRANSMISSION \<noteq> None) = (transmitState m = TRANSMITTING_STATE) \<and>
     (mac_timers m ENDJAMMING \<noteq> None) = (transmitState m = JAMMING_STATE) \<and>
     (mac_timers m ENDBACKOFF \<noteq> None) = (transmitState m = BACKOFF_STATE) \<and>
     (mac_timers m ENDPAUSE \<noteq> None \<longrightarrow> transmitState m = PAUSE_STATE) \<and>
     (transmitState m \<in> {WAIT_IFG_STATE, TRANSMITTING_STATE, JAMMING_STATE, BACKOFF_STATE} \<longrightarrow> txQueue m \<noteq> []) \<and>
     (\<not> duplexMode m \<and> transmitState m = TRANSMITTING_STATE \<longrightarrow> receiveState m = RX_IDLE_STATE)"

definition mac_inv :: "'m EtherMAC \<Rightarrow> bool" where
  "mac_inv m \<longleftrightarrow> rx_ok m \<and> tx_ok m \<and> 0 \<le> backoffs m \<and> backoffs m \<le> MAX_ATTEMPTS \<and>
     (autoconfigInProgress m \<or> mac_disabled m \<longrightarrow>
        transmitState m = TX_IDLE_STATE \<and> receiveState m = RX_IDLE_STATE)"

named_theorems mac_defs
declare mac_scheduleAt_def [mac_defs] mac_cancelEvent_def [mac_defs] mac_send_def [mac_defs]
  upd_stats_def [mac_defs] countCollision_def [mac_defs] scheduleEndIFGPeriod_def [mac_defs]
  scheduleEndTxPeriod_def [mac_defs] scheduleEndRxPeriod_def [mac_defs] scheduleEndPausePeriod_def [mac_defs]
  sendJamSignal_def [mac_defs] beginSendFrames_def [mac_defs] abortReception_def [mac_defs]

definition mac_running :: "'m EtherMAC \<Rightarrow> bool" where
  "mac_running m \<longleftrightarrow> \<not> autoconfigInProgress m \<and> \<not> mac_disabled m \<and> 0 \<le> backoffs m \<and> backoffs m \<le> MAX_ATTEMPTS"

definition inv_result :: "'m EtherMAC result \<Rightarrow> bool" where
  "inv_result r \<longleftrightarrow> (\<exists>m. r = Inr m \<and> mac_running m \<and> rx_ok m \<and> tx_ok m)"

lemma beginSendFrames_inv:
  assumes "rx_ok m" "tx_quiet m" "mac_running m"
  shows "inv_result (beginSendFrames now m)"
  using assms by (auto simp: mac_defs inv_result_def rx_ok_def tx_ok_def tx_quiet_def mac_running_def Let_def)

lemma startFrameTransmission_inv:
  assumes "rx_ok m" "tx_quiet m" "mac_running m" "txQueue m \<noteq> []"
  shows "inv_result (startFrameTransmission now m)"
  using assms
  by (cases "txQueue m")
     (auto simp: startFrameTransmission_def mac_defs inv_result_def rx_ok_def tx_ok_def tx_quiet_def mac_running_def Let_def)

lemma handleEndIFGPeriod_inv:
  assumes "rx_ok m" "tx_quiet m" "mac_running m" "txQueue m \<noteq> []" "transmitState m = WAIT_IFG_STATE"
  shows "inv_result (handleEndIFGPeriod now m)"
  using assms
  by (cases "txQueue m")
     (auto simp: handleEndIFGPeriod_def Let_def rx_ok_def tx_quiet_def mac_running_def
       intro!: startFrameTransmission_inv)

lemma handleEndTxPeriod_inv:
  assumes "rx_ok m" "tx_quiet m" "mac_running m" "txQueue m \<noteq> []" "transmitState m = TRANSMITTING_STATE"
    "duplexMode m \<or> receiveState m = RX_IDLE_STATE"
  shows "inv_result (handleEndTxPeriod now m)"
proof (cases "txQueue m")
  case Nil
  then show ?thesis using assms by simp
next
  case (Cons frame q)
  define m1 where "m1 = upd_stats (\<lambda>s. s\<lparr>numFramesSent := numFramesSent s + 1,
                    numBytesSent := numBytesSent s + mm_length frame div 8,
                    numPauseFramesSent := numPauseFramesSent s +
                      (case mm_kind frame of ETH_PAUSE _ \<Rightarrow> 1 | _ \<Rightarrow> 0),
                    totalSuccessfulRxTxTime := totalSuccessfulRxTxTime s +
                      (if duplexMode m then 0 else now - channelBusySince s)\<rparr>)
                  (m\<lparr>txQueue := q, backoffs := 0\<rparr>)"
  have ok: "rx_ok m1" "tx_quiet m1" "mac_running m1"
    using assms(1-3) by (auto simp: m1_def upd_stats_def rx_ok_def tx_quiet_def mac_running_def MAX_ATTEMPTS_def)
  have pause: "inv_result (emap (\<lambda>m. m\<lparr>pauseUnitsRequested := 0\<rparr>) (scheduleEndPausePeriod now u m1))" for u
    using ok by (auto simp: mac_defs inv_result_def rx_ok_def tx_ok_def tx_quiet_def mac_running_def)
  show ?thesis
    using assms(5,6) pause beginSendFrames_inv[OF ok] startFrameTransmission_inv[OF ok]
    by (auto simp: handleEndTxPeriod_def Cons Let_def m1_def[symmetric])
qed

lemma handleRetransmission_inv:
  assumes "rx_ok m" "tx_quiet m" "mac_running m" "txQueue m \<noteq> []"
  shows "inv_result (handleRetransmission rng now m)"
  using assms
  by (cases "txQueue m")
     (auto simp: handleRetransmission_def Let_def inv_result_def rx_ok_def tx_ok_def tx_quiet_def mac_running_def
        mac_defs MAX_ATTEMPTS_def)

lemma handleEndBackoffPeriod_inv:
  assumes "rx_ok m" "tx_quiet m" "mac_running m" "txQueue m \<noteq> []" "transmitState m = BACKOFF_STATE"
  shows "inv_result (handleEndBackoffPeriod now m)"
  using assms
  by (auto simp: handleEndBackoffPeriod_def inv_result_def rx_ok_def tx_ok_def tx_quiet_def mac_running_def mac_defs)

text \<open>A reception: the transmitter is in any of its states.\<close>

lemma processPauseCommand_inv:
  assumes "tx_ok m" "mac_running m"
  shows "\<exists>m'. processPauseCommand now units m = Inr m' \<and> tx_ok m' \<and> mac_running m' \<and>
     mac_timers m' ENDRECEPTION = mac_timers m ENDRECEPTION \<and> frameBeingReceived m' = frameBeingReceived m \<and>
     receiveState m' = receiveState m"
  using assms
  by (auto simp: processPauseCommand_def tx_ok_def mac_running_def mac_defs Let_def)

lemma frameReceptionComplete_inv:
  assumes "tx_ok m" "mac_running m" "mm_kind f \<noteq> JAM_SIGNAL"
  shows "\<exists>m'. frameReceptionComplete now (Some f) m = Inr m' \<and> tx_ok m' \<and> mac_running m' \<and>
     mac_timers m' ENDRECEPTION = mac_timers m ENDRECEPTION \<and> frameBeingReceived m' = frameBeingReceived m \<and>
     receiveState m' = receiveState m"
proof (cases "mm_kind f")
  case (ETH_PAUSE units)
  have "tx_ok (upd_stats g m)" "mac_running (upd_stats g m)" for g
    using assms(1,2) by (auto simp: upd_stats_def tx_ok_def mac_running_def)
  from processPauseCommand_inv[OF this] show ?thesis
    by (simp add: frameReceptionComplete_def ETH_PAUSE) (simp add: upd_stats_def)
next
  case ETH_FRAME
  then show ?thesis using assms(1,2)
    by (auto simp: frameReceptionComplete_def processReceivedDataFrame_def Let_def mac_defs tx_ok_def mac_running_def)
qed (use assms in simp)


text \<open>The four cases of a message from the network.\<close>

lemma abortReception_inv:
  assumes "mac_timers m ENDRECEPTION \<noteq> None" "tx_ok m" "mac_running m"
    "(frameBeingReceived m \<noteq> None) = (receiveState m = RECEIVING_STATE)" "duplexMode m \<or> transmitState m \<noteq> TRANSMITTING_STATE"
  shows "rx_ok (abortReception m) \<and> tx_ok (abortReception m) \<and> mac_running (abortReception m)"
  using assms
  by (cases "receiveState m = RECEIVING_STATE")
     (simp_all add: abortReception_def Let_def countCollision_def upd_stats_def rx_ok_def tx_ok_def mac_running_def)

lemma overlappingReceptions_inv:
  assumes "rx_ok m" "tx_ok m" "mac_running m" "receiveState m \<noteq> RX_IDLE_STATE"
    "duplexMode m \<or> transmitState m \<noteq> TRANSMITTING_STATE" "overlappingReceptions endRx msg m = Inr m'"
  shows "rx_ok m' \<and> tx_ok m' \<and> mac_running m'"
proof -
  obtain n t where "m' = abortReception (m\<lparr>numConcurrentTransmissions := n, mac_timers := (mac_timers m)(ENDRECEPTION := Some t)\<rparr>)
     \<or> m' = abortReception (m\<lparr>numConcurrentTransmissions := n\<rparr>)"
    using assms(6)
    by (auto simp: overlappingReceptions_def Let_def mac_scheduleAt_def mac_cancelEvent_def
        split: if_splits option.splits)
  then show ?thesis
    using assms(1-5) by (elim disjE; hypsubst) (intro abortReception_inv; auto simp: rx_ok_def tx_ok_def mac_running_def)+
qed

lemma network_collision_inv:
  assumes "rx_ok m" "tx_ok m" "mac_running m" "\<not> duplexMode m" "transmitState m = TRANSMITTING_STATE"
    "processMsgFromNetwork now msg m = Inr m'"
  shows "rx_ok m' \<and> tx_ok m' \<and> mac_running m'"
proof -
  obtain t s where "m' = m\<lparr>maclog := maclog m @ [PhysOut (jamSignal now)], transmitState := JAMMING_STATE,
      receiveState := RX_COLLISION_STATE, numConcurrentTransmissions := numConcurrentTransmissions m + 1,
      mac_timers := (mac_timers m)(ENDTRANSMISSION := None, ENDJAMMING := Some (now + jamDuration m),
        ENDRECEPTION := Some t), mac_stats := s\<rparr>"
    using assms(4-6)
    by (auto simp: processMsgFromNetwork_def Let_def mac_scheduleAt_def mac_cancelEvent_def sendJamSignal_def
       mac_send_def countCollision_def upd_stats_def split: if_splits)
  moreover have "receiveState m = RX_IDLE_STATE" "txQueue m \<noteq> []" using assms(2,4,5) by (auto simp: tx_ok_def)
  ultimately show ?thesis using assms(1-5) by (simp add: rx_ok_def tx_ok_def mac_running_def)
qed

lemma network_start_inv:
  assumes "rx_ok m" "tx_ok m" "mac_running m" "receiveState m = RX_IDLE_STATE"
    "duplexMode m \<or> transmitState m \<noteq> TRANSMITTING_STATE" "processMsgFromNetwork now msg m = Inr m'"
  shows "rx_ok m' \<and> tx_ok m' \<and> mac_running m'"
proof -
  have "mm_kind msg \<noteq> JAM_SIGNAL"
    "m' = m\<lparr>numConcurrentTransmissions := numConcurrentTransmissions m + 1, frameBeingReceived := Some msg,
      mac_timers := (mac_timers m)(ENDRECEPTION := Some (now + of_int (mm_length msg) * bitTime m)),
      receiveState := RECEIVING_STATE, mac_stats := (mac_stats m)\<lparr>channelBusySince := now\<rparr>\<rparr>"
    using assms(4-6)
    by (auto simp: processMsgFromNetwork_def Let_def mac_scheduleAt_def scheduleEndRxPeriod_def upd_stats_def split: if_splits)
  then show ?thesis using assms(1-5)
    by (simp add: rx_ok_def tx_ok_def mac_running_def)
qed

lemma network_back_to_back_inv:
  assumes "rx_ok m" "tx_ok m" "mac_running m" "receiveState m = RECEIVING_STATE" "mm_kind msg \<noteq> JAM_SIGNAL"
    "duplexMode m \<or> transmitState m \<noteq> TRANSMITTING_STATE"
    "ebind (frameReceptionComplete now (frameBeingReceived m)
                   ((mac_cancelEvent ENDRECEPTION m)\<lparr>frameBeingReceived := None\<rparr>)) (\<lambda>m.
            scheduleEndRxPeriod now msg (m\<lparr>frameBeingReceived := Some msg\<rparr>)) = Inr m'"
  shows "rx_ok m' \<and> tx_ok m' \<and> mac_running m'"
proof -
  obtain f where f: "frameBeingReceived m = Some f" "mm_kind f \<noteq> JAM_SIGNAL"
    using assms(1,4) by (auto simp: rx_ok_def)
  define m1 where "m1 = (mac_cancelEvent ENDRECEPTION m)\<lparr>frameBeingReceived := None\<rparr>"
  have m1: "tx_ok m1" "mac_running m1" "mac_timers m1 ENDRECEPTION = None" "receiveState m1 = RECEIVING_STATE"
    using assms(2-4) by (simp_all add: m1_def mac_cancelEvent_def tx_ok_def mac_running_def)
  from frameReceptionComplete_inv[OF m1(1,2) f(2)] obtain m2
    where m2: "frameReceptionComplete now (Some f) m1 = Inr m2" "tx_ok m2" "mac_running m2"
      "mac_timers m2 ENDRECEPTION = None" "receiveState m2 = RECEIVING_STATE"
    using m1(3,4) by auto
  have "scheduleEndRxPeriod now msg (m2\<lparr>frameBeingReceived := Some msg\<rparr>) = Inr m'"
    using assms(7) by (simp add: f(1) m1_def[symmetric] m2(1))
  then have m': "m' = m2\<lparr>frameBeingReceived := Some msg,
      mac_timers := (mac_timers m2)(ENDRECEPTION := Some (now + of_int (mm_length msg) * bitTime m2)),
      receiveState := RECEIVING_STATE\<rparr>"
    using m2(4) by (simp add: scheduleEndRxPeriod_def mac_scheduleAt_def)
  show ?thesis using m2(2-5) assms(5) unfolding m'
    by (simp add: rx_ok_def tx_ok_def mac_running_def)
qed

lemma processMsgFromNetwork_inv:
  assumes "rx_ok m" "tx_ok m" "mac_running m" "processMsgFromNetwork now msg m = Inr m'"
  shows "rx_ok m' \<and> tx_ok m' \<and> mac_running m'"
proof (cases "\<not> duplexMode m \<and> transmitState m = TRANSMITTING_STATE")
  case True
  then show ?thesis using network_collision_inv assms by blast
next
  case notTx: False
  show ?thesis
  proof (cases "receiveState m = RX_IDLE_STATE")
    case True
    then show ?thesis using network_start_inv assms notTx by blast
  next
    case False
    consider "overlappingReceptions (now + of_int (mm_length msg) * bitTime m) msg m = Inr m'"
      | "receiveState m = RECEIVING_STATE" "mm_kind msg \<noteq> JAM_SIGNAL"
        "ebind (frameReceptionComplete now (frameBeingReceived m)
                   ((mac_cancelEvent ENDRECEPTION m)\<lparr>frameBeingReceived := None\<rparr>)) (\<lambda>m.
            scheduleEndRxPeriod now msg (m\<lparr>frameBeingReceived := Some msg\<rparr>)) = Inr m'"
      using assms(4) False notTx
      by (simp add: processMsgFromNetwork_def Let_def split: if_splits)
    moreover have d: "duplexMode m \<or> transmitState m \<noteq> TRANSMITTING_STATE" using notTx by blast
    ultimately show ?thesis
      using overlappingReceptions_inv[OF assms(1-3) False d] network_back_to_back_inv[OF assms(1-3) _ _ d]
      by cases simp_all
  qed
qed

lemma handleEndRxPeriod_inv:
  assumes "rx_ok m" "tx_ok m" "mac_running m" "receiveState m \<noteq> RX_IDLE_STATE"
  shows "inv_result (handleEndRxPeriod now (mac_cancelEvent ENDRECEPTION m))"
proof -
  have idle: "inv_result (let m = m1\<lparr>receiveState := RX_IDLE_STATE, numConcurrentTransmissions := 0\<rparr> in
      if transmitState m = TX_IDLE_STATE \<and> txQueue m \<noteq> [] then scheduleEndIFGPeriod now m else Inr m)"
    if "tx_ok m1" "mac_running m1" "mac_timers m1 ENDRECEPTION = None" "frameBeingReceived m1 = None" for m1 :: "'a EtherMAC"
    using that by (auto simp: inv_result_def mac_defs rx_ok_def tx_ok_def mac_running_def Let_def)
  let ?m = "mac_cancelEvent ENDRECEPTION m"
  have c: "tx_ok ?m" "mac_running ?m" "mac_timers ?m ENDRECEPTION = None" "receiveState ?m = receiveState m"
    "frameBeingReceived ?m = frameBeingReceived m"
    using assms(2,3) by (auto simp: mac_cancelEvent_def tx_ok_def mac_running_def)
  show ?thesis
  proof (cases "receiveState m = RECEIVING_STATE")
    case True
    then obtain f where f: "frameBeingReceived m = Some f" "mm_kind f \<noteq> JAM_SIGNAL"
      using assms(1) by (auto simp: rx_ok_def)
    have "tx_ok (?m\<lparr>frameBeingReceived := None\<rparr>)" "mac_running (?m\<lparr>frameBeingReceived := None\<rparr>)"
      using c(1,2) by (auto simp: tx_ok_def mac_running_def)
    from frameReceptionComplete_inv[OF this f(2)] obtain m2 where
      m2: "frameReceptionComplete now (Some f) (?m\<lparr>frameBeingReceived := None\<rparr>) = Inr m2" "tx_ok m2" "mac_running m2"
        "mac_timers m2 ENDRECEPTION = None" "frameBeingReceived m2 = None"
      using c(3) by auto
    have "tx_ok (upd_stats g m2)" "mac_running (upd_stats g m2)" "mac_timers (upd_stats g m2) ENDRECEPTION = None"
      "frameBeingReceived (upd_stats g m2) = None" for g
      using m2(2-5) by (auto simp: upd_stats_def tx_ok_def mac_running_def)
    from idle[OF this] show ?thesis
      by (simp add: handleEndRxPeriod_def c(4,5) True f(1) m2(1) Let_def)
  next
    case False
    then have "frameBeingReceived m = None" using assms(1) by (auto simp: rx_ok_def)
    then have "tx_ok (upd_stats g ?m)" "mac_running (upd_stats g ?m)" "mac_timers (upd_stats g ?m) ENDRECEPTION = None"
      "frameBeingReceived (upd_stats g ?m) = None" for g
      using c by (auto simp: upd_stats_def tx_ok_def mac_running_def)
    from idle[OF this] show ?thesis
      by (simp add: handleEndRxPeriod_def c(4) False Let_def)
  qed
qed

lemma enqueueFrame_inv:
  assumes "enqueueFrame frame m = Inr m1"
  shows "mac_running m1 = mac_running m" "rx_ok m1 = rx_ok m" "tx_ok m \<Longrightarrow> tx_ok m1" "txQueue m1 \<noteq> []"
    "tx_quiet m1 = tx_quiet m" "autoconfigInProgress m1 = autoconfigInProgress m" "backoffs m1 = backoffs m"
    "mac_disabled m1 = mac_disabled m" "transmitState m1 = transmitState m" "receiveState m1 = receiveState m"
    "duplexMode m1 = duplexMode m"
proof -
  obtain s q where m1: "m1 = m\<lparr>mac_stats := s, txQueue := q\<rparr>" "q \<noteq> []"
  proof (cases "mm_kind frame = ETH_FRAME")
    case True
    then show thesis using assms that
      by (auto simp: enqueueFrame_def Let_def upd_stats_def split: if_splits)
  next
    case False
    then obtain q where "m1 = m\<lparr>txQueue := q\<rparr>" "q \<noteq> []"
      using assms by (cases "txQueue m") (auto simp: enqueueFrame_def)
    then have "m1 = m\<lparr>mac_stats := mac_stats m, txQueue := q\<rparr>" by simp
    then show thesis using that \<open>q \<noteq> []\<close> by blast
  qed
  show "mac_running m1 = mac_running m" "rx_ok m1 = rx_ok m" "tx_ok m \<Longrightarrow> tx_ok m1" "txQueue m1 \<noteq> []"
    "tx_quiet m1 = tx_quiet m" "autoconfigInProgress m1 = autoconfigInProgress m" "backoffs m1 = backoffs m"
    "mac_disabled m1 = mac_disabled m" "transmitState m1 = transmitState m" "receiveState m1 = receiveState m"
    "duplexMode m1 = duplexMode m"
    using m1(2) by (simp_all add: m1(1) mac_running_def rx_ok_def tx_ok_def tx_quiet_def)
qed

lemma scheduleEndIFGPeriod_inv:
  assumes "rx_ok m" "tx_ok m" "transmitState m = TX_IDLE_STATE" "txQueue m \<noteq> []" "mac_running m"
  shows "inv_result (scheduleEndIFGPeriod now m)"
  using assms by (simp add: inv_result_def mac_defs rx_ok_def tx_ok_def mac_running_def)

lemma processFrameFromUpperLayer_inv:
  assumes "mac_inv m" "\<not> mac_disabled m" "processFrameFromUpperLayer now frame m = Inr m'"
  shows "mac_inv m'"
proof -
  from assms(3) obtain m1 where e: "enqueueFrame frame m = Inr m1"
    and r: "(if \<not> autoconfigInProgress m1 \<and> (duplexMode m1 \<or> receiveState m1 = RX_IDLE_STATE) \<and>
             transmitState m1 = TX_IDLE_STATE then scheduleEndIFGPeriod now m1 else Inr m1) = Inr m'"
    by (auto simp: processFrameFromUpperLayer_def split: if_splits)
  note f = enqueueFrame_inv[OF e]
  have i: "mac_inv m1" using assms(1) f by (simp add: mac_inv_def)
  show ?thesis
  proof (cases "m' = m1")
    case False
    then have d: "\<not> autoconfigInProgress m1" "transmitState m1 = TX_IDLE_STATE" "scheduleEndIFGPeriod now m1 = Inr m'"
      using r by (auto split: if_splits)
    have "inv_result (scheduleEndIFGPeriod now m1)"
      using i d f(4,8) assms(2) by (intro scheduleEndIFGPeriod_inv) (auto simp: mac_inv_def mac_running_def)
    then show ?thesis by (auto simp: inv_result_def d(3) mac_inv_def mac_running_def)
  qed (use i in simp)
qed


section \<open>Reachable states\<close>

text \<open>A timer fires when it is due; the end of the autoconfiguration comes while it is in progress.\<close>

definition mac_admissible :: "simtime \<Rightarrow> 'm mac_event \<Rightarrow> 'm EtherMAC \<Rightarrow> bool" where
  "mac_admissible now ev m =
     (case ev of MacTimeout tm \<Rightarrow> mac_timers m tm = Some now
      | EndAutoconfig \<Rightarrow> autoconfigInProgress m | _ \<Rightarrow> True)"

inductive mac_run :: "(int \<Rightarrow> int \<Rightarrow> int) \<Rightarrow> real \<Rightarrow> bool \<Rightarrow> 'm EtherMAC \<Rightarrow> bool"
  for rng rate duplex where
  mac_start: "mac_initialize a prom limit q isConnected rate duplex ctr = Inr (m, ctr') \<Longrightarrow> mac_run rng rate duplex m"
| mac_step: "\<lbrakk>mac_run rng rate duplex m; mac_admissible now ev m;
     mac_handleMessage rng rate duplex now ev m = Inr m'\<rbrakk> \<Longrightarrow> mac_run rng rate duplex m'"

lemma rx_okD: "rx_ok m \<Longrightarrow> mac_timers m ENDRECEPTION = Some t \<Longrightarrow> receiveState m \<noteq> RX_IDLE_STATE"
  by (auto simp: rx_ok_def)

lemma tx_okD:
  assumes "tx_ok m"
  shows "mac_timers m ENDIFG = Some t \<Longrightarrow> transmitState m = WAIT_IFG_STATE"
    "mac_timers m ENDTRANSMISSION = Some t \<Longrightarrow> transmitState m = TRANSMITTING_STATE"
    "mac_timers m ENDJAMMING = Some t \<Longrightarrow> transmitState m = JAMMING_STATE"
    "mac_timers m ENDBACKOFF = Some t \<Longrightarrow> transmitState m = BACKOFF_STATE"
    "mac_timers m ENDPAUSE = Some t \<Longrightarrow> transmitState m = PAUSE_STATE"
    "transmitState m \<in> {WAIT_IFG_STATE, TRANSMITTING_STATE, JAMMING_STATE, BACKOFF_STATE} \<Longrightarrow> txQueue m \<noteq> []"
    "transmitState m = TRANSMITTING_STATE \<Longrightarrow> duplexMode m \<or> receiveState m = RX_IDLE_STATE"
  using assms by (simp_all add: tx_ok_def) blast+

lemma tx_quiet_cancel:
  assumes "tx_ok m"
  shows "transmitState m = WAIT_IFG_STATE \<Longrightarrow> tx_quiet (mac_cancelEvent ENDIFG m)"
    "transmitState m = TRANSMITTING_STATE \<Longrightarrow> tx_quiet (mac_cancelEvent ENDTRANSMISSION m)"
    "transmitState m = JAMMING_STATE \<Longrightarrow> tx_quiet (mac_cancelEvent ENDJAMMING m)"
    "transmitState m = BACKOFF_STATE \<Longrightarrow> tx_quiet (mac_cancelEvent ENDBACKOFF m)"
    "transmitState m = PAUSE_STATE \<Longrightarrow> tx_quiet (mac_cancelEvent ENDPAUSE m)"
  using assms by (auto simp: tx_ok_def tx_quiet_def mac_cancelEvent_def)

lemma mac_cancelEvent_keeps [simp]:
  "transmitState (mac_cancelEvent tm m) = transmitState m" "receiveState (mac_cancelEvent tm m) = receiveState m"
  "txQueue (mac_cancelEvent tm m) = txQueue m" "duplexMode (mac_cancelEvent tm m) = duplexMode m"
  "mac_running (mac_cancelEvent tm m) = mac_running m"
  "tm \<noteq> ENDRECEPTION \<Longrightarrow> rx_ok (mac_cancelEvent tm m) = rx_ok m"
  by (auto simp: mac_cancelEvent_def mac_running_def rx_ok_def)

lemma mac_inv_running:
  assumes "mac_inv m" "mac_timers m tm = Some t"
  shows "mac_running m"
proof -
  have ok: "rx_ok m" "tx_ok m" using assms(1) by (simp_all add: mac_inv_def)
  have "transmitState m \<noteq> TX_IDLE_STATE \<or> receiveState m \<noteq> RX_IDLE_STATE"
    using assms(2) tx_okD(1-5)[OF ok(2)] rx_okD[OF ok(1)] by (cases tm) simp_all
  then have "\<not> (autoconfigInProgress m \<or> mac_disabled m)"
    using assms(1) by (auto simp: mac_inv_def)
  then show ?thesis using assms(1) by (simp add: mac_running_def mac_inv_def)
qed

text \<open>A timer that is due is handled, whatever the state of the module.\<close>

lemma mac_timeout_inv:
  assumes "mac_inv m" "mac_timers m tm = Some now"
  shows "inv_result (mac_handleMessage rng rate duplex now (MacTimeout tm) m)"
proof -
  have r: "mac_running m" by (rule mac_inv_running[OF assms])
  have ok: "rx_ok m" "tx_ok m" using assms(1) by (simp_all add: mac_inv_def)
  note d = tx_okD[OF ok(2)] and c = tx_quiet_cancel[OF ok(2)]
  have e: "mac_handleMessage rng rate duplex now (MacTimeout tm) m =
      (let m = mac_cancelEvent tm m in
             (case tm of
                ENDIFG \<Rightarrow> handleEndIFGPeriod now m
              | ENDTRANSMISSION \<Rightarrow> handleEndTxPeriod now m
              | ENDRECEPTION \<Rightarrow> handleEndRxPeriod now m
              | ENDBACKOFF \<Rightarrow> handleEndBackoffPeriod now m
              | ENDJAMMING \<Rightarrow> handleEndJammingPeriod rng now m
              | ENDPAUSE \<Rightarrow> handleEndPausePeriod now m))"
    using r d(7) by (auto simp: mac_handleMessage_def mac_running_def)
  show ?thesis
  proof (cases tm)
    case ENDIFG
    then have "transmitState m = WAIT_IFG_STATE" using d(1) assms(2) by blast
    then show ?thesis using ok r c(1) d(6) by (simp add: e[unfolded ENDIFG] ENDIFG handleEndIFGPeriod_inv)
  next
    case ENDTRANSMISSION
    then have "transmitState m = TRANSMITTING_STATE" using d(2) assms(2) by blast
    then show ?thesis using ok r c(2) d(6,7) by (simp add: e[unfolded ENDTRANSMISSION] ENDTRANSMISSION handleEndTxPeriod_inv)
  next
    case ENDRECEPTION
    then have "receiveState m \<noteq> RX_IDLE_STATE" using rx_okD[OF ok(1)] assms(2) by blast
    then show ?thesis using ok r by (simp add: e[unfolded ENDRECEPTION] ENDRECEPTION handleEndRxPeriod_inv)
  next
    case ENDBACKOFF
    then have "transmitState m = BACKOFF_STATE" using d(4) assms(2) by blast
    then show ?thesis using ok r c(4) d(6) by (simp add: e[unfolded ENDBACKOFF] ENDBACKOFF handleEndBackoffPeriod_inv)
  next
    case ENDJAMMING
    then have "transmitState m = JAMMING_STATE" using d(3) assms(2) by blast
    then show ?thesis using ok r c(3) d(6)
      by (simp add: e[unfolded ENDJAMMING] ENDJAMMING handleEndJammingPeriod_def handleRetransmission_inv)
  next
    case ENDPAUSE
    then have "transmitState m = PAUSE_STATE" using d(5) assms(2) by blast
    then show ?thesis using ok r c(5)
      by (simp add: e[unfolded ENDPAUSE] ENDPAUSE handleEndPausePeriod_def beginSendFrames_inv)
  qed
qed

lemma inv_result_mac_inv: "inv_result (Inr m) \<Longrightarrow> mac_inv m"
  by (auto simp: inv_result_def mac_inv_def mac_running_def)

lemma calculateParameters_keeps:
  assumes "calculateParameters m = Inr m'"
  shows "rx_ok m' = rx_ok m" "tx_ok m' = tx_ok m" "txQueue m' = txQueue m" "backoffs m' = backoffs m"
    "transmitState m' = transmitState m" "receiveState m' = receiveState m"
    "mac_disabled m' = mac_disabled m" "autoconfigInProgress m' = autoconfigInProgress m"
proof -
  obtain bt st ifg jd sh ce fb where m': "m' = m\<lparr>bitTime := bt, carrierExtension := ce, frameBursting := fb,
      slotTime := st, interFrameGap := ifg, jamDuration := jd, shortestFrameDuration := sh\<rparr>"
  proof (cases "mac_disabled m")
    case True
    then have "m' = m\<lparr>bitTime := 0, carrierExtension := False, frameBursting := False, slotTime := 0,
        interFrameGap := 0, jamDuration := 0, shortestFrameDuration := 0\<rparr>"
      using assms by (cases m) (auto simp: calculateParameters_def)
    then show thesis by (rule that)
  next
    case False
    then have t: "\<not> (txrate m \<noteq> ETHERNET_TXRATE \<and> txrate m \<noteq> FAST_ETHERNET_TXRATE \<and> txrate m \<noteq> GIGABIT_ETHERNET_TXRATE)"
      using assms False by (intro notI) (simp add: calculateParameters_def)
    show thesis using assms unfolding calculateParameters_def if_not_P[OF False] if_not_P[OF t] Let_def
      by (intro that) (rule sum.inject(2)[THEN iffD1, symmetric], assumption)
  qed
  show "rx_ok m' = rx_ok m" "tx_ok m' = tx_ok m" "txQueue m' = txQueue m" "backoffs m' = backoffs m"
    "transmitState m' = transmitState m" "receiveState m' = receiveState m"
    "mac_disabled m' = mac_disabled m" "autoconfigInProgress m' = autoconfigInProgress m"
    by (simp_all add: m' rx_ok_def tx_ok_def)
qed

lemma endAutoconfig_inv:
  assumes "mac_inv m" "\<not> mac_disabled m" "autoconfigInProgress m" "endAutoconfig rate duplex now m = Inr m'"
  shows "mac_inv m'"
proof -
  obtain r d m1 where m1: "calculateParameters (m\<lparr>autoconfigInProgress := False, txrate := r, duplexMode := d\<rparr>) = Inr m1"
      "(if txQueue m1 \<noteq> [] then scheduleEndIFGPeriod now m1 else Inr m1) = Inr m'"
    using assms(4) by (auto simp: endAutoconfig_def Let_def)
  have ok: "rx_ok m" "tx_ok m" "transmitState m = TX_IDLE_STATE"
    using assms(1,3) by (simp_all add: mac_inv_def)
  have c: "rx_ok (m\<lparr>autoconfigInProgress := False, txrate := r, duplexMode := d\<rparr>)"
      "tx_ok (m\<lparr>autoconfigInProgress := False, txrate := r, duplexMode := d\<rparr>)"
    using ok(1) ok(2)[unfolded tx_ok_def] by (simp_all add: rx_ok_def tx_ok_def ok(3)) 
  have i: "rx_ok m1" "tx_ok m1" "mac_running m1" "transmitState m1 = TX_IDLE_STATE"
    using assms(1-3) calculateParameters_keeps[OF m1(1)] c
    by (simp_all add: mac_inv_def mac_running_def)
  show ?thesis
  proof (cases "txQueue m1 = []")
    case False
    then have "inv_result (Inr m')" using m1(2) scheduleEndIFGPeriod_inv[OF i(1,2,4) False i(3)] by metis
    then show ?thesis by (rule inv_result_mac_inv)
  next
    case True
    then show ?thesis using m1(2) i by (simp add: mac_inv_def mac_running_def)
  qed
qed

lemma mac_handleMessage_inv:
  assumes "mac_inv m" "mac_admissible now ev m" "mac_handleMessage rng rate duplex now ev m = Inr m'"
  shows "mac_inv m'"
proof (cases "mac_disabled m")
  case True
  then show ?thesis using assms by (simp add: mac_handleMessage_def)
next
  case enabled: False
  show ?thesis
  proof (cases "autoconfigInProgress m")
    case True
    have a: "mac_inv (m\<lparr>lowestTxrateSuggested := l, duplexVetoed := v\<rparr>)" for l v
      using assms(1) by (simp add: mac_inv_def rx_ok_def tx_ok_def)
    have h: "handleAutoconfigMessage rate duplex now ev m = Inr m'"
      using assms(3) enabled True by (simp add: mac_handleMessage_def)
    show ?thesis
    proof (cases ev)
      case (MacTimeout tm)
      then have "mac_running m" using assms(1,2) mac_inv_running by (auto simp: mac_admissible_def)
      then show ?thesis using True by (simp add: mac_running_def)
    qed (use h processFrameFromUpperLayer_inv[OF assms(1) enabled] endAutoconfig_inv[OF assms(1) enabled True] a
         in \<open>auto simp: handleAutoconfigMessage_def\<close>)
  next
    case False
    have ok: "rx_ok m" "tx_ok m" "mac_running m"
      using assms(1) False enabled by (simp_all add: mac_inv_def mac_running_def)
    show ?thesis
    proof (cases ev)
      case (FromUpper f)
      then show ?thesis using assms(3) enabled False processFrameFromUpperLayer_inv[OF assms(1) enabled]
        by (auto simp: mac_handleMessage_def split: if_splits)
    next
      case (FromNetwork f)
      then have "processMsgFromNetwork now f m = Inr m'"
        using assms(3) enabled False by (auto simp: mac_handleMessage_def split: if_splits)
      from processMsgFromNetwork_inv[OF ok this] show ?thesis by (simp add: mac_inv_def mac_running_def)
    next
      case (MacTimeout tm)
      then have "inv_result (Inr m')"
        using mac_timeout_inv[OF assms(1), of tm now rng rate duplex] assms(2,3)
        by (simp add: mac_admissible_def)
      then show ?thesis by (rule inv_result_mac_inv)
    qed (use assms(3) enabled False in \<open>auto simp: mac_handleMessage_def split: if_splits\<close>)
  qed
qed

lemma mac_initialize_inv:
  assumes "mac_initialize a prom limit q isConnected rate duplex ctr = Inr (m, ctr')"
  shows "mac_inv m"
  using assms
  by (auto simp: mac_initialize_def Let_def startAutoconfig_def calculateParameters_def mac_inv_def rx_ok_def tx_ok_def
      mac_send_def MAX_ATTEMPTS_def split: if_splits)

lemma mac_run_inv: "mac_run rng rate duplex m \<Longrightarrow> mac_inv m"
  by (induction rule: mac_run.induct) (blast intro: mac_initialize_inv mac_handleMessage_inv)+


text \<open>
  C36: in every state the module can reach, a timer that fires when it is due is handled: none of
  the checks of the handlers (wrong transmitter state, empty queue, frame not found, message
  already scheduled) can fail; and in half-duplex mode the module never transmits while it
  receives, the inconsistency \<open>handleMessage\<close> tests for.
\<close>

theorem due_timers_are_handled:
  assumes "mac_run rng rate duplex m" "mac_timers m tm = Some t"
  shows "(\<exists>m'. mac_handleMessage rng rate duplex t (MacTimeout tm) m = Inr m') \<and>
    (duplexMode m \<or> transmitState m \<noteq> TRANSMITTING_STATE \<or> receiveState m = RX_IDLE_STATE)"
proof -
  have i: "mac_inv m" by (rule mac_run_inv[OF assms(1)])
  have "inv_result (mac_handleMessage rng rate duplex t (MacTimeout tm) m)"
    by (rule mac_timeout_inv[OF i assms(2)])
  moreover have "tx_ok m" using i by (simp add: mac_inv_def)
  ultimately show ?thesis using tx_okD(7) by (auto simp: inv_result_def)
qed


section \<open>A PAUSE command of zero units\<close>

definition physOut :: "'m EtherMAC \<Rightarrow> 'm mac_out list" where
  "physOut m = filter (\<lambda>out. case out of PhysOut _ \<Rightarrow> True | _ \<Rightarrow> False) (maclog m)"

fun positivePause :: "MacMsgKind \<Rightarrow> bool" where
  "positivePause (ETH_PAUSE units) = (units > 0)"
| "positivePause _ = False"

fun noPause :: "'m mac_event \<Rightarrow> bool" where
  "noPause (FromNetwork msg) = (\<not> positivePause (mm_kind msg))"
| "noPause _ = True"

inductive mac_path :: "(int \<Rightarrow> int \<Rightarrow> int) \<Rightarrow> real \<Rightarrow> bool \<Rightarrow> ('m mac_event \<Rightarrow> bool) \<Rightarrow> 'm EtherMAC \<Rightarrow> 'm EtherMAC \<Rightarrow> bool"
  for rng rate duplex P where
  mac_path_refl: "mac_path rng rate duplex P m m"
| mac_path_step: "\<lbrakk>mac_path rng rate duplex P m m1; P ev; mac_admissible now ev m1;
     mac_handleMessage rng rate duplex now ev m1 = Inr m2\<rbrakk> \<Longrightarrow> mac_path rng rate duplex P m m2"

definition stuck :: "'m EtherMAC \<Rightarrow> 'm EtherMAC \<Rightarrow> bool" where
  "stuck m m' \<longleftrightarrow> transmitState m' = PAUSE_STATE \<and> mac_timers m' ENDPAUSE = None \<and> physOut m' = physOut m \<and>
     (case frameBeingReceived m' of None \<Rightarrow> True | Some f \<Rightarrow> \<not> positivePause (mm_kind f))"

lemma stuck_keeps:
  assumes "transmitState m' = PAUSE_STATE" "frameBeingReceived m1 = frameBeingReceived m'"
    "mac_timers m' ENDPAUSE = None" "mac_timers m1 = mac_timers m'" "transmitState m1 = PAUSE_STATE" "maclog m1 = maclog m'"
  shows "stuck m m1 = stuck m m'"
  using assms by (simp add: stuck_def physOut_def)

lemma enqueueFrame_keeps:
  assumes "enqueueFrame frame m = Inr m1"
  shows "frameBeingReceived m1 = frameBeingReceived m" "mac_timers m1 = mac_timers m" "maclog m1 = maclog m"
  using assms
  by (auto simp: enqueueFrame_def Let_def upd_stats_def split: if_splits list.splits)

lemma frameReceptionComplete_stuck:
  assumes "frameReceptionComplete now (Some f) m = Inr m1" "\<not> positivePause (mm_kind f)"
    "transmitState m = PAUSE_STATE" "mac_timers m ENDPAUSE = None \<or> mm_kind f \<noteq> ETH_FRAME"
  shows "transmitState m1 = PAUSE_STATE \<and> mac_timers m1 ENDPAUSE = None \<and> physOut m1 = physOut m \<and>
    frameBeingReceived m1 = frameBeingReceived m \<and> mac_timers m1 ENDRECEPTION = mac_timers m ENDRECEPTION \<and>
    receiveState m1 = receiveState m"
proof (cases "mm_kind f")
  case ETH_FRAME
  then show ?thesis using assms
    by (auto simp: frameReceptionComplete_def processReceivedDataFrame_def Let_def upd_stats_def mac_send_def physOut_def)
next
  case (ETH_PAUSE units)
  then show ?thesis using assms
    by (auto simp: frameReceptionComplete_def processPauseCommand_def Let_def upd_stats_def mac_cancelEvent_def physOut_def)
qed (use assms in \<open>simp add: frameReceptionComplete_def\<close>)

lemma handleEndRxPeriod_stuck:
  assumes "handleEndRxPeriod now (mac_cancelEvent ENDRECEPTION m1) = Inr m2" "transmitState m1 = PAUSE_STATE"
    "receiveState m1 = RECEIVING_STATE \<Longrightarrow> \<exists>f. frameBeingReceived m1 = Some f \<and> \<not> positivePause (mm_kind f) \<and>
       (mac_timers m1 ENDPAUSE = None \<or> mm_kind f \<noteq> ETH_FRAME)"
    "receiveState m1 \<noteq> RECEIVING_STATE \<Longrightarrow> stuck m m1 \<and> frameBeingReceived m1 = None" "physOut m = physOut m1"
  shows "stuck m m2"
proof -
  have fin: "stuck m m2" if "transmitState m3 = PAUSE_STATE" "mac_timers m3 ENDPAUSE = None"
      "physOut m3 = physOut m" "frameBeingReceived m3 = None"
      "(let m = m3\<lparr>receiveState := RX_IDLE_STATE, numConcurrentTransmissions := 0\<rparr> in
        if transmitState m = TX_IDLE_STATE \<and> txQueue m \<noteq> [] then scheduleEndIFGPeriod now m else Inr m) = Inr m2" for m3
    using that by (auto simp: stuck_def physOut_def Let_def)
  let ?c = "(mac_cancelEvent ENDRECEPTION m1)\<lparr>frameBeingReceived := None\<rparr>"
  show ?thesis
  proof (cases "receiveState m1 = RECEIVING_STATE")
    case True
    then obtain f where f: "frameBeingReceived m1 = Some f" "\<not> positivePause (mm_kind f)"
      "mac_timers m1 ENDPAUSE = None \<or> mm_kind f \<noteq> ETH_FRAME" using assms(3) by blast
    obtain m3 s where m3: "frameReceptionComplete now (Some f) ?c = Inr m3"
        "(let m = (upd_stats s m3)\<lparr>receiveState := RX_IDLE_STATE, numConcurrentTransmissions := 0\<rparr> in
        if transmitState m = TX_IDLE_STATE \<and> txQueue m \<noteq> [] then scheduleEndIFGPeriod now m else Inr m) = Inr m2"
      using assms(1) f(1) True by (auto simp: handleEndRxPeriod_def mac_cancelEvent_def Let_def)
    have "transmitState ?c = PAUSE_STATE" "mac_timers ?c ENDPAUSE = None \<or> mm_kind f \<noteq> ETH_FRAME"
      "physOut ?c = physOut m" "frameBeingReceived ?c = None"
      using assms(2,5) f(3) by (auto simp: mac_cancelEvent_def physOut_def)
    then show ?thesis
      using frameReceptionComplete_stuck[OF m3(1) f(2)] by (intro fin[OF _ _ _ _ m3(2)]) (simp_all add: upd_stats_def physOut_def)
  next
    case False
    then obtain s where e: "(let m = (upd_stats s (mac_cancelEvent ENDRECEPTION m1))\<lparr>receiveState := RX_IDLE_STATE, numConcurrentTransmissions := 0\<rparr> in
        if transmitState m = TX_IDLE_STATE \<and> txQueue m \<noteq> [] then scheduleEndIFGPeriod now m else Inr m) = Inr m2"
      using assms(1) by (auto simp: handleEndRxPeriod_def mac_cancelEvent_def Let_def)
    show ?thesis using assms(4)[OF False]
      by (intro fin[OF _ _ _ _ e]) (simp_all add: upd_stats_def physOut_def mac_cancelEvent_def stuck_def)
  qed
qed

lemma processMsgFromNetwork_stuck:
  assumes "rx_ok m1" "stuck m m1" "processMsgFromNetwork now msg m1 = Inr m2" "\<not> positivePause (mm_kind msg)"
  shows "stuck m m2"
proof (cases "receiveState m1 = RX_IDLE_STATE")
  case True
  then show ?thesis using assms(2-4)
    by (auto simp: processMsgFromNetwork_def Let_def stuck_def physOut_def scheduleEndRxPeriod_def mac_scheduleAt_def upd_stats_def
        split: if_splits)
next
  case False
  have p: "transmitState m1 = PAUSE_STATE" using assms(2) by (simp add: stuck_def)
  consider (over) "overlappingReceptions (now + of_int (mm_length msg) * bitTime m1) msg m1 = Inr m2"
    | (b2b) "receiveState m1 = RECEIVING_STATE"
        "ebind (frameReceptionComplete now (frameBeingReceived m1)
                   ((mac_cancelEvent ENDRECEPTION m1)\<lparr>frameBeingReceived := None\<rparr>)) (\<lambda>m.
            scheduleEndRxPeriod now msg (m\<lparr>frameBeingReceived := Some msg\<rparr>)) = Inr m2"
    using assms(3) False p
    by (simp add: processMsgFromNetwork_def Let_def split: if_splits)
  then show ?thesis
  proof cases
    case over
    have a: "stuck m (abortReception m0)" if "stuck m m0" for m0
      using that by (auto simp: abortReception_def Let_def countCollision_def upd_stats_def stuck_def physOut_def)
    from over obtain n t where "m2 = abortReception (m1\<lparr>numConcurrentTransmissions := n, mac_timers := (mac_timers m1)(ENDRECEPTION := Some t)\<rparr>)
     \<or> m2 = abortReception (m1\<lparr>numConcurrentTransmissions := n\<rparr>)"
      by (auto simp: overlappingReceptions_def Let_def mac_scheduleAt_def mac_cancelEvent_def
        split: if_splits option.splits)
    moreover have "stuck m (m1\<lparr>numConcurrentTransmissions := n\<rparr>)"
       "stuck m (m1\<lparr>numConcurrentTransmissions := n, mac_timers := (mac_timers m1)(ENDRECEPTION := Some t)\<rparr>)"
      using assms(2) by (simp_all add: stuck_def physOut_def)
    ultimately show ?thesis using a by blast
  next
    case b2b
    then obtain f where f: "frameBeingReceived m1 = Some f" "\<not> positivePause (mm_kind f)"
      using assms(1,2) by (auto simp: rx_ok_def stuck_def)
    let ?c = "(mac_cancelEvent ENDRECEPTION m1)\<lparr>frameBeingReceived := None\<rparr>"
    from b2b(2) obtain m3 where m3: "frameReceptionComplete now (Some f) ?c = Inr m3"
      "scheduleEndRxPeriod now msg (m3\<lparr>frameBeingReceived := Some msg\<rparr>) = Inr m2" by (auto simp: f(1))
    have "transmitState ?c = PAUSE_STATE" "mac_timers ?c ENDPAUSE = None" "physOut ?c = physOut m"
      using assms(2) by (auto simp: mac_cancelEvent_def physOut_def stuck_def)
    with frameReceptionComplete_stuck[OF m3(1) f(2)]
    have "transmitState m3 = PAUSE_STATE" "mac_timers m3 ENDPAUSE = None" "physOut m3 = physOut m" by simp_all
    then show ?thesis using m3(2) assms(4)
      by (auto simp: stuck_def physOut_def scheduleEndRxPeriod_def mac_scheduleAt_def split: if_splits)
  qed
qed

lemma mac_handleMessage_stuck:
  assumes "mac_inv m1" "stuck m m1" "noPause ev" "mac_admissible now ev m1"
    "mac_handleMessage rng rate duplex now ev m1 = Inr m2"
  shows "stuck m m2"
proof -
  have p: "transmitState m1 = PAUSE_STATE" "mac_timers m1 ENDPAUSE = None" using assms(2) by (simp_all add: stuck_def)
  have ok: "rx_ok m1" "tx_ok m1" using assms(1) by (simp_all add: mac_inv_def)
  have r: "\<not> mac_disabled m1" "\<not> autoconfigInProgress m1" using assms(1) p(1) by (auto simp: mac_inv_def)
  show ?thesis
  proof (cases ev)
    case (FromUpper f)
    then obtain m3 where "enqueueFrame f m1 = Inr m3" "m2 = m3"
      using assms(5) p(1) r enqueueFrame_inv(9)[of f m1]
      by (fastforce simp: mac_handleMessage_def processFrameFromUpperLayer_def split: if_splits)
    then show ?thesis
      using stuck_keeps[of m1 m3 m] enqueueFrame_keeps[of f m1 m3] enqueueFrame_inv(9)[of f m1 m3] p assms(2) by simp
  next
    case (FromNetwork msg)
    then show ?thesis
      using processMsgFromNetwork_stuck[OF ok(1) assms(2)] assms(3,5) p(1) r by (simp add: mac_handleMessage_def)
  next
    case (MacTimeout tm)
    then have "mac_timers m1 tm = Some now" using assms(4) by (simp add: mac_admissible_def)
    then have tm: "tm = ENDRECEPTION" using tx_okD(1-4)[OF ok(2)] p by (cases tm) simp_all
    then have h: "handleEndRxPeriod now (mac_cancelEvent ENDRECEPTION m1) = Inr m2"
      using assms(5) MacTimeout p(1) r by (simp add: mac_handleMessage_def Let_def)
    show ?thesis
      by (rule handleEndRxPeriod_stuck[OF h p(1)]) (use ok(1) assms(2) in \<open>auto simp: rx_ok_def stuck_def\<close>)
  qed (use assms(5) p(1) r in \<open>simp_all add: mac_handleMessage_def\<close>)
qed

lemma mac_path_stuck:
  assumes "mac_path rng rate duplex noPause m1 m2" "mac_inv m1" "stuck m m1"
  shows "mac_inv m2 \<and> stuck m m2"
  using assms by (induction) (blast intro: mac_handleMessage_inv mac_handleMessage_stuck)+

text \<open>
  A PAUSE frame of zero units that arrives while the module pauses, which asks it to resume,
  cancels the end of the pause and schedules nothing in its place: the transmitter stays in
  \<open>PAUSE_STATE\<close> and puts nothing on the wire any more, whatever frames it gets to send, until another
  PAUSE frame with a positive time is received.
\<close>

theorem zero_pause_stops_transmitter:
  assumes "mac_run rng rate duplex m" "transmitState m = PAUSE_STATE"
    "frameBeingReceived m = Some f" "mm_kind f = ETH_PAUSE units" "units \<le> 0"
    "mac_timers m ENDRECEPTION = Some t"
    "mac_handleMessage rng rate duplex t (MacTimeout ENDRECEPTION) m = Inr m1"
    "mac_path rng rate duplex noPause m1 m2"
  shows "transmitState m2 = PAUSE_STATE \<and> mac_timers m2 ENDPAUSE = None \<and> physOut m2 = physOut m"
proof -
  have i: "mac_inv m" by (rule mac_run_inv[OF assms(1)])
  have r: "receiveState m = RECEIVING_STATE" using i assms(3) by (auto simp: mac_inv_def rx_ok_def)
  have h: "handleEndRxPeriod t (mac_cancelEvent ENDRECEPTION m) = Inr m1"
    using assms(2,7) mac_inv_running[OF i assms(6)] by (simp add: mac_handleMessage_def mac_running_def Let_def)
  have "stuck m m1"
    by (rule handleEndRxPeriod_stuck[OF h assms(2)]) (use assms(3-5) r in auto)
  moreover have "mac_inv m1"
    by (rule mac_handleMessage_inv[OF i _ assms(7)]) (simp add: mac_admissible_def assms(6))
  ultimately show ?thesis using mac_path_stuck[OF assms(8)] by (simp add: stuck_def)
qed


section \<open>Concrete runs\<close>

fun mac_exec ::
    "(int \<Rightarrow> int \<Rightarrow> int) \<Rightarrow> real \<Rightarrow> bool \<Rightarrow> (simtime \<times> 'm mac_event) list \<Rightarrow> 'm EtherMAC \<Rightarrow> 'm EtherMAC result" where
  "mac_exec rng rate duplex [] m = Inr m"
| "mac_exec rng rate duplex ((now, ev) # evs) m =
     (if mac_admissible now ev m
      then ebind (mac_handleMessage rng rate duplex now ev m) (mac_exec rng rate duplex evs)
      else Inl (TimerMisuse ''not due''))"

lemma mac_exec_run:
  "mac_run rng rate duplex m \<Longrightarrow> mac_exec rng rate duplex evs m = Inr m' \<Longrightarrow> mac_run rng rate duplex m'"
proof (induction evs arbitrary: m)
  case (Cons e evs)
  obtain now ev where e: "e = (now, ev)" by (cases e)
  with Cons.prems(2) obtain m1 where "mac_admissible now ev m" "mac_handleMessage rng rate duplex now ev m = Inr m1"
      "mac_exec rng rate duplex evs m1 = Inr m'"
    by (auto split: if_splits)
  then show ?case using Cons.IH Cons.prems(1) by (blast intro: mac_step)
qed simp

definition exampleFrame :: "MacMsgKind \<Rightarrow> unit MacMsg" where
  "exampleFrame k = \<lparr>mm_kind = k, mm_src = new_MACAddress, mm_dest = MACAddress 1 2 3 4 5 6,
     mm_length = 512, mm_bitError = False, mm_sendingTime = 0, mm_data = None\<rparr>"

definition station :: "bool \<Rightarrow> 'm EtherMAC" where
  "station duplex = \<lparr>mac_disabled = False, myaddress = MACAddress 0x0A 0xAA 0 0 0 1, promiscuous = False, duplexMode = duplex,
              carrierExtension = False, frameBursting = False, txQueueLimit = 0, txrate = 0,
              bitTime = 0, slotTime = 0, interFrameGap = 0, jamDuration = 0, shortestFrameDuration = 0,
              autoconfigInProgress = True, lowestTxrateSuggested = 0, duplexVetoed = False,
              transmitState = TX_IDLE_STATE, receiveState = RX_IDLE_STATE, framesSentInBurst = 0,
              bytesSentInBurst = 0, backoffs = 0, numConcurrentTransmissions = 0, pauseUnitsRequested = 0,
              txQueue = [], queueModule = True, frameBeingReceived = None, mac_timers = (\<lambda>_. None),
              mac_stats = new_MacStats, maclog = [AutoconfOut (\<not> duplex) 10000000, RequestPacket]\<rparr>"

lemma station_run: "mac_run rng 10000000 duplex (station duplex)"
proof (rule mac_start[of "''auto''" False 0 True True 10000000 duplex 0 "station duplex" 1 rng])
  show "mac_initialize ''auto'' False 0 True True 10000000 duplex 0 = Inr (station duplex, 1)"
    by (simp add: mac_initialize_def station_def autoAddress_def startAutoconfig_def mac_send_def)
qed

lemmas mac_eval = mac_admissible_def mac_handleMessage_def handleAutoconfigMessage_def
  processFrameFromUpperLayer_def enqueueFrame_def upd_stats_def endAutoconfig_def calculateParameters_def
  mac_equals_def mac_isEmpty_def new_MACAddress_def Let_def scheduleEndIFGPeriod_def mac_scheduleAt_def
  exampleFrame_def station_def new_MacStats_def MAX_ETHERNET_FRAME_def ETHERNET_TXRATE_def FAST_ETHERNET_TXRATE_def
  GIGABIT_ETHERNET_TXRATE_def INTERFRAME_GAP_BITS_def JAM_SIGNAL_BYTES_def MIN_ETHERNET_FRAME_def
  GIGABIT_MIN_FRAME_WITH_EXT_def processMsgFromNetwork_def scheduleEndRxPeriod_def mac_cancelEvent_def
  handleEndRxPeriod_def frameReceptionComplete_def processPauseCommand_def scheduleEndPausePeriod_def PAUSE_BITTIME_def

lemma due_timers_are_handled_witness:
  "\<exists>m. mac_timers m ENDIFG = Some (1 + 96 / 10000000) \<and>
     (\<exists>m'. mac_handleMessage (\<lambda>a b. a) 10000000 False (1 + 96 / 10000000) (MacTimeout ENDIFG) (m :: unit EtherMAC) = Inr m')"
proof -
  let ?evs = "[(0, FromUpper (exampleFrame ETH_FRAME)), (1, EndAutoconfig)] :: (simtime \<times> unit mac_event) list"
  obtain m where m: "mac_exec (\<lambda>a b. a) 10000000 False ?evs (station False) = Inr m"
      "mac_timers m ENDIFG = Some (1 + 96 / 10000000)"
    by (simp add: mac_eval)
  show ?thesis using due_timers_are_handled[OF mac_exec_run[OF station_run m(1)] m(2)] m(2) by blast
qed

lemma zero_pause_stops_transmitter_witness:
  "\<exists>m. transmitState m = PAUSE_STATE \<and> mac_timers m ENDPAUSE = None \<and> txQueue (m :: unit EtherMAC) \<noteq> []"
proof -
  let ?p = "\<lambda>u. exampleFrame (ETH_PAUSE u)"
  let ?d = "512 / 10000000 :: real"
  let ?evs = "[(1, EndAutoconfig), (2, FromNetwork (?p 5)), (2 + ?d, MacTimeout ENDRECEPTION),
     (2 + ?d, FromNetwork (?p 0))] :: (simtime \<times> unit mac_event) list"
  obtain m where m: "mac_exec (\<lambda>a b. a) 10000000 True ?evs (station True) = Inr m"
      "transmitState m = PAUSE_STATE" "frameBeingReceived m = Some (?p 0)"
      "mac_timers m ENDRECEPTION = Some (2 + 2 * ?d)"
    "\<exists>m1 m2. mac_handleMessage (\<lambda>a b. a) 10000000 True (2 + 2 * ?d) (MacTimeout ENDRECEPTION) m = Inr m1 \<and>
      mac_handleMessage (\<lambda>a b. a) 10000000 True 3 (FromUpper (exampleFrame ETH_FRAME)) m1 = Inr m2 \<and> txQueue m2 \<noteq> []"
    by (simp add: mac_eval)
  from m(5) obtain m1 m2 where
    s: "mac_handleMessage (\<lambda>a b. a) 10000000 True (2 + 2 * ?d) (MacTimeout ENDRECEPTION) m = Inr m1"
    "mac_handleMessage (\<lambda>a b. a) 10000000 True 3 (FromUpper (exampleFrame ETH_FRAME)) m1 = Inr m2" "txQueue m2 \<noteq> []"
    by blast
  have p: "mac_path (\<lambda>a b. a) 10000000 True noPause m1 m2"
    by (rule mac_path_step[OF mac_path_refl _ _ s(2)]) (simp_all add: mac_admissible_def)
  show ?thesis
    using zero_pause_stops_transmitter[OF mac_exec_run[OF station_run m(1)] m(2,3) _ _ m(4) s(1) p, of 0] s(3)
    by (auto simp: exampleFrame_def)
qed

end
