(* ===== verification/Ether_LLC.thy ===== *)
theory Ether_LLC
  imports Ether_MAC IPv4_Routing
begin

text \<open>
  The modules between the network layer and the Ethernet MAC: \<open>EtherLLC.cc\<close>, the 802.3 LLC with its
  table of registered DSAPs, and \<open>EtherEncap.cc\<close>, Ethernet II. A frame is a \<open>MacMsg\<close> whose content
  is the header that follows the addresses, with the packet. A packet from a higher layer comes
  with its kind, its length in bits and its control information, which may be missing.
\<close>

section \<open>Frames, control information\<close>

datatype 'p EtherPDU =
    EthernetII (pdu_etherType: int) (pdu_packet: 'p)
  | WithLLC (pdu_ssap: int) (pdu_dsap: int) (pdu_control: int) (pdu_packet: 'p)

record Ieee802Ctrl =
  ctrl_src :: MACAddress
  ctrl_dest :: MACAddress
  ctrl_etherType :: int
  ctrl_ssap :: int
  ctrl_dsap :: int

datatype EtherCtrlKind =
  ETHCTRL_DATA | ETHCTRL_REGISTER_DSAP | ETHCTRL_DEREGISTER_DSAP | ETHCTRL_SENDPAUSE | OtherKind int

record 'p HLPacket =
  hl_kind :: EtherCtrlKind
  hl_length :: int
  hl_ctrl :: "Ieee802Ctrl option"
  hl_pause :: "int option"
  hl_packet :: 'p

definition MAX_ETHERNET_DATA :: int where "MAX_ETHERNET_DATA = 1500"
definition ETHER_MAC_FRAME_BYTES :: int where "ETHER_MAC_FRAME_BYTES = 6 + 6 + 2 + 4"
definition ETHER_LLC_HEADER_LENGTH :: int where "ETHER_LLC_HEADER_LENGTH = 3"
definition ETHER_PAUSE_COMMAND_BYTES :: int where "ETHER_PAUSE_COMMAND_BYTES = 6"

definition new_Ieee802Ctrl :: Ieee802Ctrl where
  "new_Ieee802Ctrl =
     \<lparr>ctrl_src = new_MACAddress, ctrl_dest = new_MACAddress, ctrl_etherType = 0, ctrl_ssap = 0, ctrl_dsap = 0\<rparr>"

text \<open>What the modules send: a frame to the MAC, or a packet with its control information up.\<close>

datatype 'p llc_out =
    LowerLayerOut "'p EtherPDU MacMsg"
  | UpperLayerOut int 'p Ieee802Ctrl

text \<open>\<open>encapsulate\<close> adds the length of the packet to that of the frame; short frames are padded.\<close>

definition padded :: "int \<Rightarrow> int" where
  "padded len = (if len < 8 * MIN_ETHERNET_FRAME then 8 * MIN_ETHERNET_FRAME else len)"

definition pauseFrame :: "int \<Rightarrow> 'p EtherPDU MacMsg" where
  "pauseFrame pauseUnits =
     \<lparr>mm_kind = ETH_PAUSE pauseUnits, mm_src = new_MACAddress, mm_dest = new_MACAddress,
      mm_length = padded (8 * (ETHER_MAC_FRAME_BYTES + ETHER_PAUSE_COMMAND_BYTES)),
      mm_bitError = False, mm_sendingTime = 0, mm_data = None\<rparr>"

section \<open>LLC\<close>

record EtherLLC =
  llc_seqNum :: int
  dsapToPort :: "(int, int) std_map"
  dsapsRegistered :: int
  totalFromHigherLayer :: int
  totalFromMAC :: int
  totalPassedUp :: int
  droppedUnknownDSAP :: int

definition llc_initialize :: EtherLLC where
  "llc_initialize =
     \<lparr>llc_seqNum = 0, dsapToPort = [], dsapsRegistered = 0, totalFromHigherLayer = 0, totalFromMAC = 0,
      totalPassedUp = 0, droppedUnknownDSAP = 0\<rparr>"

definition findPortForSAP :: "int \<Rightarrow> EtherLLC \<Rightarrow> int" where
  "findPortForSAP dsap l = (case map_of (dsapToPort l) dsap of None \<Rightarrow> -1 | Some p \<Rightarrow> p)"

definition llc_processPacketFromHigherLayer ::
    "'p HLPacket \<Rightarrow> EtherLLC \<Rightarrow> (EtherLLC \<times> 'p llc_out list) result" where
  "llc_processPacketFromHigherLayer msg l =
     (if hl_length msg > 8 * (MAX_ETHERNET_DATA - ETHER_LLC_HEADER_LENGTH)
      then Inl (OppError ''packet from higher layer plus LLC header exceed maximum Ethernet payload length'')
      else
        let l = l\<lparr>totalFromHigherLayer := totalFromHigherLayer l + 1\<rparr> in
        (case hl_ctrl msg of
           None \<Rightarrow> Inl (OppError ''packet from higher layer received without Ieee802Ctrl'')
         | Some c \<Rightarrow>
             Inr (l, [LowerLayerOut
               \<lparr>mm_kind = ETH_FRAME, mm_src = new_MACAddress, mm_dest = ctrl_dest c,
                mm_length = padded (8 * (ETHER_MAC_FRAME_BYTES + ETHER_LLC_HEADER_LENGTH) + hl_length msg),
                mm_bitError = False, mm_sendingTime = 0,
                mm_data = Some (WithLLC (ctrl_ssap c) (ctrl_dsap c) 0 (hl_packet msg))\<rparr>])))"

definition llc_processFrameFromMAC ::
    "'p EtherPDU MacMsg \<Rightarrow> EtherLLC \<Rightarrow> (EtherLLC \<times> 'p llc_out list) result" where
  "llc_processFrameFromMAC frame l =
     (case mm_data frame of
        Some (WithLLC ssap dsap control packet) \<Rightarrow>
          let l = l\<lparr>totalFromMAC := totalFromMAC l + 1\<rparr>;
              port = findPortForSAP dsap l
          in if port < 0 then Inr (l\<lparr>droppedUnknownDSAP := droppedUnknownDSAP l + 1\<rparr>, [])
             else Inr (l\<lparr>totalPassedUp := totalPassedUp l + 1\<rparr>,
               [UpperLayerOut port packet
                  \<lparr>ctrl_src = mm_src frame, ctrl_dest = mm_dest frame, ctrl_etherType = 0,
                   ctrl_ssap = ssap, ctrl_dsap = dsap\<rparr>])
      | _ \<Rightarrow> Inl (Exception ''check_and_cast: EtherFrameWithLLC''))"

definition handleRegisterSAP :: "int \<Rightarrow> 'p HLPacket \<Rightarrow> EtherLLC \<Rightarrow> EtherLLC result" where
  "handleRegisterSAP port msg l =
     (case hl_ctrl msg of
        None \<Rightarrow> Inl (OppError ''packet from higher layer received without Ieee802Ctrl'')
      | Some c \<Rightarrow>
          if map_of (dsapToPort l) (ctrl_dsap c) \<noteq> None then Inl (OppError ''DSAP already registered'')
          else
            let m = map_put (ctrl_dsap c) port (dsapToPort l)
            in Inr (l\<lparr>dsapToPort := m, dsapsRegistered := int (length m)\<rparr>))"

text \<open>To erase the end iterator, which \<open>find\<close> returns for an unknown DSAP, is undefined: an error here.\<close>

definition handleDeregisterSAP :: "'p HLPacket \<Rightarrow> EtherLLC \<Rightarrow> EtherLLC result" where
  "handleDeregisterSAP msg l =
     (case hl_ctrl msg of
        None \<Rightarrow> Inl (OppError ''packet from higher layer received without Ieee802Ctrl'')
      | Some c \<Rightarrow>
          if map_of (dsapToPort l) (ctrl_dsap c) = None then Inl (Exception ''erase(end())'')
          else
            let m = map_erase (ctrl_dsap c) (dsapToPort l)
            in Inr (l\<lparr>dsapToPort := m, dsapsRegistered := int (length m)\<rparr>))"

definition llc_handleSendPause :: "'p HLPacket \<Rightarrow> EtherLLC \<Rightarrow> (EtherLLC \<times> 'p llc_out list) result" where
  "llc_handleSendPause msg l =
     (case hl_pause msg of
        None \<Rightarrow> Inl (OppError ''PAUSE command from higher layer received without EtherCtrl'')
      | Some pauseUnits \<Rightarrow>
          Inr (l\<lparr>llc_seqNum := llc_seqNum l + 1\<rparr>, [LowerLayerOut (pauseFrame pauseUnits)]))"

datatype 'p llc_msg = FromHigherLayer int "'p HLPacket" | FromMAC "'p EtherPDU MacMsg"

definition llc_handleMessage :: "'p llc_msg \<Rightarrow> EtherLLC \<Rightarrow> (EtherLLC \<times> 'p llc_out list) result" where
  "llc_handleMessage m l =
     (case m of
        FromMAC frame \<Rightarrow>
          (case mm_kind frame of
             ETH_FRAME \<Rightarrow> llc_processFrameFromMAC frame l
           | _ \<Rightarrow> Inl (OppError ''received message with unknown message kind''))
      | FromHigherLayer port msg \<Rightarrow>
          (case hl_kind msg of
             ETHCTRL_DATA \<Rightarrow> llc_processPacketFromHigherLayer msg l
           | ETHCTRL_REGISTER_DSAP \<Rightarrow> emap (\<lambda>l. (l, [])) (handleRegisterSAP port msg l)
           | ETHCTRL_DEREGISTER_DSAP \<Rightarrow> emap (\<lambda>l. (l, [])) (handleDeregisterSAP msg l)
           | ETHCTRL_SENDPAUSE \<Rightarrow> llc_handleSendPause msg l
           | OtherKind _ \<Rightarrow> Inl (OppError ''received message with unknown message kind'')))"

section \<open>Ethernet II encapsulation\<close>

record EtherEncap =
  enc_seqNum :: int
  enc_totalFromHigherLayer :: int
  enc_totalFromMAC :: int
  totalPauseSent :: int

definition enc_registerInterface :: "string \<Rightarrow> int \<Rightarrow> MACAddress \<Rightarrow> InterfaceTable \<Rightarrow> InterfaceTable result" where
  "enc_registerInterface moduleName port mac tbl =
     addInterface \<lparr>if_name = interfaceNameOf moduleName, outputPort = port, mtu = 1500, isLoopback = False,
       isBroadcastIf = True, llAddrStr = mac_str mac, ipv4 = new_IPv4InterfaceData\<rparr> tbl"

definition enc_initialize :: "string \<Rightarrow> int \<Rightarrow> MACAddress \<Rightarrow> InterfaceTable \<Rightarrow> (EtherEncap \<times> InterfaceTable) result" where
  "enc_initialize moduleName port mac tbl =
     emap (Pair \<lparr>enc_seqNum = 0, enc_totalFromHigherLayer = 0, enc_totalFromMAC = 0, totalPauseSent = 0\<rparr>)
       (enc_registerInterface moduleName port mac tbl)"

definition enc_processPacketFromHigherLayer ::
    "'p HLPacket \<Rightarrow> EtherEncap \<Rightarrow> (EtherEncap \<times> 'p llc_out list) result" where
  "enc_processPacketFromHigherLayer msg e =
     (if hl_length msg > 8 * MAX_ETHERNET_DATA
      then Inl (OppError ''packet from higher layer exceeds maximum Ethernet payload length'')
      else
        let e = e\<lparr>enc_totalFromHigherLayer := enc_totalFromHigherLayer e + 1\<rparr> in
        (case hl_ctrl msg of
           None \<Rightarrow> Inl (Exception ''check_and_cast: Ieee802Ctrl'')
         | Some c \<Rightarrow>
             Inr (e, [LowerLayerOut
               \<lparr>mm_kind = ETH_FRAME, mm_src = ctrl_src c, mm_dest = ctrl_dest c,
                mm_length = padded (8 * ETHER_MAC_FRAME_BYTES + hl_length msg),
                mm_bitError = False, mm_sendingTime = 0,
                mm_data = Some (EthernetII (ctrl_etherType c) (hl_packet msg))\<rparr>])))"

definition enc_processFrameFromMAC ::
    "'p EtherPDU MacMsg \<Rightarrow> EtherEncap \<Rightarrow> (EtherEncap \<times> 'p llc_out list) result" where
  "enc_processFrameFromMAC frame e =
     (let e = e\<lparr>enc_totalFromMAC := enc_totalFromMAC e + 1\<rparr> in
      (case mm_data frame of
         None \<Rightarrow> Inl (NullPointer ''higherlayermsg'')
       | Some pdu \<Rightarrow>
           Inr (e, [UpperLayerOut 0 (pdu_packet pdu)
                      (new_Ieee802Ctrl\<lparr>ctrl_src := mm_src frame, ctrl_dest := mm_dest frame\<rparr>)])))"

definition enc_handleSendPause :: "'p HLPacket \<Rightarrow> EtherEncap \<Rightarrow> (EtherEncap \<times> 'p llc_out list) result" where
  "enc_handleSendPause msg e =
     (case hl_pause msg of
        None \<Rightarrow> Inl (OppError ''PAUSE command from higher layer received without EtherCtrl'')
      | Some pauseUnits \<Rightarrow>
          Inr (e\<lparr>enc_seqNum := enc_seqNum e + 1, totalPauseSent := totalPauseSent e + 1\<rparr>,
            [LowerLayerOut (pauseFrame pauseUnits)]))"

definition enc_handleMessage :: "'p llc_msg \<Rightarrow> EtherEncap \<Rightarrow> (EtherEncap \<times> 'p llc_out list) result" where
  "enc_handleMessage m e =
     (case m of
        FromMAC frame \<Rightarrow> enc_processFrameFromMAC frame e
      | FromHigherLayer port msg \<Rightarrow>
          (case hl_kind msg of
             ETHCTRL_DATA \<Rightarrow> enc_processPacketFromHigherLayer msg e
           | ETHCTRL_SENDPAUSE \<Rightarrow> enc_handleSendPause msg e
           | OtherKind k \<Rightarrow>
               if k = 0 then enc_processPacketFromHigherLayer msg e
               else Inl (OppError ''received message with unknown message kind'')
           | _ \<Rightarrow> Inl (OppError ''received message with unknown message kind'')))"

section \<open>Frames and the modules around\<close>

lemma padded_bounds: "len \<le> m \<Longrightarrow> 8 * MIN_ETHERNET_FRAME \<le> m \<Longrightarrow> 8 * MIN_ETHERNET_FRAME \<le> padded len \<and> padded len \<le> m"
  by (auto simp: padded_def)

text \<open>The frames of both modules keep to the sizes of Ethernet.\<close>

definition legal_length :: "'p llc_out \<Rightarrow> bool" where
  "legal_length out = (case out of
     LowerLayerOut f \<Rightarrow> 8 * MIN_ETHERNET_FRAME \<le> mm_length f \<and> mm_length f \<le> 8 * MAX_ETHERNET_FRAME
   | _ \<Rightarrow> True)"

lemmas ether_sizes = MIN_ETHERNET_FRAME_def MAX_ETHERNET_FRAME_def MAX_ETHERNET_DATA_def
  ETHER_MAC_FRAME_BYTES_def ETHER_LLC_HEADER_LENGTH_def ETHER_PAUSE_COMMAND_BYTES_def

lemma llc_frames_legal:
  assumes "llc_handleMessage m l = Inr (l', outs)"
  shows "list_all legal_length outs"
proof -
  have "list_all legal_length outs"
    if "llc_processPacketFromHigherLayer msg l = Inr (l', outs)" for msg
    using that by (auto simp: llc_processPacketFromHigherLayer_def legal_length_def padded_def ether_sizes Let_def
      split: if_splits option.splits)
  moreover have "list_all legal_length outs" if "llc_processFrameFromMAC f l = Inr (l', outs)" for f
    using that by (auto simp: llc_processFrameFromMAC_def legal_length_def Let_def
      split: if_splits option.splits EtherPDU.splits)
  moreover have "list_all legal_length outs" if "llc_handleSendPause msg l = Inr (l', outs)" for msg
    using that by (auto simp: llc_handleSendPause_def pauseFrame_def legal_length_def padded_def ether_sizes
      split: option.splits)
  ultimately show ?thesis using assms
    by (auto simp: llc_handleMessage_def split: llc_msg.splits MacMsgKind.splits EtherCtrlKind.splits)
qed

text \<open>The table of the DSAPs, and the number of its entries that is shown.\<close>

definition llc_ok :: "EtherLLC \<Rightarrow> bool" where
  "llc_ok l \<longleftrightarrow> map_ok (dsapToPort l) \<and> dsapsRegistered l = int (length (dsapToPort l))"

lemma llc_handleMessage_ok: "llc_ok l \<Longrightarrow> llc_handleMessage m l = Inr (l', outs) \<Longrightarrow> llc_ok l'"
  by (auto simp: llc_ok_def llc_handleMessage_def llc_processFrameFromMAC_def llc_processPacketFromHigherLayer_def
      llc_handleSendPause_def handleRegisterSAP_def handleDeregisterSAP_def Let_def
      split: llc_msg.splits MacMsgKind.splits EtherCtrlKind.splits option.splits EtherPDU.splits if_splits)

text \<open>
  A packet a higher layer hands to the LLC of one station becomes a frame the MAC takes into its
  queue (unless it is addressed to the station itself or the queue is over its limit), and the LLC
  of the station that receives the frame passes exactly this packet, with the SAPs and the
  addresses of the frame, to the port on which the destination SAP was registered.
\<close>

theorem llc_delivers_to_registered_port:
  assumes "llc_processPacketFromHigherLayer msg l = Inr (l', [LowerLayerOut frame])" "hl_ctrl msg = Some c"
    "handleRegisterSAP port reg l2 = Inr l3" "hl_ctrl reg = Some r" "ctrl_dsap r = ctrl_dsap c" "port \<ge> 0"
    "\<not> mac_equals (ctrl_dest c) (myaddress m)" "txQueueLimit m = 0 \<or> int (length (txQueue m)) \<le> txQueueLimit m"
    "mac_inv m" "\<not> mac_disabled m"
  shows "(\<exists>m'. processFrameFromUpperLayer now frame m = Inr m' \<and> mac_inv m' \<and>
      mm_data (last (txQueue m')) = mm_data frame \<and> mm_dest (last (txQueue m')) = mm_dest frame) \<and>
    (\<exists>l4. llc_processFrameFromMAC (frame\<lparr>mm_src := s, mm_length := n\<rparr>) l3 = Inr (l4,
       [UpperLayerOut port (hl_packet msg)
          \<lparr>ctrl_src = s, ctrl_dest = ctrl_dest c, ctrl_etherType = 0, ctrl_ssap = ctrl_ssap c, ctrl_dsap = ctrl_dsap c\<rparr>]))"
proof -
  have f: "mm_kind frame = ETH_FRAME" "mm_dest frame = ctrl_dest c"
     "mm_data frame = Some (WithLLC (ctrl_ssap c) (ctrl_dsap c) 0 (hl_packet msg))"
     "mm_length frame \<le> 8 * MAX_ETHERNET_FRAME"
    using assms(1,2) by (auto simp: llc_processPacketFromHigherLayer_def Let_def padded_def ether_sizes split: if_splits)
  obtain m1 where e: "enqueueFrame frame m = Inr m1" "mm_data (last (txQueue m1)) = mm_data frame"
      "mm_dest (last (txQueue m1)) = mm_dest frame"
    using assms(8) f(1) by (auto simp: enqueueFrame_def upd_stats_def Let_def)
  have q: "txQueue m1 \<noteq> []" by (rule enqueueFrame_inv(4)[OF e(1)])
  have "mac_inv m1" using assms(9) enqueueFrame_inv[OF e(1)] by (simp add: mac_inv_def)
  have "\<exists>m'. processFrameFromUpperLayer now frame m = Inr m' \<and> txQueue m' = txQueue m1"
  proof (cases "\<not> autoconfigInProgress m1 \<and> (duplexMode m1 \<or> receiveState m1 = RX_IDLE_STATE) \<and>
          transmitState m1 = TX_IDLE_STATE")
    case True
    then have "mac_timers m1 ENDIFG = None" using \<open>mac_inv m1\<close> by (auto simp: mac_inv_def tx_ok_def)
    then show ?thesis using True e(1) f assms(7)
      by (simp add: processFrameFromUpperLayer_def scheduleEndIFGPeriod_def mac_scheduleAt_def)
  next
    case False
    then show ?thesis using e(1) f assms(7) by (auto simp: processFrameFromUpperLayer_def)
  qed
  then have "\<exists>m'. processFrameFromUpperLayer now frame m = Inr m' \<and> mac_inv m' \<and>
      mm_data (last (txQueue m')) = mm_data frame \<and> mm_dest (last (txQueue m')) = mm_dest frame"
    using processFrameFromUpperLayer_inv[OF assms(9,10)] e(2,3) by metis
  moreover have "map_of (dsapToPort l3) (ctrl_dsap c) = Some port"
    using assms(3-5) by (auto simp: handleRegisterSAP_def Let_def split: if_splits)
  ultimately show ?thesis using assms(6) f(2,3)
    by (auto simp: llc_processFrameFromMAC_def findPortForSAP_def Let_def)
qed

lemma llc_delivers_to_registered_port_witness:
  "\<exists>frame l4. llc_processFrameFromMAC (frame\<lparr>mm_src := setBroadcast, mm_length := 968\<rparr>)
       (llc_initialize\<lparr>dsapToPort := [(6, 2)], dsapsRegistered := 1\<rparr>) = Inr (l4,
       [UpperLayerOut 2 (7 :: int)
          \<lparr>ctrl_src = setBroadcast, ctrl_dest = setBroadcast, ctrl_etherType = 0, ctrl_ssap = 1, ctrl_dsap = 6\<rparr>])"
proof -
  let ?c = "\<lparr>ctrl_src = new_MACAddress, ctrl_dest = setBroadcast, ctrl_etherType = 0, ctrl_ssap = 1, ctrl_dsap = 6\<rparr>"
  let ?p = "\<lambda>k. \<lparr>hl_kind = k, hl_length = 800, hl_ctrl = Some ?c, hl_pause = None, hl_packet = 7 :: int\<rparr>"
  obtain frame where f: "llc_processPacketFromHigherLayer (?p ETHCTRL_DATA) llc_initialize =
      Inr (llc_initialize\<lparr>totalFromHigherLayer := 1\<rparr>, [LowerLayerOut frame])"
    by (simp add: llc_processPacketFromHigherLayer_def llc_initialize_def ether_sizes)
  have r: "handleRegisterSAP 2 (?p ETHCTRL_REGISTER_DSAP) llc_initialize =
      Inr (llc_initialize\<lparr>dsapToPort := [(6, 2)], dsapsRegistered := 1\<rparr>)"
    by (simp add: handleRegisterSAP_def llc_initialize_def)
  have m: "\<not> mac_equals (ctrl_dest ?c) (myaddress (station False :: int EtherPDU EtherMAC))"
    "txQueueLimit (station False :: int EtherPDU EtherMAC) = 0" "\<not> mac_disabled (station False :: int EtherPDU EtherMAC)"
    by (simp_all add: station_def mac_equals_def setBroadcast_def)
  have i: "mac_inv (station False :: int EtherPDU EtherMAC)" by (rule mac_run_inv[OF station_run])
  show ?thesis
    using llc_delivers_to_registered_port[OF f _ r _ _ _ m(1) disjI1[OF m(2)] i m(3), of ?c] by fastforce
qed

end
