(* ===== verification/Ether_Bus.thy ===== *)
theory Ether_Bus
  imports Ether_MAC
begin

text \<open>
  The shared media: the hub (\<open>EtherHub.cc\<close>), which repeats what it receives on all its other ports,
  and the bus (\<open>EtherBus.cc\<close>), which carries a frame from tap to tap in both directions. The
  positions of the taps are the parameter of the module as a list of numbers.
\<close>

section \<open>Hub\<close>

record EtherHub =
  hub_ports :: nat
  hub_numMessages :: int

definition hub_initialize :: "nat \<Rightarrow> nat \<Rightarrow> (EtherHub \<times> (nat \<times> bool) list) result" where
  "hub_initialize ins outs =
     (if outs \<noteq> ins then Inl (OppError ''the sizes of the in[] and out[] gate vectors must be the same'')
      else Inr (\<lparr>hub_ports = ins, hub_numMessages = 0\<rparr>, map (\<lambda>i. (i, True)) [0..<ins]))"

definition hub_handleMessage :: "nat \<Rightarrow> 'm \<Rightarrow> EtherHub \<Rightarrow> EtherHub \<times> (nat \<times> 'm) list" where
  "hub_handleMessage arrivalPort msg h =
     (h\<lparr>hub_numMessages := hub_numMessages h + 1\<rparr>,
      if hub_ports h \<le> 1 then []
      else map (\<lambda>i. (i, msg)) (filter (\<lambda>i. i \<noteq> arrivalPort) [0..<hub_ports h]))"

section \<open>Bus\<close>

datatype BusDirection = UPSTREAM | DOWNSTREAM

record BusTap =
  tap_position :: real
  upstreamDelay :: simtime
  downstreamDelay :: simtime

record EtherBus =
  bus_tap :: "BusTap list"
  propagationSpeed :: real

fun tapPosition :: "real list \<Rightarrow> nat \<Rightarrow> real" where
  "tapPosition pos 0 = (if pos \<noteq> [] then pos ! 0 else 5)"
| "tapPosition pos (Suc i) =
     (if Suc i < length pos then pos ! Suc i
      else tapPosition pos i +
        (if length pos \<ge> 2 then pos ! (length pos - 1) - pos ! (length pos - 2) else 5))"

fun delayDown :: "(nat \<Rightarrow> real) \<Rightarrow> real \<Rightarrow> nat \<Rightarrow> nat \<Rightarrow> simtime" where
  "delayDown p speed taps i = (if i \<noteq> 0 \<and> i = taps - 1 then 0 else (p (i + 1) - p i) / speed)"

fun delayUp :: "(nat \<Rightarrow> real) \<Rightarrow> real \<Rightarrow> nat \<Rightarrow> nat \<Rightarrow> simtime" where
  "delayUp p speed taps 0 = 0"
| "delayUp p speed taps (Suc i) = delayDown p speed taps i"

text \<open>
  A bus with one tap reads the position of a second one, which does not exist. The last component
  of the result is the autoconfiguration message for each tap: half-duplex, 10 Mbps.
\<close>

definition bus_initialize :: "nat \<Rightarrow> nat \<Rightarrow> real \<Rightarrow> real list \<Rightarrow> (EtherBus \<times> (nat \<times> bool \<times> real) list) result" where
  "bus_initialize taps outs speed pos =
     (if outs \<noteq> taps then Inl (OppError ''the sizes of the in[] and out[] gate vectors must be the same'')
      else if list_ex (\<lambda>i. tapPosition pos i > tapPosition pos (i + 1)) [0..<taps - 1]
      then Inl (OppError ''Tap positions must be ordered in ascending fashion'')
      else if taps = 1 then Inl (Exception ''tap[1]: out of bounds'')
      else
        let p = tapPosition pos in
        Inr (\<lparr>bus_tap = map (\<lambda>i. \<lparr>tap_position = p i, upstreamDelay = delayUp p speed taps i,
                 downstreamDelay = delayDown p speed taps i\<rparr>) [0..<taps], propagationSpeed = speed\<rparr>,
             map (\<lambda>i. (i, True, 10000000)) [0..<taps]))"

definition propagationDelay :: "BusDirection \<Rightarrow> BusTap \<Rightarrow> simtime" where
  "propagationDelay dir t = (case dir of UPSTREAM \<Rightarrow> upstreamDelay t | DOWNSTREAM \<Rightarrow> downstreamDelay t)"

record 'm BusEvent =
  ev_time :: simtime
  ev_dir :: BusDirection
  ev_tap :: nat
  ev_msg :: 'm

definition bus_fromNetwork :: "simtime \<Rightarrow> nat \<Rightarrow> 'm \<Rightarrow> EtherBus \<Rightarrow> 'm BusEvent list" where
  "bus_fromNetwork now tapPoint msg b =
     (let t = bus_tap b ! tapPoint in
      (if tapPoint > 0
       then [\<lparr>ev_time = now + propagationDelay UPSTREAM t, ev_dir = UPSTREAM, ev_tap = tapPoint - 1, ev_msg = msg\<rparr>]
       else []) @
      (if tapPoint < length (bus_tap b) - 1
       then [\<lparr>ev_time = now + propagationDelay DOWNSTREAM t, ev_dir = DOWNSTREAM, ev_tap = tapPoint + 1, ev_msg = msg\<rparr>]
       else []))"

text \<open>A self-message: the frame leaves at the tap; the event moves on unless this is the last tap.\<close>

definition bus_selfMessage :: "'m BusEvent \<Rightarrow> EtherBus \<Rightarrow> (simtime \<times> nat \<times> 'm) \<times> 'm BusEvent option" where
  "bus_selfMessage e b =
     (let isLast = (case ev_dir e of UPSTREAM \<Rightarrow> ev_tap e = 0 | DOWNSTREAM \<Rightarrow> ev_tap e = length (bus_tap b) - 1)
      in ((ev_time e, ev_tap e, ev_msg e),
          if isLast then None
          else Some (e\<lparr>ev_tap := (case ev_dir e of UPSTREAM \<Rightarrow> ev_tap e - 1 | DOWNSTREAM \<Rightarrow> ev_tap e + 1),
                       ev_time := ev_time e + propagationDelay (ev_dir e) (bus_tap b ! ev_tap e)\<rparr>)))"

text \<open>The journey of an event, from one firing to the next.\<close>

definition tapsLeft :: "'m BusEvent \<Rightarrow> EtherBus \<Rightarrow> nat" where
  "tapsLeft e b = (case ev_dir e of UPSTREAM \<Rightarrow> ev_tap e | DOWNSTREAM \<Rightarrow> length (bus_tap b) - 1 - ev_tap e)"

lemma tapsLeft_decreases:
  "ev_tap e < length (bus_tap b) \<Longrightarrow> snd (bus_selfMessage e b) = Some e' \<Longrightarrow>
     tapsLeft e' b < tapsLeft e b \<and> ev_tap e' < length (bus_tap b)"
  by (auto simp: bus_selfMessage_def tapsLeft_def Let_def split: BusDirection.splits if_splits)

function bus_journey :: "EtherBus \<Rightarrow> 'm BusEvent \<Rightarrow> (simtime \<times> nat \<times> 'm) list" where
  "bus_journey b e =
     (if ev_tap e < length (bus_tap b) then
        (case bus_selfMessage e b of
           (out, None) \<Rightarrow> [out]
         | (out, Some e') \<Rightarrow> out # bus_journey b e')
      else [])"
  by pat_completeness auto
termination
  by (relation "measure (\<lambda>(b, e). tapsLeft e b)")
     (auto simp: prod_eq_iff, metis tapsLeft_decreases)

declare bus_journey.simps [simp del]

definition bus_carries :: "simtime \<Rightarrow> nat \<Rightarrow> 'm \<Rightarrow> EtherBus \<Rightarrow> (simtime \<times> nat \<times> 'm) list" where
  "bus_carries now tapPoint msg b = concat (map (bus_journey b) (bus_fromNetwork now tapPoint msg b))"

section \<open>Every tap gets the frame, after the delay of its distance\<close>

declare tapPosition.simps [simp del] delayDown.simps [simp del] delayUp.simps [simp del]

lemma delays_between_taps:
  assumes "Suc j < taps"
  shows "delayUp p speed taps (Suc j) = (p (Suc j) - p j) / speed"
    "delayDown p speed taps j = (p (Suc j) - p j) / speed"
  using assms by (auto simp: delayDown.simps delayUp.simps)

lemma bus_initialize_taps:
  assumes "bus_initialize taps outs speed pos = Inr (b, ac)"
  shows "length (bus_tap b) = taps"
    "j < taps \<Longrightarrow> upstreamDelay (bus_tap b ! j) = delayUp (tapPosition pos) speed taps j"
    "j < taps \<Longrightarrow> downstreamDelay (bus_tap b ! j) = delayDown (tapPosition pos) speed taps j"
  using assms by (auto simp: bus_initialize_def Let_def split: if_splits)

definition busEvent :: "simtime \<Rightarrow> BusDirection \<Rightarrow> nat \<Rightarrow> 'm \<Rightarrow> 'm BusEvent" where
  "busEvent t dir j f = \<lparr>ev_time = t, ev_dir = dir, ev_tap = j, ev_msg = f\<rparr>"

lemma bus_journey_up:
  assumes "bus_initialize taps outs speed pos = Inr (b, ac)" "j < taps"
  shows "bus_journey b (busEvent t UPSTREAM j f) =
    map (\<lambda>k. (t + (tapPosition pos j - tapPosition pos k) / speed, k, f)) (rev [0..<Suc j])"
  using assms(2)
proof (induction j arbitrary: t)
  case 0
  then show ?case
    by (simp add: bus_journey.simps busEvent_def bus_selfMessage_def bus_initialize_taps[OF assms(1)])
next
  case (Suc j)
  have "bus_journey b (busEvent t UPSTREAM (Suc j) f) = (t, Suc j, f) #
      bus_journey b (busEvent (t + (tapPosition pos (Suc j) - tapPosition pos j) / speed) UPSTREAM j f)"
    using Suc.prems
    by (subst bus_journey.simps)
       (simp add: busEvent_def bus_selfMessage_def bus_initialize_taps[OF assms(1)] propagationDelay_def delays_between_taps)
  then show ?case using Suc by (simp add: diff_divide_distrib)
qed

lemma bus_journey_down:
  assumes "bus_initialize taps outs speed pos = Inr (b, ac)" "j < taps"
  shows "bus_journey b (busEvent t DOWNSTREAM j f) =
    map (\<lambda>k. (t + (tapPosition pos k - tapPosition pos j) / speed, k, f)) [j..<taps]"
  using assms(2)
proof (induction "taps - Suc j" arbitrary: j t)
  case 0
  then have "j = taps - 1" by simp
  then show ?case using 0
    by (subst bus_journey.simps)
       (simp add: busEvent_def bus_selfMessage_def bus_initialize_taps[OF assms(1)] upt_rec)
next
  case (Suc n)
  then have j: "j \<noteq> taps - 1" "Suc j < taps" "n = taps - Suc (Suc j)" by simp_all
  have "bus_journey b (busEvent t DOWNSTREAM j f) = (t, j, f) #
      bus_journey b (busEvent (t + (tapPosition pos (Suc j) - tapPosition pos j) / speed) DOWNSTREAM (Suc j) f)"
    using Suc.prems j
    by (subst bus_journey.simps)
       (simp add: busEvent_def bus_selfMessage_def bus_initialize_taps[OF assms(1)] propagationDelay_def delays_between_taps)
  then show ?case using Suc.hyps(1)[OF j(3,2)] Suc.prems
    by (simp add: upt_rec[of j] diff_divide_distrib)
qed

text \<open>
  A frame that enters the bus at one tap leaves it exactly once at every other tap and never at
  its own, each time after the propagation delay of the distance between the two taps; first the
  taps upstream are reached, nearest first, and likewise those downstream.
\<close>

theorem bus_reaches_every_other_tap:
  assumes "bus_initialize taps outs speed pos = Inr (b, ac)" "i < taps"
  shows "bus_carries now i f b =
    map (\<lambda>k. (now + (tapPosition pos i - tapPosition pos k) / speed, k, f)) (rev [0..<i]) @
    map (\<lambda>k. (now + (tapPosition pos k - tapPosition pos i) / speed, k, f)) [Suc i..<taps]"
proof -
  note t = bus_initialize_taps[OF assms(1)]
  have up: "bus_journey b \<lparr>ev_time = now + upstreamDelay (bus_tap b ! i), ev_dir = UPSTREAM, ev_tap = i - 1, ev_msg = f\<rparr> =
    map (\<lambda>k. (now + (tapPosition pos i - tapPosition pos k) / speed, k, f)) (rev [0..<i])" if pos: "i > 0"
  proof -
    obtain n where n: "i = Suc n" using pos by (cases i) auto
    show ?thesis
      using bus_journey_up[OF assms(1), of n "now + (tapPosition pos (Suc n) - tapPosition pos n) / speed" f] assms(2)
      by (simp add: n t busEvent_def delays_between_taps diff_divide_distrib)
  qed
  have down: "bus_journey b \<lparr>ev_time = now + downstreamDelay (bus_tap b ! i), ev_dir = DOWNSTREAM, ev_tap = i + 1, ev_msg = f\<rparr> =
    map (\<lambda>k. (now + (tapPosition pos k - tapPosition pos i) / speed, k, f)) [Suc i..<taps]" if "i < taps - 1"
    using bus_journey_down[OF assms(1), of "Suc i" "now + (tapPosition pos (Suc i) - tapPosition pos i) / speed" f]
      assms(2) that
    by (simp add: t busEvent_def delays_between_taps diff_divide_distrib)
  show ?thesis using assms(2) up down
    by (auto simp: bus_carries_def bus_fromNetwork_def propagationDelay_def t(1) Let_def)
qed

lemma bus_reaches_every_other_tap_witness:
  "\<exists>b. bus_carries 0 1 () b = [(1 / 2, 0, ()), (1, 2, ())]"
proof -
  obtain b ac where b: "bus_initialize 3 3 10 [0, 5, 15] = Inr (b, ac)"
    by (simp add: bus_initialize_def upt_rec numeral_eq_Suc tapPosition.simps Let_def)
  have p: "tapPosition [0, 5, 15] 0 = 0" "tapPosition [0, 5, 15] 1 = 5" "tapPosition [0, 5, 15] 2 = 15"
    by (simp_all add: numeral_eq_Suc tapPosition.simps)
  show ?thesis
    using bus_reaches_every_other_tap[OF b, of 1 0 "()"] p by (auto simp: upt_rec numeral_2_eq_2 intro!: exI[of _ b])
qed

end
