(* ===== verification/PPP_Link.thy ===== *)
theory PPP_Link
  imports IPv4_Routing
begin

text \<open>
  Point-to-point links: \<open>PPPModule.cc\<close> with its transmission queue, the throughput meter
  \<open>ThruputMeter.cc\<close>, and the older \<open>IPv6PPPInterface.cc\<close>, which handles one message at a time and
  drops what arrives meanwhile. \<open>'p\<close> is the type of packets; lengths are in bits.
\<close>

section \<open>PPPModule\<close>

definition PPP_OVERHEAD_BYTES :: int where "PPP_OVERHEAD_BYTES = 7"

record 'p PPPFrame =
  pf_length :: int
  pf_bitError :: bool
  pf_payload :: 'p

datatype 'p ppp_out = PPPPhysOut "'p PPPFrame" | NetwOut 'p | PPPRequestPacket

record 'p PPPModule =
  connectedIf :: bool
  ppp_txQueueLimit :: int
  ppp_txQueue :: "('p \<times> int) list"
  endTransmissionEvent :: "simtime option"
  ppp_queueModule :: bool
  ppp_numSent :: int
  numRcvdOK :: int
  numBitErr :: int
  numDroppedIfaceDown :: int
  ppp_log :: "'p ppp_out list"

definition ppp_encapsulate :: "'p \<times> int \<Rightarrow> 'p PPPFrame" where
  "ppp_encapsulate msg =
     \<lparr>pf_length = 8 * PPP_OVERHEAD_BYTES + snd msg, pf_bitError = False, pf_payload = fst msg\<rparr>"

definition ppp_decapsulate :: "'p PPPFrame \<Rightarrow> 'p" where
  "ppp_decapsulate pppFrame = pf_payload pppFrame"

definition ppp_send :: "'p ppp_out \<Rightarrow> 'p PPPModule \<Rightarrow> 'p PPPModule" where
  "ppp_send out m = m\<lparr>ppp_log := ppp_log m @ [out]\<rparr>"

text \<open>
  \<open>transmissionFinishes\<close> is the kernel's: when the last bit of a frame of this length leaves the gate.
  An event that is scheduled already cannot be scheduled again.
\<close>

definition startTransmitting ::
    "(int \<Rightarrow> simtime) \<Rightarrow> 'p \<times> int \<Rightarrow> 'p PPPModule \<Rightarrow> 'p PPPModule result" where
  "startTransmitting transmissionFinishes msg m =
     (let pppFrame = ppp_encapsulate msg;
          m = ppp_send (PPPPhysOut pppFrame) m
      in if endTransmissionEvent m \<noteq> None then Inl (TimerMisuse ''scheduleAt(): message already scheduled'')
         else Inr (m\<lparr>endTransmissionEvent := Some (transmissionFinishes (pf_length pppFrame))\<rparr>))"

datatype 'p ppp_msg = PPPEndTx | PhysIn "'p PPPFrame" | NetwIn 'p int

definition ppp_handleMessage ::
    "(int \<Rightarrow> simtime) \<Rightarrow> 'p ppp_msg \<Rightarrow> 'p PPPModule \<Rightarrow> 'p PPPModule result" where
  "ppp_handleMessage transmissionFinishes msg m =
     (if \<not> connectedIf m then Inr (m\<lparr>numDroppedIfaceDown := numDroppedIfaceDown m + 1\<rparr>)
      else
        (case msg of
           PPPEndTx \<Rightarrow>
             let m = m\<lparr>endTransmissionEvent := None\<rparr> in
             (case ppp_txQueue m of
                p # q \<Rightarrow>
                  emap (\<lambda>m. m\<lparr>ppp_numSent := ppp_numSent m + 1\<rparr>)
                    (startTransmitting transmissionFinishes p (m\<lparr>ppp_txQueue := q\<rparr>))
              | [] \<Rightarrow> Inr (if ppp_queueModule m then ppp_send PPPRequestPacket m else m))
         | PhysIn frame \<Rightarrow>
             if pf_bitError frame then Inr (m\<lparr>numBitErr := numBitErr m + 1\<rparr>)
             else Inr (ppp_send (NetwOut (ppp_decapsulate frame)) (m\<lparr>numRcvdOK := numRcvdOK m + 1\<rparr>))
         | NetwIn p len \<Rightarrow>
             if endTransmissionEvent m \<noteq> None then
               if ppp_txQueueLimit m \<noteq> 0 \<and> int (length (ppp_txQueue m)) > ppp_txQueueLimit m
               then Inl (OppError ''txQueue length exceeds limit'')
               else Inr (m\<lparr>ppp_txQueue := ppp_txQueue m @ [(p, len)]\<rparr>)
             else
               emap (\<lambda>m. m\<lparr>ppp_numSent := ppp_numSent m + 1\<rparr>)
                 (startTransmitting transmissionFinishes (p, len) m)))"

text \<open>
  \<open>linkRates\<close>: the data rates of the connections on the path from the gate, \<open>None\<close> for a connection
  without a channel; \<open>lladdr\<close> is generated from the kernel's unique numbers.
\<close>

fun firstRate :: "real option list \<Rightarrow> real option" where
  "firstRate [] = None"
| "firstRate (r # rs) = (case r of Some d \<Rightarrow> if d > 0 then Some d else firstRate rs | None \<Rightarrow> firstRate rs)"

definition ppp_registerInterface :: "string \<Rightarrow> int \<Rightarrow> string \<Rightarrow> InterfaceTable \<Rightarrow> InterfaceTable result" where
  "ppp_registerInterface moduleName port lladdr tbl =
     addInterface \<lparr>if_name = interfaceNameOf moduleName, outputPort = port, mtu = 4470, isLoopback = False,
       isBroadcastIf = False, llAddrStr = lladdr, ipv4 = new_IPv4InterfaceData\<rparr> tbl"

definition ppp_initialize ::
    "int \<Rightarrow> bool \<Rightarrow> bool \<Rightarrow> real option list \<Rightarrow> string \<Rightarrow> int \<Rightarrow> string \<Rightarrow> InterfaceTable \<Rightarrow>
      ('p PPPModule \<times> InterfaceTable) result" where
  "ppp_initialize limit queue conn linkRates moduleName port lladdr tbl =
     (if conn \<and> firstRate linkRates = None
      then Inl (OppError ''gate physOut must be connected to a link with data rate'')
      else
        let m = \<lparr>connectedIf = conn, ppp_txQueueLimit = limit, ppp_txQueue = [], endTransmissionEvent = None,
              ppp_queueModule = queue, ppp_numSent = 0, numRcvdOK = 0, numBitErr = 0, numDroppedIfaceDown = 0,
              ppp_log = []\<rparr>
        in emap (Pair (if queue then ppp_send PPPRequestPacket m else m))
             (ppp_registerInterface moduleName port lladdr tbl))"

section \<open>ThruputMeter\<close>

text \<open>
  The two vectors record, for each interval that ended, bits and packets per second; over an empty
  interval the quotient is not a number of HOL (\<open>None\<close>).
\<close>

record ThruputMeter =
  batchsize :: int
  maxinterval :: int
  numpackets :: int
  numbits :: int
  intvl_starttime :: simtime
  intvl_lastpktime :: simtime
  intvl_numpackets :: int
  intvl_numbits :: int
  thruputVectors :: "(real \<times> real) option list"

definition tm_initialize :: "int \<Rightarrow> int \<Rightarrow> ThruputMeter" where
  "tm_initialize batch interval =
     \<lparr>batchsize = batch, maxinterval = interval, numpackets = 0, numbits = 0, intvl_starttime = 0,
      intvl_lastpktime = 0, intvl_numpackets = 0, intvl_numbits = 0, thruputVectors = []\<rparr>"

definition beginNewInterval :: "simtime \<Rightarrow> ThruputMeter \<Rightarrow> ThruputMeter" where
  "beginNewInterval now m =
     (let duration = now - intvl_starttime m
      in m\<lparr>thruputVectors := thruputVectors m @
             [if duration = 0 then None
              else Some (of_int (intvl_numbits m) / duration, of_int (intvl_numpackets m) / duration)],
           intvl_starttime := now, intvl_numpackets := 0, intvl_numbits := 0\<rparr>)"

definition tm_updateStats :: "simtime \<Rightarrow> int \<Rightarrow> ThruputMeter \<Rightarrow> ThruputMeter" where
  "tm_updateStats now bits m =
     (let m = m\<lparr>numpackets := numpackets m + 1, numbits := numbits m + bits\<rparr>;
          m = (if intvl_numpackets m \<ge> batchsize m \<or> now - intvl_starttime m \<ge> of_int (maxinterval m)
               then beginNewInterval now m else m)
      in m\<lparr>intvl_numpackets := intvl_numpackets m + 1, intvl_numbits := intvl_numbits m + bits,
           intvl_lastpktime := now\<rparr>)"

definition tm_handleMessage :: "simtime \<Rightarrow> 'p \<times> int \<Rightarrow> ThruputMeter \<Rightarrow> ThruputMeter \<times> 'p" where
  "tm_handleMessage now msg m = (tm_updateStats now (snd msg) m, fst msg)"

section \<open>IPv6PPPInterface\<close>

definition PPP_HEADER_LENGTH :: int where "PPP_HEADER_LENGTH = 6"

datatype PPP_ProtocolFieldId = PPP_PROT_UNDEF | PPP_PROT_IP | PPP_PROT_LCD | PPP_PROT_NCD

record 'p PPP6Frame =
  p6_length :: int
  p6_protocol :: PPP_ProtocolFieldId
  p6_destAddr :: string
  p6_bitError :: bool
  p6_payload :: "'p option"

definition new_PPP6Frame :: "'p PPP6Frame" where
  "new_PPP6Frame = \<lparr>p6_length = 8 * PPP_HEADER_LENGTH, p6_protocol = PPP_PROT_UNDEF, p6_destAddr = [],
     p6_bitError = False, p6_payload = None\<rparr>"

text \<open>A packet of the network layer comes with its length and the address of the next hop, if given.\<close>

datatype 'p p6_msg = P6FromNetwork "'p PPP6Frame" | P6FromUpper 'p int "string option"

record 'p IPv6PPPInterface =
  procdelay :: simtime
  cntReceivedPackets :: int
  waitTmr :: "simtime option"
  curMessage :: "'p p6_msg option"

datatype 'p p6_out = P6PhysOut "'p PPP6Frame" | P6NetwOut "'p option"

definition receiveFromUpperLayer :: "'p \<Rightarrow> int \<Rightarrow> string option \<Rightarrow> 'p PPP6Frame result" where
  "receiveFromUpperLayer msg len ctrlInfo =
     (case ctrlInfo of
        None \<Rightarrow> Inl (Exception ''check_and_cast: LL6ControlInfo'')
      | Some dest \<Rightarrow>
          Inr (new_PPP6Frame\<lparr>p6_destAddr := dest, p6_length := 8 * PPP_HEADER_LENGTH + len,
                 p6_protocol := PPP_PROT_IP, p6_payload := Some msg\<rparr>))"

definition p6_handleMessage ::
    "simtime \<Rightarrow> 'p p6_msg \<Rightarrow> 'p IPv6PPPInterface \<Rightarrow> 'p IPv6PPPInterface result" where
  "p6_handleMessage now theMsg m =
     (if waitTmr m = None \<and> curMessage m = None
      then Inr (m\<lparr>waitTmr := Some (procdelay m + now), curMessage := Some theMsg\<rparr>)
      else if waitTmr m \<noteq> None then Inr m
      else Inl (AssertFailed ''false''))"

definition p6_handleWaitTmr :: "'p IPv6PPPInterface \<Rightarrow> ('p IPv6PPPInterface \<times> 'p p6_out list) result" where
  "p6_handleWaitTmr m =
     (let m' = m\<lparr>waitTmr := None, curMessage := None\<rparr> in
      (case curMessage m of
         None \<Rightarrow> Inl (NullPointer ''msg'')
       | Some (P6FromUpper p len ctrl) \<Rightarrow>
           emap (\<lambda>f. (m', [P6PhysOut f])) (receiveFromUpperLayer p len ctrl)
       | Some (P6FromNetwork f) \<Rightarrow>
           let m' = m'\<lparr>cntReceivedPackets := cntReceivedPackets m' + 1\<rparr> in
           Inr (m', if p6_bitError f then [] else [P6NetwOut (p6_payload f)])))"

definition p6_initialize :: "simtime \<Rightarrow> 'p IPv6PPPInterface" where
  "p6_initialize d = \<lparr>procdelay = d, cntReceivedPackets = 0, waitTmr = None, curMessage = None\<rparr>"

section \<open>The queue of a link\<close>

text \<open>
  The module over its life: \<open>acc\<close> are the packets of the network layer it has taken. The end of a
  transmission comes when it is scheduled.
\<close>

inductive ppp_run :: "'p PPPModule \<Rightarrow> 'p list \<Rightarrow> bool" where
  ppp_start: "ppp_initialize limit queue conn rates name port lladdr tbl = Inr (m, tbl') \<Longrightarrow> ppp_run m []"
| ppp_step: "\<lbrakk>ppp_run m acc; msg = PPPEndTx \<longrightarrow> endTransmissionEvent m \<noteq> None;
     ppp_handleMessage fin msg m = Inr m'\<rbrakk> \<Longrightarrow>
     ppp_run m' (case msg of NetwIn p len \<Rightarrow> if connectedIf m then acc @ [p] else acc | _ \<Rightarrow> acc)"

definition ppp_sent :: "'p PPPModule \<Rightarrow> 'p list" where
  "ppp_sent m = concat (map (\<lambda>out. case out of PPPPhysOut f \<Rightarrow> [pf_payload f] | _ \<Rightarrow> []) (ppp_log m))"

definition ppp_inv :: "'p PPPModule \<Rightarrow> 'p list \<Rightarrow> bool" where
  "ppp_inv m acc \<longleftrightarrow> ppp_sent m @ map fst (ppp_txQueue m) = acc \<and>
     (endTransmissionEvent m = None \<longrightarrow> ppp_txQueue m = []) \<and> ppp_numSent m = int (length (ppp_sent m))"

lemma ppp_sent_simps [simp]:
  "ppp_sent (ppp_send (PPPPhysOut f) m) = ppp_sent m @ [pf_payload f]"
  "ppp_sent (ppp_send (NetwOut p) m) = ppp_sent m"
  "ppp_sent (ppp_send PPPRequestPacket m) = ppp_sent m"
  "ppp_sent (m\<lparr>ppp_txQueue := q\<rparr>) = ppp_sent m"
  "ppp_sent (m\<lparr>endTransmissionEvent := e\<rparr>) = ppp_sent m"
  "ppp_sent (m\<lparr>ppp_numSent := n\<rparr>) = ppp_sent m"
  "ppp_sent (m\<lparr>numRcvdOK := n\<rparr>) = ppp_sent m"
  "ppp_sent (m\<lparr>numBitErr := n\<rparr>) = ppp_sent m"
  "ppp_sent (m\<lparr>numDroppedIfaceDown := n\<rparr>) = ppp_sent m"
  by (simp_all add: ppp_sent_def ppp_send_def)

lemma ppp_send_keeps [simp]:
  "endTransmissionEvent (ppp_send out m) = endTransmissionEvent m"
  "ppp_txQueue (ppp_send out m) = ppp_txQueue m" "ppp_numSent (ppp_send out m) = ppp_numSent m"
  by (simp_all add: ppp_send_def)

lemma ppp_handleMessage_inv:
  assumes "ppp_inv m acc" "msg = PPPEndTx \<longrightarrow> endTransmissionEvent m \<noteq> None" "ppp_handleMessage fin msg m = Inr m'"
  shows "ppp_inv m' (case msg of NetwIn p len \<Rightarrow> if connectedIf m then acc @ [p] else acc | _ \<Rightarrow> acc)"
  using assms
  by (cases msg)
     (auto simp: ppp_handleMessage_def ppp_inv_def startTransmitting_def ppp_encapsulate_def Let_def
       split: if_splits list.splits)

text \<open>
  C40: on a PPP link the packets of the network layer leave in the order they came and each of them
  once: those sent so far, followed by those in the queue, are those taken; the counter is the
  number of packets sent; a link that is not transmitting has an empty queue, and the end of a
  transmission never finds the next one already scheduled.
\<close>

theorem ppp_link_is_fifo:
  assumes "ppp_run m acc"
  shows "ppp_sent m @ map fst (ppp_txQueue m) = acc \<and> ppp_numSent m = int (length (ppp_sent m)) \<and>
    (endTransmissionEvent m \<noteq> None \<or> ppp_txQueue m = []) \<and>
    (\<exists>m'. ppp_handleMessage fin PPPEndTx m = Inr m')"
proof -
  have "ppp_inv m acc" using assms
  proof induction
    case (ppp_start limit queue conn rates name port lladdr tbl m tbl')
    then show ?case by (auto simp: ppp_initialize_def ppp_inv_def ppp_sent_def ppp_send_def Let_def split: if_splits)
  next
    case ppp_step
    then show ?case using ppp_handleMessage_inv by blast
  qed
  then show ?thesis
    by (auto simp: ppp_inv_def ppp_handleMessage_def startTransmitting_def Let_def split: list.splits)
qed

lemma ppp_link_is_fifo_witness:
  "\<exists>m. ppp_sent m = [1] \<and> map fst (ppp_txQueue m) = [2, 3 :: nat]"
proof -
  let ?ini = "ppp_initialize 0 False True [None, Some 64000] ''ppp[0]'' 0 ''1:1'' [] :: (nat PPPModule \<times> InterfaceTable) result"
  obtain m tbl where i: "?ini = Inr (m, tbl)" "connectedIf m" "endTransmissionEvent m = None"
      "ppp_txQueueLimit m = 0" "ppp_txQueue m = []" "ppp_log m = []"
    by (simp add: ppp_initialize_def ppp_registerInterface_def addInterface_def)
  have r: "ppp_run m []" by (rule ppp_start[OF i(1)])
  obtain m1 where s1: "ppp_handleMessage (\<lambda>_. 1) (NetwIn 1 800) m = Inr m1" "connectedIf m1"
      "endTransmissionEvent m1 \<noteq> None" "ppp_txQueueLimit m1 = 0" "ppp_sent m1 = [1]"
    using i by (simp add: ppp_handleMessage_def startTransmitting_def ppp_send_def ppp_encapsulate_def ppp_sent_def)
  have r1: "ppp_run m1 [1]" using ppp_step[OF r _ s1(1)] i(2) by simp
  obtain m2 where s2: "ppp_handleMessage (\<lambda>_. 1) (NetwIn 2 800) m1 = Inr m2" "connectedIf m2"
      "endTransmissionEvent m2 \<noteq> None" "ppp_txQueueLimit m2 = 0" "ppp_sent m2 = [1]"
    using s1 by (simp add: ppp_handleMessage_def ppp_sent_def)
  have r2: "ppp_run m2 [1, 2]" using ppp_step[OF r1 _ s2(1)] s1(2) by simp
  obtain m3 where s3: "ppp_handleMessage (\<lambda>_. 1) (NetwIn 3 800) m2 = Inr m3" "ppp_sent m3 = [1]"
    using s2 by (simp add: ppp_handleMessage_def ppp_sent_def)
  have r3: "ppp_run m3 [1, 2, 3]" using ppp_step[OF r2 _ s3(1)] s2(2) by simp
  show ?thesis using ppp_link_is_fifo[OF r3] s3(2) by auto
qed

end
