(* ===== verification/UDP_Processing.thy ===== *)
theory UDP_Processing
  imports TCP_Segment Std_Map
begin

text \<open>
  The module \<open>UDPProcessing\<close> of \<open>src/Transport/UDP\<close>. The payload of a packet is of type \<open>'m\<close>;
  control information is an argument beside the message it is attached to, and a missing one is
  \<open>None\<close>. What is sent is a list.
\<close>

definition UDP_HEADER_BYTES :: int where "UDP_HEADER_BYTES = 8"
definition IP_PROT_UDP :: int where "IP_PROT_UDP = 17"
definition UDP_C_DATA :: int where "UDP_C_DATA = 0"
definition UDP_C_BIND :: int where "UDP_C_BIND = 1"
definition UDP_C_UNBIND :: int where "UDP_C_UNBIND = 2"

record UDPControlInfo =
  u_srcAddr :: IPvXAddress
  u_destAddr :: IPvXAddress
  u_srcPort :: int
  u_destPort :: int
  u_inputPort :: int
  u_trace :: bool

record 'm UDPPacket =
  sourcePort :: int
  destinationPort :: int
  udp_length :: int
  hasBitError :: bool
  udp_kind :: int
  udp_payload :: "'m option"

text \<open>The control information of the IP layers, and what each gate gets.\<close>

datatype IPCtrl =
    IPv4Ctrl uint32 uint32 int
  | IPv6Ctrl "uint32 \<times> uint32 \<times> uint32 \<times> uint32" "uint32 \<times> uint32 \<times> uint32 \<times> uint32" int

datatype 'm udp_out =
    ToApp int "'m" UDPControlInfo
  | ToIP "'m UDPPacket" uint32 uint32
  | ToIPv6 "'m UDPPacket" "uint32 \<times> uint32 \<times> uint32 \<times> uint32" "uint32 \<times> uint32 \<times> uint32 \<times> uint32"

record UDP =
  dispatchByPort :: bool
  port2indexMap :: "(int, int) std_map"
  numSent :: int
  numPassedUp :: int
  numDroppedWrongPort :: int
  numDroppedBadChecksum :: int

definition UDP_initialize :: "int \<Rightarrow> UDP" where
  "UDP_initialize appGates =
     \<lparr>dispatchByPort = (appGates \<noteq> 1), port2indexMap = [], numSent = 0, numPassedUp = 0,
      numDroppedWrongPort = 0, numDroppedBadChecksum = 0\<rparr>"

definition udp_bind :: "int \<Rightarrow> int \<Rightarrow> UDP \<Rightarrow> UDP result" where
  "udp_bind gateIndex udpPort u =
     (let u = u\<lparr>dispatchByPort := False\<rparr> in
      if map_of (port2indexMap u) udpPort \<noteq> None then Inl (OppError ''bind(): port already bound'')
      else Inr (u\<lparr>port2indexMap := map_put udpPort gateIndex (port2indexMap u)\<rparr>))"

definition udp_unbind :: "int \<Rightarrow> int \<Rightarrow> UDP \<Rightarrow> UDP" where
  "udp_unbind gateIndex udpPort u =
     (if map_of (port2indexMap u) udpPort \<noteq> None
      then u\<lparr>port2indexMap := map_erase udpPort (port2indexMap u)\<rparr> else u)"

definition findAppGateForPort :: "int \<Rightarrow> UDP \<Rightarrow> int" where
  "findAppGateForPort port u =
     (if \<not> dispatchByPort u then 0
      else case map_of (port2indexMap u) port of None \<Rightarrow> -1 | Some i \<Rightarrow> i)"

definition processMsgFromIP ::
    "'m UDPPacket \<Rightarrow> IPCtrl option \<Rightarrow> UDP \<Rightarrow> ('m udp_out list \<times> UDP) result" where
  "processMsgFromIP udpPacket ctrl u =
     (if hasBitError udpPacket
      then Inr ([], u\<lparr>numDroppedBadChecksum := numDroppedBadChecksum u + 1\<rparr>)
      else
        let appGateIndex = findAppGateForPort (destinationPort udpPacket) u in
        if appGateIndex = -1 then Inr ([], u\<lparr>numDroppedWrongPort := numDroppedWrongPort u + 1\<rparr>)
        else
          ebind (case ctrl of
                   Some (IPv4Ctrl s d p) \<Rightarrow> Inr (V4 s, V4 d, p)
                 | Some (IPv6Ctrl (s0, s1, s2, s3) (d0, d1, d2, d3) p) \<Rightarrow>
                     Inr (set_v6 s0 s1 s2 s3, set_v6 d0 d1 d2 d3, p)
                 | None \<Rightarrow> Inl (OppError ''arrived from lower layer without control info''))
            (\<lambda>(srcAddr, destAddr, inputPort).
              case udp_payload udpPacket of
                None \<Rightarrow> Inl (NullPointer ''payload'')
              | Some payload \<Rightarrow>
                  Inr ([ToApp appGateIndex payload
                          \<lparr>u_srcAddr = srcAddr, u_destAddr = destAddr, u_srcPort = sourcePort udpPacket,
                           u_destPort = destinationPort udpPacket, u_inputPort = inputPort, u_trace = False\<rparr>],
                       u\<lparr>numPassedUp := numPassedUp u + 1\<rparr>)))"

text \<open>\<open>len\<close> is the length of the application's message in bits.\<close>

definition processMsgFromApp ::
    "'m \<Rightarrow> int \<Rightarrow> UDPControlInfo option \<Rightarrow> UDP \<Rightarrow> ('m udp_out list \<times> UDP) result" where
  "processMsgFromApp appData len ctrl u =
     (case ctrl of
        None \<Rightarrow> Inl (NullPointer ''UDPControlInfo'')
      | Some c \<Rightarrow>
          let udpPacket = \<lparr>sourcePort = u_srcPort c, destinationPort = u_destPort c,
                udp_length = 8 * UDP_HEADER_BYTES + len, hasBitError = False,
                udp_kind = (if u_trace c then 1 else 0), udp_payload = Some appData\<rparr>;
              u' = u\<lparr>numSent := numSent u + 1\<rparr>
          in if \<not> isIPv6 (u_destAddr c) then
               ebind (get4 (u_srcAddr c)) (\<lambda>s. ebind (get4 (u_destAddr c)) (\<lambda>d.
                 Inr ([ToIP udpPacket s d], u')))
             else
               ebind (get6 (u_srcAddr c)) (\<lambda>s. ebind (get6 (u_destAddr c)) (\<lambda>d.
                 Inr ([ToIPv6 udpPacket s d], u'))))"

definition processCommandFromApp ::
    "int \<Rightarrow> int \<Rightarrow> UDPControlInfo option \<Rightarrow> UDP \<Rightarrow> ('m udp_out list \<times> UDP) result" where
  "processCommandFromApp kind gate ctrl u =
     (case ctrl of
        None \<Rightarrow> Inl (NullPointer ''UDPControlInfo'')
      | Some c \<Rightarrow>
          if kind = UDP_C_BIND then emap (Pair []) (udp_bind gate (u_srcPort c) u)
          else if kind = UDP_C_UNBIND then Inr ([], udp_unbind gate (u_srcPort c) u)
          else Inl (OppError ''unknown command code (message kind) received from app''))"

text \<open>What arrives: a packet from IP, or a message of an application on one of its gates.\<close>

datatype 'm udp_msg =
    FromIP "'m UDPPacket" "IPCtrl option"
  | FromApp (udp_msg_kind: int) int "'m" int "UDPControlInfo option"

definition udp_handleMessage :: "'m udp_msg \<Rightarrow> UDP \<Rightarrow> ('m udp_out list \<times> UDP) result" where
  "udp_handleMessage msg u =
     (case msg of
        FromIP p c \<Rightarrow> processMsgFromIP p c u
      | FromApp kind gate appData len c \<Rightarrow>
          if kind = UDP_C_DATA then processMsgFromApp appData len c u
          else processCommandFromApp kind gate c u)"

section \<open>Histories\<close>

fun udp_run :: "'m udp_msg list \<Rightarrow> UDP \<Rightarrow> UDP result" where
  "udp_run [] u = Inr u"
| "udp_run (msg # msgs) u = ebind (udp_handleMessage msg u) (\<lambda>(_, u). udp_run msgs u)"

text \<open>The gates that the binds and unbinds among the messages leave bound to a port.\<close>

fun bound :: "(int \<rightharpoonup> int) \<Rightarrow> 'm udp_msg list \<Rightarrow> int \<rightharpoonup> int" where
  "bound m [] = m"
| "bound m (FromApp kind gate appData len (Some c) # msgs) =
     bound (if kind = UDP_C_BIND then m(u_srcPort c \<mapsto> gate)
            else if kind = UDP_C_UNBIND then m(u_srcPort c := None) else m) msgs"
| "bound m (msg # msgs) = bound m msgs"

definition is_bind :: "'m udp_msg \<Rightarrow> bool" where
  "is_bind msg \<longleftrightarrow> (case msg of FromIP _ _ \<Rightarrow> False | FromApp kind _ _ _ _ \<Rightarrow> kind = UDP_C_BIND)"

lemma codes [simp]:
  "UDP_C_BIND \<noteq> UDP_C_DATA" "UDP_C_DATA \<noteq> UDP_C_BIND" "UDP_C_UNBIND \<noteq> UDP_C_DATA" "UDP_C_DATA \<noteq> UDP_C_UNBIND"
  "UDP_C_BIND \<noteq> UDP_C_UNBIND" "UDP_C_UNBIND \<noteq> UDP_C_BIND"
  by (simp_all add: UDP_C_BIND_def UDP_C_DATA_def UDP_C_UNBIND_def)

lemma processMsgFromIP_frame:
  "processMsgFromIP p c u = Inr (out, u') \<Longrightarrow>
     port2indexMap u' = port2indexMap u \<and> dispatchByPort u' = dispatchByPort u"
  by (auto simp: processMsgFromIP_def Let_def result_simps split: if_splits option.splits)

lemma processMsgFromApp_frame:
  "processMsgFromApp a n c u = Inr (out, u') \<Longrightarrow>
     port2indexMap u' = port2indexMap u \<and> dispatchByPort u' = dispatchByPort u"
  by (auto simp: processMsgFromApp_def Let_def result_simps split: if_splits option.splits)

lemma udp_step:
  assumes "udp_handleMessage msg u = Inr (out, u')" and "map_ok (port2indexMap u)"
  shows "map_ok (port2indexMap u') \<and>
    map_of (port2indexMap u') = bound (map_of (port2indexMap u)) [msg] \<and>
    dispatchByPort u' = (dispatchByPort u \<and> \<not> is_bind msg)"
proof (cases msg)
  case (FromIP p c)
  then show ?thesis using assms processMsgFromIP_frame[of p c u out u']
    by (simp add: udp_handleMessage_def is_bind_def)
next
  case (FromApp kind gate a n c)
  show ?thesis
  proof (cases "kind = UDP_C_DATA")
    case True
    then show ?thesis using assms FromApp processMsgFromApp_frame[of a n c u out u']
      by (cases c) (simp_all add: udp_handleMessage_def is_bind_def)
  next
    case False
    then obtain c' where c: "c = Some c'"
      using assms(1) FromApp by (cases c) (auto simp: udp_handleMessage_def processCommandFromApp_def)
    have "map_of (port2indexMap u) k = None \<Longrightarrow> (map_of (port2indexMap u))(k := None) = map_of (port2indexMap u)" for k
      by (rule ext) simp
    then show ?thesis using assms False FromApp c
      by (auto simp: udp_handleMessage_def is_bind_def processCommandFromApp_def udp_bind_def udp_unbind_def
          Let_def emap_eq_Inr split: if_splits)
  qed
qed

lemma bound_Cons: "bound m (msg # msgs) = bound (bound m [msg]) msgs"
proof (cases msg)
  case (FromApp kind gate a n c)
  then show ?thesis by (cases c) simp_all
qed simp

lemma udp_run_bound:
  assumes "udp_run msgs u = Inr u'" and "map_ok (port2indexMap u)"
  shows "map_of (port2indexMap u') = bound (map_of (port2indexMap u)) msgs \<and>
    dispatchByPort u' = (dispatchByPort u \<and> (\<forall>msg \<in> set msgs. \<not> is_bind msg))"
  using assms
proof (induction msgs arbitrary: u)
  case (Cons msg msgs)
  from Cons.prems(1) obtain out v where v: "udp_handleMessage msg u = Inr (out, v)" "udp_run msgs v = Inr u'"
    by auto
  note step = udp_step[OF v(1) Cons.prems(2)]
  then show ?case using Cons.IH[OF v(2)] by (simp only: bound_Cons[of _ msg msgs]) auto
qed simp

lemma bound_no_bind:
  "\<forall>msg \<in> set msgs. \<not> is_bind msg \<Longrightarrow> m k = None \<Longrightarrow> bound m msgs k = None"
proof (induction m msgs rule: bound.induct)
  case (2 m kind gate a n c msgs)
  then show ?case by (simp add: is_bind_def split: if_splits)
qed simp_all

text \<open>
  Binding a UDP port. The table holds, for each port, the gate of the application that the
  commands so far bound to it. But incoming packets are not given to that application: the first
  bind switches dispatching by port off instead of on, so that from then on every packet without
  bit error, for whatever port, is passed up on gate 0, and before it, in a host with several
  applications, every packet is dropped.
\<close>

theorem bind_stops_dispatching:
  assumes "udp_run msgs (UDP_initialize n) = Inr u"
  shows "map_of (port2indexMap u) = bound Map.empty msgs \<and>
    (n \<noteq> 1 \<and> (\<forall>msg \<in> set msgs. \<not> is_bind msg) \<longrightarrow>
       (\<forall>p c. \<exists>u'. udp_handleMessage (FromIP p c) u = Inr ([], u'))) \<and>
    (n = 1 \<or> (\<exists>msg \<in> set msgs. is_bind msg) \<longrightarrow>
       (\<forall>p src dst i m. \<not> hasBitError p \<and> udp_payload p = Some m \<longrightarrow>
         (\<exists>info u'. udp_handleMessage (FromIP p (Some (IPv4Ctrl src dst i))) u = Inr ([ToApp 0 m info], u') \<and>
            u_srcAddr info = V4 src \<and> u_destAddr info = V4 dst \<and>
            u_srcPort info = sourcePort p \<and> u_destPort info = destinationPort p)))"
proof -
  have run: "map_of (port2indexMap u) = bound Map.empty msgs"
    "dispatchByPort u = (n \<noteq> 1 \<and> (\<forall>msg \<in> set msgs. \<not> is_bind msg))"
    using udp_run_bound[OF assms] by (simp_all add: UDP_initialize_def)
  have "map_of (port2indexMap u) k = None" if "\<forall>msg \<in> set msgs. \<not> is_bind msg" for k
    using bound_no_bind[OF that] run(1) by simp
  then show ?thesis using run
    by (auto simp: udp_handleMessage_def processMsgFromIP_def findAppGateForPort_def Let_def)
qed

lemma bind_stops_dispatching_witness:
  "\<exists>info u u'. udp_run [FromApp UDP_C_BIND 3 () 0 (Some \<lparr>u_srcAddr = nullAddr, u_destAddr = nullAddr,
        u_srcPort = 53, u_destPort = 0, u_inputPort = 0, u_trace = False\<rparr>)] (UDP_initialize 4) = Inr u \<and>
     map_of (port2indexMap u) 53 = Some 3 \<and>
     udp_handleMessage (FromIP \<lparr>sourcePort = 1, destinationPort = 53, udp_length = 64, hasBitError = False,
        udp_kind = 0, udp_payload = Some ()\<rparr> (Some (IPv4Ctrl 1 2 0))) u = Inr ([ToApp 0 () info], u')"
proof -
  let ?msgs = "[FromApp UDP_C_BIND 3 () 0 (Some \<lparr>u_srcAddr = nullAddr, u_destAddr = nullAddr,
        u_srcPort = 53, u_destPort = 0, u_inputPort = 0, u_trace = False\<rparr>)]"
  let ?p = "\<lparr>sourcePort = 1, destinationPort = 53, udp_length = 64, hasBitError = False,
        udp_kind = 0, udp_payload = Some ()\<rparr>"
  obtain u where u: "udp_run ?msgs (UDP_initialize 4) = Inr u"
    by (simp add: udp_handleMessage_def processCommandFromApp_def udp_bind_def UDP_initialize_def)
  note props = bind_stops_dispatching[OF u]
  have "\<exists>msg \<in> set ?msgs. is_bind msg" by (simp add: is_bind_def)
  note passed = mp[OF conjunct2[OF conjunct2[OF props]] disjI2[OF this]]
  have "\<not> hasBitError ?p \<and> udp_payload ?p = Some ()" by simp
  from passed[rule_format, OF this, of 1 2 0] obtain info u'
    where "udp_handleMessage (FromIP ?p (Some (IPv4Ctrl 1 2 0))) u = Inr ([ToApp 0 () info], u')" by blast
  moreover have "map_of (port2indexMap u) 53 = Some 3" using conjunct1[OF props] by simp
  ultimately show ?thesis using u by blast
qed

end
