(* ===== verification/ARP.thy ===== *)
theory ARP
  imports IPv4_Routing MAC_Address "HOL-Library.Multiset"
begin

text \<open>
  Address resolution, \<open>src/Network/ARP/ARP.cc\<close>. The cache is keyed by \<open>IPAddress\<close>, whose order is
  that of \<open>getInt\<close>: the key is that word. An entry of the cache is known by its key, where the
  code has a pointer to it; a timer is the time at which it expires. A packet from the IP layer
  is of type \<open>'m\<close>; \<open>pendingQueue\<close> is the queue that owns the packets that wait.
\<close>

datatype ARPOpcode = ARP_REQUEST | ARP_REPLY | ARP_RARP_REQUEST | ARP_RARP_REPLY | ARP_OTHER int

record ARPPacket =
  opcode :: ARPOpcode
  srcMACAddress :: MACAddress
  destMACAddress :: MACAddress
  srcIPAddress :: IPAddress
  destIPAddress :: IPAddress

datatype 'm nic_out =
    NicOut 'm int
  | NicPacket 'm int MACAddress
  | NicARP ARPPacket int MACAddress

record 'm ARPCacheEntry =
  arp_outputPort :: int
  pending :: bool
  macAddress :: MACAddress
  lastUpdate :: simtime
  numRetries :: int
  timer :: "simtime option"
  pendingPackets :: "'m list"

record 'm ARP =
  retryTimeout :: simtime
  retryCount :: int
  cacheTimeout :: simtime
  doProxyARP :: bool
  numResolutions :: int
  numFailedResolutions :: int
  numRequestsSent :: int
  numRepliesSent :: int
  arpCache :: "(uint32, 'm ARPCacheEntry) std_map"
  pendingQueue :: "'m list"
  arp_rt :: RoutingTable

definition ARP_initialize :: "simtime \<Rightarrow> int \<Rightarrow> simtime \<Rightarrow> bool \<Rightarrow> RoutingTable \<Rightarrow> 'm ARP" where
  "ARP_initialize retry retries timeout proxy rt =
     \<lparr>retryTimeout = retry, retryCount = retries, cacheTimeout = timeout, doProxyARP = proxy,
      numResolutions = 0, numFailedResolutions = 0, numRequestsSent = 0, numRepliesSent = 0,
      arpCache = [], pendingQueue = [], arp_rt = rt\<rparr>"

definition arpInterface :: "int \<Rightarrow> 'm ARP \<Rightarrow> (InterfaceEntry \<Rightarrow> 'a result) \<Rightarrow> 'a result" where
  "arpInterface port st k =
     (case interfaceByPortNo port (ift (arp_rt st)) of
        None \<Rightarrow> Inl (NullPointer ''interfaceByPortNo'') | Some ie \<Rightarrow> k ie)"

definition sendARPRequest :: "int \<Rightarrow> uint32 \<Rightarrow> 'm ARP \<Rightarrow> ('m nic_out list \<times> 'm ARP) result" where
  "sendARPRequest port ipAddress st =
     arpInterface port st (\<lambda>ie.
       ebind (mac_setAddress (Some (llAddrStr ie))) (\<lambda>myMACAddress.
         Inr ([NicARP \<lparr>opcode = ARP_REQUEST, srcMACAddress = myMACAddress, destMACAddress = new_MACAddress,
                 srcIPAddress = inetAddress (ipv4 ie), destIPAddress = ip_set ipAddress\<rparr> port setBroadcast],
              st\<lparr>numRequestsSent := numRequestsSent st + 1\<rparr>)))"

text \<open>The entry \<open>e\<close> of the address becomes pending, and \<open>msg\<close> waits for it.\<close>

definition initiateARPResolution ::
    "simtime \<Rightarrow> uint32 \<Rightarrow> 'm ARPCacheEntry \<Rightarrow> 'm \<Rightarrow> 'm ARP \<Rightarrow> ('m nic_out list \<times> 'm ARP) result" where
  "initiateARPResolution now nextHopAddr e msg st =
     emap (\<lambda>(out, st).
        (out, st\<lparr>arpCache := map_put nextHopAddr
                   (e\<lparr>pending := True, numRetries := 0, lastUpdate := 0, timer := Some (now + retryTimeout st),
                      pendingPackets := pendingPackets e @ [msg]\<rparr>) (arpCache st),
                 pendingQueue := pendingQueue st @ [msg], numResolutions := numResolutions st + 1\<rparr>))
       (sendARPRequest (arp_outputPort e) nextHopAddr st)"

definition new_ARPCacheEntry :: "int \<Rightarrow> 'm ARPCacheEntry" where
  "new_ARPCacheEntry port =
     \<lparr>arp_outputPort = port, pending = False, macAddress = new_MACAddress, lastUpdate = 0,
      numRetries = 0, timer = None, pendingPackets = []\<rparr>"

text \<open>
  A packet with the routing decision attached to it. \<open>destOf\<close> is the destination of an IP
  datagram, \<open>None\<close> for another kind of message.
\<close>

definition processOutboundPacket ::
    "('m \<Rightarrow> IPAddress option) \<Rightarrow> simtime \<Rightarrow> 'm \<Rightarrow> IPAddress \<Rightarrow> int \<Rightarrow> 'm ARP \<Rightarrow>
     ('m nic_out list \<times> 'm ARP) result" where
  "processOutboundPacket destOf now msg nextHop port st =
     arpInterface port st (\<lambda>ie.
       if \<not> isBroadcastIf ie then Inr ([NicOut msg port], st)
       else
         ebind (if \<not> ip_isNull nextHop then Inr nextHop
                else case destOf msg of None \<Rightarrow> Inl (Exception ''check_and_cast: IPDatagram'') | Some d \<Rightarrow> Inr d)
           (\<lambda>nextHop.
             if isMulticast nextHop then Inr ([NicPacket msg port setBroadcast], st)
             else
               (case map_of (arpCache st) (getInt nextHop) of
                  None \<Rightarrow> initiateARPResolution now (getInt nextHop) (new_ARPCacheEntry port) msg st
                | Some e \<Rightarrow>
                    if pending e then
                      Inr ([], st\<lparr>arpCache := map_put (getInt nextHop)
                                    (e\<lparr>pendingPackets := pendingPackets e @ [msg]\<rparr>) (arpCache st),
                                  pendingQueue := pendingQueue st @ [msg]\<rparr>)
                    else if lastUpdate e + cacheTimeout st < now then
                      initiateARPResolution now (getInt nextHop) (e\<lparr>arp_outputPort := port\<rparr>) msg st
                    else Inr ([NicPacket msg port (macAddress e)], st))))"

text \<open>The timer of the entry for \<open>nextHopAddr\<close> expires.\<close>

definition requestTimedOut :: "simtime \<Rightarrow> uint32 \<Rightarrow> 'm ARP \<Rightarrow> ('m nic_out list \<times> 'm ARP) result" where
  "requestTimedOut now nextHopAddr st =
     (case map_of (arpCache st) nextHopAddr of
        None \<Rightarrow> Inl (NullPointer ''contextPointer'')
      | Some e \<Rightarrow>
          let e = e\<lparr>numRetries := numRetries e + 1\<rparr> in
          if numRetries e < retryCount st then
            emap (\<lambda>(out, st). (out, st\<lparr>arpCache := map_put nextHopAddr
                (e\<lparr>timer := Some (now + retryTimeout st)\<rparr>) (arpCache st)\<rparr>))
              (sendARPRequest (arp_outputPort e) nextHopAddr st)
          else
            Inr ([], st\<lparr>arpCache := map_erase nextHopAddr (arpCache st),
                        pendingQueue := fold remove1 (pendingPackets e) (pendingQueue st),
                        numFailedResolutions := numFailedResolutions st + 1\<rparr>))"

definition addressRecognized :: "IPAddress \<Rightarrow> int \<Rightarrow> 'm ARP \<Rightarrow> bool result" where
  "addressRecognized dest port st =
     (if rt_localDeliver dest (arp_rt st) then Inr True
      else if \<not> doProxyARP st then Inr False
      else emap (\<lambda>rteOutputPort. port \<noteq> -1 \<and> rteOutputPort \<noteq> port) (outputPortNo dest (arp_rt st)))"

text \<open>The entry learns the address, and the packets that wait for it are sent.\<close>

definition updateARPCache ::
    "simtime \<Rightarrow> uint32 \<Rightarrow> 'm ARPCacheEntry \<Rightarrow> MACAddress \<Rightarrow> 'm ARP \<Rightarrow> 'm nic_out list \<times> 'm ARP" where
  "updateARPCache now addr e mac st =
     (let e' = (if pending e then e\<lparr>pending := False, timer := None, numRetries := 0\<rparr> else e) in
      (map (\<lambda>msg. NicPacket msg (arp_outputPort e) mac) (pendingPackets e),
       st\<lparr>arpCache := map_put addr (e'\<lparr>macAddress := mac, lastUpdate := now, pendingPackets := []\<rparr>) (arpCache st),
          pendingQueue := fold remove1 (pendingPackets e) (pendingQueue st)\<rparr>))"

text \<open>The answer to a request that is for this node.\<close>

definition answerARP :: "ARPPacket \<Rightarrow> int \<Rightarrow> 'm ARP \<Rightarrow> ('m nic_out list \<times> 'm ARP) result" where
  "answerARP arp inputPort st =
     (case opcode arp of
        ARP_REQUEST \<Rightarrow>
          arpInterface inputPort st (\<lambda>ie.
            ebind (mac_setAddress (Some (llAddrStr ie))) (\<lambda>myMACAddress.
              Inr ([NicARP (arp\<lparr>destIPAddress := srcIPAddress arp, destMACAddress := srcMACAddress arp,
                       srcIPAddress := destIPAddress arp, srcMACAddress := myMACAddress, opcode := ARP_REPLY\<rparr>)
                      inputPort (srcMACAddress arp)],
                   st\<lparr>numRepliesSent := numRepliesSent st + 1\<rparr>)))
      | ARP_REPLY \<Rightarrow> Inr ([], st)
      | ARP_RARP_REQUEST \<Rightarrow> Inl (OppError ''RARP request received: RARP is not supported'')
      | ARP_RARP_REPLY \<Rightarrow> Inl (OppError ''RARP reply received: RARP is not supported'')
      | ARP_OTHER _ \<Rightarrow> Inl (OppError ''Unsupported opcode in received ARP packet''))"

definition processARPPacket :: "simtime \<Rightarrow> ARPPacket \<Rightarrow> int \<Rightarrow> 'm ARP \<Rightarrow> ('m nic_out list \<times> 'm ARP) result" where
  "processARPPacket now arp inputPort st =
     (let addr = getInt (srcIPAddress arp);
          found = map_of (arpCache st) addr;
          (out, st) = (case found of Some e \<Rightarrow> updateARPCache now addr e (srcMACAddress arp) st | None \<Rightarrow> ([], st))
      in ebind (addressRecognized (destIPAddress arp) inputPort st) (\<lambda>recognized.
           if recognized then
             let (out', st) = (if found = None
                 then updateARPCache now addr (new_ARPCacheEntry inputPort) (srcMACAddress arp) st else ([], st))
             in emap (\<lambda>(out'', st). (out @ out' @ out'', st)) (answerARP arp inputPort st)
           else Inr (out, st)))"


section \<open>What the cache keeps\<close>

text \<open>
  An entry is pending exactly while its timer runs, and only then do packets wait for it. The
  packets that wait for some entry are those of the queue.
\<close>

definition arp_entry_ok :: "int \<Rightarrow> 'm ARPCacheEntry \<Rightarrow> bool" where
  "arp_entry_ok retries e \<longleftrightarrow> (pending e \<longleftrightarrow> timer e \<noteq> None) \<and> (pending e \<longleftrightarrow> pendingPackets e \<noteq> []) \<and>
     0 \<le> numRetries e \<and> (numRetries e < retries \<or> numRetries e = 0)"

definition waiting :: "(uint32, 'm ARPCacheEntry) std_map \<Rightarrow> 'm multiset" where
  "waiting xs = (\<Sum>(k, e) \<leftarrow> xs. mset (pendingPackets e))"

definition packetsOf :: "(uint32, 'm ARPCacheEntry) std_map \<Rightarrow> uint32 \<Rightarrow> 'm multiset" where
  "packetsOf xs k = (case map_of xs k of None \<Rightarrow> {#} | Some e \<Rightarrow> mset (pendingPackets e))"

lemma waiting_Cons [simp]: "waiting ((k, e) # xs) = mset (pendingPackets e) + waiting xs"
  and waiting_Nil [simp]: "waiting [] = {#}"
  by (simp_all add: waiting_def)

lemma packetsOf_sub: "packetsOf xs k \<subseteq># waiting xs"
  by (induction xs) (auto simp: packetsOf_def subset_mset.add_increasing)

lemma packetsOf_notin: "k \<notin> fst ` set xs \<Longrightarrow> packetsOf xs k = {#}"
  by (auto simp: packetsOf_def split: option.splits dest: map_of_SomeD intro!: rev_image_eqI)

lemma waiting_put:
  "map_ok xs \<Longrightarrow> waiting (map_put k e xs) + packetsOf xs k = waiting xs + mset (pendingPackets e)"
proof (induction xs)
  case (Cons p xs)
  obtain a b where p: "p = (a, b)" by fastforce
  have "k < a \<Longrightarrow> packetsOf xs k = {#}" using Cons.prems p by (intro packetsOf_notin) force
  then show ?case using Cons p by (auto simp: packetsOf_def)
qed (simp add: packetsOf_def)

lemma waiting_erase: "waiting (map_erase k xs) + packetsOf xs k = waiting xs"
  by (induction xs) (auto simp: packetsOf_def)

lemma mset_fold_remove1: "mset (fold remove1 ps q) = mset q - mset ps"
  by (induction ps arbitrary: q) (simp_all add: diff_diff_add)

definition arp_ok :: "'m ARP \<Rightarrow> bool" where
  "arp_ok st \<longleftrightarrow> map_ok (arpCache st) \<and>
     (\<forall>x \<in> set (arpCache st). arp_entry_ok (retryCount st) (snd x)) \<and>
     mset (pendingQueue st) = waiting (arpCache st)"

text \<open>The packets of the IP layer among what was sent.\<close>

fun sentPackets :: "'m nic_out list \<Rightarrow> 'm list" where
  "sentPackets [] = []"
| "sentPackets (NicOut m i # out) = m # sentPackets out"
| "sentPackets (NicPacket m i a # out) = m # sentPackets out"
| "sentPackets (NicARP p i a # out) = sentPackets out"

lemma sentPackets_append [simp]: "sentPackets (xs @ ys) = sentPackets xs @ sentPackets ys"
  by (induction xs rule: sentPackets.induct) simp_all

lemma sentPackets_map [simp]: "sentPackets (map (\<lambda>m. NicPacket m i a) ms) = ms"
  by (induction ms) simp_all

lemma entries_put:
  "\<forall>x \<in> set xs. P (snd x) \<Longrightarrow> P e \<Longrightarrow> \<forall>x \<in> set (map_put k e xs). P (snd x)"
  using set_map_put by fastforce

lemma entry_found: "map_of xs k = Some e \<Longrightarrow> \<forall>x \<in> set xs. P (snd x) \<Longrightarrow> P e"
  by (force dest: map_of_SomeD)

lemma sendARPRequest_frame:
  assumes "sendARPRequest port a st = Inr (out, st')"
  shows "sentPackets out = [] \<and> st' = st\<lparr>numRequestsSent := numRequestsSent st + 1\<rparr>"
  using assms by (auto simp: sendARPRequest_def arpInterface_def result_simps split: option.splits)

text \<open>
  A step that keeps \<open>arp_ok\<close> and the parameters, takes the packets \<open>ins\<close> from the IP layer and
  sends \<open>out\<close>: nothing is sent twice, and nothing is lost unless a resolution failed.
\<close>

definition arp_step_ok :: "'m list \<Rightarrow> 'm ARP \<Rightarrow> 'm nic_out list \<Rightarrow> 'm ARP \<Rightarrow> bool" where
  "arp_step_ok ins st out st' \<longleftrightarrow> arp_ok st' \<and> retryCount st' = retryCount st \<and>
     numFailedResolutions st \<le> numFailedResolutions st' \<and>
     mset (sentPackets out) + mset (pendingQueue st') \<subseteq># mset ins + mset (pendingQueue st) \<and>
     (numFailedResolutions st' = numFailedResolutions st \<longrightarrow>
        mset (sentPackets out) + mset (pendingQueue st') = mset ins + mset (pendingQueue st))"

lemma arp_put_ok:
  assumes "arp_ok st" and "arp_entry_ok (retryCount st) e"
    and "mset q + packetsOf (arpCache st) k = mset (pendingQueue st) + mset (pendingPackets e)"
  shows "arp_ok (st\<lparr>arpCache := map_put k e (arpCache st), pendingQueue := q\<rparr>)"
proof -
  have "mset q + packetsOf (arpCache st) k = waiting (map_put k e (arpCache st)) + packetsOf (arpCache st) k"
    using assms waiting_put[of "arpCache st" k e] by (simp add: arp_ok_def)
  then show ?thesis using assms entries_put[of "arpCache st" "arp_entry_ok (retryCount st)" e k]
    by (simp add: arp_ok_def)
qed

lemma initiate_ok:
  assumes "initiateARPResolution now k e msg st = Inr (out, st')" and "arp_ok st"
    and "packetsOf (arpCache st) k = mset (pendingPackets e)"
  shows "arp_step_ok [msg] st out st'"
proof -
  let ?e = "e\<lparr>pending := True, numRetries := 0, lastUpdate := 0, timer := Some (now + retryTimeout st),
    pendingPackets := pendingPackets e @ [msg]\<rparr>"
  obtain out st1 where s: "sendARPRequest (arp_outputPort e) k st = Inr (out, st1)"
    using assms(1) by (auto simp: initiateARPResolution_def)
  have st': "st' = st\<lparr>numRequestsSent := numRequestsSent st + 1, arpCache := map_put k ?e (arpCache st),
      pendingQueue := pendingQueue st @ [msg], numResolutions := numResolutions st + 1\<rparr>"
    and "sentPackets out = []"
    using assms(1) s sendARPRequest_frame[OF s] by (auto simp: initiateARPResolution_def)
  moreover have "arp_ok (st\<lparr>arpCache := map_put k ?e (arpCache st), pendingQueue := pendingQueue st @ [msg]\<rparr>)"
    using assms by (intro arp_put_ok) (simp_all add: arp_entry_ok_def)
  then have "arp_ok st'" unfolding st' by (simp add: arp_ok_def)
  ultimately show ?thesis using assms(1) s by (auto simp: arp_step_ok_def initiateARPResolution_def)
qed

lemma arp_step_refl: "arp_ok st \<Longrightarrow> arp_step_ok [] st [] st"
  by (simp add: arp_step_ok_def)

lemma mset_step_trans:
  assumes "s2 + q2 = i2 + q1" and "s1 + q1 = i1 + q0"
  shows "(s1 + s2) + q2 = (i1 + i2) + (q0 :: 'a multiset)"
proof -
  have "(s1 + s2) + q2 = s1 + (i2 + q1)" by (simp only: add.assoc assms(1))
  also have "\<dots> = i2 + (s1 + q1)" by (rule add.left_commute)
  also have "\<dots> = (i1 + i2) + q0" by (simp only: assms(2)) (simp only: ac_simps)
  finally show ?thesis .
qed

lemma arp_step_trans:
  assumes "arp_step_ok ins st out st1" and "arp_step_ok ins' st1 out' st2"
  shows "arp_step_ok (ins @ ins') st (out @ out') st2"
proof -
  note arr = add.assoc add.commute add.left_commute
  have "mset (sentPackets (out @ out')) + mset (pendingQueue st2) \<subseteq># mset (sentPackets out) + (mset ins' + mset (pendingQueue st1))"
    using assms by (simp add: arp_step_ok_def add.assoc)
  also have "\<dots> \<subseteq># mset (ins @ ins') + mset (pendingQueue st)"
    using assms(1) by (simp add: arp_step_ok_def arr)
  finally have sub: "mset (sentPackets (out @ out')) + mset (pendingQueue st2) \<subseteq># mset (ins @ ins') + mset (pendingQueue st)" .
  have "mset (sentPackets (out @ out')) + mset (pendingQueue st2) = mset (ins @ ins') + mset (pendingQueue st)"
    if eq: "numFailedResolutions st2 = numFailedResolutions st"
  proof -
    have "mset (sentPackets out') + mset (pendingQueue st2) = mset ins' + mset (pendingQueue st1)"
      and one: "mset (sentPackets out) + mset (pendingQueue st1) = mset ins + mset (pendingQueue st)"
      using assms eq by (auto simp: arp_step_ok_def)
    then show ?thesis using mset_step_trans[OF _ one] by simp
  qed
  then show ?thesis using sub assms by (simp add: arp_step_ok_def)
qed

lemma outbound_ok:
  assumes "processOutboundPacket destOf now msg nextHop port st = Inr (out, st')" and "arp_ok st"
  shows "arp_step_ok [msg] st out st'"
proof -
  have sent: "arp_step_ok [msg] st [NicOut msg port] st" "arp_step_ok [msg] st [NicPacket msg port a] st" for a
    using assms(2) by (simp_all add: arp_step_ok_def)
  have resolve: "?thesis" if nh: "\<not> isMulticast nh" and
    out: "(case map_of (arpCache st) (getInt nh) of
       None \<Rightarrow> initiateARPResolution now (getInt nh) (new_ARPCacheEntry port) msg st
     | Some e \<Rightarrow>
         if pending e then
           Inr ([], st\<lparr>arpCache := map_put (getInt nh) (e\<lparr>pendingPackets := pendingPackets e @ [msg]\<rparr>) (arpCache st),
                       pendingQueue := pendingQueue st @ [msg]\<rparr>)
         else if lastUpdate e + cacheTimeout st < now then
           initiateARPResolution now (getInt nh) (e\<lparr>arp_outputPort := port\<rparr>) msg st
         else Inr ([NicPacket msg port (macAddress e)], st)) = Inr (out, st')" for nh
  proof (cases "map_of (arpCache st) (getInt nh)")
    case None
    then show ?thesis using out assms(2)
      by (auto simp: packetsOf_def new_ARPCacheEntry_def intro: initiate_ok)
  next
    case (Some e)
    have e: "arp_entry_ok (retryCount st) e" using entry_found[OF Some, of "arp_entry_ok (retryCount st)"] assms(2) by (simp add: arp_ok_def)
    have w: "packetsOf (arpCache st) (getInt nh) = mset (pendingPackets e)" using Some by (simp add: packetsOf_def)
    show ?thesis
    proof (cases "pending e")
      case True
      have "arp_ok (st\<lparr>arpCache := map_put (getInt nh) (e\<lparr>pendingPackets := pendingPackets e @ [msg]\<rparr>) (arpCache st),
                       pendingQueue := pendingQueue st @ [msg]\<rparr>)"
        using e True w by (intro arp_put_ok[OF assms(2)]) (simp_all add: arp_entry_ok_def)
      then show ?thesis using out Some True by (auto simp: arp_step_ok_def)
    next
      case False
      then show ?thesis using out Some w sent assms(2)
        by (auto intro: initiate_ok split: if_splits)
    qed
  qed
  show ?thesis using assms(1) sent resolve
    by (auto simp: processOutboundPacket_def arpInterface_def split: option.splits if_splits)
qed

lemma timeout_ok:
  assumes "requestTimedOut now k st = Inr (out, st')" and "arp_ok st"
    and "map_of (arpCache st) k = Some e" and "timer e \<noteq> None"
  shows "arp_step_ok [] st out st'"
proof -
  have e: "arp_entry_ok (retryCount st) e" using entry_found[OF assms(3), of "arp_entry_ok (retryCount st)"] assms(2) by (simp add: arp_ok_def)
  have w: "packetsOf (arpCache st) k = mset (pendingPackets e)" using assms(3) by (simp add: packetsOf_def)
  show ?thesis
  proof (cases "numRetries e + 1 < retryCount st")
    case True
    let ?e = "e\<lparr>numRetries := numRetries e + 1, timer := Some (now + retryTimeout st)\<rparr>"
    obtain out1 st1 where s: "sendARPRequest (arp_outputPort e) k st = Inr (out1, st1)"
      using assms(1,3) True by (auto simp: requestTimedOut_def Let_def)
    have st': "st' = st\<lparr>numRequestsSent := numRequestsSent st + 1, arpCache := map_put k ?e (arpCache st)\<rparr>"
      and "sentPackets out = []"
      using assms(1,3) True s sendARPRequest_frame[OF s] by (auto simp: requestTimedOut_def Let_def)
    moreover have "arp_ok (st\<lparr>arpCache := map_put k ?e (arpCache st), pendingQueue := pendingQueue st\<rparr>)"
      using e w assms(4) True by (intro arp_put_ok[OF assms(2)]) (auto simp: arp_entry_ok_def)
    then have "arp_ok st'" unfolding st' by (simp add: arp_ok_def)
    ultimately show ?thesis by (simp add: arp_step_ok_def)
  next
    case False
    then have st': "out = []" "st' = st\<lparr>arpCache := map_erase k (arpCache st),
        pendingQueue := fold remove1 (pendingPackets e) (pendingQueue st),
        numFailedResolutions := numFailedResolutions st + 1\<rparr>"
      using assms(1,3) by (simp_all add: requestTimedOut_def Let_def)
    have q: "mset (pendingQueue st) = waiting (map_erase k (arpCache st)) + mset (pendingPackets e)"
      using waiting_erase[of k "arpCache st"] w assms(2) by (simp add: arp_ok_def)
    then have "mset (pendingQueue st') = waiting (map_erase k (arpCache st))" by (simp add: st' mset_fold_remove1)
    moreover have "\<forall>x \<in> set (map_erase k (arpCache st)). arp_entry_ok (retryCount st) (snd x)"
      using assms(2) by (auto simp: arp_ok_def dest: map_erase_mem)
    moreover have "waiting (map_erase k (arpCache st)) \<subseteq># mset (pendingQueue st)"
      by (simp only: q mset_subset_eq_add_left)
    ultimately show ?thesis using assms(2) by (simp add: arp_step_ok_def arp_ok_def st')
  qed
qed

lemma updateARPCache_ok:
  assumes "updateARPCache now k e mac st = (out, st')" and "arp_ok st"
    and "packetsOf (arpCache st) k = mset (pendingPackets e)" and "0 \<le> numRetries e"
    and "numRetries e < retryCount st \<or> numRetries e = 0" and "\<not> pending e \<Longrightarrow> timer e = None"
  shows "arp_step_ok [] st out st'"
proof -
  let ?e = "(if pending e then e\<lparr>pending := False, timer := None, numRetries := 0\<rparr> else e)
    \<lparr>macAddress := mac, lastUpdate := now, pendingPackets := []\<rparr>"
  let ?q = "fold remove1 (pendingPackets e) (pendingQueue st)"
  have st': "st' = st\<lparr>arpCache := map_put k ?e (arpCache st), pendingQueue := ?q\<rparr>"
    and out: "sentPackets out = pendingPackets e"
    using assms(1) by (auto simp: updateARPCache_def Let_def)
  have "mset (pendingPackets e) \<subseteq># mset (pendingQueue st)"
    using packetsOf_sub[of "arpCache st" k] assms(2,3) by (simp add: arp_ok_def)
  then have q: "mset ?q + mset (pendingPackets e) = mset (pendingQueue st)" by (simp add: mset_fold_remove1)
  have "arp_ok st'" unfolding st' using q assms(3-6)
    by (intro arp_put_ok[OF assms(2)]) (auto simp: arp_entry_ok_def)
  then show ?thesis using out q by (simp add: arp_step_ok_def st' add.commute)
qed

lemma arp_ok_reply [simp]: "arp_ok (st\<lparr>numRepliesSent := n\<rparr>) = arp_ok st"
  by (simp add: arp_ok_def)

lemma answer_ok:
  assumes "answerARP arp port st = Inr (out, st')" and "arp_ok st"
  shows "arp_step_ok [] st out st'"
  using assms by (auto simp: answerARP_def arpInterface_def arp_step_ok_def result_simps
      split: ARPOpcode.splits option.splits)

lemma processARPPacket_ok:
  assumes "processARPPacket now arp port st = Inr (out, st')" and "arp_ok st"
  shows "arp_step_ok [] st out st'"
proof -
  let ?k = "getInt (srcIPAddress arp)"
  obtain out1 st1 where upd: "(case map_of (arpCache st) ?k of
      Some e \<Rightarrow> updateARPCache now ?k e (srcMACAddress arp) st | None \<Rightarrow> ([], st)) = (out1, st1)" by fastforce
  have one: "arp_step_ok [] st out1 st1"
  proof (cases "map_of (arpCache st) ?k")
    case None
    then show ?thesis using upd assms(2) by (simp add: arp_step_refl)
  next
    case (Some e)
    have "arp_entry_ok (retryCount st) e" using entry_found[OF Some, of "arp_entry_ok (retryCount st)"] assms(2) by (simp add: arp_ok_def)
    then show ?thesis using upd Some
      by (intro updateARPCache_ok[OF _ assms(2)]) (auto simp: packetsOf_def arp_entry_ok_def)
  qed
  then have ok1: "arp_ok st1" by (simp add: arp_step_ok_def)
  obtain r where r: "addressRecognized (destIPAddress arp) port st1 = Inr r"
    using assms(1) upd by (auto simp: processARPPacket_def Let_def)
  show ?thesis
  proof (cases r)
    case False
    then show ?thesis using assms(1) upd r one by (simp add: processARPPacket_def Let_def)
  next
    case True
    obtain out2 st2 where upd2: "(if map_of (arpCache st) ?k = None
        then updateARPCache now ?k (new_ARPCacheEntry port) (srcMACAddress arp) st1 else ([], st1)) = (out2, st2)"
      by fastforce
    have "arp_step_ok [] st1 out2 st2"
    proof (cases "map_of (arpCache st) ?k")
      case None
      then show ?thesis using upd2 upd
        by (intro updateARPCache_ok[OF _ ok1]) (auto simp: packetsOf_def new_ARPCacheEntry_def)
    next
      case (Some e)
      then show ?thesis using upd2 ok1 by (simp add: arp_step_refl)
    qed
    note two = arp_step_trans[OF one this]
    then have "arp_ok st2" by (simp add: arp_step_ok_def)
    moreover obtain out3 where "answerARP arp port st2 = Inr (out3, st')" "out = out1 @ out2 @ out3"
      using assms(1) upd r True upd2 by (auto simp: processARPPacket_def Let_def)
    ultimately show ?thesis using arp_step_trans[OF two answer_ok] by simp
  qed
qed

text \<open>
  Histories from initialisation, with the packets \<open>ins\<close> that came from the IP layer and all that
  was sent: packets to send, ARP packets that arrive, and timers that are due.
\<close>

inductive arp_run ::
    "('m \<Rightarrow> IPAddress option) \<Rightarrow> 'm ARP \<Rightarrow> simtime \<Rightarrow> 'm ARP \<Rightarrow> 'm list \<Rightarrow> 'm nic_out list \<Rightarrow> bool"
  for destOf st0 where
  arp_init: "arp_run destOf st0 0 st0 [] []"
| arp_outbound: "arp_run destOf st0 t st ins outs \<Longrightarrow> t \<le> t' \<Longrightarrow>
    processOutboundPacket destOf t' msg nextHop port st = Inr (out, st') \<Longrightarrow>
    arp_run destOf st0 t' st' (ins @ [msg]) (outs @ out)"
| arp_inbound: "arp_run destOf st0 t st ins outs \<Longrightarrow> t \<le> t' \<Longrightarrow>
    processARPPacket t' arp port st = Inr (out, st') \<Longrightarrow>
    arp_run destOf st0 t' st' ins (outs @ out)"
| arp_timer: "arp_run destOf st0 t st ins outs \<Longrightarrow> t \<le> t' \<Longrightarrow>
    map_of (arpCache st) k = Some e \<Longrightarrow> timer e = Some t' \<Longrightarrow>
    requestTimedOut t' k st = Inr (out, st') \<Longrightarrow>
    arp_run destOf st0 t' st' ins (outs @ out)"

lemma arp_run_ok:
  assumes "arp_run destOf st0 t st ins outs" and "arp_ok st0"
  shows "arp_step_ok ins st0 outs st"
  using assms(1)
proof (induction rule: arp_run.induct)
  case arp_init
  then show ?case using assms(2) by (rule arp_step_refl)
next
  case (arp_outbound t st ins outs t' msg nextHop port out st')
  have "arp_ok st" using arp_outbound.IH by (simp add: arp_step_ok_def)
  from outbound_ok[OF arp_outbound.hyps(3) this] show ?case by (rule arp_step_trans[OF arp_outbound.IH])
next
  case (arp_inbound t st ins outs t' arp port out st')
  have "arp_ok st" using arp_inbound.IH by (simp add: arp_step_ok_def)
  from arp_step_trans[OF arp_inbound.IH processARPPacket_ok[OF arp_inbound.hyps(3) this]] show ?case by simp
next
  case (arp_timer t st ins outs t' k e out st')
  have "arp_ok st" using arp_timer.IH by (simp add: arp_step_ok_def)
  from timeout_ok[OF arp_timer.hyps(5) this arp_timer.hyps(3)] arp_timer.hyps(4)
  have "arp_step_ok [] st out st'" by simp
  from arp_step_trans[OF arp_timer.IH this] show ?case by simp
qed

text \<open>
  Proxy ARP answers for addresses it has no route to: the test is on the port the request came
  from, where the comment asks for a port of the route.
\<close>

lemma proxy_answers_unroutable:
  assumes "doProxyARP st" and "outputPortNo dest (arp_rt st) = Inr (-1)" and "0 \<le> port"
  shows "addressRecognized dest port st = Inr True"
  using assms by (simp add: addressRecognized_def)

lemma ARP_initialize_ok: "arp_ok (ARP_initialize r n c proxy rt)"
  by (simp add: arp_ok_def ARP_initialize_def)

text \<open>
  C35: Address resolution keeps its packets. After any history a cache entry is pending exactly
  while its timer runs and packets wait for it, and it has been retried fewer times than the
  retry count allows; the packets sent and the packets that wait are packets that came from the
  IP layer, none of them twice; and as long as no resolution has failed they are all of them.
\<close>

theorem arp_keeps_packets:
  assumes "arp_run destOf (ARP_initialize r n c proxy rt) t st ins outs"
  shows "(\<forall>x \<in> set (arpCache st). (pending (snd x) \<longleftrightarrow> timer (snd x) \<noteq> None) \<and>
      (pending (snd x) \<longleftrightarrow> pendingPackets (snd x) \<noteq> []) \<and>
      (numRetries (snd x) < n \<or> numRetries (snd x) = 0)) \<and>
    mset (sentPackets outs) + mset (pendingQueue st) \<subseteq># mset ins \<and>
    mset (pendingQueue st) = waiting (arpCache st) \<and>
    (numFailedResolutions st = 0 \<longrightarrow> mset (sentPackets outs) + mset (pendingQueue st) = mset ins)"
proof -
  have "arp_step_ok ins (ARP_initialize r n c proxy rt) outs st"
    using arp_run_ok[OF assms ARP_initialize_ok] .
  moreover from this have "retryCount st = n" by (simp add: arp_step_ok_def ARP_initialize_def)
  ultimately show ?thesis
    by (auto simp: arp_step_ok_def arp_ok_def arp_entry_ok_def ARP_initialize_def)
qed

definition arpExample :: RoutingTable where
  "arpExample = \<lparr>ift = [\<lparr>if_name = ''eth0'', outputPort = 0, mtu = 1500, isLoopback = False,
      isBroadcastIf = True, llAddrStr = mac_str new_MACAddress, ipv4 = new_IPv4InterfaceData\<rparr>],
     routerId = ip_null, ipForward = False, routes = [], multicastRoutes = []\<rparr>"

lemma arp_keeps_packets_witness:
  "\<exists>st outs. arp_run (\<lambda>_ :: nat. None) (ARP_initialize 1 3 120 False arpExample) 2 st [7] outs \<and>
     mset (sentPackets outs) + mset (pendingQueue st) = {#7#}"
proof -
  let ?st0 = "ARP_initialize 1 3 120 False arpExample"
  obtain out st where p: "processOutboundPacket (\<lambda>_ :: nat. None) 2 7 (IPAddress4 10 0 0 1) 0 ?st0 = Inr (out, st)"
    and f: "numFailedResolutions st = 0"
    by (simp add: processOutboundPacket_def arpInterface_def ARP_initialize_def arpExample_def
        initiateARPResolution_def sendARPRequest_def mac_text_roundtrip
        ip_isNull_def isMulticast_def IPAddress4_def new_ARPCacheEntry_def)
  have "arp_run (\<lambda>_. None) ?st0 2 st ([] @ [7]) ([] @ out)" by (rule arp_outbound[OF arp_init _ p]) simp
  from arp_keeps_packets[OF this] f this show ?thesis by auto
qed

end
