(* ===== verification/RTP_Session.thy ===== *)
theory RTP_Session
  imports Std_Map TCP_Segment
begin

text \<open>
  RTP sessions, \<open>src/Transport/RTP/\<close>: the packets, the table of the participants with the sequence
  numbers of each (\<open>init_seq\<close>, \<open>update_seq\<close>), the reports and their timer, and the handlers of
  \<open>RTP.cc\<close>. Of the statistics only the durations that are collected are
  kept, in the order of their collection; the messages for \<open>to_udp\<close> are appended to \<open>rtp_log\<close>.
\<close>

section \<open>Packets\<close>

record RTPPacket =
  rtp_ssrc :: uint32
  rtp_seqNo :: uint16
  rtp_payloadLength :: uint32
  rtp_byteLength :: int
  rtp_timestamp :: simtime

definition new_RTPPacket :: "uint32 \<Rightarrow> uint16 \<Rightarrow> RTPPacket" where
  "new_RTPPacket ssrc seqNo =
     \<lparr>rtp_ssrc = ssrc, rtp_seqNo = seqNo, rtp_payloadLength = 0, rtp_byteLength = 12, rtp_timestamp = 0\<rparr>"


text \<open>\<open>fractionLost\<close> is a \<open>short\<close>.\<close>

record RTCPReportBlock =
  rb_ssrc :: uint32
  fractionLost :: int16
  cumPacketsLost :: uint32
  seqNoReceived :: uint32
  rb_jitter :: simtime
  rb_lastSR :: simtime
  delaySinceLastSR :: simtime

datatype rtcp_body =
    RTCPSR uint32 uint32 "RTCPReportBlock list"
  | RTCPRR "RTCPReportBlock list"
  | RTCPGoodBye
  | RTCPSDES string
  | RTCPOther string

record RTCPPacket =
  rtcp_ssrc :: uint32
  rtcp_timestamp :: simtime
  rtcp_body :: rtcp_body

definition sdesPadding :: "nat \<Rightarrow> nat" where
  "sdesPadding n = (if n mod 4 \<noteq> 0 then 4 - n mod 4 else 0)"

definition rtcp_byteLength :: "RTCPPacket \<Rightarrow> int" where
  "rtcp_byteLength p =
     8 + (case rtcp_body p of
            RTCPSR _ _ blocks \<Rightarrow> 5 * 4 + 6 * 4 * int (length blocks)
          | RTCPRR blocks \<Rightarrow> 6 * 4 * int (length blocks)
          | RTCPGoodBye \<Rightarrow> 4
          | RTCPSDES cname \<Rightarrow> 2 + int (length cname) + int (sdesPadding (length cname))
          | RTCPOther _ \<Rightarrow> 0)"

definition dgramSize :: "RTCPPacket \<Rightarrow> int" where
  "dgramSize msg = rtcp_byteLength msg + 8 + 40"

text \<open>The limit of RFC 3550 is asserted where the blocks are read.\<close>

definition reportBlocksArraySize :: "RTCPReportBlock list \<Rightarrow> nat result" where
  "reportBlocksArraySize blocks = ASSERT (length blocks < 31) ''blocks.size() < 31'' (Inr (length blocks))"

definition copyBlocks :: "RTCPReportBlock list \<Rightarrow> RTCPReportBlock list result" where
  "copyBlocks blocks = emap (\<lambda>n. take n blocks) (reportBlocksArraySize blocks)"

section \<open>The state\<close>

text \<open>
  A new entry of the table is not initialised by the code except for \<open>sender\<close> and the address; its
  numbers are set by \<open>init_seq\<close> before they are read, and are zero here till then.
\<close>

record RTPMemberEntry =
  rme_sender :: bool
  rme_addr :: IPvXAddress
  maxSeq :: uint16
  cycles :: uint32
  badSeq :: uint32
  received :: uint32
  expectedPrior :: uint32
  receivedPrior :: uint32
  transit :: simtime
  jitter :: simtime
  lastSR :: simtime
  transStat :: "simtime list"
  handStat :: "simtime list"
  l2handStat :: "simtime list"
  l3handStat :: "simtime list"

datatype rtp_callback = EstablishSession | SendBye

datatype rtp_out =
    BindToPort int
  | SendRTP RTPPacket int IPvXAddress int
  | SendRTCP RTCPPacket int IPvXAddress int

record RTP =
  rtp_port :: int
  nodeNameRTP :: string
  par_destAddrs :: "string list"
  destAddrs :: "IPvXAddress list"
  payloadLengthRTP :: real
  packetisationInterval :: simtime
  memberSet :: "(uint32, RTPMemberEntry) std_map"
  own_ssrc :: uint32
  own_seqNo :: uint16
  packetCount :: uint32
  octetCount :: uint32
  rtcpTimeout :: "simtime option"
  rtpTimeout :: "simtime option option"
  callbacks :: "(simtime \<times> rtp_callback) list"
  tp :: simtime
  tn :: simtime
  pmembers :: uint16
  members :: uint16
  senders :: uint16
  rtcpBw :: real
  weSent :: bool
  meanRtcpSize :: real
  initial :: bool
  incomingBlocks :: "RTCPReportBlock list"
  l2down :: simtime
  l2up :: simtime
  mobileNode :: bool
  rtp_log :: "rtp_out list"

definition RTP_SEQ_MOD :: int where "RTP_SEQ_MOD = 65536"
definition MAX_DROPOUT :: int where "MAX_DROPOUT = 3000"
definition MAX_MISORDER :: int where "MAX_MISORDER = 100"

definition new_RTPMemberEntry :: "IPvXAddress \<Rightarrow> RTPMemberEntry" where
  "new_RTPMemberEntry a =
     \<lparr>rme_sender = False, rme_addr = a, maxSeq = 0, cycles = 0, badSeq = 0, received = 0, expectedPrior = 0,
      receivedPrior = 0, transit = 0, jitter = 0, lastSR = 0, transStat = [], handStat = [],
      l2handStat = [], l3handStat = []\<rparr>"

definition init_seq :: "uint16 \<Rightarrow> RTPMemberEntry \<Rightarrow> RTPMemberEntry" where
  "init_seq seq s =
     s\<lparr>maxSeq := seq, badSeq := word_of_int (RTP_SEQ_MOD + 1), cycles := 0, received := 0,
       receivedPrior := 0, expectedPrior := 0, jitter := 0, transit := 0, lastSR := 0\<rparr>"

text \<open>A handover is recorded with the first packet after it, unless only a beacon was lost.\<close>

definition recordHOStats ::
    "simtime \<Rightarrow> RTPMemberEntry \<Rightarrow> RTP \<Rightarrow> RTPMemberEntry \<times> RTP" where
  "recordHOStats now s rtp =
     (if \<not> mobileNode rtp then (s, rtp)
      else if l2down rtp \<noteq> 0 then
        (if l2up rtp \<noteq> 0
         then s\<lparr>handStat := handStat s @ [now - l2down rtp], l2handStat := l2handStat s @ [l2up rtp - l2down rtp],
                l3handStat := l3handStat s @ [now - l2up rtp]\<rparr>
         else s,
         rtp\<lparr>l2down := 0, l2up := 0\<rparr>)
      else (s, rtp))"

definition handleDroppedPackets ::
    "simtime \<Rightarrow> RTPMemberEntry \<Rightarrow> RTP \<Rightarrow> RTPMemberEntry \<times> RTP" where
  "handleDroppedPackets now s rtp = recordHOStats now s rtp"

text \<open>
  The number of a packet against the highest seen: in order with a permissible gap, a large jump, or
  late. The result says whether the packet counts.
\<close>

definition update_seq ::
    "simtime \<Rightarrow> uint16 \<Rightarrow> RTPMemberEntry \<Rightarrow> RTP \<Rightarrow> (bool \<times> RTPMemberEntry \<times> RTP) result" where
  "update_seq now seq s rtp =
     (let udelta = seq - maxSeq s;
          count = (\<lambda>(s, rtp). Inr (True, s\<lparr>received := received s + 1\<rparr>, rtp))
      in
      if uint udelta < MAX_DROPOUT then
        (let (s, rtp) =
           (if seq < maxSeq s then (s\<lparr>cycles := cycles s + word_of_int RTP_SEQ_MOD\<rparr>, rtp)
            else if uint udelta > 1 then handleDroppedPackets now s rtp
            else (s, rtp))
         in count (s\<lparr>maxSeq := seq\<rparr>, rtp))
      else if uint udelta \<le> RTP_SEQ_MOD - MAX_MISORDER then
        (if ucast seq = badSeq s then Inl (AssertFailed ''resync'')
         else Inr (False, s\<lparr>badSeq := (ucast seq + 1) AND word_of_int (RTP_SEQ_MOD - 1)\<rparr>, rtp))
      else count (s, rtp))"

section \<open>Receiving\<close>

text \<open>A participant heard for the first time.\<close>

definition addMember :: "uint32 \<Rightarrow> IPvXAddress \<Rightarrow> RTP \<Rightarrow> RTP" where
  "addMember ssrc srcAddr st =
     (if map_of (memberSet st) ssrc \<noteq> None then st
      else st\<lparr>members := members st + 1, memberSet := map_put ssrc (new_RTPMemberEntry srcAddr) (memberSet st)\<rparr>)"

definition rtp_member :: "uint32 \<Rightarrow> RTP \<Rightarrow> (RTPMemberEntry \<Rightarrow> 'b result) \<Rightarrow> 'b result" where
  "rtp_member ssrc st k =
     (case map_of (memberSet st) ssrc of None \<Rightarrow> Inl (NullPointer ''memberSet'') | Some rme \<Rightarrow> k rme)"

definition recordTransit :: "simtime \<Rightarrow> RTPPacket \<Rightarrow> RTPMemberEntry \<Rightarrow> RTPMemberEntry" where
  "recordTransit now rtpData rme =
     (let tr = now - rtp_timestamp rtpData;
          instJitter = \<bar>tr - transit rme\<bar>
      in rme\<lparr>transit := tr, jitter := jitter rme + 1 / 16 * (instJitter - jitter rme),
             transStat := transStat rme @ [tr]\<rparr>)"

definition processRTP :: "simtime \<Rightarrow> IPvXAddress \<Rightarrow> RTPPacket \<Rightarrow> RTP \<Rightarrow> RTP result" where
  "processRTP now srcAddr rtpData st =
     (let ssrc = rtp_ssrc rtpData;
          st = addMember ssrc srcAddr st
      in rtp_member ssrc st (\<lambda>rme.
        if \<not> rme_sender rme then
          Inr (st\<lparr>senders := senders st + 1,
                  memberSet := map_put ssrc
                    (recordTransit now rtpData (init_seq (rtp_seqNo rtpData) (rme\<lparr>rme_sender := True\<rparr>)))
                    (memberSet st)\<rparr>)
        else
          emap (\<lambda>(counts, rme, st).
             st\<lparr>memberSet := map_put ssrc (if counts then recordTransit now rtpData rme else rme) (memberSet st)\<rparr>)
           (update_seq now (rtp_seqNo rtpData) rme st)))"

definition sendRTCP :: "RTCPPacket \<Rightarrow> IPvXAddress \<Rightarrow> RTP \<Rightarrow> RTP" where
  "sendRTCP p dest st = st\<lparr>rtp_log := rtp_log st @ [SendRTCP p (rtp_port st + 1) dest (rtp_port st + 1)]\<rparr>"

definition goodBye :: "RTP \<Rightarrow> RTCPPacket" where
  "goodBye st = \<lparr>rtcp_ssrc = own_ssrc st, rtcp_timestamp = 0, rtcp_body = RTCPGoodBye\<rparr>"

definition processGoodBye :: "IPvXAddress \<Rightarrow> uint32 \<Rightarrow> RTP \<Rightarrow> RTP" where
  "processGoodBye srcAddr ssrc st =
     (case map_of (memberSet st) ssrc of
        None \<Rightarrow> st
      | Some rme \<Rightarrow>
          let st = st\<lparr>members := members st - 1\<rparr>;
              st = (if rme_sender rme then st\<lparr>senders := senders st - 1\<rparr> else st);
              st = (if rme_addr rme \<in> set (destAddrs st)
                    then sendRTCP (goodBye st) srcAddr (st\<lparr>destAddrs := remove1 (rme_addr rme) (destAddrs st)\<rparr>)
                    else st)
          in st\<lparr>memberSet := map_erase ssrc (memberSet st)\<rparr>)"

definition processReports :: "RTCPPacket \<Rightarrow> RTP \<Rightarrow> RTP result" where
  "processReports rep st =
     (case rtcp_body rep of
        RTCPSR _ _ sr \<Rightarrow>
          rtp_member (rtcp_ssrc rep) st (\<lambda>rme.
            emap (\<lambda>b. st\<lparr>memberSet := map_put (rtcp_ssrc rep) (rme\<lparr>lastSR := rtcp_timestamp rep\<rparr>) (memberSet st),
                         incomingBlocks := b\<rparr>) (copyBlocks sr))
      | RTCPRR rr \<Rightarrow> emap (\<lambda>b. st\<lparr>incomingBlocks := b\<rparr>) (copyBlocks rr)
      | _ \<Rightarrow> Inl (NullPointer ''rr''))"




section \<open>Sending and timers\<close>

text \<open>
  \<open>u\<close> is the number drawn from \<open>uniform(0,1)\<close>. The bandwidth is shared by the senders, a quarter of it,
  and the receivers.
\<close>

definition rtcpShare :: "RTP \<Rightarrow> int \<times> real" where
  "rtcpShare st =
     (if uint (senders st) > uint (members st) div 4 then (uint (members st), meanRtcpSize st / rtcpBw st)
      else if weSent st then (uint (senders st), meanRtcpSize st / (rtcpBw st / 4))
      else (uint (members st) - uint (senders st), meanRtcpSize st / (rtcpBw st * (75 / 100))))"

definition calculateTxInterval :: "real \<Rightarrow> RTP \<Rightarrow> simtime result" where
  "calculateTxInterval u st =
     ASSERT (rtcpBw st \<noteq> 0) ''rtcpBw''
       (let (n, C) = rtcpShare st;
            Td = max (if initial st then 25 / 10 else 5) (real_of_int n * C)
        in Inr ((u + 1 / 2) * Td / (121828 / 100000)))"

text \<open>An event is scheduled once at a time and not in the past.\<close>

definition schedule :: "simtime \<Rightarrow> simtime \<Rightarrow> simtime option \<Rightarrow> simtime option result" where
  "schedule now t timer =
     (if timer \<noteq> None then Inl (TimerMisuse ''scheduleAt(): message already scheduled'')
      else if t < now then Inl (TimerMisuse ''scheduleAt(): time in the past'')
      else Inr (Some t))"

definition scheduleRtcp :: "simtime \<Rightarrow> simtime \<Rightarrow> RTP \<Rightarrow> RTP result" where
  "scheduleRtcp now t st = emap (\<lambda>e. st\<lparr>rtcpTimeout := e\<rparr>) (schedule now t (rtcpTimeout st))"


text \<open>
  The same message is sent to each destination. It belongs to the kernel, and has its control
  information, once it was sent: the second destination is an error.
\<close>

definition sendBye :: "RTP \<Rightarrow> RTP result" where
  "sendBye st =
     (case destAddrs st of
        [] \<Rightarrow> Inr st
      | [d] \<Rightarrow> Inr (sendRTCP (goodBye st) d st)
      | _ \<Rightarrow> Inl (OppError ''setControlInfo(): message already has control info attached''))"

definition cancelTimers :: "RTP \<Rightarrow> RTP result" where
  "cancelTimers st =
     (case rtpTimeout st of
        None \<Rightarrow> Inl (NullPointer ''rtpTimeout'')
      | Some _ \<Rightarrow> Inr (st\<lparr>rtcpTimeout := None, rtpTimeout := Some None\<rparr>))"

definition leaveSession :: "simtime \<Rightarrow> real \<Rightarrow> RTP \<Rightarrow> RTP result" where
  "leaveSession now u st =
     (let st = st\<lparr>tp := now, members := 1, pmembers := 1, initial := True, weSent := False, senders := 0\<rparr>
      in ebind (calculateTxInterval u st) (\<lambda>T.
           let st = st\<lparr>tn := tp st + T\<rparr> in
           ebind (if tp st + T \<le> now then sendBye st
                  else Inr (st\<lparr>callbacks := callbacks st @ [(now + T, SendBye)]\<rparr>)) cancelTimers))"







text \<open>
  A reception report: all numbers are unsigned, so the packets lost in the interval are never
  negative, and the fraction keeps the low 16 bits.
\<close>

definition reportBlock ::
    "simtime \<Rightarrow> uint32 \<Rightarrow> RTPMemberEntry \<Rightarrow> RTCPReportBlock \<times> RTPMemberEntry" where
  "reportBlock now ssrc rme =
     (let extended = cycles rme + ucast (maxSeq rme) + 1;
          expectedInt = extended - expectedPrior rme;
          receivedInt = received rme - receivedPrior rme;
          lostInt = expectedInt - receivedInt
      in (\<lparr>rb_ssrc = ssrc,
           fractionLost = (if expectedInt = 0 \<or> lostInt \<le> 0 then 0 else ucast (push_bit 8 lostInt div expectedInt)),
           cumPacketsLost = extended - received rme, seqNoReceived = extended,
           rb_jitter = jitter rme, rb_lastSR = lastSR rme, delaySinceLastSR = now - lastSR rme\<rparr>,
          rme\<lparr>expectedPrior := extended, receivedPrior := received rme\<rparr>))"

definition reported :: "uint32 \<Rightarrow> uint32 \<times> RTPMemberEntry \<Rightarrow> bool" where
  "reported own m \<longleftrightarrow> rme_sender (snd m) \<and> fst m \<noteq> own"

definition fillReports :: "simtime \<Rightarrow> RTP \<Rightarrow> RTCPReportBlock list \<times> RTP" where
  "fillReports now st =
     (map (\<lambda>(ssrc, rme). fst (reportBlock now ssrc rme)) (filter (reported (own_ssrc st)) (memberSet st)),
      st\<lparr>memberSet := map (\<lambda>m. (fst m, if reported (own_ssrc st) m then snd (reportBlock now (fst m) (snd m))
                                       else snd m)) (memberSet st)\<rparr>)"

definition sendReport :: "RTCPPacket \<Rightarrow> IPvXAddress \<Rightarrow> RTP \<Rightarrow> RTP" where
  "sendReport rep dest st =
     (sendRTCP rep dest st)\<lparr>meanRtcpSize := 1 / 16 * real_of_int (dgramSize rep) + 15 / 16 * meanRtcpSize st\<rparr>"

definition otherMembers :: "RTP \<Rightarrow> IPvXAddress list" where
  "otherMembers st = map (rme_addr \<circ> snd) (filter (\<lambda>m. fst m \<noteq> own_ssrc st) (memberSet st))"



text \<open>\<open>memberSet[_ssrc].sender = true\<close> makes the entry where it is missing.\<close>

definition setSelfSender :: "RTP \<Rightarrow> RTP" where
  "setSelfSender st =
     (let rme = (case map_of (memberSet st) (own_ssrc st) of
                   Some rme \<Rightarrow> rme | None \<Rightarrow> new_RTPMemberEntry nullAddr)
      in st\<lparr>memberSet := map_put (own_ssrc st) (rme\<lparr>rme_sender := True\<rparr>) (memberSet st)\<rparr>)"


text \<open>Layer 2 went down or up.\<close>

datatype l2_change = L2_BEACON_LOST | L2_ASSOCIATED | L2_other

definition rtp_receiveChangeNotification :: "simtime \<Rightarrow> l2_change \<Rightarrow> RTP \<Rightarrow> RTP" where
  "rtp_receiveChangeNotification now category st =
     (let st = st\<lparr>mobileNode := True\<rparr> in
      case category of
        L2_BEACON_LOST \<Rightarrow> st\<lparr>l2down := now\<rparr>
      | L2_ASSOCIATED \<Rightarrow> st\<lparr>l2up := now\<rparr>
      | L2_other \<Rightarrow> st)"

text \<open>
  \<open>up\<close> is the value of \<open>l2up\<close>, which the constructor leaves uninitialised. The module starts at time 0; \<open>bw\<close> is \<open>rtcpBandwidth\<close>, a fraction when below 1.
\<close>

definition RTP_initialize ::
    "int \<Rightarrow> string \<Rightarrow> string list \<Rightarrow> uint32 \<Rightarrow> real \<Rightarrow> real \<Rightarrow> real \<Rightarrow> real \<Rightarrow> real \<Rightarrow> simtime \<Rightarrow>
     RTP result" where
  "RTP_initialize port name dests ssrc payload interval bw startTime u up =
     (let port = (if port mod 2 > 0 then port - 1 else port);
          self = (init_seq 0 (new_RTPMemberEntry nullAddr))\<lparr>badSeq := 0\<rparr>;
          bitrate = 1 / interval * payload
      in if payload > 900 then Inl (OppError ''payload length is greater than 900, not sure if fits MUT'')
         else
           let st = \<lparr>rtp_port = port, nodeNameRTP = name, par_destAddrs = dests, destAddrs = [],
                 payloadLengthRTP = payload, packetisationInterval = interval, memberSet = [(ssrc, self)],
                 own_ssrc = ssrc, own_seqNo = 0, packetCount = 0, octetCount = 0, rtcpTimeout = None,
                 rtpTimeout = None, callbacks = [], tp = 0, tn = 0, pmembers = 1, members = 1, senders = 0,
                 rtcpBw = (if bw < 1 then bw * bitrate * 8 else bw), weSent = False, meanRtcpSize = 28 + 24,
                 initial = True, incomingBlocks = [], l2down = 0, l2up = up, mobileNode = False,
                 rtp_log = [BindToPort port, BindToPort (port + 1)]\<rparr>
           in ebind (calculateTxInterval u st) (\<lambda>T.
                let st = st\<lparr>tn := T\<rparr>;
                    randomStart = (if startTime \<noteq> 0 then startTime - 2 * tn st else 0)
                in ebind (scheduleRtcp 0 (if randomStart < 4 then 4 + randomStart else randomStart) st) (\<lambda>st.
                     if startTime = 0 then Inr st
                     else
                       emap (\<lambda>_. st\<lparr>rtpTimeout := Some None, callbacks := [(startTime, EstablishSession)]\<rparr>)
                         (schedule 0 startTime None))))"

section \<open>The counters\<close>



definition is_sender :: "uint32 \<times> RTPMemberEntry \<Rightarrow> bool" where
  "is_sender m = rme_sender (snd m)"

definition numSenders :: "(uint32, RTPMemberEntry) std_map \<Rightarrow> uint16" where
  "numSenders ms = word_of_int (int (length (filter is_sender ms)))"

definition numMembers :: "(uint32, RTPMemberEntry) std_map \<Rightarrow> uint16" where
  "numMembers ms = word_of_int (int (length ms))"





definition rtp_ok :: "RTP \<Rightarrow> bool" where
  "rtp_ok st \<longleftrightarrow>
     map_ok (memberSet st) \<and> members st = numMembers (memberSet st) \<and> senders st = numSenders (memberSet st) \<and>
     (\<exists>self. map_of (memberSet st) (own_ssrc st) = Some self \<and> rme_sender self = weSent st)"




lemma addMember_fields [simp]:
  "own_ssrc (addMember ssrc a st) = own_ssrc st" "weSent (addMember ssrc a st) = weSent st"
  "destAddrs (addMember ssrc a st) = destAddrs st" "rtcpTimeout (addMember ssrc a st) = rtcpTimeout st"
  by (simp_all add: addMember_def)

lemma addMember_known: "map_of (memberSet (addMember ssrc a st)) ssrc \<noteq> None"
  by (simp add: addMember_def)

lemma init_seq_sender [simp]: "rme_sender (init_seq q e) = rme_sender e"
  by (simp add: init_seq_def)

lemma recordTransit_sender [simp]: "rme_sender (recordTransit now p e) = rme_sender e"
  by (simp add: recordTransit_def Let_def)

lemma recordHOStats_keeps:
  assumes "recordHOStats now e st = (e', st')"
  shows "rme_sender e' = rme_sender e" "rme_addr e' = rme_addr e" "maxSeq e' = maxSeq e" "cycles e' = cycles e"
    "received e' = received e" "expectedPrior e' = expectedPrior e" "receivedPrior e' = receivedPrior e"
    "memberSet st' = memberSet st" "members st' = members st" "senders st' = senders st"
    "own_ssrc st' = own_ssrc st" "weSent st' = weSent st" "rtcpTimeout st' = rtcpTimeout st"
  using assms by (auto simp: recordHOStats_def split: if_splits)


lemma rtp_ok_fields [simp]:
  "rtp_ok (st\<lparr>incomingBlocks := b\<rparr>) = rtp_ok st" "rtp_ok (st\<lparr>meanRtcpSize := m\<rparr>) = rtp_ok st"
  "rtp_ok (st\<lparr>rtcpTimeout := t\<rparr>) = rtp_ok st" "rtp_ok (st\<lparr>rtpTimeout := t'\<rparr>) = rtp_ok st"
  "rtp_ok (st\<lparr>rtp_log := l\<rparr>) = rtp_ok st" "rtp_ok (st\<lparr>tn := x\<rparr>) = rtp_ok st" "rtp_ok (st\<lparr>tp := x\<rparr>) = rtp_ok st"
  "rtp_ok (st\<lparr>pmembers := n\<rparr>) = rtp_ok st" "rtp_ok (st\<lparr>callbacks := c\<rparr>) = rtp_ok st"
  "rtp_ok (st\<lparr>destAddrs := d\<rparr>) = rtp_ok st" "rtp_ok (st\<lparr>own_seqNo := q\<rparr>) = rtp_ok st"
  "rtp_ok (st\<lparr>octetCount := o'\<rparr>) = rtp_ok st" "rtp_ok (st\<lparr>packetCount := o'\<rparr>) = rtp_ok st"
  "rtp_ok (st\<lparr>initial := i\<rparr>) = rtp_ok st"
  by (simp_all add: rtp_ok_def)




lemma processGoodBye_fields [simp]:
  "own_ssrc (processGoodBye a ssrc st) = own_ssrc st"
  "rtcpTimeout (processGoodBye a ssrc st) = rtcpTimeout st"
  by (simp_all add: processGoodBye_def Let_def sendRTCP_def split: option.splits)








text \<open>The table with the priors updated has the keys, the senders and the addresses it had.\<close>

lemma reportBlock_keeps [simp]:
  "rme_sender (snd (reportBlock now ssrc e)) = rme_sender e" "rme_addr (snd (reportBlock now ssrc e)) = rme_addr e"
  by (simp_all add: reportBlock_def Let_def)

lemma map_of_map_entries: "map_of (map (\<lambda>m. (fst m, f m)) xs) k = (case map_of xs k of None \<Rightarrow> None | Some v \<Rightarrow> Some (f (k, v)))"
  by (induction xs) (auto split: option.splits)

lemma fillReports_ok:
  assumes "fillReports now st = (blocks, st')"
  shows "rtp_ok st' = rtp_ok st" "own_ssrc st' = own_ssrc st" "otherMembers st' = otherMembers st"
    "rtcpTimeout st' = rtcpTimeout st" "destAddrs st' = destAddrs st" "rtp_log st' = rtp_log st"
    "rtp_port st' = rtp_port st" "weSent st' = weSent st" "packetCount st' = packetCount st"
    "octetCount st' = octetCount st" "rtcpBw st' = rtcpBw st" "tp st' = tp st"
    "members st' = members st" "senders st' = senders st" "par_destAddrs st' = par_destAddrs st"
    "nodeNameRTP st' = nodeNameRTP st"
proof -
  define f where "f m = (if reported (own_ssrc st) m then snd (reportBlock now (fst m) (snd m)) else snd m)" for m
  define ms where "ms = map (\<lambda>m. (fst m, f m)) (memberSet st)"
  have st': "st' = st\<lparr>memberSet := ms\<rparr>" using assms by (auto simp: fillReports_def ms_def f_def)
  have f: "rme_sender (f m) = rme_sender (snd m)" "rme_addr (f m) = rme_addr (snd m)" for m by (simp_all add: f_def)
  have "map_ok ms = map_ok (memberSet st)" by (simp add: ms_def map_ok_def comp_def)
  moreover have "numMembers ms = numMembers (memberSet st)" by (simp add: ms_def numMembers_def)
  moreover have "numSenders ms = numSenders (memberSet st)"
    by (simp add: ms_def numSenders_def filter_map comp_def is_sender_def [abs_def] f)
  moreover have "(\<exists>self. map_of ms k = Some self \<and> rme_sender self = b) \<longleftrightarrow>
      (\<exists>self. map_of (memberSet st) k = Some self \<and> rme_sender self = b)" for k b
    by (auto simp: ms_def map_of_map_entries f split: option.splits)
  ultimately show "rtp_ok st' = rtp_ok st" by (simp add: rtp_ok_def st')
  show "otherMembers st' = otherMembers st"
    by (simp add: otherMembers_def st' ms_def filter_map comp_def f)
qed (use assms in \<open>auto simp: fillReports_def\<close>)




lemma scheduleRtcp_keeps:
  assumes "scheduleRtcp now t st = Inr st'"
  shows "st' = st\<lparr>rtcpTimeout := Some t\<rparr>" "now \<le> t"
  using assms by (auto simp: scheduleRtcp_def schedule_def split: if_splits)



lemma rtp_log_simps [simp]:
  "fillReports now (st\<lparr>tn := t\<rparr>) = (fst (fillReports now st), (snd (fillReports now st))\<lparr>tn := t\<rparr>)"
  by (simp add: fillReports_def)



lemma snd_fillReports [simp]:
  "rtp_ok (snd (fillReports now st)) = rtp_ok st" "own_ssrc (snd (fillReports now st)) = own_ssrc st"
  "members (snd (fillReports now st)) = members st" "rtcpTimeout (snd (fillReports now st)) = rtcpTimeout st"
  "destAddrs (snd (fillReports now st)) = destAddrs st" "nodeNameRTP (snd (fillReports now st)) = nodeNameRTP st"
  "par_destAddrs (snd (fillReports now st)) = par_destAddrs st" "rtcpBw (snd (fillReports now st)) = rtcpBw st"
  using fillReports_ok(1,2) [OF surjective_pairing] by blast+ (simp_all add: fillReports_def)








lemma RTP_initialize_ok:
  assumes "RTP_initialize port name dests ssrc payload interval bw start u up = Inr st"
  shows "rtp_ok st"
  using assms
  by (auto simp: RTP_initialize_def Let_def rtp_ok_def numMembers_def numSenders_def is_sender_def
      new_RTPMemberEntry_def split: if_splits dest!: scheduleRtcp_keeps(1))

lemma setSelfSender_bw [simp]: "rtcpBw (setSelfSender st) = rtcpBw st"
  by (simp add: setSelfSender_def Let_def)


lemma fold_sendReport_fields [simp]:
  "rtcpBw (fold (sendReport rep) ds st) = rtcpBw st" "rtcpTimeout (fold (sendReport rep) ds st) = rtcpTimeout st"
  by (induction ds arbitrary: st) (simp_all add: sendReport_def sendRTCP_def)



section \<open>Sequence numbers\<close>

text \<open>
  The entry of a source whose highest number so far, counted without wrapping, is \<open>M\<close>, with \<open>c\<close>
  packets counted.
\<close>

definition seen :: "nat \<Rightarrow> nat \<Rightarrow> RTPMemberEntry \<Rightarrow> bool" where
  "seen M c e \<longleftrightarrow> rme_sender e \<and> cycles e = of_nat (65536 * (M div 65536)) \<and> maxSeq e = of_nat M \<and> received e = of_nat c"

lemma uint16_of_nat: "n < 65536 \<Longrightarrow> uint (of_nat n :: uint16) = int n"
  by (simp add: uint_nat unat_of_nat)

lemma delta_forward:
  assumes "M \<le> m" "m - M < 65536"
  shows "uint (of_nat m - of_nat M :: uint16) = int (m - M)"
proof -
  have "(of_nat m - of_nat M :: uint16) = of_nat (m - M)" using assms(1) by (rule of_nat_diff [symmetric])
  then show ?thesis using uint16_of_nat [OF assms(2)] by metis
qed

lemma delta_late:
  assumes "m < M" "M - m < 65536"
  shows "uint (of_nat m - of_nat M :: uint16) = 65536 - int (M - m)"
proof -
  have "(of_nat m - of_nat M :: uint16) = of_nat (65536 - (M - m))"
    using assms by (simp add: of_nat_diff)
  moreover have "uint (of_nat (65536 - (M - m)) :: uint16) = int (65536 - (M - m))"
    using assms by (intro uint16_of_nat) linarith
  ultimately have "uint (of_nat m - of_nat M :: uint16) = int (65536 - (M - m))" by metis
  then show ?thesis using assms by linarith
qed

lemma cycle_step:
  fixes m M :: nat
  assumes "M \<le> m" "m - M < 65536"
  shows "m div 65536 = M div 65536 + (if m mod 65536 < M mod 65536 then 1 else 0)"
proof -
  define q r j where "q = M div 65536" and "r = M mod 65536" and "j = m - M"
  have r: "r < 65536" unfolding r_def by (rule mod_less_divisor) simp
  have "M = q * 65536 + r" unfolding q_def r_def by (rule div_mult_mod_eq [symmetric])
  then have j: "j < 65536" and m: "m = (r + j) + q * 65536" using assms unfolding j_def by linarith+
  have dv: "m div 65536 = q + (r + j) div 65536" and md: "m mod 65536 = (r + j) mod 65536"
    unfolding m by simp_all
  show ?thesis
  proof (cases "r + j < 65536")
    case True
    then show ?thesis unfolding dv md q_def [symmetric] r_def [symmetric] by simp
  next
    case False
    then obtain i where i: "r + j = i + 1 * 65536" by (metis add.commute le_add_diff_inverse mult_1 not_less)
    have "i < 65536" using i r j by linarith
    then have "(r + j) div 65536 = 1" "(r + j) mod 65536 = r + j - 65536"
      unfolding i by (simp_all only: div_mult_self3 mod_mult_self2) simp_all
    then show ?thesis unfolding dv md q_def [symmetric] r_def [symmetric] using False j by simp
  qed
qed

lemma seq_less: "(of_nat m < (of_nat M :: uint16)) \<longleftrightarrow> m mod 65536 < M mod 65536"
  by (simp only: word_less_nat_alt unat_of_nat) simp

lemma ucast_of_uint16: "ucast (of_nat M :: uint16) = (of_nat (M mod 65536) :: uint32)"
  by (simp only: unsigned_of_nat take_bit_eq_mod) simp

lemma extended_eq: "seen M c e \<Longrightarrow> cycles e + ucast (maxSeq e) = of_nat M"
proof -
  assume "seen M c e"
  then have "cycles e + ucast (maxSeq e) = of_nat (65536 * (M div 65536) + M mod 65536)"
    unfolding seen_def by (simp only: ucast_of_uint16 of_nat_add)
  then show ?thesis by simp
qed

lemma update_seq_forward:
  assumes e: "seen M c e" and m: "M < m" "m < M + 3000"
  shows "\<exists>e' st'. update_seq now (of_nat m) e st = Inr (True, e', st') \<and> seen m (Suc c) e'"
proof -
  have d: "uint (of_nat m - maxSeq e) = int (m - M)" using e m by (simp add: seen_def delta_forward)
  obtain e1 st1 where h: "recordHOStats now e st = (e1, st1)" by fastforce
  have e1: "rme_sender e1 = rme_sender e" "maxSeq e1 = maxSeq e" "cycles e1 = cycles e" "received e1 = received e"
    using recordHOStats_keeps [OF h] by simp_all
  show ?thesis
    using e m d cycle_step [of M m] e1
    by (auto simp: update_seq_def Let_def MAX_DROPOUT_def RTP_SEQ_MOD_def handleDroppedPackets_def h seen_def seq_less
        split: prod.splits)
qed

lemma update_seq_late:
  assumes e: "seen M c e" and m: "m < M" "M < m + 100"
  shows "\<exists>e'. update_seq now (of_nat m) e st = Inr (True, e', st) \<and> seen M (Suc c) e'"
proof -
  have d: "uint (of_nat m - maxSeq e) = 65536 - int (M - m)" using e m by (simp add: seen_def delta_late)
  show ?thesis
    using e m d by (auto simp: update_seq_def Let_def MAX_DROPOUT_def MAX_MISORDER_def RTP_SEQ_MOD_def seen_def)
qed

lemma seen_recordTransit [simp]: "seen M c (recordTransit now p e) = seen M c e"
  by (simp add: seen_def recordTransit_def Let_def)

lemma addMember_same: "map_of (memberSet st) k = Some e \<Longrightarrow> addMember k a st = st"
  by (simp add: addMember_def)

lemma processRTP_first:
  assumes "\<And>e. map_of (memberSet st) (rtp_ssrc p) = Some e \<Longrightarrow> \<not> rme_sender e"
    and "rtp_seqNo p = of_nat m" and "m < 65536"
  shows "\<exists>st' e. processRTP now a p st = Inr st' \<and> map_of (memberSet st') (rtp_ssrc p) = Some e \<and> seen m 0 e"
proof -
  define s1 where "s1 = addMember (rtp_ssrc p) a st"
  obtain e where e: "map_of (memberSet s1) (rtp_ssrc p) = Some e" and "\<not> rme_sender e"
    using assms(1) by (cases "map_of (memberSet st) (rtp_ssrc p)")
      (auto simp: s1_def addMember_def new_RTPMemberEntry_def)
  moreover have "seen m 0 (init_seq (of_nat m) (e\<lparr>rme_sender := True\<rparr>))"
    using assms(3) by (simp add: seen_def init_seq_def)
  ultimately show ?thesis using assms(2)
    by (simp add: processRTP_def s1_def [symmetric] rtp_member_def)
qed

lemma processRTP_next:
  assumes e: "map_of (memberSet st) (rtp_ssrc p) = Some e" and s: "seen M c e"
    and m: "rtp_seqNo p = of_nat m" "m \<noteq> M" "m < M + 3000" "M < m + 100"
  shows "\<exists>st' e'. processRTP now a p st = Inr st' \<and> map_of (memberSet st') (rtp_ssrc p) = Some e' \<and>
    seen (max M m) (Suc c) e'"
proof -
  obtain e' st' where u: "update_seq now (of_nat m) e st = Inr (True, e', st')" and s': "seen (max M m) (Suc c) e'"
  proof (cases "M < m")
    case True
    then have "max M m = m" by simp
    then show thesis using that update_seq_forward [OF s True m(3)] by metis
  next
    case False
    then have "m < M" "max M m = M" using m(2) by simp_all
    then show thesis using that update_seq_late [OF s _ m(4)] by metis
  qed
  have "rme_sender e" using s by (simp add: seen_def)
  then show ?thesis using u s' by (simp add: processRTP_def addMember_same [OF e] rtp_member_def e m(1))
qed

fun receiveAll :: "IPvXAddress \<Rightarrow> (simtime \<times> RTPPacket) list \<Rightarrow> RTP \<Rightarrow> RTP result" where
  "receiveAll a [] st = Inr st"
| "receiveAll a ((now, p) # ps) st = ebind (processRTP now a p st) (receiveAll a ps)"

text \<open>Each number is new, less than 3000 above and less than 100 below the highest before it.\<close>

fun in_window :: "nat \<Rightarrow> nat list \<Rightarrow> bool" where
  "in_window M [] \<longleftrightarrow> True"
| "in_window M (m # ms) \<longleftrightarrow> m \<noteq> M \<and> m < M + 3000 \<and> M < m + 100 \<and> in_window (max M m) ms"

definition carries_seqs :: "uint32 \<Rightarrow> nat list \<Rightarrow> (simtime \<times> RTPPacket) list \<Rightarrow> bool" where
  "carries_seqs k ms ps \<longleftrightarrow> map (rtp_seqNo \<circ> snd) ps = map of_nat ms \<and> (\<forall>p \<in> set ps. rtp_ssrc (snd p) = k)"

lemma carries_seqs_Cons:
  "carries_seqs k (m # ms) ps \<longleftrightarrow>
     (\<exists>now p ps'. ps = (now, p) # ps' \<and> rtp_seqNo p = of_nat m \<and> rtp_ssrc p = k \<and> carries_seqs k ms ps')"
  by (cases ps) (auto simp: carries_seqs_def)

lemma carries_seqs_Nil: "carries_seqs k [] ps \<longleftrightarrow> ps = []"
  by (auto simp: carries_seqs_def)

lemma receiveAll_seen:
  assumes "map_of (memberSet st) k = Some e" and "seen M c e" and "in_window M ms" and "carries_seqs k ms ps"
  shows "\<exists>st' e'. receiveAll a ps st = Inr st' \<and> map_of (memberSet st') k = Some e' \<and>
    seen (Max (insert M (set ms))) (c + length ms) e'"
  using assms
proof (induction ms arbitrary: st e M c ps)
  case Nil
  then show ?case by (auto simp: carries_seqs_Nil)
next
  case (Cons m ms)
  obtain now p ps' where p: "ps = (now, p) # ps'" "rtp_seqNo p = of_nat m" "rtp_ssrc p = k" "carries_seqs k ms ps'"
    using Cons.prems(4) by (auto simp: carries_seqs_Cons)
  have w: "m \<noteq> M" "m < M + 3000" "M < m + 100" "in_window (max M m) ms" using Cons.prems(3) by simp_all
  obtain st1 e1 where s1: "processRTP now a p st = Inr st1" "map_of (memberSet st1) k = Some e1"
      "seen (max M m) (Suc c) e1"
    using processRTP_next [of st p e M c m now a] Cons.prems(1,2) p w by metis
  have "Max (insert (max M m) (set ms)) = Max (insert M (set (m # ms)))"
    by (cases "ms = []") (simp_all add: max.assoc)
  then show ?case using Cons.IH [OF s1(2,3) w(4) p(4)] s1(1) p(1) by simp
qed

text \<open>
  C37: When packets of one source arrive, each at most once, with gaps below 3000 and less than 100
  late, then across any number of wraps of the 16-bit sequence number the report states one more than the
  number of packets that did not arrive: the first packet of a source is not counted as received.
\<close>

lemma report_counts_losses:
  assumes window: "in_window m ms" "m < 65536" and new: "distinct (m # ms)" and ps: "carries_seqs k (m # ms) ps"
    and silent: "\<And>e. map_of (memberSet st) k = Some e \<Longrightarrow> \<not> rme_sender e"
  shows "\<exists>st' e. receiveAll a ps st = Inr st' \<and> map_of (memberSet st') k = Some e \<and>
    cumPacketsLost (fst (reportBlock now k e)) =
      of_nat (Suc (card ({..Max (set (m # ms))} - set (m # ms))))"
proof -
  obtain t p ps' where p: "ps = (t, p) # ps'" "rtp_seqNo p = of_nat m" "rtp_ssrc p = k" "carries_seqs k ms ps'"
    using ps by (auto simp: carries_seqs_Cons)
  obtain st1 e1 where s1: "processRTP t a p st = Inr st1" "map_of (memberSet st1) k = Some e1" "seen m 0 e1"
    using processRTP_first [of st p m t a] silent p window(2) by blast
  obtain st' e where s: "receiveAll a ps' st1 = Inr st'" "map_of (memberSet st') k = Some e"
      "seen (Max (set (m # ms))) (length ms) e"
    using receiveAll_seen [OF s1(2,3) window(1) p(4), of a] by auto
  define M where "M = Max (set (m # ms))"
  have sub: "set (m # ms) \<subseteq> {..M}" by (auto simp: M_def)
  have card: "card (set (m # ms)) = Suc (length ms)" using new by (simp add: distinct_card)
  have "card ({..M} - set (m # ms)) = Suc M - Suc (length ms)"
    using card_Diff_subset [OF _ sub] card by simp
  moreover have "Suc (length ms) \<le> Suc M" using card_mono [OF _ sub] card by simp
  ultimately have "Suc (card ({..M} - set (m # ms))) + length ms = Suc M" by linarith
  then have "(of_nat (Suc M) :: uint32) = of_nat (Suc (card ({..M} - set (m # ms)))) + of_nat (length ms)"
    by (metis of_nat_add)
  moreover have "cumPacketsLost (fst (reportBlock now k e)) = of_nat (Suc M) - of_nat (length ms)"
    using extended_eq [OF s(3)] s(3) by (simp add: reportBlock_def Let_def M_def seen_def)
  ultimately show ?thesis using s(1,2) s1(1) p(1) by (simp add: M_def)
qed

lemma badSeq_next:
  "((ucast (of_nat n :: uint16) + 1) AND word_of_int (RTP_SEQ_MOD - 1) :: uint32) = ucast (of_nat (Suc n) :: uint16)"
proof -
  have m: "word_of_int (RTP_SEQ_MOD - 1) = (mask 16 :: uint32)" by (simp add: RTP_SEQ_MOD_def mask_eq_exp_minus_1)
  have "(ucast (of_nat n :: uint16) + 1 :: uint32) = of_nat (Suc (n mod 65536))"
    by (simp add: ucast_of_uint16)
  then have "((ucast (of_nat n :: uint16) + 1) AND word_of_int (RTP_SEQ_MOD - 1) :: uint32) =
      take_bit 16 (of_nat (Suc (n mod 65536)))"
    unfolding m by (simp only: take_bit_eq_mask)
  also have "\<dots> = of_nat (take_bit 16 (Suc (n mod 65536)))" by (simp only: take_bit_of_nat)
  also have "take_bit 16 (Suc (n mod 65536)) = Suc n mod 65536" by (simp add: take_bit_eq_mod mod_Suc_eq)
  finally show ?thesis by (simp only: ucast_of_uint16)
qed

text \<open>
  After an outage of 3000 packets or more, two consecutive packets stop the simulation.
\<close>

lemma outage_aborts:
  assumes e: "map_of (memberSet st) k = Some e" "seen M c e"
    and d: "3000 \<le> d" "d < 65436"
    and p: "carries_seqs k [M + d, M + d + 1] ps"
    and fresh: "badSeq e \<noteq> ucast (of_nat (M + d) :: uint16)"
  shows "receiveAll a ps st = Inl (AssertFailed ''resync'')"
proof -
  obtain t p1 t' p2 where ps: "ps = [(t, p1), (t', p2)]" and p1: "rtp_seqNo p1 = of_nat (M + d)" "rtp_ssrc p1 = k"
    and p2: "rtp_seqNo p2 = of_nat (M + d + 1)" "rtp_ssrc p2 = k"
    using p by (auto simp: carries_seqs_Cons carries_seqs_Nil)
  have M: "rme_sender e" "maxSeq e = of_nat M" using e(2) by (simp_all add: seen_def)
  have d1: "uint (of_nat (M + d) - maxSeq e) = int d" using delta_forward [of M "M + d"] d M by simp
  have d2: "uint (of_nat (M + d + 1) - maxSeq e) = int d + 1" using delta_forward [of M "M + d + 1"] d M by simp
  define e' where "e' = e\<lparr>badSeq := ucast (of_nat (M + d + 1) :: uint16)\<rparr>"
  have "update_seq t (of_nat (M + d)) e st = Inr (False, e', st)"
    using d1 d fresh badSeq_next [of "M + d"]
    unfolding update_seq_def Let_def e'_def MAX_DROPOUT_def MAX_MISORDER_def by (simp add: RTP_SEQ_MOD_def)
  then have step: "processRTP t a p1 st = Inr (st\<lparr>memberSet := map_put k e' (memberSet st)\<rparr>)" (is "_ = Inr ?s1")
    using e(1) M p1 by (simp add: processRTP_def addMember_same rtp_member_def)
  have "update_seq t' (of_nat (M + d + 1)) e' ?s1 = Inl (AssertFailed ''resync'')"
    using d2 d unfolding update_seq_def Let_def MAX_DROPOUT_def MAX_MISORDER_def by (simp add: RTP_SEQ_MOD_def e'_def)
  moreover have "map_of (memberSet ?s1) k = Some e'" by simp
  ultimately have "processRTP t' a p2 ?s1 = Inl (AssertFailed ''resync'')"
    using M p2 by (simp add: processRTP_def addMember_same rtp_member_def e'_def)
  then show ?thesis using step ps by simp
qed

text \<open>
  A source that goes on after a report with fewer new numbers than packets, because late ones came in,
  is reported with a negative fraction.
\<close>

lemma late_packets_give_negative_fraction:
  assumes "cycles e + ucast (maxSeq e) + 1 = expectedPrior e + 1" and "received e = receivedPrior e + 2"
  shows "sint (fractionLost (fst (reportBlock now k e))) = -256"
proof -
  have "sint (ucast (NOT (mask 8 :: uint32)) :: int16) = -256" by code_simp
  then show ?thesis using assms by (simp add: reportBlock_def Let_def)
qed

text \<open>Leaving resets the counters and keeps the table; the answer to the bye counts below zero.\<close>

lemma leaving_breaks_the_counters:
  assumes "leaveSession now u st = Inr st1"
    and "map_of (memberSet st) k = Some e" and "rme_sender e"
  shows "members (processGoodBye a k st1) = 0" "uint (senders (processGoodBye a k st1)) = 65535"
proof -
  have "memberSet st1 = memberSet st \<and> members st1 = 1 \<and> senders st1 = 0"
    using assms(1) by (auto simp: leaveSession_def Let_def cancelTimers_def sendBye_def sendRTCP_def
        split: if_splits option.splits list.splits)
  then show "members (processGoodBye a k st1) = 0" "uint (senders (processGoodBye a k st1)) = 65535"
    using assms(2,3) by (simp_all add: processGoodBye_def Let_def sendRTCP_def unsigned_minus_1_eq_mask mask_eq_exp_minus_1)
qed

text \<open>A report on 31 sources or more is not sent in parts, and aborts its receiver.\<close>

lemma large_report_aborts:
  assumes "31 \<le> length blocks" and "rtcp_body rep \<in> {RTCPRR blocks, RTCPSR n m blocks}"
    and "map_of (memberSet st) (rtcp_ssrc rep) \<noteq> None"
  shows "processReports rep st = Inl (AssertFailed ''blocks.size() < 31'')"
  using assms by (auto simp: processReports_def copyBlocks_def reportBlocksArraySize_def rtp_member_def)

lemma second_bye_fails:
  "destAddrs st = d # d' # ds \<Longrightarrow>
   sendBye st = Inl (OppError ''setControlInfo(): message already has control info attached'')"
  by (simp add: sendBye_def)

section \<open>An example\<close>

text \<open>A session with a second participant, number 7, whose packets 0, 1, 3, 5, 2 arrive and 4 is lost.\<close>

definition example_rtp :: RTP where
  "example_rtp =
     \<lparr>rtp_port = 5000, nodeNameRTP = ''a'', par_destAddrs = [], destAddrs = [V4 9],
      payloadLengthRTP = 160, packetisationInterval = 1 / 50,
      memberSet = [(1, (init_seq 0 (new_RTPMemberEntry nullAddr))\<lparr>badSeq := 0\<rparr>)],
      own_ssrc = 1, own_seqNo = 0, packetCount = 0, octetCount = 0, rtcpTimeout = Some 4,
      rtpTimeout = Some None, callbacks = [], tp = 0, tn = 0, pmembers = 1, members = 1, senders = 0,
      rtcpBw = 1000, weSent = False, meanRtcpSize = 52,
      initial = True, incomingBlocks = [], l2down = 0, l2up = 0, mobileNode = False,
      rtp_log = [BindToPort 5000, BindToPort 5001]\<rparr>"

definition example_packets :: "nat list \<Rightarrow> (simtime \<times> RTPPacket) list" where
  "example_packets = map (\<lambda>n. (1, new_RTPPacket 7 (of_nat n)))"

lemma example_carries: "carries_seqs 7 ms (example_packets ms)"
  by (simp add: carries_seqs_def example_packets_def new_RTPPacket_def comp_def)



lemma report_counts_losses_witness:
  "\<exists>st' e. receiveAll (V4 9) (example_packets [0, 1, 3, 5, 2]) example_rtp = Inr st' \<and> map_of (memberSet st') 7 = Some e \<and>
     cumPacketsLost (fst (reportBlock 2 7 e)) = 2"
proof -
  have "{..5} - set [0, 1, 3, 5, 2] = {4::nat}" by auto
  moreover have "Max (set [0, 1, 3, 5, 2 :: nat]) = 5" by simp
  ultimately have "card ({..Max (set [0, 1, 3, 5, 2 :: nat])} - set [0, 1, 3, 5, 2]) = 1" by simp
  then show ?thesis
    using report_counts_losses [of 0 "[1, 3, 5, 2]" 7 "example_packets [0, 1, 3, 5, 2]" example_rtp "V4 9" 2]
      example_carries [of "[0, 1, 3, 5, 2]"]
    by (simp add: example_rtp_def)
qed


definition example_source :: RTPMemberEntry where
  "example_source = (init_seq 5 (new_RTPMemberEntry (V4 9)))\<lparr>rme_sender := True\<rparr>"

lemma outage_aborts_witness:
  "receiveAll (V4 9) (example_packets [3005, 3006]) (example_rtp\<lparr>memberSet := [(7, example_source)]\<rparr>)
     = Inl (AssertFailed ''resync'')"
proof (rule outage_aborts)
  show "seen 5 0 example_source" by (simp add: seen_def example_source_def init_seq_def)
  show "(3000::nat) \<le> 3000" "(3000::nat) < 65436" by simp_all
  show "carries_seqs 7 [5 + 3000, 5 + 3000 + 1] (example_packets [3005, 3006])" using example_carries [of "[3005, 3006]"] by simp
qed (simp_all add: example_source_def init_seq_def RTP_SEQ_MOD_def)

end
