(* ===== verification/IPv6_AddrRes.thy ===== *)
theory IPv6_AddrRes
  imports IPv6_Forwarding "HOL-Library.Multiset"
begin

text \<open>
  Address resolution of IPv6, \<open>src/Network/ICMPv6/AddressResolution.cc\<close>: datagrams that wait for the
  link layer address of their next hop, the timers that repeat the solicitations, and the handling
  of solicitations and advertisements. What is sent is appended to \<open>ar_log\<close>. A timer is known by a
  number where the code has a pointer to it. The test of datagrams for tentative source addresses
  and all other uses of the interface data are those of \<open>IPv6_Routing\<close>; \<open>retransTimer\<close> is the
  retransmission time of each interface, in milliseconds.
\<close>

definition MAX_MULTICAST_SOLICIT :: nat where "MAX_MULTICAST_SOLICIT = 3"
definition ICMPv6_DESTINATION_UNREACHABLE :: int where "ICMPv6_DESTINATION_UNREACHABLE = 1"
definition ADDRESS_UNREACHABLE :: int where "ADDRESS_UNREACHABLE = 3"

text \<open>Solicitations and advertisements, each with the datagram that carries it.\<close>

record SolDgram =
  sd_src :: ipv6_addr
  sd_dest :: ipv6_addr
  sd_hopLimit :: int
  sd_target :: ipv6_addr
  sd_srcLLAddr :: string

record AdDgram =
  ad_src :: ipv6_addr
  ad_dest :: ipv6_addr
  ad_hopLimit :: int
  ad_target :: ipv6_addr
  ad_llAddr :: string
  ad_router :: bool
  ad_solicited :: bool
  ad_override :: bool

datatype 'p ar_out =
    SolicitOut nat SolDgram
  | AdvertOut nat AdDgram
  | AdvertDirect nat string AdDgram
  | ResolvedOut "'p IPv6Datagram" AddrResInfo
  | UnreachableOut "'p ICMPv6Error"

text \<open>
  A timer: \<open>tmr_src\<close> is the source address of its solicitation, \<open>tmr_msg\<close> the time of its message.
  The marker of a resolution on all interfaces has the interface \<open>UINT_MAX\<close> and no message.
\<close>

record NDARTimer =
  tmr_id :: nat
  tmr_target :: ipv6_addr
  tmr_src :: ipv6_addr
  tmr_counter :: nat
  tmr_ifIndex :: nat
  tmr_msg :: "simtime option"

record 'p AddressResolution =
  ar_rt :: RT6
  retransTimer :: "nat \<Rightarrow> nat"
  ppq :: "(ipv6_addr \<times> 'p IPv6Datagram) list"
  tmrs :: "NDARTimer list"
  next_tmr :: nat
  ctrOutNgbrAdv :: nat
  ctrOutNgbrSol :: nat
  ctrOutNoRoutes :: nat
  ar_log :: "'p ar_out list"

definition AddressResolution_initialize :: "RT6 \<Rightarrow> (nat \<Rightarrow> nat) \<Rightarrow> 'p AddressResolution" where
  "AddressResolution_initialize rt retrans =
     \<lparr>ar_rt = rt, retransTimer = retrans, ppq = [], tmrs = [], next_tmr = 0, ctrOutNgbrAdv = 0,
      ctrOutNgbrSol = 0, ctrOutNoRoutes = 0, ar_log = []\<rparr>"


definition upd_ar_cds :: "(CDS \<Rightarrow> CDS) \<Rightarrow> 'p AddressResolution \<Rightarrow> 'p AddressResolution" where
  "upd_ar_cds f st = st\<lparr>ar_rt := upd_cds f (ar_rt st)\<rparr>"

definition ar_send :: "'p ar_out \<Rightarrow> 'p AddressResolution \<Rightarrow> 'p AddressResolution" where
  "ar_send x st = st\<lparr>ar_log := ar_log st @ [x]\<rparr>"

text \<open>The datagrams that wait for an address, oldest first.\<close>

definition waitingFor :: "ipv6_addr \<Rightarrow> (ipv6_addr \<times> 'p IPv6Datagram) list \<Rightarrow> 'p IPv6Datagram list" where
  "waitingFor a q = map snd (filter (\<lambda>e. fst e = a) q)"

definition erasePending :: "ipv6_addr \<Rightarrow> 'p AddressResolution \<Rightarrow> 'p AddressResolution" where
  "erasePending a st = st\<lparr>ppq := filter (\<lambda>e. fst e \<noteq> a) (ppq st)\<rparr>"

definition new_NDARTimer :: "ipv6_addr \<Rightarrow> nat \<Rightarrow> ipv6_addr \<Rightarrow> 'p AddressResolution \<Rightarrow> NDARTimer \<times> 'p AddressResolution" where
  "new_NDARTimer target ifIndex src st =
     (\<lparr>tmr_id = next_tmr st, tmr_target = target, tmr_src = src, tmr_counter = 0, tmr_ifIndex = ifIndex, tmr_msg = None\<rparr>,
      st\<lparr>next_tmr := next_tmr st + 1\<rparr>)"

definition putTimer :: "NDARTimer \<Rightarrow> 'p AddressResolution \<Rightarrow> 'p AddressResolution" where
  "putTimer t st = st\<lparr>tmrs := map (\<lambda>t'. if tmr_id t' = tmr_id t then t else t') (tmrs st)\<rparr>"

section \<open>Solicitations\<close>

text \<open>An ICMP error for each waiting datagram. One without a source address gets that of the interface.\<close>

fun sendUnreachable :: "IPv6InterfaceData \<Rightarrow> 'p IPv6Datagram list \<Rightarrow> 'p AddressResolution \<Rightarrow> 'p AddressResolution result" where
  "sendUnreachable ie [] st = Inr st"
| "sendUnreachable ie (p # ps) st =
     ebind (if d6_srcAddress p = IPv6_ADDR_UNSPECIFIED
            then (case inetAddrs ie of [] \<Rightarrow> Inl (Exception ''inetAddrs[0]'') | a # _ \<Rightarrow> Inr (p\<lparr>d6_srcAddress := m_addr a\<rparr>))
            else Inr p) (\<lambda>p.
       sendUnreachable ie ps
         (ar_send (UnreachableOut (createICMPv6Message ICMPv6_DESTINATION_UNREACHABLE ADDRESS_UNREACHABLE
             (dup_IPv6Datagram p) 0)) (st\<lparr>ctrOutNoRoutes := ctrOutNoRoutes st + 1\<rparr>)))"

text \<open>
  The timers of the same address, the failed one apart. A timer that is not in the list makes the
  code read what the end of the list points to.
\<close>

definition otherTimers :: "NDARTimer \<Rightarrow> 'p AddressResolution \<Rightarrow> NDARTimer list" where
  "otherTimers tmr st = filter (\<lambda>t. tmr_target t = tmr_target tmr \<and> tmr_id t \<noteq> tmr_id tmr) (tmrs st)"

definition failedAddrRes :: "simtime \<Rightarrow> NDARTimer \<Rightarrow> 'p AddressResolution \<Rightarrow> 'p AddressResolution result" where
  "failedAddrRes now tmr st =
     ifaceAt (tmr_ifIndex tmr) (ar_rt st) (\<lambda>ie.
       if tmr_id tmr \<notin> tmr_id ` set (tmrs st) then Inl (NullPointer ''*tmrs.end()'')
       else
         let others = otherTimers tmr st;
             nextHop = tmr_target tmr;
             finalTimer = (\<forall>t \<in> set others. tmr_msg t = None);
             st = st\<lparr>tmrs := filter (\<lambda>t. tmr_id t \<noteq> tmr_id tmr) (tmrs st)\<rparr>
         in if \<not> finalTimer then Inr st
            else
              let st = (if others = [] then st
                        else st\<lparr>tmrs := filter (\<lambda>t. tmr_id t \<noteq> tmr_id (last others)) (tmrs st)\<rparr>);
                  st = (if now > 5 then upd_ar_cds (\<lambda>c. snd (removeDestEntryByNeighbour nextHop c)) st else st)
              in emap (erasePending nextHop) (sendUnreachable ie (waitingFor nextHop (ppq st)) st))"

text \<open>A timer with its message is sent again, or has failed.\<close>

definition solicit :: "simtime \<Rightarrow> IPv6InterfaceData \<Rightarrow> NDARTimer \<Rightarrow> 'p AddressResolution \<Rightarrow> 'p AddressResolution result" where
  "solicit now ie tmr st =
     (if tmr_counter tmr < MAX_MULTICAST_SOLICIT then
        let st = ar_send (SolicitOut (tmr_ifIndex tmr)
              \<lparr>sd_src = tmr_src tmr, sd_dest = solNodeAddr (tmr_target tmr), sd_hopLimit = NDHOPLIMIT,
               sd_target = tmr_target tmr, sd_srcLLAddr = llAddrStr ie\<rparr>)
              (st\<lparr>ctrOutNgbrSol := ctrOutNgbrSol st + 1\<rparr>)
        in Inr (putTimer (tmr\<lparr>tmr_counter := tmr_counter tmr + 1,
                  tmr_msg := Some (now + real (retransTimer st (tmr_ifIndex tmr)) / 1000)\<rparr>) st)
      else failedAddrRes now tmr st)"

definition sendNgbrSol :: "simtime \<Rightarrow> NDARTimer \<Rightarrow> 'p AddressResolution \<Rightarrow> 'p AddressResolution result" where
  "sendNgbrSol now tmr st =
     ifaceAt (tmr_ifIndex tmr) (ar_rt st) (\<lambda>ie.
       ASSERT (\<not> (odadSupport (ar_rt st) \<and> tmr_src tmr \<noteq> IPv6_ADDR_UNSPECIFIED \<and> tentativeAddrAssigned (tmr_src tmr) ie))
         ''ODAD addr res with a tentative srcAddr''
         (let begin = (\<lambda>tmr. solicit now ie (tmr\<lparr>tmr_msg := Some now\<rparr>) (st\<lparr>tmrs := tmrs st @ [tmr\<lparr>tmr_msg := Some now\<rparr>]\<rparr>)) in
          if tmr_msg tmr \<noteq> None then solicit now ie tmr st
          else if if_addrAssigned (tmr_src tmr) ie then begin tmr
          else (case inetAddrs ie of
                  a # _ \<Rightarrow> begin (tmr\<lparr>tmr_src := m_addr a\<rparr>)
                | [] \<Rightarrow> failedAddrRes now tmr st)))"

fun solicitOn :: "simtime \<Rightarrow> NDARTimer \<Rightarrow> nat list \<Rightarrow> 'p AddressResolution \<Rightarrow> 'p AddressResolution result" where
  "solicitOn now tmr [] st = Inr st"
| "solicitOn now tmr (i # is) st =
     (case new_NDARTimer (tmr_target tmr) i (tmr_src tmr) st of (tmrCopy, st) \<Rightarrow>
        ebind (sendNgbrSol now tmrCopy st) (solicitOn now tmr is))"

definition initiateNgbrSol :: "simtime \<Rightarrow> NDARTimer \<Rightarrow> 'p AddressResolution \<Rightarrow> 'p AddressResolution result" where
  "initiateNgbrSol now tmr st =
     (if tmr_ifIndex tmr = UINT_MAX
      then solicitOn now tmr [0..<numInterfaceGates6 (ar_rt st)] (st\<lparr>tmrs := tmrs st @ [tmr]\<rparr>)
      else sendNgbrSol now tmr st)"

section \<open>Waiting datagrams\<close>

text \<open>\<open>linkAddr\<close> is the address of the neighbour entry.\<close>

definition resolved :: "ipv6_addr \<Rightarrow> nat \<Rightarrow> string \<Rightarrow> AddrResInfo" where
  "resolved src ifIndex linkAddr =
     new_AddrResInfo\<lparr>ai_nextHop := src, ai_ifIndex := ifIndex, ai_linkLayerAddr := linkAddr\<rparr>"

fun sendPending ::
    "ipv6_addr \<Rightarrow> nat \<Rightarrow> string \<Rightarrow> 'p IPv6Datagram list \<Rightarrow> 'p AddressResolution \<Rightarrow> 'p AddressResolution result" where
  "sendPending src ifIndex linkAddr [] st = Inr st"
| "sendPending src ifIndex linkAddr (p # ps) st =
     (let p = p\<lparr>d6_outputPort := int_of_uint ifIndex\<rparr>;
          finish = (\<lambda>p. ASSERT (linkAddr \<noteq> '''') ''ne->linkLayerAddr()''
                       (sendPending src ifIndex linkAddr ps (ar_send (ResolvedOut p (resolved src ifIndex linkAddr)) st)))
      in if d6_srcAddress p \<noteq> IPv6_ADDR_UNSPECIFIED then finish p
         else
           ebind (determineSrcAddress (d6_destAddress p) ifIndex (ar_rt st)) (\<lambda>a.
             if a = IPv6_ADDR_UNSPECIFIED then sendPending src ifIndex linkAddr ps st
             else if odadSupport (ar_rt st) then Inl (AssertFailed ''ODAD: addr res of a packet without source'')
             else finish (p\<lparr>d6_srcAddress := a\<rparr>)))"

definition sendQueuedPackets :: "ipv6_addr \<Rightarrow> nat \<Rightarrow> string \<Rightarrow> 'p AddressResolution \<Rightarrow> 'p AddressResolution result" where
  "sendQueuedPackets src ifIndex linkAddr st =
     emap (erasePending src) (sendPending src ifIndex linkAddr (waitingFor src (ppq st)) st)"

section \<open>The handlers\<close>

text \<open>
  The neighbour of the next hop. A host with a default router other than the next hop, which has no
  neighbour for it, reads \<open>addrResInfo\<close> after it was deleted and set to null.
\<close>

definition neighbourFor :: "ipv6_addr \<Rightarrow> nat \<Rightarrow> RT6 \<Rightarrow> (weak_ptr \<times> CDS) result" where
  "neighbourFor target ifIndex rt =
     (let c = cds rt; ngbr = dc_neighbour target c in
      ebind (if \<not> IPForward rt \<and> lock c ngbr = None then
               (case lock c (defaultRouter c) of
                  None \<Rightarrow> Inr (ngbr, c)
                | Some re \<Rightarrow>
                    if unicastAddr re = target
                    then Inr (defaultRouter c, setDestNeighbour (key_of (addr128 target)) (defaultRouter c) c)
                    else Inl (NullPointer ''addrResInfo''))
             else Inr (ngbr, c)) (\<lambda>(ngbr, c).
        let ngbr = (if lock c ngbr = None then router target c else ngbr) in
        if lock c ngbr \<noteq> None then Inr (ngbr, c)
        else (case insertNeighbourEntry (new_NeighbourEntry target ifIndex None INCOMPLETE) c of
                (r, c) \<Rightarrow> Inr (dc_neighbour target c, c))))"

definition handlePending :: "simtime \<Rightarrow> 'p IPv6Datagram \<Rightarrow> AddrResInfo \<Rightarrow> 'p AddressResolution \<Rightarrow> 'p AddressResolution result" where
  "handlePending now dgram info st =
     ASSERT (d6_destAddress dgram \<noteq> IPv6_ADDR_UNSPECIFIED \<and> ai_nextHop info \<noteq> IPv6_ADDR_UNSPECIFIED)
       ''AddressResolution::handleMessage''
       (let target = ai_nextHop info;
            st = st\<lparr>ppq := ppq st @ [(target, dgram)]\<rparr>
        in if length (waitingFor target (ppq st)) > 1 then Inr st
           else
             ebind (neighbourFor target (ai_ifIndex info) (ar_rt st)) (\<lambda>(ngbr, c).
               let st = upd_ar_cds (\<lambda>_. c) st in
               case lock c ngbr of
                 None \<Rightarrow> Inl (NullPointer ''ngbr'')
               | Some ne \<Rightarrow>
                   if ne_state ne \<noteq> INCOMPLETE
                   then sendQueuedPackets (unicastAddr ne) (interfaceNo ne) (linkLayerAddr ne) st
                   else
                     (case new_NDARTimer target (ai_ifIndex info) (d6_srcAddress dgram) st of
                        (tmr, st) \<Rightarrow> initiateNgbrSol now tmr st)))"









section \<open>No datagram is lost\<close>

text \<open>
  What left this module for a datagram that waited, by what it carries: the fragmentation module or an
  ICMP error.
\<close>

fun handled :: "'p ar_out \<Rightarrow> 'p ip6_msg list" where
  "handled (ResolvedOut d info) = [d6_payload d]"
| "handled (UnreachableOut e) = [d6_payload (icmp_contents e)]"
| "handled (SolicitOut _ _) = []"
| "handled (AdvertOut _ _) = []"
| "handled (AdvertDirect _ _ _) = []"

definition handledOut :: "'p ar_out list \<Rightarrow> 'p ip6_msg list" where
  "handledOut out = concat (map handled out)"

definition accounted :: "'p AddressResolution \<Rightarrow> 'p ip6_msg multiset" where
  "accounted st = mset (map (d6_payload \<circ> snd) (ppq st)) + mset (handledOut (ar_log st))"

lemma handledOut_simps [simp]:
  "handledOut [] = []" "handledOut (x # xs) = handled x @ handledOut xs" "handledOut (xs @ ys) = handledOut xs @ handledOut ys"
  by (simp_all add: handledOut_def)

definition real_timer :: "ipv6_addr \<Rightarrow> NDARTimer list \<Rightarrow> bool" where
  "real_timer a ts \<longleftrightarrow> (\<exists>t \<in> set ts. tmr_target t = a \<and> tmr_msg t \<noteq> None)"

definition sourced :: "'p AddressResolution \<Rightarrow> bool" where
  "sourced st \<longleftrightarrow> (\<forall>e \<in> set (ppq st). d6_srcAddress (snd e) \<noteq> IPv6_ADDR_UNSPECIFIED)"

definition ids_ok :: "'p AddressResolution \<Rightarrow> bool" where
  "ids_ok st \<longleftrightarrow> distinct (map tmr_id (tmrs st)) \<and> (\<forall>t \<in> set (tmrs st). tmr_id t < next_tmr st)"

text \<open>Each address that datagrams wait for has a running timer, those of \<open>X\<close> apart.\<close>

definition ar_inv :: "ipv6_addr set \<Rightarrow> 'p AddressResolution \<Rightarrow> bool" where
  "ar_inv X st \<longleftrightarrow> ids_ok st \<and> sourced st \<and> (\<forall>e \<in> set (ppq st). fst e \<notin> X \<longrightarrow> real_timer (fst e) (tmrs st))"

lemma ar_inv_cong:
  "ppq st' = ppq st \<Longrightarrow> tmrs st' = tmrs st \<Longrightarrow> next_tmr st' = next_tmr st \<Longrightarrow> ar_inv X st' = ar_inv X st"
  by (simp add: ar_inv_def ids_ok_def sourced_def)

lemma accounted_cong: "ppq st' = ppq st \<Longrightarrow> ar_log st' = ar_log st \<Longrightarrow> accounted st' = accounted st"
  by (simp add: accounted_def)

lemma ar_send_fields [simp]:
  "ppq (ar_send x st) = ppq st" "tmrs (ar_send x st) = tmrs st" "next_tmr (ar_send x st) = next_tmr st"
  "ar_rt (ar_send x st) = ar_rt st" "ar_log (ar_send x st) = ar_log st @ [x]"
  by (simp_all add: ar_send_def)

lemma upd_ar_cds_fields [simp]:
  "ppq (upd_ar_cds f st) = ppq st" "tmrs (upd_ar_cds f st) = tmrs st" "next_tmr (upd_ar_cds f st) = next_tmr st"
  "ar_log (upd_ar_cds f st) = ar_log st" "ifaces (ar_rt (upd_ar_cds f st)) = ifaces (ar_rt st)"
  "odadSupport (ar_rt (upd_ar_cds f st)) = odadSupport (ar_rt st)" "retransTimer (upd_ar_cds f st) = retransTimer st"
  by (simp_all add: upd_ar_cds_def)

lemma dup_payload [simp]: "d6_payload (dup_IPv6Datagram d) = d6_payload d"
  by (simp add: dup_IPv6Datagram_def)
















lemma putTimer_fields [simp]:
  "ppq (putTimer t st) = ppq st" "ar_log (putTimer t st) = ar_log st" "next_tmr (putTimer t st) = next_tmr st"
  "ar_rt (putTimer t st) = ar_rt st"
  by (simp_all add: putTimer_def)
















lemma ar_inv_upd_cds [simp]: "ar_inv X (upd_ar_cds f st) = ar_inv X st"
  by (rule ar_inv_cong) simp_all

lemma accounted_upd_cds [simp]: "accounted (upd_ar_cds f st) = accounted st"
  by (rule accounted_cong) simp_all

text \<open>The neighbour found for a next hop is the one with that address.\<close>

definition own_neighbour :: "ipv6_addr \<Rightarrow> CDS \<Rightarrow> bool" where
  "own_neighbour a c \<longleftrightarrow> (\<forall>ne. lock c (dc_neighbour a c) = Some ne \<longrightarrow> unicastAddr ne = a)"












section \<open>A resolution that nobody answers\<close>


lemma ar_send_retrans [simp]: "retransTimer (ar_send x st) = retransTimer st"
  by (simp add: ar_send_def)










section \<open>A resolution that is answered\<close>








section \<open>Hosts with a default router\<close>

text \<open>
  C26: A host that knows a default router cannot resolve another neighbour on its link: conceptual
  sending asks for the resolution of the destination itself, and the resolution reads the control
  information it has just deleted, through a null pointer.
\<close>

lemma host_cannot_resolve_neighbour:
  assumes host: "\<not> IPForward rt" "lock (cds rt) (defaultRouter (cds rt)) = Some re" "unicastAddr re \<noteq> dest"
    and onlink: "lookupAddress dest (cds rt) = Some i" and unknown: "lock (cds rt) (dc_neighbour dest (cds rt)) = None"
    and d: "d6_destAddress d = dest" "dest \<noteq> IPv6_ADDR_UNSPECIFIED"
    and st: "ar_rt st = rt" "waitingFor dest (ppq st) = []"
  shows "\<exists>info'. conceptualSending dest info rt = (info', rt) \<and> ai_nextHop info' = dest \<and> ai_status info' = -2 \<and>
    handlePending now d info' st = Inl (NullPointer ''addrResInfo'')"
proof -
  have info: "conceptualSending dest info rt = (info\<lparr>ai_ifIndex := i, ai_nextHop := dest, ai_status := -2\<rparr>, rt)"
    using host(1) onlink unknown by (simp add: conceptualSending_def Let_def)
  have "waitingFor dest (ppq st @ [(dest, d)]) = [d]" using st(2) by (simp add: waitingFor_def)
  moreover have "neighbourFor dest i rt = Inl (NullPointer ''addrResInfo'')"
    using host unknown by (simp add: neighbourFor_def Let_def)
  ultimately have "handlePending now d (info\<lparr>ai_ifIndex := i, ai_nextHop := dest, ai_status := -2\<rparr>) st =
      Inl (NullPointer ''addrResInfo'')"
    using d st by (simp add: handlePending_def Let_def)
  then show ?thesis using info by simp
qed

section \<open>An example\<close>

text \<open>Two nodes on one link.\<close>

definition addr_a :: ipv6_addr where "addr_a = Ipv6Addr 0xFE800000 0 0 1"

definition link_iface :: "ipv6_addr \<Rightarrow> string \<Rightarrow> IPv6InterfaceData" where
  "link_iface a ll =
     \<lparr>inetAddrs = [new_IPv6Address a 64], tentativeAddrs = [], curHopLimit = 30, if_mtu = 1500, llAddrStr = ll\<rparr>"


















definition example_host_rt :: RT6 where
  "example_host_rt = (RT6_initialize [link_iface addr_a ''A''])
     \<lparr>cds := snd (rl_insertRouterEntry example_router True
        (insertPrefixEntry (PrefixEntry_of (Ipv6Addr 0x20010db8 0 0 0) 32 100) 0 new_CDS))\<rparr>"

lemma host_cannot_resolve_neighbour_witness:
  "\<exists>info'. conceptualSending (Ipv6Addr 0x20010db8 0 0 5) new_AddrResInfo example_host_rt = (info', example_host_rt) \<and>
     ai_nextHop info' = Ipv6Addr 0x20010db8 0 0 5 \<and> ai_status info' = -2 \<and>
     handlePending 0 (new_IPv6Datagram addr_a (Ipv6Addr 0x20010db8 0 0 5) :: nat IPv6Datagram) info'
       (AddressResolution_initialize example_host_rt (\<lambda>_. 1000)) = Inl (NullPointer ''addrResInfo'')"
proof (rule host_cannot_resolve_neighbour)
  show "\<not> IPForward example_host_rt" by (simp add: example_host_rt_def RT6_initialize_def)
  show "lock (cds example_host_rt) (defaultRouter (cds example_host_rt)) = Some example_router"
    by (simp add: example_host_rt_def lock_def defaultRouter_def rl_insertRouterEntry_def alloc_def)
  show "unicastAddr example_router \<noteq> Ipv6Addr 0x20010db8 0 0 5"
    by (simp add: example_router_def new_RouterEntry_def new_NeighbourEntry_def)
  show "lock (cds example_host_rt) (dc_neighbour (Ipv6Addr 0x20010db8 0 0 5) (cds example_host_rt)) = None"
    by (simp add: example_host_rt_def lock_def dc_neighbour_def findDestEntry_def rl_insertRouterEntry_def alloc_def
        insertPrefixEntry_def new_CDS_def)
  show "lookupAddress (Ipv6Addr 0x20010db8 0 0 5) (cds example_host_rt) = Some 0"
    by (simp add: example_host_rt_def lookupAddress_def rl_insertRouterEntry_def alloc_def insertPrefixEntry_def new_CDS_def
        key_of_def PrefixEntry_of_def key_isNetwork_def) code_simp
qed (simp_all add: new_IPv6Datagram_def IPv6_ADDR_UNSPECIFIED_def AddressResolution_initialize_def waitingFor_def)

end
