(* ===== verification/Spec2Isabelle.thy ===== *)
theory Spec2Isabelle
  imports TCP_Acking TCP_Invariant TCP_Setup IPv4_IP IPv6_Tunnel
    Output_Queues Ether_Switch Ether_LLC Ether_Bus PPP_Link UDP_Processing ARP
    RTP_Session IPv6_AddrRes
begin

text \<open>
  A verification library for the protocols of the INET/IPv6Suite simulation models: TCP, IPv4
  and the network layer of IPv6.

  \<^bold>\<open>The program.\<close> The repository is a set of OMNeT++ simple modules. A module reacts to one
  message at a time: a packet from a neighbouring layer, a command of the application, or a
  timer it has scheduled. Here a reaction is a function from the state of the module to the
  new state, the messages it sends being appended to a log; an \<open>ASSERT\<close> that fails, an
  \<open>opp_error\<close>, a thrown exception and a null pointer are values of \<open>sim_error\<close> on the left of
  the result type of \<open>Prelude\<close>.

  \<^bold>\<open>TCP\<close> (\<open>src/Transport/TCP\<close>), in the order of the import graph:
  \<^item> \<open>TCP_Seq\<close>: the comparisons \<open>seqLess\<close>, \<open>seqLE\<close>, \<open>seqGreater\<close>, \<open>seqGE\<close> of
    \<open>TCPConnection.h\<close> on 32-bit words, with the window in which they are an order (C1).
  \<^item> \<open>TCP_Segment\<close>: addresses and segments (\<open>IPvXAddress.h\<close>, \<open>TCPSegment.msg\<close>).
  \<^item> \<open>TCP_SendQueue\<close>, \<open>TCP_RcvQueue\<close>: both classes of each queue. The send queues share the
    interface \<open>tcp_send_queue\<close>, a locale interpreted on each class and on the dispatching
    operations. The receive queue refines sets of octets.
  \<^item> \<open>TCP_Connection\<close>: the record of a connection with its timers, the state variables and
    the primitives that send and schedule. The locale \<open>conn_step\<close> collects what every
    operation built on them has in common, as closure properties of a relation.
  \<^item> \<open>TCP_Util\<close>: the sending functions of \<open>TCPConnectionUtil.cc\<close>.
  \<^item> \<open>TCP_Algorithm\<close>: the algorithm classes (\<open>TCPBaseAlg\<close>, Tahoe, Reno, no congestion control,
    \<open>DumbTCP\<close>).
  \<^item> \<open>TCP_FSM\<close>: the state machine of \<open>TCPConnectionBase.cc\<close>.
  \<^item> \<open>TCP_Tables\<close>, \<open>TCP_Main\<close>: the tables and the dispatch of \<open>TCPMain.cc\<close>.
  \<^item> \<open>TCP_Events\<close>, \<open>TCP_Input\<close>: application commands, timeouts and segment arrival.
  \<^item> \<open>TCP_Steps\<close>: every operation is a step of the locales \<open>conn_step\<close>, \<open>alg_step\<close>, \<open>tcp_step\<close>,
    proved once and instantiated for the frame, the log and the bounds.
  \<^item> \<open>TCP_Sending\<close>, \<open>TCP_Acking\<close>, \<open>TCP_Setup\<close>, \<open>TCP_Invariant\<close>: the properties that span
    components.

  \<^bold>\<open>Choices of the TCP model.\<close> \<open>unsigned long\<close> is wider than 32 bits, as on the LP64 targets of
  the makefiles; it matters in the comparisons and in byte counts. Simulation times are real
  numbers. The blank connection of \<open>TCP_S_INIT\<close> has default queues and state variables where
  the code has null pointers; no handler uses them before \<open>initConnection\<close> replaced them. A
  timer is not allocated, idle, or scheduled. The loops over segments are guarded by a
  positive segment size, which is 1024 in every connection the code creates. The ports of a
  socket pair are truncated to \<open>short\<close>, as are those read from a segment. The tables are
  partial functions by equality of keys. Statistics vectors, display strings and the printed
  trace have no effect on the state and are left out.

  \<^bold>\<open>IPv4\<close> (\<open>src/Network/IPv4\<close>, \<open>src/Network/Contract\<close>):
  \<^item> \<open>Std_Map\<close>: \<open>std::map\<close> as a list sorted by its key, with \<open>operator[]\<close> and \<open>erase\<close>.
  \<^item> \<open>IPv4_Address\<close>: \<open>IPAddress\<close>, its masks, classes and text form.
  \<^item> \<open>IPv4_FragBuf\<close>: the reassembly buffer \<open>IPFragBuf\<close>.
  \<^item> \<open>IPv4_Routing\<close>: the interface table and \<open>RoutingTable\<close> with its best match.
  \<^item> \<open>IPv4_IP\<close>: the handlers of \<open>IP.cc\<close>, \<open>ProtocolMap.cc\<close> and \<open>ICMP.cc\<close>. Messages sent are a list
    of \<open>ip_out\<close>; the payload of a datagram is a parameter of the types.

  \<^bold>\<open>IPv6\<close> (\<open>src/Network/IPv6\<close>, \<open>src/Network/ICMPv6\<close>, \<open>src/Util\<close>):
  \<^item> \<open>IPv6_Address\<close>: \<open>ipv6_addr\<close>, \<open>ipv6_prefix\<close> and \<open>IPv6Address\<close>: arithmetic, the reversed order,
    prefixes, scope, text form. A shift of a word by its width, undefined in C++, is \<open>None\<close>.
  \<^item> \<open>IPv6_CDS\<close>: the entries of \<open>NDEntry.cc\<close> and the four conceptual data structures of neighbour
    discovery. The entries that shared and weak pointers refer to live in a store (\<open>objs\<close>);
    an entry whose last owner lets it go leaves the store, and a weak pointer to it then locks to
    nothing. The relation \<open>cds_step\<close> collects the operations; the locale \<open>prefix_order\<close> states
    what makes the first matching entry of a table the longest, and is interpreted on the order
    of the tables.
  \<^item> \<open>Expiry_List\<close>: \<open>ExpiryEntryListSignal\<close>, lists whose entries expire with one timer.
  \<^item> \<open>IPv6_Routing\<close>: the addresses of the interfaces (\<open>IPv6InterfaceData.cc\<close>) and \<open>RoutingTable6\<close>:
    lifetimes, multicast groups, routes, the conceptual sending algorithm and the choice of a
    source address.
  \<^item> \<open>IPv6_Datagram\<close>: datagrams and their extension headers. A duplicate is a new value, from which
    the copy constructors have dropped what they forget.
  \<^item> \<open>IPv6_LocalDeliver\<close>: \<open>IPv6LocalDeliver.cc\<close> with the processing of routing headers and of the home
    address option. A computation is the list of what it sent and a result or error; its rules
    (\<open>sender_rules\<close>) carry the proof that routing headers stay well formed.
  \<^item> \<open>IPv6_Send\<close>: \<open>IPv6Send.cc\<close> with its source routes, and the modules for multicast, fragmentation
    and output. \<open>follow\<close> takes a datagram from node to node along a source route.
  \<^item> \<open>IPv6_Forwarding\<close>: \<open>IPv6Forward.cc\<close> and the redirects of \<open>NDStateRouter.cc\<close>.
  \<^item> \<open>IPv6_AddrRes\<close>: \<open>AddressResolution.cc\<close>: waiting datagrams, solicitations with their timers and
    advertisements; \<open>ar_run\<close> is a history of the module and \<open>timeouts\<close> a series of expiries.
  \<^item> \<open>IPv6_Tunnel\<close>: \<open>IPv6Encapsulation.cc\<close>: the table of tunnels under the relation \<open>tunnel_step\<close>, and
    datagrams that enter and leave a tunnel.

  \<^bold>\<open>Links and other transports\<close>:
  \<^item> \<open>MAC_Address\<close>, \<open>Ether_Switch\<close>: the class \<open>MACAddress\<close>, and the learning switch of
    \<open>src/NetworkInterfaces/EtherSwitch\<close> with both of its relay units; the relations \<open>np_run\<close> and
    \<open>pp_run\<close> are their histories.
  \<^item> \<open>Ether_MAC\<close>: the CSMA/CD MAC (\<open>EtherMAC.cc\<close>): its timers, receiver and transmitter, with the
    invariant that ties the running timers to the states, over the relation \<open>mac_run\<close>.
  \<^item> \<open>Ether_LLC\<close>: \<open>EtherLLC.cc\<close> and \<open>EtherEncap.cc\<close>, which hand frames to the MAC.
  \<^item> \<open>Ether_Bus\<close>: the hub and the bus; the journey of a frame along the bus is a terminating function.
  \<^item> \<open>PPP_Link\<close>: both PPP interfaces and the throughput meter.
  \<^item> \<open>Output_Queues\<close>: \<open>PassiveQueueBase\<close> over the locale \<open>queue_discipline\<close>, interpreted on the
    drop-tail queue and on the queue with classes (\<open>src/Network/Queue\<close>).
  \<^item> \<open>ARP\<close>: address resolution of IPv4, with the histories \<open>arp_run\<close>.
  \<^item> \<open>UDP_Processing\<close>: the UDP module.
  \<^item> \<open>RTP_Session\<close>: \<open>RTP.cc\<close>: the participants with their sequence numbers, the reports and their timer,
    and the handlers of a session (\<open>src/Transport/RTP\<close>); \<open>receiveAll\<close> is the arrival of a list of packets.

  \<^bold>\<open>Choices of the IPv4 and IPv6 models.\<close> Floating point quotients and simulation times are real
  numbers. Reads out of the range of a vector or from the end of a container are null pointer
  errors. Object identity, where the code compares pointers, is a number that the allocation
  chooses. Mobility support is taken as switched off: the code that depends on it is not part of
  the models. Debugging output is left out.

  \<^bold>\<open>Not modelled.\<close> The socket wrapper of the applications; the readers of configuration files and
  XML; Mobile IPv6 but for the home address option; the other layers, which are listed in the manifest with the reason.
\<close>

end
